(* ===== verification/Masakari_Prelude.thy ===== *)
theory Masakari_Prelude
  imports Main "HOL-Library.AList"
begin

text \<open>
  What every component shares. A Python function that reads and writes state and may raise is a
  computation \<open>('s, 'e, 'a) comp\<close>: it takes the state and gives either \<open>Inl e\<close> (it raised
  \<open>e\<close>) or \<open>Inr a\<close> (it returned \<open>a\<close>), together with the state it leaves, also when it raised.
  The combinators are the statements of the source: sequencing (\<open>bindM\<close>), \<open>raise\<close>
  (\<open>raiseM\<close>), \<open>try/except\<close> (\<open>tryM\<close>), \<open>try/finally\<close> (\<open>finallyM\<close>), \<open>if\<close>
  without an else (\<open>whenM\<close>) and \<open>for\<close> (\<open>forM\<close>).

  \<open>wp m Q E s\<close> is the weakest precondition: run from \<open>s\<close>, \<open>m\<close> either returns and establishes
  \<open>Q\<close>, or raises and establishes \<open>E\<close>. Its equations, one per combinator, are collected in
  \<open>wp_simps\<close>, so a proof about a whole handler is one call of the simplifier that walks through
  its statements.
\<close>

named_theorems wp_simps \<open>equations of the weakest precondition, one per combinator or operation\<close>

section \<open>Computations\<close>

type_synonym ('s, 'e, 'a) comp = "'s \<Rightarrow> ('e + 'a) \<times> 's"

definition retM :: "'a \<Rightarrow> ('s, 'e, 'a) comp" where
  "retM a = (\<lambda>s. (Inr a, s))"

definition raiseM :: "'e \<Rightarrow> ('s, 'e, 'a) comp" where
  "raiseM e = (\<lambda>s. (Inl e, s))"

definition bindM :: "('s, 'e, 'a) comp \<Rightarrow> ('a \<Rightarrow> ('s, 'e, 'b) comp) \<Rightarrow> ('s, 'e, 'b) comp" where
  "bindM m f = (\<lambda>s. case m s of (Inl e, t) \<Rightarrow> (Inl e, t) | (Inr a, t) \<Rightarrow> f a t)"

definition tryM :: "('s, 'e, 'a) comp \<Rightarrow> ('e \<Rightarrow> ('s, 'f, 'a) comp) \<Rightarrow> ('s, 'f, 'a) comp" where
  "tryM m h = (\<lambda>s. case m s of (Inl e, t) \<Rightarrow> h e t | (Inr a, t) \<Rightarrow> (Inr a, t))"

definition finallyM :: "('s, 'e, 'a) comp \<Rightarrow> ('s, 'e, unit) comp \<Rightarrow> ('s, 'e, 'a) comp" where
  "finallyM m c = (\<lambda>s. case m s of (r, t) \<Rightarrow>
     (case c t of (Inl e, u) \<Rightarrow> (Inl e, u) | (Inr _, u) \<Rightarrow> (r, u)))"

definition getM :: "('s \<Rightarrow> 'a) \<Rightarrow> ('s, 'e, 'a) comp" where
  "getM f = (\<lambda>s. (Inr (f s), s))"

definition modM :: "('s \<Rightarrow> 's) \<Rightarrow> ('s, 'e, unit) comp" where
  "modM f = (\<lambda>s. (Inr (), f s))"

definition whenM :: "bool \<Rightarrow> ('s, 'e, unit) comp \<Rightarrow> ('s, 'e, unit) comp" where
  "whenM b m = (if b then m else retM ())"

primrec forM :: "'x list \<Rightarrow> ('x \<Rightarrow> ('s, 'e, unit) comp) \<Rightarrow> ('s, 'e, unit) comp" where
  "forM [] f = retM ()"
| "forM (x # xs) f = bindM (f x) (\<lambda>_. forM xs f)"

text \<open>
  A database transaction (\<open>@main_context_manager.writer\<close>): a function that raises is rolled back.
\<close>

definition writer :: "('s, 'e, 'a) comp \<Rightarrow> ('s, 'e, 'a) comp" where
  "writer m = (\<lambda>s. case m s of (Inl e, t) \<Rightarrow> (Inl e, s) | (Inr a, t) \<Rightarrow> (Inr a, t))"

text \<open>A computation on a part of the state, run on the whole state.\<close>

definition zoomM :: "('s \<Rightarrow> 'p) \<Rightarrow> ('p \<Rightarrow> 's \<Rightarrow> 's) \<Rightarrow> ('p, 'e, 'a) comp \<Rightarrow> ('s, 'e, 'a) comp" where
  "zoomM g p m = (\<lambda>s. case m (g s) of (r, t) \<Rightarrow> (r, p t s))"

lemmas comp_defs = retM_def raiseM_def bindM_def tryM_def finallyM_def getM_def modM_def
  whenM_def writer_def zoomM_def

text \<open>The laws of sequencing.\<close>

lemma bindM_ret [simp]: "bindM (retM a) f = f a"
  by (simp add: bindM_def retM_def)

lemma bindM_raise [simp]: "bindM (raiseM e) f = raiseM e"
  by (simp add: bindM_def raiseM_def)

lemma bindM_assoc: "bindM (bindM m f) g = bindM m (\<lambda>a. bindM (f a) g)"
  by (auto simp: bindM_def fun_eq_iff split: prod.split sum.split)

section \<open>Weakest preconditions\<close>

definition wp :: "('s, 'e, 'a) comp \<Rightarrow> ('a \<Rightarrow> 's \<Rightarrow> bool) \<Rightarrow> ('e \<Rightarrow> 's \<Rightarrow> bool) \<Rightarrow> 's \<Rightarrow> bool" where
  "wp m Q E s = (case m s of (Inl e, t) \<Rightarrow> E e t | (Inr a, t) \<Rightarrow> Q a t)"

lemma wp_retM [wp_simps]: "wp (retM a) Q E = Q a"
  by (simp add: wp_def retM_def fun_eq_iff)

lemma wp_raiseM [wp_simps]: "wp (raiseM e) Q E = E e"
  by (simp add: wp_def raiseM_def fun_eq_iff)

lemma wp_bindM [wp_simps]: "wp (bindM m f) Q E = wp m (\<lambda>a. wp (f a) Q E) E"
  by (simp add: fun_eq_iff wp_def bindM_def split: prod.split sum.split)

lemma wp_tryM [wp_simps]: "wp (tryM m h) Q E = wp m Q (\<lambda>e. wp (h e) Q E)"
  by (simp add: fun_eq_iff wp_def tryM_def split: prod.split sum.split)

lemma wp_finallyM [wp_simps]:
  "wp (finallyM m c) Q E =
     wp m (\<lambda>a. wp c (\<lambda>_. Q a) E) (\<lambda>e. wp c (\<lambda>_. E e) E)"
  by (simp add: fun_eq_iff wp_def finallyM_def split: prod.split sum.split)

lemma wp_getM [wp_simps]: "wp (getM f) Q E = (\<lambda>s. Q (f s) s)"
  by (simp add: wp_def getM_def fun_eq_iff)

lemma wp_modM [wp_simps]: "wp (modM f) Q E = (\<lambda>s. Q () (f s))"
  by (simp add: wp_def modM_def fun_eq_iff)

lemma wp_whenM [wp_simps]: "wp (whenM b m) Q E = (\<lambda>s. if b then wp m Q E s else Q () s)"
  by (simp add: whenM_def wp_retM fun_eq_iff)

lemma wp_if [wp_simps]: "wp (if b then m else n) Q E = (\<lambda>s. if b then wp m Q E s else wp n Q E s)"
  by simp

lemma wp_zoomM [wp_simps]:
  "wp (zoomM g p m) Q E = (\<lambda>s. wp m (\<lambda>a t. Q a (p t s)) (\<lambda>e t. E e (p t s)) (g s))"
  by (simp add: fun_eq_iff wp_def zoomM_def split: prod.split sum.split)

lemma wp_writer [wp_simps]: "wp (writer m) Q E = (\<lambda>s. wp m Q (\<lambda>e _. E e s) s)"
  by (simp add: fun_eq_iff wp_def writer_def split: prod.split sum.split)

lemma wp_case_option [wp_simps]:
  "wp (case x of None \<Rightarrow> m | Some y \<Rightarrow> n y) Q E =
     (\<lambda>s. case x of None \<Rightarrow> wp m Q E s | Some y \<Rightarrow> wp (n y) Q E s)"
  by (simp split: option.split)

lemma wp_mono:
  "wp m Q E s \<Longrightarrow> (\<And>a t. Q a t \<Longrightarrow> Q' a t) \<Longrightarrow> (\<And>e t. E e t \<Longrightarrow> E' e t) \<Longrightarrow> wp m Q' E' s"
  by (auto simp: wp_def split: prod.splits sum.splits)

lemma wp_conj:
  "wp m Q E s \<Longrightarrow> wp m Q' E' s \<Longrightarrow> wp m (\<lambda>a t. Q a t \<and> Q' a t) (\<lambda>e t. E e t \<and> E' e t) s"
  by (auto simp: wp_def split: prod.splits sum.splits)

text \<open>An operation nothing is known about: whatever it does must be good enough.\<close>

lemma wp_any: "(\<And>a t. Q a t) \<Longrightarrow> (\<And>e t. E e t) \<Longrightarrow> wp m Q E s"
  by (auto simp: wp_def split: prod.splits sum.splits)

lemma wp_bindM_any: "(\<And>a t. wp (f a) Q (\<lambda>_ _. True) t) \<Longrightarrow> wp (bindM m f) Q (\<lambda>_ _. True) s"
  unfolding wp_bindM by (rule wp_any) simp_all

lemma wp_result:
  "wp m Q E s \<longleftrightarrow> (\<forall>r t. m s = (r, t) \<longrightarrow> (case r of Inl e \<Rightarrow> E e t | Inr a \<Rightarrow> Q a t))"
  by (simp add: wp_def split: prod.split sum.split)

lemma wp_Inr: "m s = (Inr a, t) \<Longrightarrow> wp m Q E s \<Longrightarrow> Q a t"
  by (simp add: wp_def)

lemma wp_Inl: "m s = (Inl e, t) \<Longrightarrow> wp m Q E s \<Longrightarrow> E e t"
  by (simp add: wp_def)

lemma wp_forM_inv:
  assumes step: "\<And>x t. x \<in> set xs \<Longrightarrow> I t \<Longrightarrow> wp (f x) (\<lambda>_. I) E t"
    and init: "I s"
  shows "wp (forM xs f) (\<lambda>_. I) E s"
  using assms
proof (induction xs arbitrary: s)
  case Nil
  then show ?case by (simp add: wp_simps)
next
  case (Cons x xs)
  have "wp (f x) (\<lambda>_. I) E s" using Cons.prems by simp
  then have "wp (f x) (\<lambda>_. wp (forM xs f) (\<lambda>_. I) E) E s"
    by (rule wp_mono) (use Cons in auto)
  then show ?case by (simp add: wp_simps)
qed

text \<open>A loop whose body says something about the element it was called with, stable under the rest.\<close>

lemma wp_forM_each:
  assumes step: "\<And>x t. x \<in> set xs \<Longrightarrow> I t \<Longrightarrow> wp (f x) (\<lambda>_ u. I u \<and> R x u) E t"
    and stable: "\<And>x y t. x \<in> set xs \<Longrightarrow> y \<in> set xs \<Longrightarrow> I t \<Longrightarrow> R x t \<Longrightarrow>
      wp (f y) (\<lambda>_ u. R x u) (\<lambda>_ _. True) t"
    and init: "I s"
  shows "wp (forM xs f) (\<lambda>_ u. I u \<and> (\<forall>x \<in> set xs. R x u)) E s"
proof -
  have "\<And>done s. set done \<subseteq> set ys \<Longrightarrow> I s \<Longrightarrow> \<forall>x \<in> set done. R x s \<Longrightarrow> set zs \<subseteq> set ys \<Longrightarrow>
      ys = xs \<Longrightarrow> wp (forM zs f) (\<lambda>_ u. I u \<and> (\<forall>x \<in> set done \<union> set zs. R x u)) E s" for ys zs
  proof (induction zs)
    case Nil
    then show ?case by (simp add: wp_simps)
  next
    case (Cons z zs)
    have z: "z \<in> set xs" using Cons.prems by auto
    have 1: "wp (f z) (\<lambda>_ u. I u \<and> R z u) E s" using step z Cons.prems by blast
    have 2: "wp (f z) (\<lambda>_ u. \<forall>x \<in> set done. R x u) (\<lambda>_ _. True) s"
    proof -
      have "\<forall>x \<in> set done. wp (f z) (\<lambda>_ u. R x u) (\<lambda>_ _. True) s"
        using stable z Cons.prems by blast
      then show ?thesis by (auto simp: wp_def split: prod.splits sum.splits)
    qed
    have "wp (f z) (\<lambda>_ u. wp (forM zs f) (\<lambda>_ u. I u \<and> (\<forall>x \<in> set done \<union> set (z # zs). R x u)) E u) E s"
    proof (rule wp_mono [OF wp_conj [OF 1 2]])
      fix a t
      assume "(I t \<and> R z t) \<and> (\<forall>x \<in> set done. R x t)"
      then show "wp (forM zs f) (\<lambda>_ u. I u \<and> (\<forall>x \<in> set done \<union> set (z # zs). R x u)) E t"
        using Cons.IH [of "z # done" t] Cons.prems by (simp add: insert_commute)
    qed auto
    then show ?case by (simp add: wp_simps)
  qed
  from this [of "[]" xs s xs] init show ?thesis by simp
qed

section \<open>What a computation keeps, and what it may raise\<close>

text \<open>
  \<open>pres I m\<close>: from a state with \<open>I\<close>, \<open>m\<close> ends in one with \<open>I\<close>, also when it raises.
  \<open>escapes P m\<close>: every exception that leaves \<open>m\<close> satisfies \<open>P\<close>. Both are proved along the
  statements of \<open>m\<close> by the rules collected in \<open>pres_intros\<close> and \<open>escapes_intros\<close>.
\<close>

named_theorems pres_intros \<open>introduction rules: what a computation keeps\<close>

named_theorems escapes_intros \<open>introduction rules: what a computation may raise\<close>

definition pres :: "('s \<Rightarrow> bool) \<Rightarrow> ('s, 'e, 'a) comp \<Rightarrow> bool" where
  "pres I m \<longleftrightarrow> (\<forall>s. I s \<longrightarrow> I (snd (m s)))"

definition escapes :: "('e \<Rightarrow> bool) \<Rightarrow> ('s, 'e, 'a) comp \<Rightarrow> bool" where
  "escapes P m \<longleftrightarrow> (\<forall>s e. fst (m s) = Inl e \<longrightarrow> P e)"

lemma presI: "(\<And>s r t. m s = (r, t) \<Longrightarrow> I s \<Longrightarrow> I t) \<Longrightarrow> pres I m"
  unfolding pres_def by (metis surjective_pairing)

lemma presD: "pres I m \<Longrightarrow> m s = (r, t) \<Longrightarrow> I s \<Longrightarrow> I t"
  unfolding pres_def by (metis snd_conv)

lemma escapesI: "(\<And>s e t. m s = (Inl e, t) \<Longrightarrow> P e) \<Longrightarrow> escapes P m"
  unfolding escapes_def by (metis surjective_pairing)

lemma escapesD: "escapes P m \<Longrightarrow> m s = (Inl e, t) \<Longrightarrow> P e"
  unfolding escapes_def by (metis fst_conv)

lemma escapes_mono: "escapes P m \<Longrightarrow> (\<And>e. P e \<Longrightarrow> Q e) \<Longrightarrow> escapes Q m"
  by (auto simp: escapes_def)

lemma escapes_top [escapes_intros]: "escapes (\<lambda>_. True) m"
  by (simp add: escapes_def)

lemma wp_pres: "pres I m \<Longrightarrow> escapes P m \<Longrightarrow> I s \<Longrightarrow> wp m (\<lambda>_. I) (\<lambda>e t. P e \<and> I t) s"
  by (auto simp: wp_result split: sum.split) (metis presD escapesD)+

lemma pres_wp: "(\<And>s. I s \<Longrightarrow> wp m (\<lambda>_. I) (\<lambda>_. I) s) \<Longrightarrow> pres I m"
  by (rule presI) (auto simp: wp_result split: sum.splits)

lemma pres_retM [pres_intros]: "pres I (retM a)"
  by (simp add: pres_def retM_def)

lemma pres_raiseM [pres_intros]: "pres I (raiseM e)"
  by (simp add: pres_def raiseM_def)

lemma pres_bindM [pres_intros]: "pres I m \<Longrightarrow> (\<And>a. pres I (f a)) \<Longrightarrow> pres I (bindM m f)"
  by (rule presI) (auto simp: bindM_def split: prod.splits sum.splits, (metis presD)+)

lemma pres_tryM [pres_intros]: "pres I m \<Longrightarrow> (\<And>e. pres I (h e)) \<Longrightarrow> pres I (tryM m h)"
  by (rule presI) (auto simp: tryM_def split: prod.splits sum.splits, (metis presD)+)

lemma pres_finallyM [pres_intros]: "pres I m \<Longrightarrow> pres I c \<Longrightarrow> pres I (finallyM m c)"
  by (rule presI) (auto simp: finallyM_def split: prod.splits sum.splits, (metis presD)+)

lemma pres_getM [pres_intros]: "pres I (getM f)"
  by (simp add: pres_def getM_def)

lemma pres_modM [pres_intros]: "(\<And>s. I s \<Longrightarrow> I (f s)) \<Longrightarrow> pres I (modM f)"
  by (simp add: pres_def modM_def)

lemma pres_whenM [pres_intros]: "pres I m \<Longrightarrow> pres I (whenM b m)"
  by (simp add: whenM_def pres_retM)

lemma pres_writer [pres_intros]: "pres I m \<Longrightarrow> pres I (writer m)"
  by (rule presI) (auto simp: writer_def split: prod.splits sum.splits, (metis presD)+)

lemma pres_if [pres_intros]: "(b \<Longrightarrow> pres I m) \<Longrightarrow> (\<not> b \<Longrightarrow> pres I n) \<Longrightarrow> pres I (if b then m else n)"
  by simp

lemma pres_case_option [pres_intros]:
  "pres I m \<Longrightarrow> (\<And>y. pres I (n y)) \<Longrightarrow> pres I (case x of None \<Rightarrow> m | Some y \<Rightarrow> n y)"
  by (simp split: option.split)

lemma pres_case_prod [pres_intros]: "(\<And>a b. pres I (f a b)) \<Longrightarrow> pres I (case x of (a, b) \<Rightarrow> f a b)"
  by (simp split: prod.split)

lemma pres_Let [pres_intros]: "(\<And>x. pres I (f x)) \<Longrightarrow> pres I (let x = a in f x)"
  by simp

lemma pres_forM [pres_intros]: "(\<And>x. pres I (f x)) \<Longrightarrow> pres I (forM xs f)"
  by (induction xs) (auto intro: pres_intros)

lemma wp_bindM_pres:
  assumes "pres I m" and "I s" and "\<And>e t. I t \<Longrightarrow> E e t" and "\<And>a t. I t \<Longrightarrow> wp (f a) Q E t"
  shows "wp (bindM m f) Q E s"
proof -
  obtain r t where m: "m s = (r, t)" by fastforce
  have "I t" by (rule presD [OF assms(1) m assms(2)])
  then show ?thesis unfolding wp_bindM using m assms(3,4) by (cases r) (simp_all add: wp_def)
qed

lemma escapes_retM [escapes_intros]: "escapes P (retM a)"
  by (simp add: escapes_def retM_def)

lemma escapes_raiseM [escapes_intros]: "P e \<Longrightarrow> escapes P (raiseM e)"
  by (simp add: escapes_def raiseM_def)

lemma escapes_getM [escapes_intros]: "escapes P (getM f)"
  by (simp add: escapes_def getM_def)

lemma escapes_modM [escapes_intros]: "escapes P (modM f)"
  by (simp add: escapes_def modM_def)

lemma escapes_bindM [escapes_intros]: "escapes P m \<Longrightarrow> (\<And>a. escapes P (f a)) \<Longrightarrow> escapes P (bindM m f)"
  by (rule escapesI) (auto simp: bindM_def split: prod.splits sum.splits, (metis escapesD)+)

lemma escapes_tryM: "escapes R m \<Longrightarrow> (\<And>e. R e \<Longrightarrow> escapes P (h e)) \<Longrightarrow> escapes P (tryM m h)"
  by (rule escapesI) (auto simp: tryM_def split: prod.splits sum.splits, (metis escapesD)+)

lemma escapes_finallyM [escapes_intros]: "escapes P m \<Longrightarrow> escapes P c \<Longrightarrow> escapes P (finallyM m c)"
  by (rule escapesI) (auto simp: finallyM_def split: prod.splits sum.splits, (metis escapesD)+)

lemma escapes_whenM [escapes_intros]: "escapes P m \<Longrightarrow> escapes P (whenM b m)"
  by (simp add: whenM_def escapes_retM)

lemma escapes_if [escapes_intros]:
  "(b \<Longrightarrow> escapes P m) \<Longrightarrow> (\<not> b \<Longrightarrow> escapes P n) \<Longrightarrow> escapes P (if b then m else n)"
  by simp

lemma escapes_case_option [escapes_intros]:
  "escapes P m \<Longrightarrow> (\<And>y. escapes P (n y)) \<Longrightarrow> escapes P (case x of None \<Rightarrow> m | Some y \<Rightarrow> n y)"
  by (simp split: option.split)

lemma escapes_case_prod [escapes_intros]:
  "(\<And>a b. escapes P (f a b)) \<Longrightarrow> escapes P (case x of (a, b) \<Rightarrow> f a b)"
  by (simp split: prod.split)

lemma escapes_Let [escapes_intros]: "(\<And>x. escapes P (f x)) \<Longrightarrow> escapes P (let x = a in f x)"
  by simp

lemma escapes_forM [escapes_intros]: "(\<And>x. escapes P (f x)) \<Longrightarrow> escapes P (forM xs f)"
  by (induction xs) (auto intro: escapes_intros)

section \<open>Waiting\<close>

text \<open>
  \<open>FixedIntervalWithTimeoutLoopingCall\<close>: calls the function until it is done (\<open>LoopingCallDone\<close>,
  here \<open>Some\<close> of its value), at most \<open>n\<close> times; after that the wait ends with the given time-out
  exception. \<open>n\<close> is the number of intervals that fit into the configured timeout, at least one.
\<close>

primrec poll :: "'e \<Rightarrow> nat \<Rightarrow> ('s, 'e, 'a option) comp \<Rightarrow> ('s, 'e, 'a) comp" where
  "poll timeout 0 f = raiseM timeout"
| "poll timeout (Suc n) f = bindM f (\<lambda>r. case r of Some a \<Rightarrow> retM a | None \<Rightarrow> poll timeout n f)"

lemma pres_poll [pres_intros]: "pres I f \<Longrightarrow> pres I (poll e n f)"
  by (induction n) (auto intro!: pres_intros split: option.split)

lemma escapes_poll [escapes_intros]: "escapes P f \<Longrightarrow> P e \<Longrightarrow> escapes P (poll e n f)"
  by (induction n) (auto intro!: escapes_intros split: option.split)

section \<open>Python values\<close>

text \<open>
  A string-keyed dictionary is an association list: \<open>d.get(k)\<close> is \<open>map_of d k\<close>, \<open>d[k] = v\<close> is
  \<open>AList.update k v d\<close>, \<open>d.update(p)\<close> is \<open>dict_update d p\<close>, and two dictionaries are equal when
  they agree on every key.
\<close>

type_synonym 'v dict = "(string \<times> 'v) list"

definition dict_update :: "'v dict \<Rightarrow> 'v dict \<Rightarrow> 'v dict" where
  "dict_update d p = foldl (\<lambda>m (k, v). AList.update k v m) d p"

definition dict_eq :: "'v dict \<Rightarrow> 'v dict \<Rightarrow> bool" where
  "dict_eq p q = list_all (\<lambda>k. map_of p k = map_of q k) (map fst p @ map fst q)"

lemma map_of_update [simp]: "map_of (AList.update k v d) = (map_of d)(k \<mapsto> v)"
  by (simp add: update_conv')

lemma map_of_dict_update: "map_of (dict_update d p) = map_of d ++ map_of (rev p)"
  by (induction p arbitrary: d)
    (auto simp: dict_update_def fun_eq_iff map_add_def split: option.split)

lemma dict_eq_iff: "dict_eq p q \<longleftrightarrow> map_of p = map_of q"
proof
  assume eq: "dict_eq p q"
  show "map_of p = map_of q"
  proof
    fix k
    show "map_of p k = map_of q k"
    proof (cases "k \<in> set (map fst p @ map fst q)")
      case True
      with eq show ?thesis by (simp add: dict_eq_def list_all_iff)
    next
      case False
      then have "map_of p k = None" and "map_of q k = None" by (simp_all add: map_of_eq_None_iff)
      then show ?thesis by simp
    qed
  qed
qed (simp add: dict_eq_def list_all_iff)

text \<open>\<open>str.upper\<close> and \<open>str.lower\<close> on ASCII characters.\<close>

definition upper_char :: "char \<Rightarrow> char" where
  "upper_char c = (if 97 \<le> (of_char c :: nat) \<and> (of_char c :: nat) \<le> 122
     then char_of ((of_char c :: nat) - 32) else c)"

definition upper :: "string \<Rightarrow> string" where
  "upper s = map upper_char s"

definition lower :: "string \<Rightarrow> string" where
  "lower s = map (\<lambda>c. if 65 \<le> (of_char c :: nat) \<and> (of_char c :: nat) \<le> 90 then char_of ((of_char c :: nat) + 32) else c) s"

text \<open>\<open>str\<close> of a natural number.\<close>

fun show_nat :: "nat \<Rightarrow> string" where
  "show_nat n = (if n < 10 then [char_of (48 + n)] else show_nat (n div 10) @ [char_of (48 + n mod 10)])"

declare show_nat.simps [simp del]

section \<open>Lists\<close>

lemma find_SomeI: "x \<in> set xs \<Longrightarrow> P x \<Longrightarrow> \<exists>y. find P xs = Some y \<and> y \<in> set xs \<and> P y"
  by (induction xs) auto

lemma find_SomeD: "find P xs = Some y \<Longrightarrow> y \<in> set xs \<and> P y"
  by (auto simp: find_Some_iff)

lemma find_None: "find P xs = None \<longleftrightarrow> (\<forall>x \<in> set xs. \<not> P x)"
  by (auto simp: find_None_iff)

text \<open>A comprehension over a function that may raise: the first exception ends it.\<close>

fun mapE :: "('a \<Rightarrow> 'e + 'b) \<Rightarrow> 'a list \<Rightarrow> 'e + 'b list" where
  "mapE f [] = Inr []"
| "mapE f (x # xs) = (case f x of Inl e \<Rightarrow> Inl e
     | Inr y \<Rightarrow> (case mapE f xs of Inl e \<Rightarrow> Inl e | Inr ys \<Rightarrow> Inr (y # ys)))"

lemma mapE_length: "mapE f xs = Inr ys \<Longrightarrow> length ys = length xs"
  by (induction xs arbitrary: ys) (auto split: sum.splits)

lemma mapE_all: "mapE f xs = Inr ys \<Longrightarrow> \<forall>x \<in> set xs. \<exists>y. f x = Inr y"
  by (induction xs arbitrary: ys) (auto split: sum.splits)

lemma mapE_total: "(\<And>x. x \<in> set xs \<Longrightarrow> \<exists>y. f x = Inr y) \<Longrightarrow> \<exists>ys. mapE f xs = Inr ys"
  by (induction xs) (force split: sum.split)+

lemma mapE_set: "mapE f xs = Inr ys \<Longrightarrow> set ys = {y. \<exists>x \<in> set xs. f x = Inr y}"
  by (induction xs arbitrary: ys) (auto split: sum.splits)

lemma mapE_append: "mapE f (xs @ ys) = (case mapE f xs of Inl e \<Rightarrow> Inl e
    | Inr as \<Rightarrow> (case mapE f ys of Inl e \<Rightarrow> Inl e | Inr bs \<Rightarrow> Inr (as @ bs)))"
  by (induction xs) (auto split: sum.splits)

lemma mapE_list_all2: "mapE f xs = Inr ys \<longleftrightarrow> list_all2 (\<lambda>x y. f x = Inr y) xs ys"
proof (induction xs arbitrary: ys)
  case (Cons x xs)
  then show ?case by (cases ys) (auto simp: Cons.IH [symmetric] simp del: Cons.IH split: sum.splits)
qed auto

end
