(* ===== verification/Masakari_Exceptions.thy ===== *)
theory Masakari_Exceptions
  imports Masakari_Prelude
begin

text \<open>
  \<open>masakari/exception.py\<close>: the class hierarchy of the exceptions, with what \<open>isinstance\<close> and
  the inherited \<open>code\<close> attribute (the HTTP status) answer on it, and the constructors whose message
  the program stores or shows. \<open>exc_class\<close> has one constructor per class of the file, the two
  classes of \<open>staged_state_etcd.py\<close>, and the classes of other packages that the program catches by
  name or lets escape; \<open>HTTPError n\<close> is a webob exception with status \<open>n\<close>.
\<close>

datatype (plugins only: code size) exc_class =
    PyException | HTTPError nat | ValueError | KeyError | IndexError | TypeError | UnboundLocalError
  | DBDuplicateEntry | DBInvalidSortKey | LoopingCallTimeOut | RequestException | OtherException |
  MasakariException | APIException | APITimeout | Conflict | Invalid | InvalidName | InvalidInput
  | InvalidAPIVersionString | MalformedRequestBody | NotFound | ConfigNotFound |
  ConfigDraftNotFound | ConfigApplyJobNotFound | Forbidden | AdminRequired | PolicyNotAuthorized |
  PasteAppNotFound | InvalidContentType | VersionNotFoundForAPIMethod | InvalidGlobalAPIVersion |
  ApiVersionsIntersect | ValidationError | InvalidSortKey | MarkerNotFound |
  FailoverSegmentNotFound | HostNotFound | NotificationNotFound | FailoverSegmentNotFoundByName |
  HostNotFoundByName | ComputeNotFoundByName | VMoveNotFound | NotificationWithoutVMoves |
  FailoverSegmentExists | HostExists | Unauthorized | ObjectActionError | OrphanedObjectError |
  DuplicateNotification | HostOnMaintenanceError | HostRecoveryFailureException |
  StagedStartFailureException | RedfishFencingException | RedfishIdentityMismatch |
  InstanceRecoveryFailureException | SkipInstanceRecoveryException | SkipProcessRecoveryException
  | SkipHostRecoveryException | ProcessRecoveryFailureException | DBNotAllowed |
  FailoverSegmentInUse | HostInUse | ReservedHostsUnavailable | LockAlreadyAcquired |
  IgnoreInstanceRecoveryException | HostNotFoundUnderFailoverSegment | InstanceEvacuateFailed |
  FailoverSegmentDisabled | ConcurrentStateUpdate | StateNotFound

text \<open>The class statement of each class: the class it inherits from.\<close>

primrec base :: "exc_class \<Rightarrow> exc_class option" where
  "base PyException = None"
| "base (HTTPError n) = Some PyException"
| "base ValueError = Some PyException"
| "base KeyError = Some PyException"
| "base IndexError = Some PyException"
| "base TypeError = Some PyException"
| "base UnboundLocalError = Some PyException"
| "base DBDuplicateEntry = Some PyException"
| "base DBInvalidSortKey = Some PyException"
| "base LoopingCallTimeOut = Some PyException"
| "base RequestException = Some PyException"
| "base OtherException = Some PyException"
| "base MasakariException = Some PyException"
| "base APIException = Some MasakariException"
| "base APITimeout = Some APIException"
| "base Conflict = Some MasakariException"
| "base Invalid = Some MasakariException"
| "base InvalidName = Some Invalid"
| "base InvalidInput = Some Invalid"
| "base InvalidAPIVersionString = Some Invalid"
| "base MalformedRequestBody = Some MasakariException"
| "base NotFound = Some MasakariException"
| "base ConfigNotFound = Some NotFound"
| "base ConfigDraftNotFound = Some NotFound"
| "base ConfigApplyJobNotFound = Some NotFound"
| "base Forbidden = Some MasakariException"
| "base AdminRequired = Some Forbidden"
| "base PolicyNotAuthorized = Some Forbidden"
| "base PasteAppNotFound = Some MasakariException"
| "base InvalidContentType = Some Invalid"
| "base VersionNotFoundForAPIMethod = Some Invalid"
| "base InvalidGlobalAPIVersion = Some Invalid"
| "base ApiVersionsIntersect = Some Invalid"
| "base ValidationError = Some Invalid"
| "base InvalidSortKey = Some Invalid"
| "base MarkerNotFound = Some NotFound"
| "base FailoverSegmentNotFound = Some NotFound"
| "base HostNotFound = Some NotFound"
| "base NotificationNotFound = Some NotFound"
| "base FailoverSegmentNotFoundByName = Some FailoverSegmentNotFound"
| "base HostNotFoundByName = Some HostNotFound"
| "base ComputeNotFoundByName = Some NotFound"
| "base VMoveNotFound = Some NotFound"
| "base NotificationWithoutVMoves = Some Invalid"
| "base FailoverSegmentExists = Some MasakariException"
| "base HostExists = Some MasakariException"
| "base Unauthorized = Some MasakariException"
| "base ObjectActionError = Some MasakariException"
| "base OrphanedObjectError = Some MasakariException"
| "base DuplicateNotification = Some Invalid"
| "base HostOnMaintenanceError = Some Invalid"
| "base HostRecoveryFailureException = Some MasakariException"
| "base StagedStartFailureException = Some HostRecoveryFailureException"
| "base RedfishFencingException = Some HostRecoveryFailureException"
| "base RedfishIdentityMismatch = Some RedfishFencingException"
| "base InstanceRecoveryFailureException = Some MasakariException"
| "base SkipInstanceRecoveryException = Some MasakariException"
| "base SkipProcessRecoveryException = Some MasakariException"
| "base SkipHostRecoveryException = Some MasakariException"
| "base ProcessRecoveryFailureException = Some MasakariException"
| "base DBNotAllowed = Some MasakariException"
| "base FailoverSegmentInUse = Some Conflict"
| "base HostInUse = Some Conflict"
| "base ReservedHostsUnavailable = Some MasakariException"
| "base LockAlreadyAcquired = Some MasakariException"
| "base IgnoreInstanceRecoveryException = Some MasakariException"
| "base HostNotFoundUnderFailoverSegment = Some HostNotFound"
| "base InstanceEvacuateFailed = Some MasakariException"
| "base FailoverSegmentDisabled = Some MasakariException"
| "base ConcurrentStateUpdate = Some MasakariException"
| "base StateNotFound = Some MasakariException"

text \<open>The \<open>code\<close> a class assigns in its own body.\<close>

primrec own_code :: "exc_class \<Rightarrow> nat option" where
  "own_code PyException = None"
| "own_code (HTTPError n) = Some n"
| "own_code ValueError = None"
| "own_code KeyError = None"
| "own_code IndexError = None"
| "own_code TypeError = None"
| "own_code UnboundLocalError = None"
| "own_code DBDuplicateEntry = None"
| "own_code DBInvalidSortKey = None"
| "own_code LoopingCallTimeOut = None"
| "own_code RequestException = None"
| "own_code OtherException = None"
| "own_code MasakariException = Some 500"
| "own_code APIException = None"
| "own_code APITimeout = None"
| "own_code Conflict = Some 409"
| "own_code Invalid = Some 400"
| "own_code InvalidName = None"
| "own_code InvalidInput = None"
| "own_code InvalidAPIVersionString = None"
| "own_code MalformedRequestBody = None"
| "own_code NotFound = Some 404"
| "own_code ConfigNotFound = None"
| "own_code ConfigDraftNotFound = None"
| "own_code ConfigApplyJobNotFound = None"
| "own_code Forbidden = Some 403"
| "own_code AdminRequired = None"
| "own_code PolicyNotAuthorized = None"
| "own_code PasteAppNotFound = None"
| "own_code InvalidContentType = None"
| "own_code VersionNotFoundForAPIMethod = None"
| "own_code InvalidGlobalAPIVersion = None"
| "own_code ApiVersionsIntersect = None"
| "own_code ValidationError = None"
| "own_code InvalidSortKey = None"
| "own_code MarkerNotFound = None"
| "own_code FailoverSegmentNotFound = None"
| "own_code HostNotFound = None"
| "own_code NotificationNotFound = None"
| "own_code FailoverSegmentNotFoundByName = None"
| "own_code HostNotFoundByName = None"
| "own_code ComputeNotFoundByName = None"
| "own_code VMoveNotFound = None"
| "own_code NotificationWithoutVMoves = None"
| "own_code FailoverSegmentExists = None"
| "own_code HostExists = None"
| "own_code Unauthorized = Some 401"
| "own_code ObjectActionError = None"
| "own_code OrphanedObjectError = None"
| "own_code DuplicateNotification = Some 409"
| "own_code HostOnMaintenanceError = Some 409"
| "own_code HostRecoveryFailureException = None"
| "own_code StagedStartFailureException = None"
| "own_code RedfishFencingException = None"
| "own_code RedfishIdentityMismatch = None"
| "own_code InstanceRecoveryFailureException = None"
| "own_code SkipInstanceRecoveryException = None"
| "own_code SkipProcessRecoveryException = None"
| "own_code SkipHostRecoveryException = None"
| "own_code ProcessRecoveryFailureException = None"
| "own_code DBNotAllowed = None"
| "own_code FailoverSegmentInUse = None"
| "own_code HostInUse = None"
| "own_code ReservedHostsUnavailable = None"
| "own_code LockAlreadyAcquired = None"
| "own_code IgnoreInstanceRecoveryException = None"
| "own_code HostNotFoundUnderFailoverSegment = None"
| "own_code InstanceEvacuateFailed = None"
| "own_code FailoverSegmentDisabled = None"
| "own_code ConcurrentStateUpdate = None"
| "own_code StateNotFound = None"

text \<open>
  The method resolution order: a class, its base, the base of that one, and so on. Every chain of
  this hierarchy has at most five members (\<open>mro_reaches_root\<close>), so five steps are enough.
\<close>

primrec chain :: "nat \<Rightarrow> exc_class \<Rightarrow> exc_class list" where
  "chain 0 c = []"
| "chain (Suc n) c = c # (case base c of None \<Rightarrow> [] | Some b \<Rightarrow> chain n b)"

definition mro :: "exc_class \<Rightarrow> exc_class list" where
  "mro c = chain 5 c"

definition issubclass :: "exc_class \<Rightarrow> exc_class \<Rightarrow> bool" where
  "issubclass c d \<longleftrightarrow> d \<in> set (mro c)"

text \<open>Attribute lookup: the first class of the chain that assigns \<open>code\<close>.\<close>

definition http_code :: "exc_class \<Rightarrow> nat option" where
  "http_code c = (case find (\<lambda>d. own_code d \<noteq> None) (mro c) of None \<Rightarrow> None | Some d \<Rightarrow> own_code d)"

text \<open>An exception object: its class and its message (\<open>str(e)\<close>, \<open>e.message\<close>).\<close>

datatype exc = Exc (cls_of: exc_class) (message: string)

definition isinstance :: "exc \<Rightarrow> exc_class \<Rightarrow> bool" where
  "isinstance e c = issubclass (cls_of e) c"

definition isinstance_any :: "exc \<Rightarrow> exc_class list \<Rightarrow> bool" where
  "isinstance_any e cs = list_ex (isinstance e) cs"

section \<open>Messages\<close>

text \<open>
  Exceptions built from the keyword arguments of their class: \<open>msg_fmt % kwargs\<close>. Where the
  program passes a message of its own, \<open>Exc\<close> is used.
\<close>

definition mk_APITimeout :: "string \<Rightarrow> exc" where
  "mk_APITimeout service = Exc APITimeout (''Timeout while requesting '' @ service @ '' API.'')"

definition mk_InvalidInput :: "string \<Rightarrow> exc" where
  "mk_InvalidInput reason = Exc InvalidInput (''Invalid input received: '' @ reason)"

definition mk_InvalidAPIVersionString :: "string \<Rightarrow> exc" where
  "mk_InvalidAPIVersionString version = Exc InvalidAPIVersionString (''API Version String '' @ version @ '' is of invalid format. Must be of format MajorNum.MinorNum.'')"

definition mk_ConfigDraftNotFound :: "string \<Rightarrow> exc" where
  "mk_ConfigDraftNotFound draft_id = Exc ConfigDraftNotFound (''Could not find config draft '' @ draft_id)"

definition mk_ConfigApplyJobNotFound :: "string \<Rightarrow> exc" where
  "mk_ConfigApplyJobNotFound job_id = Exc ConfigApplyJobNotFound (''Could not find config apply job '' @ job_id)"

definition mk_InvalidSortKey :: "exc" where
  "mk_InvalidSortKey = Exc InvalidSortKey (''Sort key supplied was not valid.'')"

definition mk_MarkerNotFound :: "string \<Rightarrow> exc" where
  "mk_MarkerNotFound marker = Exc MarkerNotFound (''Marker '' @ marker @ '' could not be found.'')"

definition mk_FailoverSegmentNotFound :: "string \<Rightarrow> exc" where
  "mk_FailoverSegmentNotFound i = Exc FailoverSegmentNotFound (''No failover segment with id '' @ i @ ''.'')"

definition mk_HostNotFound :: "string \<Rightarrow> exc" where
  "mk_HostNotFound i = Exc HostNotFound (''No host with id '' @ i @ ''.'')"

definition mk_NotificationNotFound :: "string \<Rightarrow> exc" where
  "mk_NotificationNotFound i = Exc NotificationNotFound (''No notification with id '' @ i @ ''.'')"

definition mk_FailoverSegmentNotFoundByName :: "string \<Rightarrow> exc" where
  "mk_FailoverSegmentNotFoundByName name = Exc FailoverSegmentNotFoundByName (''Failover segment with name '' @ name @ '' could not be found.'')"

definition mk_HostNotFoundByName :: "string \<Rightarrow> exc" where
  "mk_HostNotFoundByName name = Exc HostNotFoundByName (''Host with name '' @ name @ '' could not be found.'')"

definition mk_ComputeNotFoundByName :: "string \<Rightarrow> exc" where
  "mk_ComputeNotFoundByName name = Exc ComputeNotFoundByName (''Compute service with name '' @ name @ '' could not be found.'')"

definition mk_VMoveNotFound :: "string \<Rightarrow> exc" where
  "mk_VMoveNotFound i = Exc VMoveNotFound (''No vm move with id '' @ i @ ''.'')"

definition mk_NotificationWithoutVMoves :: "string \<Rightarrow> exc" where
  "mk_NotificationWithoutVMoves i = Exc NotificationWithoutVMoves (''This notification '' @ i @ '' without vm moves.'')"

definition mk_FailoverSegmentExists :: "string \<Rightarrow> exc" where
  "mk_FailoverSegmentExists name = Exc FailoverSegmentExists (''Failover segment with name '' @ name @ '' already exists.'')"

definition mk_HostExists :: "string \<Rightarrow> exc" where
  "mk_HostExists name = Exc HostExists (''Host with name '' @ name @ '' already exists.'')"

definition mk_DuplicateNotification :: "string \<Rightarrow> exc" where
  "mk_DuplicateNotification t = Exc DuplicateNotification (''Duplicate notification received for type: '' @ t)"

definition mk_HostOnMaintenanceError :: "string \<Rightarrow> exc" where
  "mk_HostOnMaintenanceError name = Exc HostOnMaintenanceError (''Host '' @ name @ '' is already under maintenance.'')"

definition mk_FailoverSegmentInUse :: "string \<Rightarrow> exc" where
  "mk_FailoverSegmentInUse u = Exc FailoverSegmentInUse (''Failover segment '' @ u @ '' can'' @ [CHR 0x27] @ ''t be updated as it is in-use to process notifications.'')"

definition mk_HostInUse :: "string \<Rightarrow> exc" where
  "mk_HostInUse u = Exc HostInUse (''Host '' @ u @ '' can'' @ [CHR 0x27] @ ''t be updated as it is in-use to process notifications.'')"

definition mk_HostNotFoundUnderFailoverSegment :: "string \<Rightarrow> string \<Rightarrow> exc" where
  "mk_HostNotFoundUnderFailoverSegment h s = Exc HostNotFoundUnderFailoverSegment (''Host '' @ [CHR 0x27] @ h @ [CHR 0x27] @ '' under failover_segment '' @ [CHR 0x27] @ s @ [CHR 0x27] @ '' could not be found.'')"

definition mk_HostRecoveryFailureException :: "exc" where
  "mk_HostRecoveryFailureException = Exc HostRecoveryFailureException (''Failed to execute host recovery.'')"

definition mk_StagedStartFailureException :: "exc" where
  "mk_StagedStartFailureException = Exc StagedStartFailureException (''Failed to start staged recovery instances.'')"

definition mk_ReservedHostsUnavailable :: "exc" where
  "mk_ReservedHostsUnavailable = Exc ReservedHostsUnavailable (''No reserved_hosts available for evacuation.'')"

definition mk_InstanceEvacuateFailed :: "string \<Rightarrow> exc" where
  "mk_InstanceEvacuateFailed u = Exc InstanceEvacuateFailed (''Failed to evacuate instance '' @ u)"

definition mk_LockAlreadyAcquired :: "string \<Rightarrow> exc" where
  "mk_LockAlreadyAcquired resource = Exc LockAlreadyAcquired (''Lock is already acquired on '' @ resource @ ''.'')"

lemmas exc_message_defs = mk_APITimeout_def mk_InvalidInput_def mk_InvalidAPIVersionString_def
  mk_ConfigDraftNotFound_def mk_ConfigApplyJobNotFound_def mk_InvalidSortKey_def mk_MarkerNotFound_def
  mk_FailoverSegmentNotFound_def mk_HostNotFound_def mk_NotificationNotFound_def
  mk_FailoverSegmentNotFoundByName_def mk_HostNotFoundByName_def mk_ComputeNotFoundByName_def
  mk_VMoveNotFound_def mk_NotificationWithoutVMoves_def mk_FailoverSegmentExists_def mk_HostExists_def
  mk_DuplicateNotification_def mk_HostOnMaintenanceError_def mk_FailoverSegmentInUse_def
  mk_HostInUse_def mk_HostNotFoundUnderFailoverSegment_def mk_HostRecoveryFailureException_def
  mk_StagedStartFailureException_def mk_ReservedHostsUnavailable_def mk_InstanceEvacuateFailed_def
  mk_LockAlreadyAcquired_def

section \<open>Facts about the hierarchy\<close>

lemma mro_unfold:
  "mro c = c # (case base c of None \<Rightarrow> [] | Some b \<Rightarrow> b # (case base b of None \<Rightarrow> []
     | Some b2 \<Rightarrow> b2 # (case base b2 of None \<Rightarrow> [] | Some b3 \<Rightarrow> b3 # (case base b3 of None \<Rightarrow> []
     | Some b4 \<Rightarrow> [b4]))))"
  by (simp add: mro_def eval_nat_numeral split: option.split)

lemmas isinstance_simps = isinstance_def isinstance_any_def issubclass_def mro_unfold

lemma issubclass_refl [simp]: "issubclass c c"
  by (simp add: issubclass_def mro_unfold)

lemma mro_reaches_root: "last (mro c) = PyException"
  by (cases c) (simp_all add: mro_unfold)

lemma issubclass_PyException [simp]: "issubclass c PyException"
  using mro_reaches_root [of c] last_in_set [of "mro c"]
  by (simp add: issubclass_def mro_unfold)

lemma base_not_self: "base c \<noteq> Some c"
  by (cases c) simp_all

lemma issubclass_base: "issubclass c d \<Longrightarrow> base d = Some b \<Longrightarrow> issubclass c b"
  using mro_reaches_root [of c] by (auto simp: issubclass_def mro_unfold split: option.splits)

end
