(* ===== verification/Masakari_Fields.thy ===== *)
theory Masakari_Fields
  imports Masakari_Exceptions
begin

text \<open>
  \<open>masakari/objects/fields.py\<close>: the enumerations the program stores and compares. Each \<open>Enum\<close>
  class is a datatype whose constructors are its members, with the list \<open>ALL\<close> of the class and
  the string each member stands for where the program writes it. \<open>index\<close> and \<open>from_index\<close> are
  the same code in every class, so they are modelled once over \<open>ALL\<close>, and the locale
  \<open>enum_class\<close> states what they promise of a class whose \<open>ALL\<close> has no member twice.
\<close>

datatype (plugins only: code size) recovery_method =
  AUTO | RESERVED_HOST | AUTO_PRIORITY | RH_PRIORITY

datatype (plugins only: code size) notification_type = COMPUTE_HOST | VM | PROCESS

datatype (plugins only: code size) event_type = STARTED | STOPPED

datatype (plugins only: code size) host_status_type = NORMAL | UNKNOWN

datatype (plugins only: code size) cluster_status_type = ONLINE | OFFLINE

datatype (plugins only: code size) notification_status =
  NS_NEW | NS_RUNNING | NS_ERROR | NS_FAILED | NS_IGNORED | NS_FINISHED

datatype (plugins only: code size) event_action =
    SEGMENT_CREATE | SEGMENT_UPDATE | SEGMENT_DELETE | HOST_CREATE | HOST_UPDATE | HOST_DELETE
  | NOTIFICATION_CREATE | NOTIFICATION_PROCESS

datatype (plugins only: code size) event_priority =
  EP_AUDIT | EP_CRITICAL | EP_DEBUG | EP_INFO | EP_ERROR | EP_SAMPLE | EP_WARN

datatype (plugins only: code size) event_phase = PH_START | PH_END | PH_ERROR

datatype (plugins only: code size) vmove_type = EVACUATION | MIGRATION | LIVE_MIGRATION

datatype (plugins only: code size) vmove_status =
  VS_PENDING | VS_ONGOING | VS_IGNORED | VS_FAILED | VS_SUCCEEDED

text \<open>The tuple \<open>ALL\<close> of each class.\<close>

definition recovery_method_ALL :: "recovery_method list" where
  "recovery_method_ALL = [AUTO, RESERVED_HOST, AUTO_PRIORITY, RH_PRIORITY]"

definition notification_type_ALL :: "notification_type list" where
  "notification_type_ALL = [COMPUTE_HOST, VM, PROCESS]"

definition event_type_ALL :: "event_type list" where
  "event_type_ALL = [STARTED, STOPPED]"

definition host_status_ALL :: "host_status_type list" where
  "host_status_ALL = [NORMAL, UNKNOWN]"

definition cluster_status_ALL :: "cluster_status_type list" where
  "cluster_status_ALL = [ONLINE, OFFLINE]"

definition notification_status_ALL :: "notification_status list" where
  "notification_status_ALL = [NS_NEW, NS_RUNNING, NS_ERROR, NS_FAILED, NS_IGNORED, NS_FINISHED]"

definition event_action_ALL :: "event_action list" where
  "event_action_ALL = [SEGMENT_CREATE, SEGMENT_UPDATE, SEGMENT_DELETE, HOST_CREATE, HOST_UPDATE,
     HOST_DELETE, NOTIFICATION_CREATE, NOTIFICATION_PROCESS]"

definition event_phase_ALL :: "event_phase list" where
  "event_phase_ALL = [PH_START, PH_END, PH_ERROR]"

definition vmove_type_ALL :: "vmove_type list" where
  "vmove_type_ALL = [EVACUATION, MIGRATION, LIVE_MIGRATION]"

definition vmove_status_ALL :: "vmove_status list" where
  "vmove_status_ALL = [VS_PENDING, VS_ONGOING, VS_IGNORED, VS_FAILED, VS_SUCCEEDED]"

text \<open>The strings of the members.\<close>

primrec recovery_method_value :: "recovery_method \<Rightarrow> string" where
  "recovery_method_value AUTO = ''auto''"
| "recovery_method_value RESERVED_HOST = ''reserved_host''"
| "recovery_method_value AUTO_PRIORITY = ''auto_priority''"
| "recovery_method_value RH_PRIORITY = ''rh_priority''"

primrec event_type_value :: "event_type \<Rightarrow> string" where
  "event_type_value STARTED = ''STARTED''"
| "event_type_value STOPPED = ''STOPPED''"

primrec host_status_value :: "host_status_type \<Rightarrow> string" where
  "host_status_value NORMAL = ''NORMAL''"
| "host_status_value UNKNOWN = ''UNKNOWN''"

primrec notification_status_value :: "notification_status \<Rightarrow> string" where
  "notification_status_value NS_NEW = ''new''"
| "notification_status_value NS_RUNNING = ''running''"
| "notification_status_value NS_ERROR = ''error''"
| "notification_status_value NS_FAILED = ''failed''"
| "notification_status_value NS_IGNORED = ''ignored''"
| "notification_status_value NS_FINISHED = ''finished''"

primrec notification_type_value :: "notification_type \<Rightarrow> string" where
  "notification_type_value COMPUTE_HOST = ''COMPUTE_HOST''"
| "notification_type_value VM = ''VM''"
| "notification_type_value PROCESS = ''PROCESS''"

primrec vmove_type_value :: "vmove_type \<Rightarrow> string" where
  "vmove_type_value EVACUATION = ''evacuation''"
| "vmove_type_value MIGRATION = ''migration''"
| "vmove_type_value LIVE_MIGRATION = ''live_migration''"

primrec vmove_status_value :: "vmove_status \<Rightarrow> string" where
  "vmove_status_value VS_PENDING = ''pending''"
| "vmove_status_value VS_ONGOING = ''ongoing''"
| "vmove_status_value VS_IGNORED = ''ignored''"
| "vmove_status_value VS_FAILED = ''failed''"
| "vmove_status_value VS_SUCCEEDED = ''succeeded''"

section \<open>index and from\_index\<close>

text \<open>
  \<open>cls.ALL.index(value)\<close> is the position of the first occurrence and raises \<open>ValueError\<close> when
  there is none; \<open>cls.ALL[index]\<close> counts a negative index from the end and raises
  \<open>IndexError\<close> outside.
\<close>

fun position :: "'v list \<Rightarrow> 'v \<Rightarrow> nat option" where
  "position [] v = None"
| "position (x # xs) v = (if x = v then Some 0 else map_option Suc (position xs v))"

definition index :: "'v list \<Rightarrow> 'v \<Rightarrow> exc + int" where
  "index members v = (case position members v of
     None \<Rightarrow> Inl (Exc ValueError ''tuple.index(x): x not in tuple'')
   | Some i \<Rightarrow> Inr (int i))"

definition from_index :: "'v list \<Rightarrow> int \<Rightarrow> exc + 'v" where
  "from_index members i = (let j = (if i < 0 then i + int (length members) else i)
     in if 0 \<le> j \<and> j < int (length members) then Inr (members ! nat j)
        else Inl (Exc IndexError ''tuple index out of range''))"

lemma position_Some: "position xs v = Some i \<Longrightarrow> i < length xs \<and> xs ! i = v"
  by (induction xs arbitrary: i) (auto split: if_splits)

lemma position_mem: "v \<in> set xs \<Longrightarrow> \<exists>i. position xs v = Some i"
  by (induction xs) auto

lemma position_nth: "distinct xs \<Longrightarrow> i < length xs \<Longrightarrow> position xs (xs ! i) = Some i"
proof (induction xs arbitrary: i)
  case Nil
  then show ?case by simp
next
  case (Cons x xs)
  then show ?case by (cases i) auto
qed

locale enum_class =
  fixes members :: "'v list"
  assumes distinct_ALL: "distinct members"
begin

lemma from_index_index: "v \<in> set members \<Longrightarrow> \<exists>i. index members v = Inr i \<and> from_index members i = Inr v"
  using position_mem [of v members] position_Some [of members v]
  by (auto simp: index_def from_index_def)

lemma index_from_index:
  assumes "0 \<le> i" and "i < int (length members)"
  shows "\<exists>v. from_index members i = Inr v \<and> index members v = Inr i"
  using assms position_nth [OF distinct_ALL, of "nat i"]
  by (auto simp: index_def from_index_def)

lemma from_index_fails: "int (length members) \<le> i \<or> i < - int (length members) \<Longrightarrow>
    \<exists>m. from_index members i = Inl (Exc IndexError m)"
  by (auto simp: from_index_def Let_def)

end

interpretation recovery_methods: enum_class recovery_method_ALL
  by unfold_locales (simp add: recovery_method_ALL_def)

interpretation notification_types: enum_class notification_type_ALL
  by unfold_locales (simp add: notification_type_ALL_def)

interpretation event_types: enum_class event_type_ALL
  by unfold_locales (simp add: event_type_ALL_def)

interpretation host_statuses: enum_class host_status_ALL
  by unfold_locales (simp add: host_status_ALL_def)

interpretation cluster_statuses: enum_class cluster_status_ALL
  by unfold_locales (simp add: cluster_status_ALL_def)

interpretation notification_statuses: enum_class notification_status_ALL
  by unfold_locales (simp add: notification_status_ALL_def)

interpretation event_actions: enum_class event_action_ALL
  by unfold_locales (simp add: event_action_ALL_def)

interpretation event_phases: enum_class event_phase_ALL
  by unfold_locales (simp add: event_phase_ALL_def)

interpretation vmove_types: enum_class vmove_type_ALL
  by unfold_locales (simp add: vmove_type_ALL_def)

interpretation vmove_statuses: enum_class vmove_status_ALL
  by unfold_locales (simp add: vmove_status_ALL_def)

end
