(* ===== verification/Masakari_World.thy ===== *)
theory Masakari_World
  imports Masakari_Fields
begin

text \<open>
  The state of the program: the database tables of \<open>masakari/db/sqlalchemy/models.py\<close> as lists of
  rows, the versioned notifications that were emitted, the progress details of the running task,
  the locks of the process,
  and the states of the two outside systems, Nova and etcd, whose types \<open>'n\<close> and \<open>'k\<close> are left
  open because their code is not part of the repository. Every operation of the program is a
  computation on this state that raises an \<open>exc\<close>.

  The record \<open>lib\<close> holds the functions of other packages that the program calls and that keep no
  state: soft deletion, pagination, uuid generation and the string conversions of oslo.utils.
\<close>

section \<open>JSON values\<close>

text \<open>
  A JSON text column (\<open>jsonutils.dumps\<close> on the way in, \<open>loads\<close> on the way out) and the JSON
  records kept in etcd are modelled by the value itself; \<open>JTime\<close> is an ISO 8601 time stamp with
  the resolution of a second, as the seconds it stands for.
\<close>

datatype json = JNull | JBool bool | JInt int | JStr string | JTime int | JList "json list"
  | JObj "(string \<times> json) list"

section \<open>Tables\<close>

text \<open>
  The columns of the timestamp and soft-delete mixins. \<open>deleted\<close> is 0 on a live row; the soft
  delete of oslo.db writes a non-zero mark there. \<open>rid\<close> is the primary key \<open>id\<close>.
\<close>

record row =
  rid :: nat
  created_at :: "int option"
  updated_at :: "int option"
  deleted_at :: "int option"
  deleted :: nat

record segment = row +
  sg_uuid :: string
  sg_name :: string
  sg_service_type :: string
  sg_enabled :: bool
  sg_description :: "string option"
  sg_recovery_method :: recovery_method

record host = row +
  h_uuid :: string
  h_name :: string
  h_reserved :: bool
  h_type :: string
  h_control_attributes :: string
  h_on_maintenance :: bool
  h_segment_id :: string

record notification = row +
  n_uuid :: string
  n_generated_time :: int
  n_type :: notification_type
  n_payload :: "string dict"
  n_status :: notification_status
  n_source_host_uuid :: string

record vmove = row +
  vm_uuid :: string
  vm_notification_uuid :: string
  vm_instance_uuid :: string
  vm_instance_name :: string
  vm_source_host :: "string option"
  vm_dest_host :: "string option"
  vm_start_time :: "int option"
  vm_end_time :: "int option"
  vm_type :: "vmove_type option"
  vm_status :: "vmove_status option"
  vm_message :: "string option"

record draft = row +
  d_uuid :: string
  d_name :: json
  d_status :: string
  d_values :: json
  d_comment :: json
  d_validation :: "json option"
  d_plan :: "json option"

record apply_job = row +
  j_uuid :: string
  j_draft_uuid :: string
  j_status :: string
  j_strategy :: string
  j_canary :: bool
  j_comment :: json
  j_plan :: "json option"
  j_result :: "json option"
  j_errors :: "json option"

text \<open>The unique constraints of the tables.\<close>

definition uniq_segments :: "segment list \<Rightarrow> bool" where
  "uniq_segments rows \<longleftrightarrow> distinct (map (\<lambda>r. (sg_name r, deleted r)) rows) \<and> distinct (map sg_uuid rows)"

definition uniq_hosts :: "host list \<Rightarrow> bool" where
  "uniq_hosts rows \<longleftrightarrow> distinct (map (\<lambda>r. (h_name r, deleted r)) rows) \<and> distinct (map h_uuid rows)"

definition uniq_notifications :: "notification list \<Rightarrow> bool" where
  "uniq_notifications rows \<longleftrightarrow> distinct (map n_uuid rows)"

definition uniq_vmoves :: "vmove list \<Rightarrow> bool" where
  "uniq_vmoves rows \<longleftrightarrow> distinct (map vm_uuid rows)"

definition uniq_drafts :: "draft list \<Rightarrow> bool" where
  "uniq_drafts rows \<longleftrightarrow> distinct (map d_uuid rows)"

definition uniq_apply_jobs :: "apply_job list \<Rightarrow> bool" where
  "uniq_apply_jobs rows \<longleftrightarrow> distinct (map j_uuid rows)"

section \<open>Emitted notifications\<close>

text \<open>
  One versioned notification (\<open>api/utils.py\<close>, \<open>engine/utils.py\<close>): what happened, in which phase,
  to which object, its priority and the fault it carries.
\<close>

record event =
  ev_action :: event_action
  ev_phase :: event_phase
  ev_priority :: event_priority
  ev_fault :: "exc option"
  ev_subject :: string

text \<open>\<open>_get_fault_and_priority_from_exc_and_tb\<close>.\<close>

definition get_fault_and_priority :: "exc option \<Rightarrow> exc option \<times> event_priority" where
  "get_fault_and_priority e = (case e of None \<Rightarrow> (None, EP_INFO) | Some x \<Rightarrow> (Some x, EP_ERROR))"

section \<open>The state\<close>

record ('n, 'k) world =
  segments :: "segment list"
  hosts :: "host list"
  notifications :: "notification list"
  vmoves :: "vmove list"
  drafts :: "draft list"
  apply_jobs :: "apply_job list"
  clock :: int
  uuid_seq :: nat
  events :: "event list"
  progress :: "(string \<times> nat) list"
  held_locks :: "string list"
  infra :: 'n
  etcd :: 'k

type_synonym ('n, 'k, 'a) prog = "(('n, 'k) world, exc, 'a) comp"

text \<open>The part of \<open>RequestContext\<close> the database reads.\<close>

record request_context =
  read_deleted :: string

text \<open>
  Functions of other packages. \<open>del_mark i\<close>: what \<open>soft_delete\<close> of oslo.db writes in the column
  \<open>deleted\<close> of the row with id \<open>i\<close>. \<open>gen_uuid k\<close>: the \<open>k\<close>-th uuid \<open>uuidutils.generate_uuid\<close>
  returns. \<open>page_\<dots> rows limit keys marker dirs\<close>: \<open>paginate_query\<close> of oslo.db on the rows of a
  query, \<open>None\<close> for its \<open>InvalidSortKey\<close>. \<open>bool_from_string\<close>: with \<open>strict=True\<close>, \<open>None\<close> for
  its \<open>ValueError\<close>.
\<close>

type_synonym 'r paginator = "'r list \<Rightarrow> nat option \<Rightarrow> string list \<Rightarrow> 'r option \<Rightarrow> string list \<Rightarrow> 'r list option"

record lib =
  del_mark :: "nat \<Rightarrow> nat"
  gen_uuid :: "nat \<Rightarrow> string"
  is_uuid_like :: "string \<Rightarrow> bool"
  bool_from_string :: "string \<Rightarrow> bool option"
  page_segments :: "segment paginator"
  page_hosts :: "host paginator"
  page_notifications :: "notification paginator"
  page_vmoves :: "vmove paginator"
  page_drafts :: "draft paginator"
  page_apply_jobs :: "apply_job paginator"

text \<open>
  Documented behaviour the program relies on: a soft-deleted row is marked with a non-zero value
  that differs from row to row, and pagination sorts by the columns every table has and returns at
  most \<open>limit\<close> of the rows it was given, all of them when there is neither a limit nor a marker.
\<close>

definition paginator_ok :: "'r paginator \<Rightarrow> bool" where
  "paginator_ok pg \<longleftrightarrow>
     (\<forall>rows limit keys marker dirs. set keys \<subseteq> {''created_at'', ''id''} \<longrightarrow> pg rows limit keys marker dirs \<noteq> None) \<and>
     (\<forall>rows limit keys marker dirs res. pg rows limit keys marker dirs = Some res \<longrightarrow>
        set res \<subseteq> set rows \<and> (case limit of None \<Rightarrow> True | Some n \<Rightarrow> length res \<le> n) \<and>
        (limit = None \<and> marker = None \<longrightarrow> set res = set rows \<and> length res = length rows))"

definition lib_ok :: "lib \<Rightarrow> bool" where
  "lib_ok L \<longleftrightarrow> (\<forall>i. del_mark L i > 0) \<and> inj (del_mark L) \<and> inj (gen_uuid L) \<and>
     paginator_ok (page_segments L) \<and> paginator_ok (page_hosts L) \<and>
     paginator_ok (page_notifications L) \<and> paginator_ok (page_vmoves L) \<and>
     paginator_ok (page_drafts L) \<and> paginator_ok (page_apply_jobs L)"

text \<open>A concrete library, for the witnesses: marks and uuids that count, pages that cut.\<close>

definition cut_page :: "'r paginator" where
  "cut_page rows limit keys marker dirs = Some (case limit of None \<Rightarrow> rows | Some n \<Rightarrow> take n rows)"

definition count_uuid :: "nat \<Rightarrow> string" where
  "count_uuid k = replicate k (CHR ''u'')"

definition demo_bool :: "string \<Rightarrow> bool option" where
  "demo_bool s = (if upper s \<in> {''TRUE'', ''1'', ''ON'', ''YES''} then Some True
     else if upper s \<in> {''FALSE'', ''0'', ''OFF'', ''NO''} then Some False else None)"

definition demo_lib :: lib where
  "demo_lib = \<lparr>del_mark = Suc, gen_uuid = count_uuid, is_uuid_like = (\<lambda>s. s \<noteq> []),
     bool_from_string = demo_bool, page_segments = cut_page, page_hosts = cut_page,
     page_notifications = cut_page, page_vmoves = cut_page, page_drafts = cut_page,
     page_apply_jobs = cut_page\<rparr>"

lemma cut_page_ok: "paginator_ok cut_page"
  by (auto simp: paginator_ok_def cut_page_def dest: in_set_takeD split: option.splits)

lemma inj_count_uuid: "inj count_uuid"
  by (rule injI) (metis count_uuid_def length_replicate)

lemma demo_lib_ok: "lib_ok demo_lib"
  by (simp add: lib_ok_def demo_lib_def cut_page_ok inj_count_uuid)

section \<open>Small operations on the state\<close>

definition liftE :: "exc + 'a \<Rightarrow> ('s, exc, 'a) comp" where
  "liftE r = (case r of Inl e \<Rightarrow> raiseM e | Inr a \<Rightarrow> retM a)"

definition utcnow :: "('n, 'k, int) prog" where
  "utcnow = getM clock"

definition generate_uuid :: "lib \<Rightarrow> ('n, 'k, string) prog" where
  "generate_uuid L = bindM (getM (\<lambda>w. gen_uuid L (uuid_seq w)))
     (\<lambda>u. bindM (modM (\<lambda>w. w\<lparr>uuid_seq := Suc (uuid_seq w)\<rparr>)) (\<lambda>_. retM u))"

definition emit :: "event_action \<Rightarrow> event_phase \<Rightarrow> exc option \<Rightarrow> string \<Rightarrow> ('n, 'k, unit) prog" where
  "emit action phase e subject = (let (fault, priority) = get_fault_and_priority e in
     modM (\<lambda>w. w\<lparr>events := events w @ [\<lparr>ev_action = action, ev_phase = phase,
       ev_priority = priority, ev_fault = fault, ev_subject = subject\<rparr>]\<rparr>))"

text \<open>\<open>MasakariTask.update_details\<close>: the progress is kept in hundredths.\<close>

definition update_details :: "string \<Rightarrow> nat \<Rightarrow> ('n, 'k, unit) prog" where
  "update_details msg p = modM (\<lambda>w. w\<lparr>progress := progress w @ [(msg, p)]\<rparr>)"

text \<open>
  \<open>utils.synchronized\<close>: a lock of the process. Without \<open>blocking\<close> a lock that is held makes the
  call fail; with it the call waits, and what is modelled is the run once the lock is free.
\<close>

definition lock_key :: "string \<Rightarrow> string" where
  "lock_key name = ''masakari-'' @ name"

definition synchronized :: "string \<Rightarrow> bool \<Rightarrow> ('n, 'k, 'a) prog \<Rightarrow> ('n, 'k, 'a) prog" where
  "synchronized name blocking f =
     bindM (getM held_locks) (\<lambda>held.
     if \<not> blocking \<and> lock_key name \<in> set held then raiseM (mk_LockAlreadyAcquired name)
     else bindM (modM (\<lambda>w. w\<lparr>held_locks := lock_key name # held_locks w\<rparr>)) (\<lambda>_.
          finallyM f (modM (\<lambda>w. w\<lparr>held_locks := remove1 (lock_key name) (held_locks w)\<rparr>))))"

lemma wp_liftE [wp_simps]:
  "wp (liftE r) Q E = (\<lambda>s. case r of Inl e \<Rightarrow> E e s | Inr a \<Rightarrow> Q a s)"
  by (simp add: liftE_def wp_simps split: sum.split)

lemma wp_utcnow [wp_simps]: "wp utcnow Q E = (\<lambda>w. Q (clock w) w)"
  by (simp add: utcnow_def wp_simps)

lemma wp_generate_uuid [wp_simps]:
  "wp (generate_uuid L) Q E = (\<lambda>w. Q (gen_uuid L (uuid_seq w)) (w\<lparr>uuid_seq := Suc (uuid_seq w)\<rparr>))"
  by (simp add: generate_uuid_def wp_simps)

definition event_of :: "event_action \<Rightarrow> event_phase \<Rightarrow> exc option \<Rightarrow> string \<Rightarrow> event" where
  "event_of action phase e subject = \<lparr>ev_action = action, ev_phase = phase,
     ev_priority = snd (get_fault_and_priority e), ev_fault = fst (get_fault_and_priority e),
     ev_subject = subject\<rparr>"

lemma wp_emit [wp_simps]:
  "wp (emit action phase e subject) Q E = (\<lambda>w. Q () (w\<lparr>events := events w @ [event_of action phase e subject]\<rparr>))"
  by (simp add: emit_def event_of_def wp_simps split: prod.split)

lemma emit_run: "emit action phase e subject w = (Inr (), w\<lparr>events := events w @ [event_of action phase e subject]\<rparr>)"
  by (simp add: emit_def event_of_def modM_def split: prod.split)

lemma wp_update_details [wp_simps]:
  "wp (update_details msg p) Q E = (\<lambda>w. Q () (w\<lparr>progress := progress w @ [(msg, p)]\<rparr>))"
  by (simp add: update_details_def wp_simps)

lemma wp_synchronized [wp_simps]:
  "wp (synchronized name blocking f) Q E = (\<lambda>w.
     if \<not> blocking \<and> lock_key name \<in> set (held_locks w) then E (mk_LockAlreadyAcquired name) w
     else wp f (\<lambda>a v. Q a (v\<lparr>held_locks := remove1 (lock_key name) (held_locks v)\<rparr>))
            (\<lambda>e v. E e (v\<lparr>held_locks := remove1 (lock_key name) (held_locks v)\<rparr>))
            (w\<lparr>held_locks := lock_key name # held_locks w\<rparr>))"
  by (simp add: synchronized_def wp_simps fun_eq_iff)

section \<open>Properties of a part of the state\<close>

text \<open>
  \<open>off_events I\<close>: the property \<open>I\<close> does not look at the emitted notifications; \<open>off_aux I\<close>: it looks
  neither at the progress details nor at the uuid counter nor at the locks. The small operations
  keep such a property.
\<close>

definition off_events :: "(('n, 'k) world \<Rightarrow> bool) \<Rightarrow> bool" where
  "off_events I \<longleftrightarrow> (\<forall>w es. I (w\<lparr>events := es\<rparr>) = I w)"

definition off_aux :: "(('n, 'k) world \<Rightarrow> bool) \<Rightarrow> bool" where
  "off_aux I \<longleftrightarrow> (\<forall>w ps ls k. I (w\<lparr>progress := ps\<rparr>) = I w \<and> I (w\<lparr>held_locks := ls\<rparr>) = I w \<and> I (w\<lparr>uuid_seq := k\<rparr>) = I w)"

lemma pres_liftE [pres_intros]: "pres I (liftE r)"
  by (simp add: liftE_def pres_intros split: sum.split)

lemma pres_utcnow [pres_intros]: "pres I utcnow"
  by (simp add: utcnow_def pres_intros)

lemma pres_generate_uuid [pres_intros]: "off_aux I \<Longrightarrow> pres I (generate_uuid L)"
  unfolding generate_uuid_def off_aux_def by (intro pres_intros) simp

lemma pres_emit [pres_intros]: "off_events I \<Longrightarrow> pres I (emit a p e u)"
  unfolding emit_def off_events_def by (intro pres_intros) simp

lemma pres_update_details [pres_intros]: "off_aux I \<Longrightarrow> pres I (update_details m p)"
  unfolding update_details_def off_aux_def by (intro pres_intros) simp

lemma pres_synchronized [pres_intros]: "off_aux I \<Longrightarrow> pres I f \<Longrightarrow> pres I (synchronized name b f)"
  unfolding synchronized_def off_aux_def by (intro pres_intros) simp_all

lemma escapes_emit [escapes_intros]: "escapes P (emit a p e u)"
  unfolding emit_def by (intro escapes_intros)

lemma escapes_update_details [escapes_intros]: "escapes P (update_details m p)"
  unfolding update_details_def by (intro escapes_intros)

end
