(* ===== verification/Masakari_Rows.thy ===== *)
theory Masakari_Rows
  imports Masakari_World
begin

text \<open>
  The helpers of \<open>masakari/db/sqlalchemy/api.py\<close> that every table shares: the sort parameters,
  the visibility of deleted rows (\<open>model_query\<close>), and the statements that insert, update and
  soft-delete rows under the unique constraints. A query is the list of the rows it selects.
\<close>

section \<open>Sort parameters\<close>

text \<open>The loop that pads the directions: \<open>while len(result_dirs) < len(result_keys)\<close>.\<close>

function pad_dirs :: "string list \<Rightarrow> nat \<Rightarrow> string \<Rightarrow> string list" where
  "pad_dirs dirs n d = (if length dirs < n then pad_dirs (dirs @ [d]) n d else dirs)"
  by pat_completeness auto
termination
  by (relation "measure (\<lambda>(dirs, n, d). n - length dirs)") auto

declare pad_dirs.simps [simp del]

text \<open>The loop that adds the default keys that are missing.\<close>

fun add_defaults :: "string list \<Rightarrow> string \<Rightarrow> string list \<Rightarrow> string list \<Rightarrow> string list \<times> string list" where
  "add_defaults [] d ks ds = (ks, ds)"
| "add_defaults (k # rest) d ks ds =
     (if k \<notin> set ks then add_defaults rest d (ks @ [k]) (ds @ [d]) else add_defaults rest d ks ds)"

definition process_sort_params_with ::
  "string list \<Rightarrow> string \<Rightarrow> string list \<Rightarrow> string list \<Rightarrow> exc + string list \<times> string list" where
  "process_sort_params_with default_keys default_dir sort_keys sort_dirs =
     (let default_dir_value = (if sort_dirs \<noteq> [] then hd sort_dirs else default_dir) in
      if list_ex (\<lambda>d. d \<noteq> ''asc'' \<and> d \<noteq> ''desc'') sort_dirs
      then Inl (mk_InvalidInput (''Unknown sort direction, must be '' @ [CHR 0x27] @ ''asc'' @ [CHR 0x27] @ '' or ''
        @ [CHR 0x27] @ ''desc'' @ [CHR 0x27]))
      else
        let result_dirs = (if sort_dirs \<noteq> [] then sort_dirs
                           else map (\<lambda>_. default_dir_value) sort_keys);
            result_dirs = pad_dirs result_dirs (length sort_keys) default_dir_value
        in if length result_dirs > length sort_keys
           then Inl (mk_InvalidInput ''Sort direction size exceeds sort key size'')
           else Inr (add_defaults default_keys default_dir_value sort_keys result_dirs))"

text \<open>The default arguments of \<open>_process_sort_params\<close>.\<close>

definition process_sort_params :: "string list \<Rightarrow> string list \<Rightarrow> exc + string list \<times> string list" where
  "process_sort_params = process_sort_params_with [''created_at'', ''id''] ''desc''"

lemma pad_dirs_eq: "pad_dirs dirs n d = dirs @ replicate (n - length dirs) d"
proof (induction dirs n d rule: pad_dirs.induct)
  case (1 dirs n d)
  show ?case
  proof (cases "length dirs < n")
    case True
    then have "n - length dirs = Suc (n - Suc (length dirs))" by simp
    with 1 True show ?thesis by (simp add: pad_dirs.simps [of dirs n d])
  next
    case False
    then show ?thesis by (simp add: pad_dirs.simps [of dirs n d])
  qed
qed

text \<open>What the loop appends, to both lists.\<close>

lemma add_defaults_props:
  assumes "add_defaults defaults d ks ds = (ks', ds')" and "length ds = length ks"
  shows "(\<exists>extra. ks' = ks @ extra \<and> set extra = set defaults - set ks \<and> distinct extra \<and>
            ds' = ds @ replicate (length extra) d) \<and> length ds' = length ks'"
  using assms
proof (induction defaults d ks ds arbitrary: ks' ds' rule: add_defaults.induct)
  case (1 d ks ds)
  then show ?case by auto
next
  case (2 k rest d ks ds)
  show ?case
  proof (cases "k \<in> set ks")
    case True
    with 2 show ?thesis by (auto simp: insert_Diff_if)
  next
    case False
    with "2.prems" have eq: "add_defaults rest d (ks @ [k]) (ds @ [d]) = (ks', ds')" by simp
    have len: "length (ds @ [d]) = length (ks @ [k])" using "2.prems" by simp
    obtain extra where e: "ks' = (ks @ [k]) @ extra" "set extra = set rest - set (ks @ [k])"
        "distinct extra" "ds' = (ds @ [d]) @ replicate (length extra) d" "length ds' = length ks'"
      using "2.IH"(1) [OF False eq len] by auto
    show ?thesis
      using e False by (intro conjI exI [of _ "k # extra"]) auto
  qed
qed

lemma add_defaults_total: "\<exists>ks' ds'. add_defaults defaults d ks ds = (ks', ds')"
  by (cases "add_defaults defaults d ks ds") blast

section \<open>Queries\<close>

text \<open>\<open>model_query\<close>: the rows of a table that the context may see.\<close>

definition model_query :: "request_context \<Rightarrow> string option \<Rightarrow> 'a row_scheme list \<Rightarrow> exc + 'a row_scheme list" where
  "model_query ctx rd rows =
     (let rd = (case rd of None \<Rightarrow> read_deleted ctx | Some x \<Rightarrow> x) in
      if rd = ''no'' then Inr (filter (\<lambda>r. deleted r = 0) rows)
      else if rd = ''only'' then Inr (filter (\<lambda>r. deleted r \<noteq> 0) rows)
      else if rd = ''yes'' then Inr rows
      else Inl (Exc ValueError (''Unrecognized read_deleted value '' @ rd)))"

text \<open>The filter dictionary: a filter is absent, one value, or a collection (\<open>in_\<close>).\<close>

datatype 'v sel = Any | Is 'v | In "'v list"

fun sel_matches :: "'v sel \<Rightarrow> 'v \<Rightarrow> bool" where
  "sel_matches Any v = True"
| "sel_matches (Is x) v = (v = x)"
| "sel_matches (In xs) v = (v \<in> set xs)"

section \<open>Statements\<close>

definition fresh_id :: "'a row_scheme list \<Rightarrow> nat" where
  "fresh_id rows = Suc (foldr (\<lambda>r m. max (rid r) m) rows 0)"

text \<open>INSERT: the id is the next one, the base columns take their defaults.\<close>

definition insert_row ::
  "('a row_scheme list \<Rightarrow> bool) \<Rightarrow> int \<Rightarrow> 'a row_scheme \<Rightarrow> 'a row_scheme list \<Rightarrow> exc + 'a row_scheme list" where
  "insert_row uniq now r rows =
     (let rows' = rows @ [r\<lparr>rid := fresh_id rows, created_at := Some now, updated_at := None,
                           deleted_at := None, deleted := 0\<rparr>]
      in if uniq rows' then Inr rows' else Inl (Exc DBDuplicateEntry ''''))"

text \<open>UPDATE of the row with id \<open>i\<close>; \<open>updated_at\<close> is set when a column changed.\<close>

definition update_row ::
  "('a row_scheme list \<Rightarrow> bool) \<Rightarrow> int \<Rightarrow> nat \<Rightarrow> ('a row_scheme \<Rightarrow> 'a row_scheme) \<Rightarrow> 'a row_scheme list
   \<Rightarrow> exc + 'a row_scheme list" where
  "update_row uniq now i f rows =
     (let rows' = map (\<lambda>r. if rid r = i \<and> f r \<noteq> r then (f r)\<lparr>updated_at := Some now\<rparr> else r) rows
      in if uniq rows' then Inr rows' else Inl (Exc DBDuplicateEntry ''''))"

text \<open>\<open>query.soft_delete\<close>: marks the selected rows and counts them.\<close>

definition soft_delete ::
  "lib \<Rightarrow> int \<Rightarrow> ('a row_scheme \<Rightarrow> bool) \<Rightarrow> 'a row_scheme list \<Rightarrow> nat \<times> 'a row_scheme list" where
  "soft_delete L now P rows =
     (length (filter P rows),
      map (\<lambda>r. if P r then r\<lparr>deleted := del_mark L (rid r), deleted_at := Some now\<rparr> else r) rows)"

text \<open>The predicate form of \<open>model_query\<close>, for statements over a query.\<close>

definition visible :: "request_context \<Rightarrow> 'a row_scheme \<Rightarrow> bool" where
  "visible ctx r = (if read_deleted ctx = ''no'' then deleted r = 0
     else if read_deleted ctx = ''only'' then deleted r \<noteq> 0 else read_deleted ctx = ''yes'')"

section \<open>Facts about rows\<close>

definition ids_ok :: "'a row_scheme list \<Rightarrow> bool" where
  "ids_ok rows \<longleftrightarrow> distinct (map rid rows) \<and> (\<forall>r \<in> set rows. 0 < rid r)"

lemma fresh_id_gt: "r \<in> set rows \<Longrightarrow> rid r < fresh_id rows"
  by (induction rows) (auto simp: fresh_id_def less_Suc_eq_le)

lemma fresh_id_pos: "0 < fresh_id rows"
  by (simp add: fresh_id_def)

lemma insert_row_Inr:
  "insert_row uniq now r rows = Inr rows' \<Longrightarrow>
     uniq rows' \<and> (\<exists>n. rows' = rows @ [n] \<and> deleted n = 0 \<and> rid n = fresh_id rows \<and>
       n = r\<lparr>rid := fresh_id rows, created_at := Some now, updated_at := None, deleted_at := None, deleted := 0\<rparr>)"
  by (auto simp: insert_row_def Let_def split: if_splits)

lemma insert_row_Inl: "insert_row uniq now r rows = Inl e \<Longrightarrow> cls_of e = DBDuplicateEntry"
  by (auto simp: insert_row_def Let_def split: if_splits)

lemma update_row_Inl: "update_row uniq now i f rows = Inl e \<Longrightarrow> cls_of e = DBDuplicateEntry"
  by (auto simp: update_row_def Let_def split: if_splits)

lemma update_row_uniq: "update_row uniq now i f rows = Inr rows' \<Longrightarrow> uniq rows'"
  by (auto simp: update_row_def Let_def split: if_splits)

lemma insert_row_ids: "insert_row uniq now r rows = Inr rows' \<Longrightarrow> ids_ok rows \<Longrightarrow> ids_ok rows'"
  using fresh_id_pos [of rows] fresh_id_gt [of _ rows]
  by (fastforce simp: insert_row_def Let_def ids_ok_def split: if_splits)

lemma map_rid_update:
  "(\<And>r. rid (f r) = rid r) \<Longrightarrow>
   map rid (map (\<lambda>r. if rid r = i \<and> f r \<noteq> r then (f r)\<lparr>updated_at := t\<rparr> else r) rows) = map rid rows"
  by (induction rows) auto

lemma update_row_ids:
  assumes "update_row uniq now i f rows = Inr rows'" and "\<And>r. rid (f r) = rid r" and "ids_ok rows"
  shows "ids_ok rows'"
proof -
  from assms(1) have rows': "rows' = map (\<lambda>r. if rid r = i \<and> f r \<noteq> r then (f r)\<lparr>updated_at := Some now\<rparr> else r) rows"
    by (auto simp: update_row_def Let_def split: if_splits)
  have "map rid rows' = map rid rows" unfolding rows' by (rule map_rid_update) (rule assms(2))
  moreover from this have "rid ` set rows' = rid ` set rows" by (metis set_map)
  ultimately show ?thesis using assms(3) unfolding ids_ok_def by (metis image_iff)
qed

lemma map_rid_soft_delete: "map rid (snd (soft_delete L now P rows)) = map rid rows"
  by (simp add: soft_delete_def o_def if_distrib cong: if_cong)

lemma soft_delete_ids: "ids_ok rows \<Longrightarrow> ids_ok (snd (soft_delete L now P rows))"
  unfolding ids_ok_def by (metis (no_types, opaque_lifting) image_iff list.set_map map_rid_soft_delete)

section \<open>Operations on a table\<close>

text \<open>
  The functions of \<open>db/sqlalchemy/api.py\<close> repeat the same statements on six tables. A \<open>tbl\<close>
  names the table of the state, its unique constraints and the column its functions look rows up
  by; the operations below are those statements, and each function of the file is one of them
  with its own table, filters and exceptions.
\<close>

record ('w, 'r) tbl =
  t_get :: "'w \<Rightarrow> 'r list"
  t_put :: "'r list \<Rightarrow> 'w \<Rightarrow> 'w"
  t_uniq :: "'r list \<Rightarrow> bool"
  t_key :: "'r \<Rightarrow> string"

text \<open>\<open>query.first()\<close>, with the exception raised when there is no row.\<close>

definition first_by :: "request_context \<Rightarrow> ('a row_scheme \<Rightarrow> bool) \<Rightarrow> exc \<Rightarrow> 'a row_scheme list \<Rightarrow> exc + 'a row_scheme" where
  "first_by ctx P nf rows = (case model_query ctx None rows of Inl e \<Rightarrow> Inl e
     | Inr q \<Rightarrow> (case find P q of None \<Rightarrow> Inl nf | Some r \<Rightarrow> Inr r))"

text \<open>The body every \<open>_get_all_by_filters\<close> function shares; \<open>P\<close> is its filters.\<close>

definition list_query ::
  "request_context \<Rightarrow> 'a row_scheme paginator \<Rightarrow> ('a row_scheme \<Rightarrow> bool) \<Rightarrow> string list \<Rightarrow> string list
   \<Rightarrow> nat option \<Rightarrow> nat option \<Rightarrow> 'a row_scheme list \<Rightarrow> exc + 'a row_scheme list" where
  "list_query ctx page P sort_keys sort_dirs limit marker rows =
     (if limit = Some 0 then Inr []
      else case process_sort_params sort_keys sort_dirs of Inl e \<Rightarrow> Inl e
      | Inr (ks, ds) \<Rightarrow>
        (case model_query ctx None rows of Inl e \<Rightarrow> Inl e
         | Inr q \<Rightarrow>
           (case (case marker of None \<Rightarrow> Inr None
                  | Some i \<Rightarrow> map_sum id Some (first_by ctx (\<lambda>r. rid r = i) (mk_MarkerNotFound (show_nat i)) rows)) of
              Inl e \<Rightarrow> Inl e
            | Inr marker_row \<Rightarrow>
              (case page (filter P q) limit ks marker_row ds of
                 None \<Rightarrow> Inl mk_InvalidSortKey
               | Some res \<Rightarrow> Inr res))))"

definition row_get ::
  "(('n, 'k) world, 'a row_scheme) tbl \<Rightarrow> request_context \<Rightarrow> ('a row_scheme \<Rightarrow> bool) \<Rightarrow> exc
   \<Rightarrow> ('n, 'k, 'a row_scheme) prog" where
  "row_get T ctx P nf = bindM (getM (t_get T)) (\<lambda>rows. liftE (first_by ctx P nf rows))"

definition row_list ::
  "(('n, 'k) world, 'a row_scheme) tbl \<Rightarrow> request_context \<Rightarrow> 'a row_scheme paginator
   \<Rightarrow> ('a row_scheme \<Rightarrow> bool) \<Rightarrow> string list \<Rightarrow> string list \<Rightarrow> nat option \<Rightarrow> nat option
   \<Rightarrow> ('n, 'k, 'a row_scheme list) prog" where
  "row_list T ctx page P sort_keys sort_dirs limit marker =
     bindM (getM (t_get T)) (\<lambda>rows. liftE (list_query ctx page P sort_keys sort_dirs limit marker rows))"

text \<open>\<open>dup\<close> is what the function does with \<open>DBDuplicateEntry\<close>, \<open>nf\<close> what it raises for no row.\<close>

definition row_create ::
  "(('n, 'k) world, 'a row_scheme) tbl \<Rightarrow> request_context \<Rightarrow> (exc \<Rightarrow> exc) \<Rightarrow> exc \<Rightarrow> 'a row_scheme
   \<Rightarrow> ('n, 'k, 'a row_scheme) prog" where
  "row_create T ctx dup nf v = writer
     (bindM utcnow (\<lambda>now.
      bindM (getM (t_get T)) (\<lambda>rows.
      bindM (liftE (map_sum dup id (insert_row (t_uniq T) now v rows))) (\<lambda>rows'.
      bindM (modM (t_put T rows')) (\<lambda>_.
      row_get T ctx (\<lambda>r. t_key T r = t_key T v) nf)))))"

definition row_update ::
  "(('n, 'k) world, 'a row_scheme) tbl \<Rightarrow> request_context \<Rightarrow> (exc \<Rightarrow> exc) \<Rightarrow> exc \<Rightarrow> string
   \<Rightarrow> ('a row_scheme \<Rightarrow> 'a row_scheme) \<Rightarrow> ('n, 'k, 'a row_scheme) prog" where
  "row_update T ctx dup nf key f = writer
     (bindM (row_get T ctx (\<lambda>r. t_key T r = key) nf) (\<lambda>r.
      bindM utcnow (\<lambda>now.
      bindM (getM (t_get T)) (\<lambda>rows.
      bindM (liftE (map_sum dup id (update_row (t_uniq T) now (rid r) f rows))) (\<lambda>rows'.
      bindM (modM (t_put T rows')) (\<lambda>_.
      row_get T ctx (\<lambda>q. t_key T q = t_key T (f r)) nf))))))"

text \<open>\<open>model_query(\<dots>).filter_by(\<dots>).soft_delete()\<close>: the number of rows it marked.\<close>

definition row_soft_delete ::
  "lib \<Rightarrow> (('n, 'k) world, 'a row_scheme) tbl \<Rightarrow> request_context \<Rightarrow> ('a row_scheme \<Rightarrow> bool)
   \<Rightarrow> ('n, 'k, nat) prog" where
  "row_soft_delete L T ctx P =
     bindM utcnow (\<lambda>now.
     bindM (getM (t_get T)) (\<lambda>rows.
     bindM (liftE (model_query ctx None rows)) (\<lambda>q.
     bindM (modM (t_put T (snd (soft_delete L now (\<lambda>r. visible ctx r \<and> P r) rows)))) (\<lambda>_.
     retM (fst (soft_delete L now (\<lambda>r. visible ctx r \<and> P r) rows))))))"

section \<open>What a table promises\<close>

text \<open>
  A table is used through its live rows, a map from the key to the row. \<open>table_ok\<close> is the
  invariant of the stored rows: distinct positive ids, the unique constraints, and a row is either
  live, with no deletion date, or carries the mark and a date that soft deletion wrote.
\<close>

definition live :: "(('n, 'k) world, 'a row_scheme) tbl \<Rightarrow> ('n, 'k) world \<Rightarrow> string \<rightharpoonup> 'a row_scheme" where
  "live T w = map_of (map (\<lambda>r. (t_key T r, r)) (filter (\<lambda>r. deleted r = 0) (t_get T w)))"

definition table_ok :: "lib \<Rightarrow> (('n, 'k) world, 'a row_scheme) tbl \<Rightarrow> ('n, 'k) world \<Rightarrow> bool" where
  "table_ok L T w \<longleftrightarrow> ids_ok (t_get T w) \<and> t_uniq T (t_get T w) \<and>
     (\<forall>r \<in> set (t_get T w). deleted r = 0 \<and> deleted_at r = None \<or>
        deleted r = del_mark L (rid r) \<and> deleted_at r \<noteq> None)"

text \<open>The context of the API and the engine: deleted rows are not read.\<close>

definition live_ctx :: "request_context \<Rightarrow> bool" where
  "live_ctx ctx \<longleftrightarrow> read_deleted ctx = ''no''"

lemma visible_live [simp]: "live_ctx ctx \<Longrightarrow> visible ctx r \<longleftrightarrow> deleted r = 0"
  by (simp add: live_ctx_def visible_def)

lemma model_query_live: "live_ctx ctx \<Longrightarrow> model_query ctx None rows = Inr (filter (\<lambda>r. deleted r = 0) rows)"
  by (simp add: live_ctx_def model_query_def)

lemma find_map_of: "find (\<lambda>r. k r = x) rows = map_of (map (\<lambda>r. (k r, r)) rows) x"
  by (induction rows) auto

lemma row_get_live:
  "live_ctx ctx \<Longrightarrow> row_get T ctx (\<lambda>r. t_key T r = x) nf w =
     (case live T w x of None \<Rightarrow> (Inl nf, w) | Some r \<Rightarrow> (Inr r, w))"
  by (simp add: row_get_def first_by_def model_query_live live_def find_map_of liftE_def comp_defs
      split: option.split)

end
