(* ===== verification/Masakari_Tables.thy ===== *)
theory Masakari_Tables
  imports Masakari_Rows
begin

text \<open>
  The contract of a table, as the locale \<open>table_store\<close>: seen through its live rows, create adds a
  binding, update replaces one, soft deletion removes bindings, each operation that fails leaves
  the state alone, and all of them keep \<open>table_ok\<close>. Each table of the program is an
  interpretation of the locale.
\<close>

section \<open>Lists of rows\<close>

lemma map_of_filter_key:
  "distinct (map k rows) \<Longrightarrow>
   map_of (map (\<lambda>r. (k r, r)) (filter P rows)) x =
     (case map_of (map (\<lambda>r. (k r, r)) rows) x of None \<Rightarrow> None | Some r \<Rightarrow> if P r then Some r else None)"
proof (induction rows)
  case Nil
  then show ?case by simp
next
  case (Cons r rows)
  have "k r \<notin> k ` set rows" using Cons.prems by simp
  then have none: "map_of (map (\<lambda>r. (k r, r)) (filter P rows)) (k r) = None"
    by (auto simp: map_of_eq_None_iff)
  show ?case using Cons none by auto
qed

lemma live_Some:
  assumes "distinct (map (t_key T) (t_get T w))"
  shows "live T w x = Some r \<longleftrightarrow> r \<in> set (t_get T w) \<and> deleted r = 0 \<and> t_key T r = x"
proof -
  have "distinct (map (t_key T) (filter (\<lambda>r. deleted r = 0) (t_get T w)))"
    using assms by (rule distinct_map_filter)
  then have "distinct (map fst (map (\<lambda>r. (t_key T r, r)) (filter (\<lambda>r. deleted r = 0) (t_get T w))))"
    by (simp add: o_def)
  then show ?thesis by (auto simp: live_def map_of_eq_Some_iff)
qed

lemma live_cong: "(\<And>r. (live T w x = Some r) = (live T w' y = Some r)) \<Longrightarrow> live T w x = live T w' y"
  by (cases "live T w x"; cases "live T w' y") auto

lemma distinct_mapI:
  "distinct rows \<Longrightarrow> (\<And>r q. r \<in> set rows \<Longrightarrow> q \<in> set rows \<Longrightarrow> f r = f q \<Longrightarrow> r = q) \<Longrightarrow> distinct (map f rows)"
  by (simp add: distinct_map inj_on_def)

lemma distinct_rows: "ids_ok rows \<Longrightarrow> distinct rows"
  by (auto simp: ids_ok_def distinct_map)

lemma ids_inj: "ids_ok rows \<Longrightarrow> r \<in> set rows \<Longrightarrow> q \<in> set rows \<Longrightarrow> rid r = rid q \<Longrightarrow> r = q"
  by (auto simp: ids_ok_def distinct_map inj_on_def)

text \<open>A unique constraint on a column together with \<open>deleted\<close> survives soft deletion.\<close>

definition mark_row :: "(nat \<Rightarrow> nat) \<Rightarrow> int \<Rightarrow> 'a row_scheme \<Rightarrow> 'a row_scheme" where
  "mark_row m t r = r\<lparr>deleted := m (rid r), deleted_at := Some t\<rparr>"

lemma soft_delete_rows:
  "snd (soft_delete L t P rows) = map (\<lambda>r. if P r then mark_row (del_mark L) t r else r) rows"
  by (simp add: soft_delete_def mark_row_def cong: if_cong)

lemma filter_marked:
  "(\<And>i. 0 < m i) \<Longrightarrow>
   filter (\<lambda>r. deleted r = 0) (map (\<lambda>r. if deleted r = 0 \<and> P r then mark_row m t r else r) rows) =
   filter (\<lambda>r. \<not> P r) (filter (\<lambda>r. deleted r = 0) rows)"
  by (induction rows) (auto simp: mark_row_def less_numeral_extra)

lemma uniq_column_soft:
  assumes d: "distinct (map (\<lambda>r. (nm r, deleted r)) rows)" and ids: "ids_ok rows"
    and marks: "\<forall>r \<in> set rows. deleted r = 0 \<or> deleted r = m (rid r)" and "inj m" and pos: "\<And>i. 0 < m i"
    and nm: "\<And>r. nm (mark_row m t r) = nm r"
  shows "distinct (map (\<lambda>r. (nm r, deleted r)) (map (\<lambda>r. if P r then mark_row m t r else r) rows))"
proof -
  let ?g = "\<lambda>r. if P r then mark_row m t r else r"
  have "distinct (map (\<lambda>r. (nm (?g r), deleted (?g r))) rows)"
  proof (rule distinct_mapI [OF distinct_rows [OF ids]])
    fix r q
    assume rq: "r \<in> set rows" "q \<in> set rows"
      and eq: "(nm (?g r), deleted (?g r)) = (nm (?g q), deleted (?g q))"
    have nm_eq: "nm r = nm q" using eq nm by (auto split: if_splits)
    have zero: "deleted (?g r) = 0 \<longleftrightarrow> \<not> P r \<and> deleted r = 0" for r
      using pos [of "rid r"] by (auto simp: mark_row_def)
    have mark: "deleted (?g r) \<noteq> 0 \<Longrightarrow> r \<in> set rows \<Longrightarrow> deleted (?g r) = m (rid r)" for r
      using marks by (auto simp: mark_row_def)
    show "r = q"
    proof (cases "deleted (?g r) = 0")
      case True
      then have "deleted r = 0" "deleted q = 0" using zero eq by (metis prod.inject)+
      then show ?thesis using d nm_eq rq by (auto simp: distinct_map inj_on_def)
    next
      case False
      then have "m (rid r) = m (rid q)" using mark rq eq by (metis prod.inject)
      then show ?thesis using \<open>inj m\<close> ids_inj [OF ids rq] by (auto dest: injD)
    qed
  qed
  then show ?thesis by (simp add: o_def)
qed

text \<open>The row that an INSERT stores.\<close>

definition stamped :: "(('n, 'k) world, 'a row_scheme) tbl \<Rightarrow> 'a row_scheme \<Rightarrow> ('n, 'k) world \<Rightarrow> 'a row_scheme" where
  "stamped T v w = v\<lparr>rid := fresh_id (t_get T w), created_at := Some (clock w), updated_at := None,
     deleted_at := None, deleted := 0\<rparr>"

section \<open>The contract\<close>

locale table_store =
  fixes T :: "(('n, 'k) world, 'a row_scheme) tbl"
  assumes get_put [simp]: "t_get T (t_put T rows w) = rows"
    and uniq_key: "t_uniq T rows \<Longrightarrow> distinct (map (t_key T) rows)"
    and key_stamp [simp]: "t_key T (r\<lparr>rid := i, created_at := c, updated_at := u, deleted_at := d, deleted := m\<rparr>) = t_key T r"
    and key_touch [simp]: "t_key T (r\<lparr>updated_at := u\<rparr>) = t_key T r"
    and key_mark [simp]: "t_key T (mark_row f t r) = t_key T r"
    and uniq_soft: "t_uniq T rows \<Longrightarrow> ids_ok rows \<Longrightarrow>
      \<forall>r \<in> set rows. deleted r = 0 \<or> deleted r = f (rid r) \<Longrightarrow> inj f \<Longrightarrow> (\<And>i. 0 < f i) \<Longrightarrow>
      t_uniq T (map (\<lambda>r. if P r then mark_row f t r else r) rows)"
begin

lemma ok_keys: "table_ok L T w \<Longrightarrow> distinct (map (t_key T) (t_get T w))"
  by (simp add: table_ok_def uniq_key)

lemma created_live:
  assumes "table_ok L T w" and ins: "insert_row (t_uniq T) (clock w) v (t_get T w) = Inr rows'"
  shows "rows' = t_get T w @ [stamped T v w] \<and> live T w (t_key T v) = None \<and>
    live T (t_put T rows' w) = (live T w)(t_key T v \<mapsto> stamped T v w) \<and> table_ok L T (t_put T rows' w)"
proof -
  have rows': "rows' = t_get T w @ [stamped T v w]" "t_uniq T rows'"
    using ins by (auto simp: insert_row_def Let_def stamped_def split: if_splits)
  have st: "t_key T (stamped T v w) = t_key T v" "deleted (stamped T v w) = 0" by (simp_all add: stamped_def)
  let ?w = "t_put T rows' w"
  have keys: "distinct (map (t_key T) (t_get T ?w))" unfolding get_put by (rule uniq_key [OF rows'(2)])
  have live': "live T ?w x = ((live T w)(t_key T v \<mapsto> stamped T v w)) x" for x
  proof (cases "x = t_key T v")
    case True
    have "live T ?w x = Some (stamped T v w)"
      unfolding live_Some [OF keys] get_put using True rows'(1) st by simp
    with True show ?thesis by simp
  next
    case False
    have "live T ?w x = live T w x"
      by (rule live_cong, unfold live_Some [OF keys] live_Some [OF ok_keys [OF assms(1)]] get_put)
        (use False rows'(1) st in auto)
    with False show ?thesis by simp
  qed
  have none: "live T w (t_key T v) = None"
  proof (rule ccontr)
    assume "live T w (t_key T v) \<noteq> None"
    then obtain q where "q \<in> set (t_get T w)" "t_key T q = t_key T v"
      using live_Some [OF ok_keys [OF assms(1)]] by blast
    then show False using keys rows'(1) st by (auto simp: image_iff)
  qed
  have "ids_ok rows'" using insert_row_ids [OF ins] assms(1) by (simp add: table_ok_def)
  then have "table_ok L T ?w" using rows' assms(1) by (auto simp: table_ok_def stamped_def)
  with none live' rows'(1) show ?thesis by (auto simp: fun_eq_iff)
qed

lemma create_eq:
  assumes "live_ctx ctx" and "table_ok L T w"
  shows "row_create T ctx dup nf v w = (case insert_row (t_uniq T) (clock w) v (t_get T w) of
      Inl d \<Rightarrow> (Inl (dup d), w) | Inr rows' \<Rightarrow> (Inr (stamped T v w), t_put T rows' w))"
proof (cases "insert_row (t_uniq T) (clock w) v (t_get T w)")
  case (Inl d)
  then show ?thesis by (simp add: row_create_def comp_defs liftE_def utcnow_def)
next
  case (Inr rows')
  have "row_get T ctx (\<lambda>q. t_key T q = t_key T v) nf (t_put T rows' w) = (Inr (stamped T v w), t_put T rows' w)"
  proof -
    have "live T (t_put T rows' w) (t_key T v) = Some (stamped T v w)"
      using created_live [OF assms(2) Inr] by (elim conjE) (simp only: fun_upd_same)
    then show ?thesis by (simp only: row_get_live [OF assms(1)] option.case)
  qed
  with Inr show ?thesis by (simp add: row_create_def comp_defs liftE_def utcnow_def)
qed

lemma create_live:
  assumes "live_ctx ctx" and "table_ok L T w" and run: "row_create T ctx dup nf v w = (Inr r, w')"
  shows "live T w (t_key T v) = None \<and> live T w' = (live T w)(t_key T v \<mapsto> r) \<and> table_ok L T w'
    \<and> r = stamped T v w \<and> w' = t_put T (t_get T w @ [r]) w"
  using run created_live [OF assms(2), of v]
  by (auto simp: create_eq [OF assms(1,2)] split: sum.splits)

lemma create_raises:
  assumes "live_ctx ctx" and "table_ok L T w" and run: "row_create T ctx dup nf v w = (Inl e, w')"
  shows "w' = w \<and> (\<exists>d. e = dup d \<and> cls_of d = DBDuplicateEntry) \<and>
    \<not> t_uniq T (t_get T w @ [stamped T v w])"
  using run
  by (auto simp: create_eq [OF assms(1,2)] insert_row_def Let_def stamped_def split: if_splits)

lemma update_missing:
  "live_ctx ctx \<Longrightarrow> live T w key = None \<Longrightarrow> row_update T ctx dup nf key f w = (Inl nf, w)"
  by (simp add: row_update_def comp_defs row_get_live)

lemma update_live:
  assumes ctx: "live_ctx ctx" and ok: "table_ok L T w"
    and f: "\<And>q. rid (f q) = rid q" "\<And>q. deleted (f q) = deleted q" "\<And>q. deleted_at (f q) = deleted_at q"
      "\<And>q. t_key T (f q) = t_key T q"
    and run: "row_update T ctx dup nf key f w = (Inr r', w')"
  shows "\<exists>r rows. live T w key = Some r \<and> live T w' = (live T w)(key \<mapsto> r') \<and> table_ok L T w' \<and>
    r' = (if f r = r then r else (f r)\<lparr>updated_at := Some (clock w)\<rparr>) \<and> w' = t_put T rows w"
proof -
  obtain r where r: "live T w key = Some r"
    using run by (cases "live T w key") (auto simp: update_missing [OF ctx])
  have get: "row_get T ctx (\<lambda>r. t_key T r = key) nf w = (Inr r, w)"
    using row_get_live [OF ctx, of T key nf w] r by simp
  obtain rows' where upd: "update_row (t_uniq T) (clock w) (rid r) f (t_get T w) = Inr rows'"
    using run get by (cases "update_row (t_uniq T) (clock w) (rid r) f (t_get T w)")
      (auto simp: row_update_def comp_defs liftE_def utcnow_def)
  let ?g = "\<lambda>q. if rid q = rid r \<and> f q \<noteq> q then (f q)\<lparr>updated_at := Some (clock w)\<rparr> else q"
  have rows': "rows' = map ?g (t_get T w)" "t_uniq T rows'"
    using upd by (auto simp: update_row_def Let_def split: if_splits)
  let ?w = "t_put T rows' w"
  have mem: "r \<in> set (t_get T w)" "deleted r = 0" "t_key T r = key"
    using r live_Some [OF ok_keys [OF ok]] by auto
  have ids: "ids_ok (t_get T w)" using ok by (simp add: table_ok_def)
  have only: "q \<in> set (t_get T w) \<Longrightarrow> rid q = rid r \<Longrightarrow> q = r" for q
    using ids_inj [OF ids _ mem(1)] by blast
  have keys: "distinct (map (t_key T) (t_get T ?w))" unfolding get_put by (rule uniq_key [OF rows'(2)])
  have live': "live T ?w x = ((live T w)(key \<mapsto> ?g r)) x" for x
  proof (cases "x = key")
    case True
    have "?g r \<in> set rows'" using rows' mem by auto
    then have "live T ?w x = Some (?g r)"
      unfolding live_Some [OF keys] get_put using True mem f by auto
    with True show ?thesis by simp
  next
    case False
    have "live T ?w x = live T w x"
    proof (rule live_cong)
      fix q
      have "q \<in> set rows' \<and> deleted q = 0 \<and> t_key T q = x \<longleftrightarrow>
            q \<in> set (t_get T w) \<and> deleted q = 0 \<and> t_key T q = x"
      proof (intro iffI conjI; elim conjE)
        assume q: "q \<in> set rows'" "deleted q = 0" "t_key T q = x"
        then obtain p where p: "p \<in> set (t_get T w)" "q = ?g p" unfolding rows'(1) by auto
        have "rid p \<noteq> rid r" using only [OF p(1)] p(2) q(3) mem f False by (auto split: if_splits)
        then show "q \<in> set (t_get T w)" using p by simp
      next
        assume q: "q \<in> set (t_get T w)" "deleted q = 0" "t_key T q = x"
        then have "rid q \<noteq> rid r" using only mem False by auto
        then have "q = ?g q" by simp
        then show "q \<in> set rows'" unfolding rows'(1) set_map by (rule image_eqI) (rule q(1))
      qed
      then show "(live T ?w x = Some q) = (live T w x = Some q)"
        unfolding live_Some [OF keys] live_Some [OF ok_keys [OF ok]] get_put .
    qed
    with False show ?thesis by simp
  qed
  have "t_key T (f r) = key" using f mem by simp
  then have "row_get T ctx (\<lambda>q. t_key T q = t_key T (f r)) nf ?w = (Inr (?g r), ?w)"
    using row_get_live [OF ctx, of T key nf ?w] live' by simp
  then have r': "r' = ?g r" "w' = ?w" using run upd get
    by (simp_all add: row_update_def comp_defs liftE_def utcnow_def)
  have "ids_ok rows'" using update_row_ids [OF upd f(1) ids] .
  moreover have "\<forall>q \<in> set rows'. deleted q = 0 \<and> deleted_at q = None \<or>
      deleted q = del_mark L (rid q) \<and> deleted_at q \<noteq> None"
    using ok f unfolding rows'(1) table_ok_def by auto
  ultimately have "table_ok L T ?w" using rows' by (simp add: table_ok_def)
  moreover have "live T ?w = (live T w)(key \<mapsto> ?g r)" using live' by (simp add: fun_eq_iff)
  ultimately show ?thesis using r r' by auto
qed

lemma soft_delete_live:
  assumes ctx: "live_ctx ctx" and ok: "table_ok L T w" and L: "lib_ok L"
    and run: "row_soft_delete L T ctx P w = (res, w')"
  shows "(\<exists>rows. w' = t_put T rows w) \<and> table_ok L T w' \<and>
    live T w' = (\<lambda>x. case live T w x of None \<Rightarrow> None | Some r \<Rightarrow> if P r then None else Some r) \<and>
    res = Inr (card {x. \<exists>r. live T w x = Some r \<and> P r})"
proof -
  let ?P = "\<lambda>r. deleted r = 0 \<and> P r"
  let ?g = "\<lambda>r. if ?P r then mark_row (del_mark L) (clock w) r else r"
  have w': "w' = t_put T (map ?g (t_get T w)) w" and res: "res = Inr (length (filter ?P (t_get T w)))"
    using run ctx by (auto simp: row_soft_delete_def comp_defs liftE_def utcnow_def model_query_live
      soft_delete_def mark_row_def cong: if_cong)
  have ids: "ids_ok (t_get T w)" and u: "t_uniq T (t_get T w)"
    and dated: "\<forall>r \<in> set (t_get T w). deleted r = 0 \<and> deleted_at r = None \<or>
      deleted r = del_mark L (rid r) \<and> deleted_at r \<noteq> None"
    using ok by (simp_all add: table_ok_def)
  then have marks: "\<forall>r \<in> set (t_get T w). deleted r = 0 \<or> deleted r = del_mark L (rid r)" by blast
  have pos: "0 < del_mark L i" and inj: "inj (del_mark L)" for i using L by (simp_all add: lib_ok_def)
  have u': "t_uniq T (map ?g (t_get T w))" by (rule uniq_soft [OF u ids marks inj pos])
  have rid: "map rid (map ?g (t_get T w)) = map rid (t_get T w)"
    by (simp add: o_def mark_row_def if_distrib cong: if_cong)
  have "ids_ok (map ?g (t_get T w))" using soft_delete_ids [OF ids, of L "clock w" ?P]
    by (simp add: soft_delete_rows)
  moreover have "\<forall>r \<in> set (map ?g (t_get T w)). deleted r = 0 \<and> deleted_at r = None \<or>
      deleted r = del_mark L (rid r) \<and> deleted_at r \<noteq> None"
    using dated by (auto simp: mark_row_def)
  ultimately have ok': "table_ok L T w'" using u' w' by (simp add: table_ok_def)
  have live': "live T w' x = (case live T w x of None \<Rightarrow> None | Some r \<Rightarrow> if P r then None else Some r)" for x
  proof -
    have filt: "filter (\<lambda>r. deleted r = 0) (map ?g (t_get T w)) =
        filter (\<lambda>r. \<not> P r) (filter (\<lambda>r. deleted r = 0) (t_get T w))"
      by (rule filter_marked) (rule pos)
    show ?thesis unfolding live_def w' get_put filt
      by (subst map_of_filter_key [OF distinct_map_filter [OF ok_keys [OF ok]]])
        (simp split: option.split)
  qed
  have "card {x. \<exists>r. live T w x = Some r \<and> P r} = length (filter ?P (t_get T w))"
  proof -
    have "{x. \<exists>r. live T w x = Some r \<and> P r} = set (map (t_key T) (filter ?P (t_get T w)))"
      unfolding live_Some [OF ok_keys [OF ok]] by auto
    also have "card \<dots> = length (filter ?P (t_get T w))"
      by (simp only: distinct_card [OF distinct_map_filter [OF ok_keys [OF ok]]] length_map)
    finally show ?thesis .
  qed
  moreover have "\<exists>rows. w' = t_put T rows w" using w' by blast
  ultimately show ?thesis using ok' live' res by (simp add: fun_eq_iff)
qed

text \<open>An update that keeps the unique constraints succeeds.\<close>

lemma update_ok:
  assumes ctx: "live_ctx ctx" and ok: "table_ok L T w"
    and f: "\<And>q. rid (f q) = rid q" "\<And>q. deleted (f q) = deleted q" "\<And>q. deleted_at (f q) = deleted_at q"
      "\<And>q. t_key T (f q) = t_key T q"
    and r: "live T w key = Some r"
    and u: "t_uniq T (map (\<lambda>q. if rid q = rid r \<and> f q \<noteq> q then (f q)\<lparr>updated_at := Some (clock w)\<rparr> else q) (t_get T w))"
  shows "\<exists>r' rows. row_update T ctx dup nf key f w = (Inr r', t_put T rows w) \<and>
    live T (t_put T rows w) = (live T w)(key \<mapsto> r') \<and> table_ok L T (t_put T rows w) \<and>
    r' = (if f r = r then r else (f r)\<lparr>updated_at := Some (clock w)\<rparr>)"
proof -
  let ?rows = "map (\<lambda>q. if rid q = rid r \<and> f q \<noteq> q then (f q)\<lparr>updated_at := Some (clock w)\<rparr> else q) (t_get T w)"
  have upd: "update_row (t_uniq T) (clock w) (rid r) f (t_get T w) = Inr ?rows"
    using u by (simp add: update_row_def Let_def)
  have "\<exists>x w'. row_update T ctx dup nf key f w = (x, w')" by simp
  then obtain x w' where run: "row_update T ctx dup nf key f w = (x, w')" by blast
  have "t_key T (f r) = key" using f(4) live_Some [OF ok_keys [OF ok]] r by simp
  moreover have "live T (t_put T ?rows w) key \<noteq> None"
  proof -
    let ?g = "if f r \<noteq> r then (f r)\<lparr>updated_at := Some (clock w)\<rparr> else r"
    have keys: "distinct (map (t_key T) (t_get T (t_put T ?rows w)))"
      unfolding get_put by (rule uniq_key [OF u])
    have m: "r \<in> set (t_get T w)" "deleted r = 0" "t_key T r = key" using r live_Some [OF ok_keys [OF ok]] by auto
    then have "?g \<in> set ?rows" "deleted ?g = 0" "t_key T ?g = key" using f by auto
    then have "live T (t_put T ?rows w) key = Some ?g" unfolding live_Some [OF keys] get_put by simp
    then show ?thesis by simp
  qed
  ultimately have "\<exists>r'. x = Inr r'"
    using run upd by (auto simp: row_update_def comp_defs liftE_def utcnow_def row_get_live [OF ctx] r split: option.splits)
  then obtain r' where x: "x = Inr r'" by blast
  show ?thesis using update_live [OF ctx ok f run [unfolded x]] run x r by auto
qed

end

text \<open>
  Four of the six tables have no unique constraint but the one on their key. There an update of
  a live row that keeps the key always succeeds.
\<close>

locale keyed_store = table_store +
  assumes uniq_iff: "t_uniq T rows \<longleftrightarrow> distinct (map (t_key T) rows)"
begin

lemma update_total:
  assumes ctx: "live_ctx ctx" and ok: "table_ok L T w"
    and f: "\<And>q. rid (f q) = rid q" "\<And>q. deleted (f q) = deleted q" "\<And>q. deleted_at (f q) = deleted_at q"
      "\<And>q. t_key T (f q) = t_key T q"
    and r: "live T w key = Some r"
  shows "\<exists>r' rows. row_update T ctx dup nf key f w = (Inr r', t_put T rows w) \<and>
    live T (t_put T rows w) = (live T w)(key \<mapsto> r') \<and> table_ok L T (t_put T rows w) \<and>
    r' = (if f r = r then r else (f r)\<lparr>updated_at := Some (clock w)\<rparr>)"
proof (rule update_ok [OF ctx ok f r])
  let ?rows = "map (\<lambda>q. if rid q = rid r \<and> f q \<noteq> q then (f q)\<lparr>updated_at := Some (clock w)\<rparr> else q) (t_get T w)"
  have "map (t_key T) ?rows = map (t_key T) (t_get T w)" using f(4) by simp
  then show "t_uniq T ?rows" unfolding uniq_iff using ok_keys [OF ok] by (simp only:)
qed

end

section \<open>Loops over rows\<close>

text \<open>
  A loop over rows with different keys, each still stored when its turn comes, whose body replaces
  that row alone: afterwards every row of the loop has been replaced by what its turn made of it
  (\<open>P\<close> when the turn returned, \<open>E\<close> when it raised, and only then does the loop raise), and no
  other row has changed.
\<close>

lemma wp_forM_rows:
  assumes step: "\<And>x t. x \<in> set xs \<Longrightarrow> I t \<Longrightarrow> live T t (key x) = Some x \<Longrightarrow>
      wp (f x) (\<lambda>_ t'. I t' \<and> (\<exists>y. live T t' = (live T t)(key x \<mapsto> y) \<and> P x y))
        (\<lambda>_ t'. I t' \<and> (\<exists>y. live T t' = (live T t)(key x \<mapsto> y) \<and> E x y)) t"
    and "distinct (map key xs)" and "\<forall>x \<in> set xs. live T s (key x) = Some x" and "I s"
  shows "wp (forM xs f)
    (\<lambda>_ t. I t \<and> (\<forall>u. u \<notin> key ` set xs \<longrightarrow> live T t u = live T s u) \<and>
       (\<forall>x \<in> set xs. \<exists>y. live T t (key x) = Some y \<and> P x y))
    (\<lambda>_ t. I t \<and> (\<forall>u. u \<notin> key ` set xs \<longrightarrow> live T t u = live T s u) \<and>
       (\<forall>x \<in> set xs. \<exists>y. live T t (key x) = Some y \<and> (P x y \<or> E x y \<or> y = x)) \<and> (\<exists>x \<in> set xs. \<exists>y. E x y)) s"
  using assms
proof (induction xs arbitrary: s)
  case Nil
  then show ?case by (simp add: wp_retM)
next
  case (Cons x xs)
  show ?case unfolding forM.simps wp_bindM
  proof (rule wp_mono [OF Cons.prems(1)])
    show "x \<in> set (x # xs)" "I s" "live T s (key x) = Some x" using Cons.prems by auto
    fix a t
    assume t: "I t \<and> (\<exists>y. live T t = (live T s)(key x \<mapsto> y) \<and> P x y)"
    then obtain y where y: "live T t = (live T s)(key x \<mapsto> y)" "P x y" by blast
    have x: "key x \<notin> key ` set xs" using Cons.prems(2) by simp
    then have "\<forall>z \<in> set xs. live T t (key z) = Some z" using Cons.prems(3) y by (auto simp: image_iff)
    with t Cons.prems have "wp (forM xs f)
      (\<lambda>_ t'. I t' \<and> (\<forall>u. u \<notin> key ` set xs \<longrightarrow> live T t' u = live T t u) \<and>
         (\<forall>x \<in> set xs. \<exists>y. live T t' (key x) = Some y \<and> P x y))
      (\<lambda>_ t'. I t' \<and> (\<forall>u. u \<notin> key ` set xs \<longrightarrow> live T t' u = live T t u) \<and>
         (\<forall>x \<in> set xs. \<exists>y. live T t' (key x) = Some y \<and> (P x y \<or> E x y \<or> y = x)) \<and> (\<exists>x \<in> set xs. \<exists>y. E x y)) t"
      by (intro Cons.IH) auto
    then show "wp (forM xs f)
      (\<lambda>_ t. I t \<and> (\<forall>u. u \<notin> key ` set (x # xs) \<longrightarrow> live T t u = live T s u) \<and>
         (\<forall>x \<in> set (x # xs). \<exists>y. live T t (key x) = Some y \<and> P x y))
      (\<lambda>_ t. I t \<and> (\<forall>u. u \<notin> key ` set (x # xs) \<longrightarrow> live T t u = live T s u) \<and>
         (\<forall>x \<in> set (x # xs). \<exists>y. live T t (key x) = Some y \<and> (P x y \<or> E x y \<or> y = x)) \<and> (\<exists>x \<in> set (x # xs). \<exists>y. E x y)) t"
      by (rule wp_mono) (use x y in auto)
  next
    fix e t
    assume t: "I t \<and> (\<exists>y. live T t = (live T s)(key x \<mapsto> y) \<and> E x y)"
    then obtain y where y: "live T t = (live T s)(key x \<mapsto> y)" "E x y" by blast
    have "key x \<notin> key ` set xs" using Cons.prems(2) by simp
    with t y Cons.prems(3) show "I t \<and> (\<forall>u. u \<notin> key ` set (x # xs) \<longrightarrow> live T t u = live T s u) \<and>
         (\<forall>x \<in> set (x # xs). \<exists>y. live T t (key x) = Some y \<and> (P x y \<or> E x y \<or> y = x)) \<and>
         (\<exists>x \<in> set (x # xs). \<exists>y. E x y)"
      by (auto simp: image_iff)
  qed
qed

end
