(* ===== verification/Masakari_DB.thy ===== *)
theory Masakari_DB
  imports Masakari_Tables
begin

text \<open>
  \<open>masakari/db/sqlalchemy/api.py\<close>: the functions of the database layer, one definition per
  function, on the tables of the state. A dictionary of column values becomes a record of
  optional values (\<open>None\<close> for a key that is not there), a dictionary of filters a record of
  \<open>sel\<close>. Every table is an interpretation of \<open>table_store\<close>.
\<close>

section \<open>The tables\<close>

definition segments_tbl :: "(('n, 'k) world, segment) tbl" where
  "segments_tbl = \<lparr>t_get = segments, t_put = (\<lambda>rows w. w\<lparr>segments := rows\<rparr>), t_uniq = uniq_segments, t_key = sg_uuid\<rparr>"

definition hosts_tbl :: "(('n, 'k) world, host) tbl" where
  "hosts_tbl = \<lparr>t_get = hosts, t_put = (\<lambda>rows w. w\<lparr>hosts := rows\<rparr>), t_uniq = uniq_hosts, t_key = h_uuid\<rparr>"

definition notifications_tbl :: "(('n, 'k) world, notification) tbl" where
  "notifications_tbl = \<lparr>t_get = notifications, t_put = (\<lambda>rows w. w\<lparr>notifications := rows\<rparr>), t_uniq = uniq_notifications, t_key = n_uuid\<rparr>"

definition vmoves_tbl :: "(('n, 'k) world, vmove) tbl" where
  "vmoves_tbl = \<lparr>t_get = vmoves, t_put = (\<lambda>rows w. w\<lparr>vmoves := rows\<rparr>), t_uniq = uniq_vmoves, t_key = vm_uuid\<rparr>"

definition drafts_tbl :: "(('n, 'k) world, draft) tbl" where
  "drafts_tbl = \<lparr>t_get = drafts, t_put = (\<lambda>rows w. w\<lparr>drafts := rows\<rparr>), t_uniq = uniq_drafts, t_key = d_uuid\<rparr>"

definition apply_jobs_tbl :: "(('n, 'k) world, apply_job) tbl" where
  "apply_jobs_tbl = \<lparr>t_get = apply_jobs, t_put = (\<lambda>rows w. w\<lparr>apply_jobs := rows\<rparr>), t_uniq = uniq_apply_jobs, t_key = j_uuid\<rparr>"

lemmas tbl_defs = segments_tbl_def hosts_tbl_def notifications_tbl_def vmoves_tbl_def drafts_tbl_def
  apply_jobs_tbl_def

lemma uniq_key_soft:
  "distinct (map k rows) \<Longrightarrow> (\<And>r. k (mark_row f t r) = k r) \<Longrightarrow>
   distinct (map k (map (\<lambda>r. if P r then mark_row f t r else r) rows))"
  by (simp add: o_def if_distrib cong: if_cong)

lemma mark_row_columns [simp]:
  "sg_uuid (mark_row f t sg) = sg_uuid sg" "sg_name (mark_row f t sg) = sg_name sg"
  "h_uuid (mark_row f t h) = h_uuid h" "h_name (mark_row f t h) = h_name h"
  "n_uuid (mark_row f t n) = n_uuid n" "vm_uuid (mark_row f t v) = vm_uuid v"
  "d_uuid (mark_row f t d) = d_uuid d" "j_uuid (mark_row f t j) = j_uuid j"
  by (simp_all add: mark_row_def)

interpretation segments_store: table_store segments_tbl
  by unfold_locales
    (auto simp: segments_tbl_def uniq_segments_def simp del: map_map intro: uniq_key_soft uniq_column_soft)

interpretation hosts_store: table_store hosts_tbl
  by unfold_locales
    (auto simp: hosts_tbl_def uniq_hosts_def simp del: map_map intro: uniq_key_soft uniq_column_soft)

interpretation notifications_store: keyed_store notifications_tbl
  by unfold_locales (auto simp: notifications_tbl_def uniq_notifications_def simp del: map_map intro!: uniq_key_soft)

interpretation vmoves_store: keyed_store vmoves_tbl
  by unfold_locales (auto simp: vmoves_tbl_def uniq_vmoves_def simp del: map_map intro!: uniq_key_soft)

interpretation drafts_store: keyed_store drafts_tbl
  by unfold_locales (auto simp: drafts_tbl_def uniq_drafts_def simp del: map_map intro!: uniq_key_soft)

interpretation apply_jobs_store: keyed_store apply_jobs_tbl
  by unfold_locales (auto simp: apply_jobs_tbl_def uniq_apply_jobs_def simp del: map_map intro!: uniq_key_soft)

section \<open>Column values\<close>

text \<open>\<open>d.update(values)\<close>: a column whose key is absent keeps its value.\<close>

definition upd :: "'v option \<Rightarrow> 'v \<Rightarrow> 'v" where
  "upd x v = (case x of None \<Rightarrow> v | Some y \<Rightarrow> y)"

lemma upd_simps [simp]: "upd None v = v" "upd (Some y) v = y"
  by (simp_all add: upd_def)

record segment_values =
  su_name :: "string option"
  su_service_type :: "string option"
  su_enabled :: "bool option"
  su_description :: "(string option) option"
  su_recovery_method :: "recovery_method option"

definition set_segment :: "segment_values \<Rightarrow> segment \<Rightarrow> segment" where
  "set_segment u r = r\<lparr>sg_name := upd (su_name u) (sg_name r), sg_service_type := upd
     (su_service_type u) (sg_service_type r), sg_enabled := upd (su_enabled u) (sg_enabled r),
     sg_description := upd (su_description u) (sg_description r), sg_recovery_method := upd
     (su_recovery_method u) (sg_recovery_method r)\<rparr>"

abbreviation no_segment_values :: segment_values where
  "no_segment_values \<equiv> \<lparr>su_name = None, su_service_type = None, su_enabled = None, su_description = None, su_recovery_method = None\<rparr>"

record host_values =
  hu_name :: "string option"
  hu_reserved :: "bool option"
  hu_type :: "string option"
  hu_control_attributes :: "string option"
  hu_on_maintenance :: "bool option"

definition set_host :: "host_values \<Rightarrow> host \<Rightarrow> host" where
  "set_host u r = r\<lparr>h_name := upd (hu_name u) (h_name r), h_reserved := upd (hu_reserved
     u) (h_reserved r), h_type := upd (hu_type u) (h_type r), h_control_attributes := upd
     (hu_control_attributes u) (h_control_attributes r), h_on_maintenance := upd
     (hu_on_maintenance u) (h_on_maintenance r)\<rparr>"

abbreviation no_host_values :: host_values where
  "no_host_values \<equiv> \<lparr>hu_name = None, hu_reserved = None, hu_type = None, hu_control_attributes = None, hu_on_maintenance = None\<rparr>"

record notification_values =
  nu_status :: "notification_status option"

definition set_notification :: "notification_values \<Rightarrow> notification \<Rightarrow> notification" where
  "set_notification u r = r\<lparr>n_status := upd (nu_status u) (n_status r)\<rparr>"

abbreviation no_notification_values :: notification_values where
  "no_notification_values \<equiv> \<lparr>nu_status = None\<rparr>"

record vmove_values =
  vu_source_host :: "(string option) option"
  vu_dest_host :: "(string option) option"
  vu_start_time :: "(int option) option"
  vu_end_time :: "(int option) option"
  vu_type :: "(vmove_type option) option"
  vu_status :: "(vmove_status option) option"
  vu_message :: "(string option) option"

definition set_vmove :: "vmove_values \<Rightarrow> vmove \<Rightarrow> vmove" where
  "set_vmove u r = r\<lparr>vm_source_host := upd (vu_source_host u) (vm_source_host r),
     vm_dest_host := upd (vu_dest_host u) (vm_dest_host r), vm_start_time := upd (vu_start_time
     u) (vm_start_time r), vm_end_time := upd (vu_end_time u) (vm_end_time r), vm_type := upd
     (vu_type u) (vm_type r), vm_status := upd (vu_status u) (vm_status r), vm_message := upd
     (vu_message u) (vm_message r)\<rparr>"

abbreviation no_vmove_values :: vmove_values where
  "no_vmove_values \<equiv> \<lparr>vu_source_host = None, vu_dest_host = None, vu_start_time = None, vu_end_time = None, vu_type = None, vu_status = None, vu_message = None\<rparr>"

record draft_values =
  du_name :: "json option"
  du_status :: "string option"
  du_values :: "json option"
  du_comment :: "json option"
  du_validation :: "(json option) option"
  du_plan :: "(json option) option"

definition set_draft :: "draft_values \<Rightarrow> draft \<Rightarrow> draft" where
  "set_draft u r = r\<lparr>d_name := upd (du_name u) (d_name r), d_status := upd (du_status u) (d_status r),
     d_values := upd (du_values u) (d_values r), d_comment := upd (du_comment u) (d_comment r), d_validation := upd
     (du_validation u) (d_validation r), d_plan := upd (du_plan u) (d_plan r)\<rparr>"

abbreviation no_draft_values :: draft_values where
  "no_draft_values \<equiv> \<lparr>du_name = None, du_status = None, du_values = None, du_comment = None, du_validation = None, du_plan = None\<rparr>"

record apply_job_values =
  ju_status :: "string option"
  ju_plan :: "(json option) option"
  ju_result :: "(json option) option"
  ju_errors :: "(json option) option"

definition set_apply_job :: "apply_job_values \<Rightarrow> apply_job \<Rightarrow> apply_job" where
  "set_apply_job u r = r\<lparr>j_status := upd (ju_status u) (j_status r), j_plan := upd
     (ju_plan u) (j_plan r), j_result := upd (ju_result u) (j_result r), j_errors := upd
     (ju_errors u) (j_errors r)\<rparr>"

abbreviation no_apply_job_values :: apply_job_values where
  "no_apply_job_values \<equiv> \<lparr>ju_status = None, ju_plan = None, ju_result = None, ju_errors = None\<rparr>"

lemmas set_defs = set_segment_def set_host_def set_notification_def set_vmove_def set_draft_def
  set_apply_job_def

lemma set_base [simp]:
  "rid (set_segment su sg) = rid sg" "deleted (set_segment su sg) = deleted sg"
  "deleted_at (set_segment su sg) = deleted_at sg" "sg_uuid (set_segment su sg) = sg_uuid sg"
  "rid (set_host hu h) = rid h" "deleted (set_host hu h) = deleted h"
  "deleted_at (set_host hu h) = deleted_at h" "h_uuid (set_host hu h) = h_uuid h"
  "h_segment_id (set_host hu h) = h_segment_id h"
  "rid (set_notification nu n) = rid n" "deleted (set_notification nu n) = deleted n"
  "deleted_at (set_notification nu n) = deleted_at n"
  "n_uuid (set_notification nu n) = n_uuid n"
  "rid (set_vmove vu v) = rid v" "deleted (set_vmove vu v) = deleted v"
  "deleted_at (set_vmove vu v) = deleted_at v" "vm_uuid (set_vmove vu v) = vm_uuid v"
  "rid (set_draft du d) = rid d" "deleted (set_draft du d) = deleted d"
  "deleted_at (set_draft du d) = deleted_at d" "d_uuid (set_draft du d) = d_uuid d"
  "rid (set_apply_job ju j) = rid j" "deleted (set_apply_job ju j) = deleted j"
  "deleted_at (set_apply_job ju j) = deleted_at j" "j_uuid (set_apply_job ju j) = j_uuid j"
  by (simp_all add: set_defs)

section \<open>Failover segments\<close>

record segment_filters =
  sf_recovery_method :: "recovery_method sel"
  sf_service_type :: "string sel"
  sf_enabled :: "bool sel"

definition failover_segment_get_all_by_filters ::
  "lib \<Rightarrow> request_context \<Rightarrow> segment_filters \<Rightarrow> string list \<Rightarrow> string list \<Rightarrow> nat option \<Rightarrow> nat option
   \<Rightarrow> ('n, 'k, segment list) prog" where
  "failover_segment_get_all_by_filters L ctx filters = row_list segments_tbl ctx (page_segments L)
     (\<lambda>r. sel_matches (sf_recovery_method filters) (sg_recovery_method r) \<and>
          sel_matches (sf_service_type filters) (sg_service_type r) \<and>
          sel_matches (sf_enabled filters) (sg_enabled r))"

definition failover_segment_get_by_id :: "request_context \<Rightarrow> nat \<Rightarrow> ('n, 'k, segment) prog" where
  "failover_segment_get_by_id ctx i = row_get segments_tbl ctx (\<lambda>r. rid r = i) (mk_FailoverSegmentNotFound (show_nat i))"

definition failover_segment_get_by_uuid :: "request_context \<Rightarrow> string \<Rightarrow> ('n, 'k, segment) prog" where
  "failover_segment_get_by_uuid ctx u = row_get segments_tbl ctx (\<lambda>r. sg_uuid r = u) (mk_FailoverSegmentNotFound u)"

definition failover_segment_get_by_name :: "request_context \<Rightarrow> string \<Rightarrow> ('n, 'k, segment) prog" where
  "failover_segment_get_by_name ctx name = row_get segments_tbl ctx (\<lambda>r. sg_name r = name) (mk_FailoverSegmentNotFoundByName name)"

definition failover_segment_create :: "request_context \<Rightarrow> segment \<Rightarrow> ('n, 'k, segment) prog" where
  "failover_segment_create ctx values = row_create segments_tbl ctx
     (\<lambda>_. mk_FailoverSegmentExists (sg_name values)) (mk_FailoverSegmentNotFound (sg_uuid values)) values"

definition failover_segment_update :: "request_context \<Rightarrow> string \<Rightarrow> segment_values \<Rightarrow> ('n, 'k, segment) prog" where
  "failover_segment_update ctx u values = row_update segments_tbl ctx
     (\<lambda>_. mk_FailoverSegmentExists (case su_name values of None \<Rightarrow> ''None'' | Some n \<Rightarrow> n))
     (mk_FailoverSegmentNotFound u) u (set_segment values)"

definition failover_segment_delete :: "lib \<Rightarrow> request_context \<Rightarrow> string \<Rightarrow> ('n, 'k, unit) prog" where
  "failover_segment_delete L ctx u = writer
     (bindM (row_soft_delete L segments_tbl ctx (\<lambda>r. sg_uuid r = u)) (\<lambda>count.
      if count = 0 then raiseM (mk_FailoverSegmentNotFound u)
      else bindM (row_soft_delete L hosts_tbl ctx (\<lambda>h. h_segment_id h = u)) (\<lambda>_. retM ())))"

text \<open>The \<open>status\<close> filter of the only caller is a list of notification states.\<close>

definition is_failover_segment_under_recovery ::
  "request_context \<Rightarrow> string \<Rightarrow> notification_status sel \<Rightarrow> ('n, 'k, bool) prog" where
  "is_failover_segment_under_recovery ctx u status =
     bindM (getM hosts) (\<lambda>hs. bindM (getM notifications) (\<lambda>ns.
     bindM (liftE (model_query ctx None hs)) (\<lambda>hq. bindM (liftE (model_query ctx None ns)) (\<lambda>nq.
       let inner_select = map h_uuid (filter (\<lambda>h. h_segment_id h = u) hq);
           query = filter (\<lambda>n. sel_matches status (n_status n)) nq;
           query = filter (\<lambda>n. n_source_host_uuid n \<in> set inner_select) query
       in retM (length query > 0)))))"

section \<open>Hosts\<close>

record host_filters =
  hf_segment_id :: "string sel"
  hf_type :: "string sel"
  hf_on_maintenance :: "bool sel"
  hf_reserved :: "bool sel"

definition host_get_all_by_filters ::
  "lib \<Rightarrow> request_context \<Rightarrow> host_filters \<Rightarrow> string list \<Rightarrow> string list \<Rightarrow> nat option \<Rightarrow> nat option
   \<Rightarrow> ('n, 'k, host list) prog" where
  "host_get_all_by_filters L ctx filters = row_list hosts_tbl ctx (page_hosts L)
     (\<lambda>r. sel_matches (hf_segment_id filters) (h_segment_id r) \<and> sel_matches (hf_type filters) (h_type r) \<and>
          sel_matches (hf_on_maintenance filters) (h_on_maintenance r) \<and>
          sel_matches (hf_reserved filters) (h_reserved r))"

text \<open>The segment is given as \<open>None\<close> or as a uuid; an empty uuid counts as none.\<close>

definition host_get_by_uuid :: "request_context \<Rightarrow> string \<Rightarrow> string option \<Rightarrow> ('n, 'k, host) prog" where
  "host_get_by_uuid ctx u segment_uuid = (case segment_uuid of
     None \<Rightarrow> row_get hosts_tbl ctx (\<lambda>r. h_uuid r = u) (mk_HostNotFound u)
   | Some sg \<Rightarrow> if sg = '''' then row_get hosts_tbl ctx (\<lambda>r. h_uuid r = u) (mk_HostNotFound u)
     else row_get hosts_tbl ctx (\<lambda>r. h_uuid r = u \<and> h_segment_id r = sg) (mk_HostNotFoundUnderFailoverSegment u sg))"

definition host_get_by_id :: "request_context \<Rightarrow> nat \<Rightarrow> ('n, 'k, host) prog" where
  "host_get_by_id ctx i = row_get hosts_tbl ctx (\<lambda>r. rid r = i) (mk_HostNotFound (show_nat i))"

definition host_get_by_name :: "request_context \<Rightarrow> string \<Rightarrow> ('n, 'k, host) prog" where
  "host_get_by_name ctx name = row_get hosts_tbl ctx (\<lambda>r. h_name r = name) (mk_HostNotFoundByName name)"

definition host_create :: "request_context \<Rightarrow> host \<Rightarrow> ('n, 'k, host) prog" where
  "host_create ctx values = row_create hosts_tbl ctx (\<lambda>_. mk_HostExists (h_name values))
     (mk_HostNotFound (h_uuid values)) values"

definition host_update :: "request_context \<Rightarrow> string \<Rightarrow> host_values \<Rightarrow> ('n, 'k, host) prog" where
  "host_update ctx u values = row_update hosts_tbl ctx
     (\<lambda>_. mk_HostExists (case hu_name values of None \<Rightarrow> ''None'' | Some n \<Rightarrow> n))
     (mk_HostNotFound u) u (set_host values)"

definition host_delete :: "lib \<Rightarrow> request_context \<Rightarrow> string \<Rightarrow> ('n, 'k, unit) prog" where
  "host_delete L ctx u = writer
     (bindM (row_soft_delete L hosts_tbl ctx (\<lambda>r. h_uuid r = u)) (\<lambda>count.
      if count = 0 then raiseM (mk_HostNotFound u) else retM ()))"

section \<open>Notifications\<close>

record notification_filters =
  nf_source_host_uuid :: "string sel"
  nf_type :: "notification_type sel"
  nf_status :: "notification_status sel"
  nf_generated_since :: "int option"

definition notifications_get_all_by_filters ::
  "lib \<Rightarrow> request_context \<Rightarrow> notification_filters \<Rightarrow> string list \<Rightarrow> string list \<Rightarrow> nat option \<Rightarrow> nat option
   \<Rightarrow> ('n, 'k, notification list) prog" where
  "notifications_get_all_by_filters L ctx filters = row_list notifications_tbl ctx (page_notifications L)
     (\<lambda>r. sel_matches (nf_source_host_uuid filters) (n_source_host_uuid r) \<and>
          sel_matches (nf_type filters) (n_type r) \<and> sel_matches (nf_status filters) (n_status r) \<and>
          (case nf_generated_since filters of None \<Rightarrow> True | Some t \<Rightarrow> t \<le> n_generated_time r))"

definition notification_get_by_uuid :: "request_context \<Rightarrow> string \<Rightarrow> ('n, 'k, notification) prog" where
  "notification_get_by_uuid ctx u = row_get notifications_tbl ctx (\<lambda>r. n_uuid r = u)
     (mk_NotificationNotFound u)"

definition notification_get_by_id :: "request_context \<Rightarrow> nat \<Rightarrow> ('n, 'k, notification) prog" where
  "notification_get_by_id ctx i = row_get notifications_tbl ctx (\<lambda>r. rid r = i) (mk_NotificationNotFound (show_nat i))"

definition notification_create :: "request_context \<Rightarrow> notification \<Rightarrow> ('n, 'k, notification) prog" where
  "notification_create ctx values = row_create notifications_tbl ctx id
     (mk_NotificationNotFound (n_uuid values)) values"

definition notification_update :: "request_context \<Rightarrow> string \<Rightarrow> notification_values \<Rightarrow> ('n, 'k, notification) prog" where
  "notification_update ctx u values = row_update notifications_tbl ctx id (mk_NotificationNotFound u) u
     (set_notification values)"

definition notification_delete :: "lib \<Rightarrow> request_context \<Rightarrow> string \<Rightarrow> ('n, 'k, unit) prog" where
  "notification_delete L ctx u = writer
     (bindM (row_soft_delete L notifications_tbl ctx (\<lambda>r. n_uuid r = u)) (\<lambda>count.
      if count = 0 then raiseM (mk_NotificationNotFound u)
      else bindM (row_soft_delete L vmoves_tbl ctx (\<lambda>v. vm_notification_uuid v = u)) (\<lambda>_. retM ())))"

section \<open>VM moves\<close>

record vmove_filters =
  vf_notification_uuid :: "string sel"
  vf_type :: "vmove_type option sel"
  vf_status :: "vmove_status option sel"

definition vmoves_get_all_by_filters ::
  "lib \<Rightarrow> request_context \<Rightarrow> vmove_filters \<Rightarrow> string list \<Rightarrow> string list \<Rightarrow> nat option \<Rightarrow> nat option
   \<Rightarrow> ('n, 'k, vmove list) prog" where
  "vmoves_get_all_by_filters L ctx filters = row_list vmoves_tbl ctx (page_vmoves L)
     (\<lambda>r. sel_matches (vf_notification_uuid filters) (vm_notification_uuid r) \<and>
          sel_matches (vf_type filters) (vm_type r) \<and> sel_matches (vf_status filters) (vm_status r))"

definition vmove_get_by_uuid :: "request_context \<Rightarrow> string \<Rightarrow> ('n, 'k, vmove) prog" where
  "vmove_get_by_uuid ctx u = row_get vmoves_tbl ctx (\<lambda>r. vm_uuid r = u) (mk_VMoveNotFound u)"

definition vmove_create :: "request_context \<Rightarrow> vmove \<Rightarrow> ('n, 'k, vmove) prog" where
  "vmove_create ctx values = row_create vmoves_tbl ctx id (mk_VMoveNotFound (vm_uuid values)) values"

definition vmove_update :: "request_context \<Rightarrow> string \<Rightarrow> vmove_values \<Rightarrow> ('n, 'k, vmove) prog" where
  "vmove_update ctx u values = row_update vmoves_tbl ctx id (mk_VMoveNotFound u) u (set_vmove values)"

definition vmove_delete :: "lib \<Rightarrow> request_context \<Rightarrow> string \<Rightarrow> ('n, 'k, unit) prog" where
  "vmove_delete L ctx u = writer
     (bindM (row_soft_delete L vmoves_tbl ctx (\<lambda>r. vm_uuid r = u)) (\<lambda>count.
      if count = 0 then raiseM (mk_VMoveNotFound u) else retM ()))"

section \<open>Admin configuration\<close>

definition admin_config_draft_create :: "request_context \<Rightarrow> draft \<Rightarrow> ('n, 'k, draft) prog" where
  "admin_config_draft_create ctx values = row_create drafts_tbl ctx id (mk_ConfigDraftNotFound (d_uuid values)) values"

definition admin_config_draft_get_by_uuid :: "request_context \<Rightarrow> string \<Rightarrow> ('n, 'k, draft) prog" where
  "admin_config_draft_get_by_uuid ctx u = row_get drafts_tbl ctx (\<lambda>r. d_uuid r = u) (mk_ConfigDraftNotFound u)"

definition admin_config_draft_get_all ::
  "lib \<Rightarrow> request_context \<Rightarrow> string sel \<Rightarrow> string list \<Rightarrow> string list \<Rightarrow> nat option \<Rightarrow> nat option
   \<Rightarrow> ('n, 'k, draft list) prog" where
  "admin_config_draft_get_all L ctx status = row_list drafts_tbl ctx (page_drafts L)
     (\<lambda>r. sel_matches status (d_status r))"

definition admin_config_draft_update :: "request_context \<Rightarrow> string \<Rightarrow> draft_values \<Rightarrow> ('n, 'k, draft) prog" where
  "admin_config_draft_update ctx u values = row_update drafts_tbl ctx id (mk_ConfigDraftNotFound u) u (set_draft values)"

definition admin_config_draft_delete :: "lib \<Rightarrow> request_context \<Rightarrow> string \<Rightarrow> ('n, 'k, unit) prog" where
  "admin_config_draft_delete L ctx u = writer
     (bindM (row_soft_delete L drafts_tbl ctx (\<lambda>r. d_uuid r = u)) (\<lambda>count.
      if count = 0 then raiseM (mk_ConfigDraftNotFound u) else retM ()))"

definition admin_config_apply_job_create :: "request_context \<Rightarrow> apply_job \<Rightarrow> ('n, 'k, apply_job) prog" where
  "admin_config_apply_job_create ctx values = row_create apply_jobs_tbl ctx id
     (mk_ConfigApplyJobNotFound (j_uuid values)) values"

definition admin_config_apply_job_get_by_uuid :: "request_context \<Rightarrow> string \<Rightarrow> ('n, 'k, apply_job) prog" where
  "admin_config_apply_job_get_by_uuid ctx u = row_get apply_jobs_tbl ctx (\<lambda>r. j_uuid r = u)
     (mk_ConfigApplyJobNotFound u)"

definition admin_config_apply_job_get_all ::
  "lib \<Rightarrow> request_context \<Rightarrow> string sel \<Rightarrow> string sel \<Rightarrow> string list \<Rightarrow> string list \<Rightarrow> nat option \<Rightarrow> nat option
   \<Rightarrow> ('n, 'k, apply_job list) prog" where
  "admin_config_apply_job_get_all L ctx status draft_uuid = row_list apply_jobs_tbl ctx (page_apply_jobs L)
     (\<lambda>r. sel_matches status (j_status r) \<and> sel_matches draft_uuid (j_draft_uuid r))"

definition admin_config_apply_job_update :: "request_context \<Rightarrow> string \<Rightarrow> apply_job_values \<Rightarrow> ('n, 'k, apply_job) prog" where
  "admin_config_apply_job_update ctx u values = row_update apply_jobs_tbl ctx id (mk_ConfigApplyJobNotFound u) u
     (set_apply_job values)"


section \<open>Purging\<close>

text \<open>
  \<open>purge_deleted_rows\<close> runs over the tables of the database in reverse dependency order, which
  SQLAlchemy computes (\<open>metadata.sorted_tables\<close>): the order is an argument. \<open>T_other\<close> is a
  table without a column \<open>deleted\<close>, which the loop skips.
\<close>

datatype table_name = T_segments | T_hosts | T_notifications | T_vmoves | T_drafts | T_apply_jobs | T_other string

text \<open>The comparison of a nullable column with a date: NULL never matches.\<close>

definition older :: "int option \<Rightarrow> int \<Rightarrow> bool" where
  "older t age = (case t of None \<Rightarrow> False | Some x \<Rightarrow> x < age)"

definition purgeable_notification :: "int \<Rightarrow> notification \<Rightarrow> bool" where
  "purgeable_notification age n \<longleftrightarrow> older (updated_at n) age \<and>
     (n_status n = NS_FINISHED \<or> n_status n = NS_FAILED \<or> n_status n = NS_IGNORED)"

definition purgeable :: "int \<Rightarrow> 'a row_scheme \<Rightarrow> bool" where
  "purgeable age r = older (deleted_at r) age"

definition notification_status_rank :: "notification_status \<Rightarrow> nat" where
  "notification_status_rank st = (case position notification_status_ALL st of None \<Rightarrow> 0 | Some i \<Rightarrow> i)"

definition deleted_at_rank :: "'a row_scheme \<Rightarrow> int" where
  "deleted_at_rank r = (case deleted_at r of None \<Rightarrow> 0 | Some t \<Rightarrow> t)"

text \<open>DELETE of the first rows, in the given order, that a condition selects.\<close>

definition delete_from_select ::
  "nat option \<Rightarrow> ('a row_scheme \<Rightarrow> bool) \<Rightarrow> ('a row_scheme \<Rightarrow> 'b::linorder) \<Rightarrow> 'a row_scheme list \<Rightarrow> nat \<times> 'a row_scheme list" where
  "delete_from_select limit P rank rows =
     (let query = sort_key rank (filter P rows);
          query = (case limit of None \<Rightarrow> query | Some n \<Rightarrow> take n query)
      in (length query, filter (\<lambda>r. rid r \<notin> rid ` set query) rows))"

definition purge_table :: "int \<Rightarrow> nat option \<Rightarrow> table_name \<Rightarrow> ('n, 'k) world \<Rightarrow> nat \<times> ('n, 'k) world" where
  "purge_table age limit t w = (case t of
     T_segments \<Rightarrow> map_prod id (\<lambda>rows. w\<lparr>segments := rows\<rparr>) (delete_from_select limit (purgeable age) deleted_at_rank (segments w))
   | T_hosts \<Rightarrow> map_prod id (\<lambda>rows. w\<lparr>hosts := rows\<rparr>) (delete_from_select limit (purgeable age) deleted_at_rank (hosts w))
   | T_notifications \<Rightarrow> map_prod id (\<lambda>rows. w\<lparr>notifications := rows\<rparr>)
       (delete_from_select limit (purgeable_notification age) (notification_status_rank \<circ> n_status) (notifications w))
   | T_vmoves \<Rightarrow> map_prod id (\<lambda>rows. w\<lparr>vmoves := rows\<rparr>) (delete_from_select limit (purgeable age) deleted_at_rank (vmoves w))
   | T_drafts \<Rightarrow> map_prod id (\<lambda>rows. w\<lparr>drafts := rows\<rparr>) (delete_from_select limit (purgeable age) deleted_at_rank (drafts w))
   | T_apply_jobs \<Rightarrow> map_prod id (\<lambda>rows. w\<lparr>apply_jobs := rows\<rparr>) (delete_from_select limit (purgeable age) deleted_at_rank (apply_jobs w))
   | T_other _ \<Rightarrow> (0, w))"

definition has_deleted :: "table_name \<Rightarrow> bool" where
  "has_deleted t = (case t of T_other _ \<Rightarrow> False | _ \<Rightarrow> True)"

fun purge_tables :: "int \<Rightarrow> nat \<Rightarrow> nat \<Rightarrow> table_name list \<Rightarrow> ('n, 'k) world \<Rightarrow> nat \<times> ('n, 'k) world" where
  "purge_tables age max_rows purged [] w = (purged, w)"
| "purge_tables age max_rows purged (t # ts) w =
     (if \<not> has_deleted t then purge_tables age max_rows purged ts w
      else
        let (rows, w') = purge_table age (if max_rows > 0 then Some (max_rows - purged) else None) t w;
            purged = purged + rows
        in if max_rows > 0 \<and> purged = max_rows then (purged, w')
           else purge_tables age max_rows purged ts w')"

text \<open>The number of purged rows, which the function logs, is the value of the model.\<close>

definition purge_deleted_rows :: "table_name list \<Rightarrow> nat \<Rightarrow> nat \<Rightarrow> ('n, 'k, nat) prog" where
  "purge_deleted_rows order age_in_days max_rows = (\<lambda>w.
     let deleted_age = clock w - int age_in_days * 86400;
         (purged, w') = purge_tables deleted_age max_rows 0 order w
     in (Inr purged, w'))"

section \<open>What the functions do\<close>

text \<open>The invariant of the database, table by table.\<close>

definition db_ok :: "lib \<Rightarrow> ('n, 'k) world \<Rightarrow> bool" where
  "db_ok L w \<longleftrightarrow> table_ok L segments_tbl w \<and> table_ok L hosts_tbl w \<and>
     table_ok L notifications_tbl w \<and> table_ok L vmoves_tbl w \<and> table_ok L drafts_tbl w \<and>
     table_ok L apply_jobs_tbl w"

lemma table_ok_cong: "t_get T w = t_get T w' \<Longrightarrow> table_ok L T w = table_ok L T w'"
  by (simp add: table_ok_def)

lemma live_frame: "t_get T w = t_get T w' \<Longrightarrow> live T w = live T w'"
  by (simp add: live_def)

lemma table_gets [simp]:
  "t_get segments_tbl = segments" "t_get hosts_tbl = hosts" "t_get notifications_tbl = notifications"
  "t_get vmoves_tbl = vmoves" "t_get drafts_tbl = drafts" "t_get apply_jobs_tbl = apply_jobs"
  "t_put segments_tbl xs w = w\<lparr>segments := xs\<rparr>" "t_put hosts_tbl hs w = w\<lparr>hosts := hs\<rparr>"
  "t_put notifications_tbl ns w = w\<lparr>notifications := ns\<rparr>" "t_put vmoves_tbl vs w = w\<lparr>vmoves := vs\<rparr>"
  "t_put drafts_tbl ds w = w\<lparr>drafts := ds\<rparr>" "t_put apply_jobs_tbl js w = w\<lparr>apply_jobs := js\<rparr>"
  "t_key segments_tbl = sg_uuid" "t_key hosts_tbl = h_uuid" "t_key notifications_tbl = n_uuid"
  "t_key vmoves_tbl = vm_uuid" "t_key drafts_tbl = d_uuid" "t_key apply_jobs_tbl = j_uuid"
  "t_uniq segments_tbl = uniq_segments" "t_uniq hosts_tbl = uniq_hosts"
  "t_uniq notifications_tbl = uniq_notifications" "t_uniq vmoves_tbl = uniq_vmoves"
  "t_uniq drafts_tbl = uniq_drafts" "t_uniq apply_jobs_tbl = uniq_apply_jobs"
  by (simp_all add: tbl_defs)

lemma list_query_sound:
  assumes "live_ctx ctx" and "paginator_ok page"
    and "list_query ctx page P sort_keys sort_dirs limit marker rows = Inr res"
  shows "(\<forall>r \<in> set res. r \<in> set rows \<and> deleted r = 0 \<and> P r) \<and>
    (case limit of None \<Rightarrow> True | Some n \<Rightarrow> length res \<le> n) \<and>
    (limit = None \<and> marker = None \<longrightarrow> set res = {r \<in> set rows. deleted r = 0 \<and> P r})"
proof (cases "limit = Some 0")
  case True
  then show ?thesis using assms(3) by (auto simp: list_query_def)
next
  case False
  then obtain ks ds m where page: "page (filter P (filter (\<lambda>r. deleted r = 0) rows)) limit ks m ds = Some res"
    and m: "marker = None \<longrightarrow> m = None"
    using assms by (auto simp: list_query_def model_query_live split: sum.splits option.splits)
  then have "set res \<subseteq> set (filter P (filter (\<lambda>r. deleted r = 0) rows)) \<and>
      (case limit of None \<Rightarrow> True | Some n \<Rightarrow> length res \<le> n) \<and>
      (limit = None \<and> m = None \<longrightarrow> set res = set (filter P (filter (\<lambda>r. deleted r = 0) rows)))"
    using assms(2) unfolding paginator_ok_def by blast
  then show ?thesis using m by auto
qed

lemma default_sort_params:
  "process_sort_params [] [] = Inr ([''created_at'', ''id''], [''desc'', ''desc''])"
  by code_simp

lemma list_query_all:
  assumes "live_ctx ctx" and "paginator_ok page"
  shows "\<exists>res. list_query ctx page P [] [] None None rows = Inr res \<and>
    set res = {r \<in> set rows. deleted r = 0 \<and> P r}"
proof -
  let ?q = "filter P (filter (\<lambda>r. deleted r = 0) rows)"
  obtain res where res: "page ?q None [''created_at'', ''id''] None [''desc'', ''desc''] = Some res"
  proof -
    have "set [''created_at'', ''id''] \<subseteq> {''created_at'', ''id''}" by simp
    then show ?thesis using that conjunct1 [OF assms(2) [unfolded paginator_ok_def]] by blast
  qed
  then have l: "list_query ctx page P [] [] None None rows = Inr res"
    using assms(1) by (simp add: list_query_def default_sort_params model_query_live)
  have "set res = {r \<in> set rows. deleted r = 0 \<and> P r}"
    using list_query_sound [OF assms l] by blast
  with l show ?thesis by blast
qed

lemma row_list_all:
  assumes "live_ctx ctx" and "paginator_ok page"
  shows "\<exists>res. row_list T ctx page P [] [] None None w = (Inr res, w) \<and>
    set res = {r \<in> set (t_get T w). deleted r = 0 \<and> P r}"
  using list_query_all [OF assms, of P "t_get T w"] by (auto simp: row_list_def comp_defs liftE_def)

lemma list_query_distinct:
  assumes "live_ctx ctx" and "paginator_ok page" and "distinct rows"
    and "list_query ctx page P [] [] None None rows = Inr res"
  shows "distinct res"
proof -
  let ?q = "filter P (filter (\<lambda>r. deleted r = 0) rows)"
  have "page ?q None [''created_at'', ''id''] None [''desc'', ''desc''] = Some res"
    using assms(1,4) by (auto simp: list_query_def default_sort_params model_query_live split: option.splits)
  then have "set res = set ?q" "length res = length ?q"
    using assms(2) unfolding paginator_ok_def by blast+
  moreover have "card (set ?q) = length ?q" using assms(3) by (intro distinct_card distinct_filter)
  ultimately show ?thesis by (intro card_distinct) (simp only:)
qed

lemma row_list_rows:
  assumes "live_ctx ctx" and "paginator_ok page" and "distinct (map (t_key T) (t_get T w))"
  shows "\<exists>res. row_list T ctx page P [] [] None None w = (Inr res, w) \<and> distinct (map (t_key T) res) \<and>
    (\<forall>r. r \<in> set res \<longleftrightarrow> live T w (t_key T r) = Some r \<and> P r)"
proof -
  obtain res where res: "row_list T ctx page P [] [] None None w = (Inr res, w)"
    and set: "set res = {r \<in> set (t_get T w). deleted r = 0 \<and> P r}"
    using row_list_all [OF assms(1,2)] by blast
  have "distinct (t_get T w)" using assms(3) by (simp add: distinct_map)
  moreover have "list_query ctx page P [] [] None None (t_get T w) = Inr res"
    using res by (simp add: row_list_def comp_defs liftE_def split: sum.splits)
  ultimately have "distinct res" using list_query_distinct [OF assms(1,2)] by blast
  moreover have "inj_on (t_key T) (set res)" using assms(3) set by (auto simp: distinct_map inj_on_def)
  ultimately have "distinct (map (t_key T) res)" by (simp add: distinct_map)
  moreover have "r \<in> set res \<longleftrightarrow> live T w (t_key T r) = Some r \<and> P r" for r
    using set live_Some [OF assms(3)] by auto
  ultimately show ?thesis using res by blast
qed

lemma segment_uniq_append:
  "table_ok L segments_tbl w \<Longrightarrow> (uniq_segments (segments w @ [stamped segments_tbl v w]) \<longleftrightarrow>
     (\<forall>r \<in> set (segments w). sg_uuid r \<noteq> sg_uuid v \<and> (deleted r = 0 \<longrightarrow> sg_name r \<noteq> sg_name v)))"
  by (auto simp: table_ok_def segments_tbl_def uniq_segments_def stamped_def image_iff)

lemma live_SomeD: "live T w x = Some r \<Longrightarrow> r \<in> set (t_get T w) \<and> deleted r = 0 \<and> t_key T r = x"
  by (auto simp: live_def dest: map_of_SomeD)

lemma key_card:
  assumes "k = t_key T"
  shows "card {x. \<exists>r. live T w x = Some r \<and> k r = u} = (case live T w u of None \<Rightarrow> 0 | Some _ \<Rightarrow> 1)"
proof -
  have "(\<exists>r. live T w x = Some r \<and> k r = u) \<longleftrightarrow> x = u \<and> live T w u \<noteq> None" for x
    using live_SomeD [of T w x] assms by (cases "live T w x") auto
  then show ?thesis by (simp split: option.split)
qed

lemma key_remove:
  "k = t_key T \<Longrightarrow>
   (\<lambda>x. case live T w x of None \<Rightarrow> None | Some r \<Rightarrow> if k r = u then None else Some r) = (live T w)(u := None)"
  by (auto simp: fun_eq_iff dest: live_SomeD split: option.split)

section \<open>Facts about purging\<close>

text \<open>What deleting rows that satisfy \<open>P\<close> leaves of a table.\<close>

definition keeps :: "('a row_scheme \<Rightarrow> bool) \<Rightarrow> 'a row_scheme list \<Rightarrow> 'a row_scheme list \<Rightarrow> bool" where
  "keeps P old new \<longleftrightarrow> ids_ok new \<and> set new \<subseteq> set old \<and> (\<forall>r \<in> set old. \<not> P r \<longrightarrow> r \<in> set new)"

definition purge_keeps :: "int \<Rightarrow> ('n, 'k) world \<Rightarrow> ('n, 'k) world \<Rightarrow> bool" where
  "purge_keeps age w w' \<longleftrightarrow> keeps (purgeable age) (segments w) (segments w') \<and>
     keeps (purgeable age) (hosts w) (hosts w') \<and>
     keeps (purgeable_notification age) (notifications w) (notifications w') \<and>
     keeps (purgeable age) (vmoves w) (vmoves w') \<and> keeps (purgeable age) (drafts w) (drafts w') \<and>
     keeps (purgeable age) (apply_jobs w) (apply_jobs w')"

definition row_count :: "('n, 'k) world \<Rightarrow> nat" where
  "row_count w = length (segments w) + length (hosts w) + length (notifications w) +
     length (vmoves w) + length (drafts w) + length (apply_jobs w)"

definition clean :: "int \<Rightarrow> table_name \<Rightarrow> ('n, 'k) world \<Rightarrow> bool" where
  "clean age t w = (case t of
     T_segments \<Rightarrow> list_all (\<lambda>r. \<not> purgeable age r) (segments w)
   | T_hosts \<Rightarrow> list_all (\<lambda>r. \<not> purgeable age r) (hosts w)
   | T_notifications \<Rightarrow> list_all (\<lambda>r. \<not> purgeable_notification age r) (notifications w)
   | T_vmoves \<Rightarrow> list_all (\<lambda>r. \<not> purgeable age r) (vmoves w)
   | T_drafts \<Rightarrow> list_all (\<lambda>r. \<not> purgeable age r) (drafts w)
   | T_apply_jobs \<Rightarrow> list_all (\<lambda>r. \<not> purgeable age r) (apply_jobs w)
   | T_other _ \<Rightarrow> True)"

lemma keeps_refl: "ids_ok rows \<Longrightarrow> keeps P rows rows"
  by (simp add: keeps_def)

lemma keeps_trans: "keeps P a b \<Longrightarrow> keeps P b c \<Longrightarrow> keeps P a c"
  by (auto simp: keeps_def)

lemma purge_keeps_trans: "purge_keeps age u v \<Longrightarrow> purge_keeps age v w \<Longrightarrow> purge_keeps age u w"
  unfolding purge_keeps_def by (meson keeps_trans)

lemma purge_keeps_ids: "purge_keeps age v w \<Longrightarrow> purge_keeps age w w"
  unfolding purge_keeps_def by (meson keeps_def keeps_refl)

lemma keeps_clean: "keeps P a b \<Longrightarrow> list_all (\<lambda>r. \<not> P r) a \<Longrightarrow> list_all (\<lambda>r. \<not> P r) b"
  by (auto simp: keeps_def list_all_iff)

lemma purge_keeps_clean: "purge_keeps age v w \<Longrightarrow> clean age t v \<Longrightarrow> clean age t w"
  by (auto simp: clean_def purge_keeps_def dest: keeps_clean split: table_name.splits)

lemma ids_ok_filter: "ids_ok rows \<Longrightarrow> ids_ok (filter P rows)"
  by (auto simp: ids_ok_def distinct_map_filter)

lemma delete_from_select_props:
  assumes ids: "ids_ok rows" and run: "delete_from_select limit P rank rows = (n, rows')"
  shows "keeps P rows rows' \<and> n + length rows' = length rows \<and>
    (case limit of None \<Rightarrow> list_all (\<lambda>r. \<not> P r) rows' | Some k \<Rightarrow> n \<le> k)"
proof -
  obtain q where n: "n = length q" and rows': "rows' = filter (\<lambda>r. rid r \<notin> rid ` set q) rows"
    and q: "set q \<subseteq> set (filter P rows)" "distinct q"
    and lim: "case limit of None \<Rightarrow> set q = set (filter P rows) | Some k \<Rightarrow> length q \<le> k"
  proof
    let ?s = "sort_key rank (filter P rows)"
    let ?q = "case limit of None \<Rightarrow> ?s | Some k \<Rightarrow> take k ?s"
    show "n = length ?q" "rows' = filter (\<lambda>r. rid r \<notin> rid ` set ?q) rows"
      using run by (auto simp: delete_from_select_def Let_def)
    show "set ?q \<subseteq> set (filter P rows)" using set_take_subset [of _ ?s] by (auto split: option.split)
    show "distinct ?q" using distinct_rows [OF ids] by (auto split: option.split)
    show "case limit of None \<Rightarrow> set ?q = set (filter P rows) | Some k \<Rightarrow> length ?q \<le> k"
      by (auto split: option.split)
  qed
  have mem: "rid r \<in> rid ` set q \<longleftrightarrow> r \<in> set q" if "r \<in> set rows" for r
    using that q(1) ids_inj [OF ids] by (auto simp: image_iff)
  have rows'': "rows' = filter (\<lambda>r. r \<notin> set q) rows"
    unfolding rows' by (rule filter_cong) (simp_all add: mem)
  have "set (filter (\<lambda>r. r \<in> set q) rows) = set q" using q(1) by auto
  then have "length (filter (\<lambda>r. r \<in> set q) rows) = length q"
    using distinct_filter [OF distinct_rows [OF ids]] q(2) by (metis distinct_card)
  then have "n + length rows' = length rows"
    using sum_length_filter_compl [of "\<lambda>r. r \<in> set q" rows] n rows'' by simp
  moreover have "keeps P rows rows'"
    using q(1) ids_ok_filter [OF ids] unfolding rows'' by (auto simp: keeps_def)
  moreover have "case limit of None \<Rightarrow> list_all (\<lambda>r. \<not> P r) rows' | Some k \<Rightarrow> n \<le> k"
    using lim n rows'' by (auto simp: list_all_iff split: option.splits)
  ultimately show ?thesis by blast
qed

lemma purge_table_props:
  assumes ok: "purge_keeps age w w" and run: "purge_table age limit t w = (n, w')"
  shows "purge_keeps age w w' \<and> n + row_count w' = row_count w \<and>
    (case limit of None \<Rightarrow> clean age t w' | Some k \<Rightarrow> n \<le> k)"
  using run ok
  by (cases t) (auto simp: purge_table_def map_prod_def purge_keeps_def keeps_refl row_count_def clean_def
    keeps_def [of _ xs xs for xs] dest!: delete_from_select_props [rotated] split: prod.splits option.splits)

lemma purge_tables_props:
  assumes "purge_keeps age w w" and "purge_tables age max_rows purged ts w = (n, w')"
    and "0 < max_rows \<longrightarrow> purged \<le> max_rows"
  shows "purge_keeps age w w' \<and> n + row_count w' = purged + row_count w \<and>
    (0 < max_rows \<longrightarrow> n \<le> max_rows) \<and> (max_rows = 0 \<longrightarrow> (\<forall>t \<in> set ts. clean age t w'))"
  using assms
proof (induction age max_rows purged ts w arbitrary: n w' rule: purge_tables.induct)
  case (1 age max_rows purged w)
  then show ?case by simp
next
  case (2 age max_rows purged t ts w)
  show ?case
  proof (cases "has_deleted t")
    case False
    then show ?thesis using "2.IH"(1) [OF False "2.prems"(1)] "2.prems"
      by (auto simp: has_deleted_def clean_def split: table_name.splits)
  next
    case True
    obtain k v where pt: "purge_table age (if max_rows > 0 then Some (max_rows - purged) else None) t w = (k, v)"
      by fastforce
    note p = purge_table_props [OF "2.prems"(1) pt]
    have le: "0 < max_rows \<longrightarrow> purged + k \<le> max_rows" using p "2.prems"(3) by (auto split: if_splits)
    have v: "purge_keeps age v v" using p purge_keeps_ids by blast
    show ?thesis
    proof (cases "0 < max_rows \<and> purged + k = max_rows")
      case stop: True
      then have "n = purged + k" "w' = v" using "2.prems"(2) True pt by simp_all
      then show ?thesis using p stop by simp
    next
      case go: False
      then have run: "purge_tables age max_rows (purged + k) ts v = (n, w')"
        using "2.prems"(2) True pt by (auto split: if_splits)
      have ih: "purge_keeps age v w' \<and> n + row_count w' = purged + k + row_count v \<and>
          (0 < max_rows \<longrightarrow> n \<le> max_rows) \<and> (max_rows = 0 \<longrightarrow> (\<forall>t \<in> set ts. clean age t w'))"
        using "2.IH"(2) [of "(k, v)" k v "purged + k"] True pt go v run le by simp
      moreover have "purge_keeps age w w'" using p ih purge_keeps_trans by blast
      moreover have "max_rows = 0 \<longrightarrow> clean age t w'" using p ih purge_keeps_clean by auto
      ultimately show ?thesis using p by auto
    qed
  qed
qed

lemma get_by_uuid_live:
  assumes "live_ctx ctx"
  shows
    "failover_segment_get_by_uuid ctx u w = (case live segments_tbl w u of
       None \<Rightarrow> (Inl (mk_FailoverSegmentNotFound u), w) | Some r \<Rightarrow> (Inr r, w))"
    "host_get_by_uuid ctx u None w = (case live hosts_tbl w u of
       None \<Rightarrow> (Inl (mk_HostNotFound u), w) | Some r \<Rightarrow> (Inr r, w))"
    "notification_get_by_uuid ctx u w = (case live notifications_tbl w u of
       None \<Rightarrow> (Inl (mk_NotificationNotFound u), w) | Some r \<Rightarrow> (Inr r, w))"
    "vmove_get_by_uuid ctx u w = (case live vmoves_tbl w u of
       None \<Rightarrow> (Inl (mk_VMoveNotFound u), w) | Some r \<Rightarrow> (Inr r, w))"
  using row_get_live [OF assms, of segments_tbl u _ w] row_get_live [OF assms, of hosts_tbl u _ w]
    row_get_live [OF assms, of notifications_tbl u _ w] row_get_live [OF assms, of vmoves_tbl u _ w]
  by (simp_all add: failover_segment_get_by_uuid_def host_get_by_uuid_def notification_get_by_uuid_def
    vmove_get_by_uuid_def)

section \<open>A concrete database\<close>

text \<open>One enabled segment with one host and one running notification of that host, for the
  witnesses.\<close>

definition demo_ctx :: request_context where
  "demo_ctx = \<lparr>read_deleted = ''no''\<rparr>"

definition demo_segment :: segment where
  "demo_segment = \<lparr>rid = 1, created_at = Some 0, updated_at = None, deleted_at = None, deleted = 0,
     sg_uuid = ''seg'', sg_name = ''segment1'', sg_service_type = ''compute'', sg_enabled = True,
     sg_description = None, sg_recovery_method = AUTO\<rparr>"

definition demo_host :: host where
  "demo_host = \<lparr>rid = 1, created_at = Some 0, updated_at = None, deleted_at = None, deleted = 0,
     h_uuid = ''host'', h_name = ''compute1'', h_reserved = False, h_type = ''COMPUTE'',
     h_control_attributes = ''SSH'', h_on_maintenance = False, h_segment_id = ''seg''\<rparr>"

definition demo_notification :: notification where
  "demo_notification = \<lparr>rid = 1, created_at = Some 0, updated_at = Some 0, deleted_at = None, deleted = 0,
     n_uuid = ''note'', n_generated_time = 0, n_type = COMPUTE_HOST,
     n_payload = [(''event'', ''STOPPED''), (''cluster_status'', ''OFFLINE''), (''host_status'', ''NORMAL'')],
     n_status = NS_RUNNING, n_source_host_uuid = ''host''\<rparr>"

definition demo_world :: "'n \<Rightarrow> 'k \<Rightarrow> ('n, 'k) world" where
  "demo_world n k = \<lparr>segments = [demo_segment], hosts = [demo_host], notifications = [demo_notification],
     vmoves = [], drafts = [], apply_jobs = [], clock = 1000000, uuid_seq = 0, events = [],
     progress = [], held_locks = [], infra = n, etcd = k\<rparr>"

lemmas demo_defs = demo_world_def demo_segment_def demo_host_def demo_notification_def

lemma live_demo_ctx [simp]: "live_ctx demo_ctx"
  by (simp add: live_ctx_def demo_ctx_def)

lemma demo_world_ok: "db_ok L (demo_world n k)"
  by (simp add: db_ok_def table_ok_def tbl_defs demo_defs ids_ok_def uniq_segments_def uniq_hosts_def
    uniq_notifications_def uniq_vmoves_def uniq_drafts_def uniq_apply_jobs_def)

section \<open>Properties of the database layer\<close>

text \<open>Creating a failover segment: it is refused, with \<open>FailoverSegmentExists\<close> and the database
  as it was, exactly when a live segment has the name or any segment the uuid; otherwise the live
  segments are the old ones and the new one under its uuid, and the other tables do not change.\<close>

lemma segment_create_spec:
  assumes "live_ctx ctx" and "db_ok L w"
  shows "if \<exists>r \<in> set (segments w). sg_uuid r = sg_uuid v \<or> deleted r = 0 \<and> sg_name r = sg_name v
    then failover_segment_create ctx v w = (Inl (mk_FailoverSegmentExists (sg_name v)), w)
    else \<exists>r w'. failover_segment_create ctx v w = (Inr r, w') \<and> r = stamped segments_tbl v w \<and>
      live segments_tbl w' = (live segments_tbl w)(sg_uuid v \<mapsto> r) \<and> db_ok L w' \<and>
      w' = w\<lparr>segments := segments w @ [r]\<rparr>"
proof -
  have ok: "table_ok L segments_tbl w" using assms(2) by (simp add: db_ok_def)
  note u = segment_uniq_append [OF ok, of v]
  show ?thesis
  proof (cases "\<exists>r \<in> set (segments w). sg_uuid r = sg_uuid v \<or> deleted r = 0 \<and> sg_name r = sg_name v")
    case True
    then have "\<not> uniq_segments (segments w @ [stamped segments_tbl v w])" using u by blast
    then have "\<exists>d. insert_row (uniq_segments) (clock w) v (segments w) = Inl d"
      by (simp add: insert_row_def stamped_def Let_def)
    with True show ?thesis
      by (auto simp: failover_segment_create_def segments_store.create_eq [OF assms(1) ok])
  next
    case False
    then have "uniq_segments (segments w @ [stamped segments_tbl v w])" using u by blast
    then have ins: "insert_row (t_uniq segments_tbl) (clock w) v (t_get segments_tbl w) =
        Inr (segments w @ [stamped segments_tbl v w])"
      by (simp add: insert_row_def stamped_def Let_def)
    note c = segments_store.created_live [OF ok ins]
    let ?w = "w\<lparr>segments := segments w @ [stamped segments_tbl v w]\<rparr>"
    have "failover_segment_create ctx v w = (Inr (stamped segments_tbl v w), ?w)"
      using ins by (simp add: failover_segment_create_def segments_store.create_eq [OF assms(1) ok])
    moreover have "live segments_tbl ?w = (live segments_tbl w)(sg_uuid v \<mapsto> stamped segments_tbl v w)"
      using c by (simp only: table_gets)
    moreover have "db_ok L ?w" using c assms(2) by (simp add: db_ok_def table_ok_def)
    ultimately show ?thesis using False by auto
  qed
qed

text \<open>
  Deleting a failover segment: with no live segment of that uuid it raises \<open>FailoverSegmentNotFound\<close> and changes
  nothing; otherwise exactly that segment and every live host of it stop being live, no other table changes,
  and the invariant holds again.
\<close>

lemma segment_delete_cascades:
  assumes "live_ctx ctx" and "lib_ok L" and "db_ok L w"
  shows "if live segments_tbl w u = None
    then failover_segment_delete L ctx u w = (Inl (mk_FailoverSegmentNotFound u), w)
    else \<exists>w'. failover_segment_delete L ctx u w = (Inr (), w') \<and> db_ok L w' \<and>
      live segments_tbl w' = (live segments_tbl w)(u := None) \<and>
      live hosts_tbl w' = (\<lambda>x. case live hosts_tbl w x of None \<Rightarrow> None
        | Some h \<Rightarrow> if h_segment_id h = u then None else Some h) \<and>
      (\<exists>sgs hs. w' = w\<lparr>segments := sgs, hosts := hs\<rparr>)"
proof -
  have oks: "table_ok L segments_tbl w" and okh: "table_ok L hosts_tbl w" using assms(3) by (simp_all add: db_ok_def)
  obtain res w1 where r1: "row_soft_delete L segments_tbl ctx (\<lambda>r. sg_uuid r = u) w = (res, w1)"
    by fastforce
  note d1 = segments_store.soft_delete_live [OF assms(1) oks assms(2) r1]
  then obtain sgs where w1: "w1 = w\<lparr>segments := sgs\<rparr>" by auto
  have res: "res = Inr (case live segments_tbl w u of None \<Rightarrow> 0 | Some _ \<Rightarrow> 1)"
    and live1: "live segments_tbl w1 = (live segments_tbl w)(u := None)"
    using d1 key_card [of sg_uuid segments_tbl] key_remove [of sg_uuid segments_tbl] by simp_all
  show ?thesis
  proof (cases "live segments_tbl w u")
    case None
    then show ?thesis using r1 res by (simp add: failover_segment_delete_def comp_defs)
  next
    case (Some sg)
    obtain res2 w2 where r2: "row_soft_delete L hosts_tbl ctx (\<lambda>h. h_segment_id h = u) w1 = (res2, w2)"
      by fastforce
    have okh1: "table_ok L hosts_tbl w1" using okh w1 by (simp add: table_ok_def)
    note d2 = hosts_store.soft_delete_live [OF assms(1) okh1 assms(2) r2]
    then obtain hs where w2: "w2 = w1\<lparr>hosts := hs\<rparr>" by auto
    have "failover_segment_delete L ctx u w = (Inr (), w2)"
      using r1 r2 res d2 Some by (simp add: failover_segment_delete_def comp_defs)
    moreover have "live segments_tbl w2 = (live segments_tbl w)(u := None)"
      using live1 live_frame [of segments_tbl w1 w2] w2 by simp
    moreover have "live hosts_tbl w1 = live hosts_tbl w" using live_frame [of hosts_tbl w1 w] w1 by simp
    moreover have "db_ok L w2" using assms(3) d1 d2 w1 w2 by (simp add: db_ok_def table_ok_def)
    ultimately show ?thesis using Some d2 w1 w2 by auto
  qed
qed

lemma host_delete_live:
  assumes "live_ctx ctx" and "lib_ok L" and "db_ok L w" and "live hosts_tbl w u = Some h"
  shows "\<exists>w'. host_delete L ctx u w = (Inr (), w') \<and> db_ok L w' \<and>
    live hosts_tbl w' = (live hosts_tbl w)(u := None) \<and> (\<exists>hs. w' = w\<lparr>hosts := hs\<rparr>)"
proof -
  have ok: "table_ok L hosts_tbl w" using assms(3) by (simp add: db_ok_def)
  obtain res w1 where r: "row_soft_delete L hosts_tbl ctx (\<lambda>r. h_uuid r = u) w = (res, w1)" by fastforce
  note d = hosts_store.soft_delete_live [OF assms(1) ok assms(2) r]
  then obtain hs where w1: "w1 = w\<lparr>hosts := hs\<rparr>" by auto
  have "res = Inr (case live hosts_tbl w u of None \<Rightarrow> 0 | Some _ \<Rightarrow> 1)"
    and live1: "live hosts_tbl w1 = (live hosts_tbl w)(u := None)"
    using d key_card [of h_uuid hosts_tbl] key_remove [of h_uuid hosts_tbl] by simp_all
  then have res: "res = Inr 1" using assms(4) by simp
  have "host_delete L ctx u w = (Inr (), w1)" using r res by (simp add: host_delete_def comp_defs)
  moreover have "db_ok L w1" using assms(3) d w1 by (simp add: db_ok_def table_ok_def)
  ultimately show ?thesis using live1 w1 by blast
qed

text \<open>Purging: it returns how many rows it removed, never more than \<open>max_rows\<close> when that is
  positive; it only removes rows deleted before the age (for notifications: updated before the
  age, in a final state), and with no maximum none of those is left in a table it visits.\<close>

lemma purge_deleted_rows_spec:
  assumes "db_ok L w"
  shows "\<exists>n w'. purge_deleted_rows order age_in_days max_rows w = (Inr n, w') \<and>
    n + row_count w' = row_count w \<and> (0 < max_rows \<longrightarrow> n \<le> max_rows) \<and>
    purge_keeps (clock w - int age_in_days * 86400) w w' \<and>
    (max_rows = 0 \<longrightarrow> (\<forall>t \<in> set order. clean (clock w - int age_in_days * 86400) t w'))"
proof -
  let ?age = "clock w - int age_in_days * 86400"
  obtain n w' where run: "purge_tables ?age max_rows 0 order w = (n, w')" by fastforce
  have "purge_keeps ?age w w"
    using assms by (simp add: purge_keeps_def db_ok_def table_ok_def keeps_refl)
  from purge_tables_props [OF this run] run show ?thesis by (simp add: purge_deleted_rows_def)
qed

text \<open>The sort parameters: too many directions or an unknown one is refused with
  \<open>InvalidInput\<close>; otherwise the keys are the given ones followed by the default keys that are
  missing, each once, every key has a direction, and the given directions come first.\<close>

theorem process_sort_params_spec:
  "case process_sort_params sort_keys sort_dirs of
     Inl e \<Rightarrow> cls_of e = InvalidInput \<and>
       (length sort_keys < length sort_dirs \<or> \<not> set sort_dirs \<subseteq> {''asc'', ''desc''})
   | Inr (ks, ds) \<Rightarrow> length sort_dirs \<le> length sort_keys \<and> set sort_dirs \<subseteq> {''asc'', ''desc''} \<and>
       length ds = length ks \<and> take (length sort_dirs) ds = sort_dirs \<and>
       (\<exists>extra. ks = sort_keys @ extra \<and> distinct extra \<and>
          set extra = {''created_at'', ''id''} - set sort_keys) \<and>
       set (drop (length sort_dirs) ds) \<subseteq> {if sort_dirs = [] then ''desc'' else hd sort_dirs}"
proof -
  let ?d = "if sort_dirs \<noteq> [] then hd sort_dirs else ''desc''"
  let ?ds = "pad_dirs (if sort_dirs \<noteq> [] then sort_dirs else map (\<lambda>_. ?d) sort_keys) (length sort_keys) ?d"
  have pad: "?ds = sort_dirs @ replicate (length sort_keys - length sort_dirs) ?d"
    by (auto simp: pad_dirs_eq map_replicate_const)
  have bad: "list_ex (\<lambda>d. d \<noteq> ''asc'' \<and> d \<noteq> ''desc'') sort_dirs \<longleftrightarrow> \<not> set sort_dirs \<subseteq> {''asc'', ''desc''}"
    by (auto simp: list_ex_iff)
  have eq: "process_sort_params sort_keys sort_dirs =
      (if list_ex (\<lambda>d. d \<noteq> ''asc'' \<and> d \<noteq> ''desc'') sort_dirs
       then Inl (mk_InvalidInput (''Unknown sort direction, must be '' @ [CHR 0x27] @ ''asc'' @ [CHR 0x27] @ '' or ''
         @ [CHR 0x27] @ ''desc'' @ [CHR 0x27]))
       else if length ?ds > length sort_keys
       then Inl (mk_InvalidInput ''Sort direction size exceeds sort key size'')
       else Inr (add_defaults [''created_at'', ''id''] ?d sort_keys ?ds))"
    unfolding process_sort_params_def process_sort_params_with_def Let_def by (rule refl)
  show ?thesis
  proof (cases "set sort_dirs \<subseteq> {''asc'', ''desc''} \<and> length sort_dirs \<le> length sort_keys")
    case False
    have "length ?ds > length sort_keys \<longleftrightarrow> length sort_keys < length sort_dirs"
      unfolding pad length_append length_replicate by linarith
    then have "\<exists>m. process_sort_params sort_keys sort_dirs = Inl (mk_InvalidInput m)"
      using False bad unfolding eq by auto
    then obtain m where "process_sort_params sort_keys sort_dirs = Inl (mk_InvalidInput m)" ..
    then show ?thesis using False by (simp add: mk_InvalidInput_def) linarith
  next
    case True
    obtain ks ds where add: "add_defaults [''created_at'', ''id''] ?d sort_keys ?ds = (ks, ds)"
      using add_defaults_total by blast
    have len: "length ?ds = length sort_keys" using pad True by simp
    have res: "process_sort_params sort_keys sort_dirs = Inr (ks, ds)"
      using True bad len unfolding eq add by simp
    note p = add_defaults_props [OF add len]
    from conjunct1 [OF p] obtain extra where
      e: "ks = sort_keys @ extra \<and> set extra = set [''created_at'', ''id''] - set sort_keys \<and> distinct extra \<and>
        ds = ?ds @ replicate (length extra) ?d" ..
    have ds: "ds = sort_dirs @ replicate (length sort_keys - length sort_dirs + length extra) ?d"
      using e unfolding pad by (simp add: replicate_add)
    have "set (drop (length sort_dirs) ds) \<subseteq> {if sort_dirs = [] then ''desc'' else hd sort_dirs}"
      unfolding ds by (cases "sort_dirs = []") (simp_all add: set_replicate_conv_if)
    moreover have "take (length sort_dirs) ds = sort_dirs" unfolding ds by simp
    ultimately show ?thesis unfolding res sum.case prod.case using e p True by (simp only: list.set) blast
  qed
qed

end
