(* ===== verification/Masakari_Nova.thy ===== *)
theory Masakari_Nova
  imports Masakari_DB
begin

text \<open>
  \<open>masakari/compute/nova.py\<close>: the calls on Nova and the translation of its exceptions. The client
  (python-novaclient) is not part of the repository: \<open>nova_client\<close> is the record of its operations
  on a state \<open>'n\<close> of its own, about which nothing is assumed here. The options of the
  configuration that the engine reads are the record \<open>conf\<close>.
\<close>

section \<open>Configuration\<close>

text \<open>
  A wait with a timeout is given by the number of polls that fit into it (see \<open>poll\<close>).
\<close>

record conf =
  host_disable_reason :: string
  process_disable_reason :: string
  host_ha_key :: string
  instance_ha_key :: string
  ignore_instances_in_error_state :: bool
  evacuate_all_instances :: bool
  add_reserved_host_to_aggregate :: bool
  process_all_instances :: bool
  polls_evacuation :: nat
  polls_power_off :: nat
  polls_power_on :: nat
  polls_service_update :: nat
  nova_evacuate_microversion :: string
  duplicate_notification_detection_interval :: int
  retry_notification_new_status_interval :: int
  notifications_expired_interval :: int
  staged_enabled :: bool
  start_only_originally_active :: bool
  polls_start :: nat
  host_failure_recovery_threads :: nat
  max_parallel_starts_per_host :: int
  slot_lease_ttl :: int
  batch_delay :: int
  coordination_configured :: bool
  start_timeout :: int
  stale_recovery_timeout :: int
  etcd_prefix :: string

text \<open>The defaults of the options, for the witnesses.\<close>

definition demo_conf :: conf where
  "demo_conf = \<lparr>host_disable_reason = ''Masakari detected host failed.'',
     process_disable_reason = ''Masakari detected process failed.'', host_ha_key = ''HA_Enabled'',
     instance_ha_key = ''HA_Enabled'', ignore_instances_in_error_state = False,
     evacuate_all_instances = True, add_reserved_host_to_aggregate = False, process_all_instances = False,
     polls_evacuation = 18, polls_power_off = 36, polls_power_on = 12, polls_service_update = 36,
     nova_evacuate_microversion = ''2.95'', duplicate_notification_detection_interval = 180,
     retry_notification_new_status_interval = 60, notifications_expired_interval = 86400,
     staged_enabled = False, start_only_originally_active = True, polls_start = 60,
     host_failure_recovery_threads = 3, max_parallel_starts_per_host = 2, slot_lease_ttl = 900,
     batch_delay = 30, coordination_configured = True, start_timeout = 600, stale_recovery_timeout = 3600,
     etcd_prefix = ''/masakari/staged-recovery''\<rparr>"

section \<open>The client\<close>

record server =
  sv_id :: string
  sv_name :: string
  sv_metadata :: "string dict"
  sv_vm_state :: string
  sv_task_state :: "string option"
  sv_power_state :: int
  sv_host :: "string option"
  sv_locked :: bool

record compute_service =
  sc_id :: string
  sc_status :: string

record aggregate =
  ag_id :: string
  ag_name :: string
  ag_hosts :: "string list"

text \<open>The exceptions of the client that \<open>translate_nova_exception\<close> tells apart, with their text.\<close>

datatype client_error =
    RequestsTimeout string | NovaCommandError string | KeystoneConnectionError string
  | KeystoneBadRequest string | NovaBadRequest string | KeystoneForbidden string
  | NovaForbidden string | NovaNotFound string | NovaConflict string | OtherError exc

type_synonym ('n, 'a) call = "('n, client_error, 'a) comp"

record 'n nova_client =
  servers_list :: "string \<Rightarrow> ('n, server list) call"
  servers_get :: "string option \<Rightarrow> string \<Rightarrow> ('n, server) call"
  servers_evacuate :: "string option \<Rightarrow> string \<Rightarrow> string option \<Rightarrow> ('n, unit) call"
  servers_reset_state :: "string \<Rightarrow> string \<Rightarrow> ('n, unit) call"
  servers_stop :: "string \<Rightarrow> ('n, unit) call"
  servers_start :: "string \<Rightarrow> ('n, unit) call"
  servers_lock :: "string \<Rightarrow> ('n, unit) call"
  servers_unlock :: "string \<Rightarrow> ('n, unit) call"
  services_list :: "string \<Rightarrow> string \<Rightarrow> ('n, compute_service list) call"
  services_disable :: "string \<Rightarrow> ('n, unit) call"
  services_disable_log_reason :: "string \<Rightarrow> string \<Rightarrow> ('n, unit) call"
  services_enable :: "string \<Rightarrow> ('n, unit) call"
  aggregates_list :: "('n, aggregate list) call"
  aggregates_add_host :: "string \<Rightarrow> string \<Rightarrow> ('n, unit) call"

section \<open>Translation of exceptions\<close>

text \<open>
  \<open>MasakariException\<close>, \<open>NotFound\<close> and \<open>Conflict\<close> are given the text as a keyword their message
  format does not use, so their message is the fixed one.
\<close>

definition translated :: "client_error \<Rightarrow> exc" where
  "translated e = (case e of
     RequestsTimeout m \<Rightarrow> Exc MasakariException ''An unknown exception occurred.''
   | NovaCommandError m \<Rightarrow> Exc MasakariException ''An unknown exception occurred.''
   | KeystoneConnectionError m \<Rightarrow> Exc MasakariException ''An unknown exception occurred.''
   | KeystoneBadRequest m \<Rightarrow> mk_InvalidInput m
   | NovaBadRequest m \<Rightarrow> mk_InvalidInput m
   | KeystoneForbidden m \<Rightarrow> Exc Forbidden m
   | NovaForbidden m \<Rightarrow> Exc Forbidden m
   | NovaNotFound m \<Rightarrow> Exc NotFound ''Resource could not be found.''
   | NovaConflict m \<Rightarrow> Exc Conflict ''Conflict''
   | OtherError x \<Rightarrow> x)"

definition translate_nova_exception :: "('n, 'a) call \<Rightarrow> ('n, 'k, 'a) prog" where
  "translate_nova_exception method = (\<lambda>w. case method (infra w) of
     (Inl e, n) \<Rightarrow> (Inl (translated e), w\<lparr>infra := n\<rparr>)
   | (Inr a, n) \<Rightarrow> (Inr a, w\<lparr>infra := n\<rparr>))"

section \<open>The calls\<close>

text \<open>\<open>list(\<dots>)[0]\<close>.\<close>

definition first_service :: "compute_service list \<Rightarrow> ('n, compute_service) call" where
  "first_service xs = (case xs of [] \<Rightarrow> raiseM (OtherError (Exc IndexError ''list index out of range''))
     | x # _ \<Rightarrow> retM x)"

definition get_servers :: "'n nova_client \<Rightarrow> string \<Rightarrow> ('n, 'k, server list) prog" where
  "get_servers N host = translate_nova_exception (servers_list N host)"

definition enable_disable_service ::
  "'n nova_client \<Rightarrow> string \<Rightarrow> bool \<Rightarrow> string option \<Rightarrow> ('n, 'k, unit) prog" where
  "enable_disable_service N host_name enable reason = translate_nova_exception
     (bindM (services_list N host_name ''nova-compute'') (\<lambda>services.
      bindM (first_service services) (\<lambda>service.
      if \<not> enable then
        (if reason \<noteq> None \<and> reason \<noteq> Some ''''
         then services_disable_log_reason N (sc_id service) (the reason)
         else services_disable N (sc_id service))
      else services_enable N (sc_id service))))"

definition is_service_disabled :: "'n nova_client \<Rightarrow> string \<Rightarrow> string \<Rightarrow> ('n, 'k, bool) prog" where
  "is_service_disabled N host_name binary = translate_nova_exception
     (bindM (services_list N host_name binary) (\<lambda>services.
      bindM (first_service services) (\<lambda>service. retM (sc_status service = ''disabled''))))"

definition evacuate_instance :: "'n nova_client \<Rightarrow> string \<Rightarrow> string option \<Rightarrow> ('n, 'k, unit) prog" where
  "evacuate_instance N uuid target = translate_nova_exception (servers_evacuate N None uuid target)"

text \<open>An empty target counts as none.\<close>

definition evacuate_instance_stopped ::
  "conf \<Rightarrow> 'n nova_client \<Rightarrow> string \<Rightarrow> string option \<Rightarrow> ('n, 'k, unit) prog" where
  "evacuate_instance_stopped C N uuid target = translate_nova_exception
     (let api_version = nova_evacuate_microversion C in
      if target \<noteq> None \<and> target \<noteq> Some '''' then servers_evacuate N (Some api_version) uuid target
      else servers_evacuate N (Some api_version) uuid None)"

definition reset_instance_state :: "'n nova_client \<Rightarrow> string \<Rightarrow> string \<Rightarrow> ('n, 'k, unit) prog" where
  "reset_instance_state N uuid status = translate_nova_exception (servers_reset_state N uuid status)"

definition get_server :: "'n nova_client \<Rightarrow> string \<Rightarrow> ('n, 'k, server) prog" where
  "get_server N uuid = translate_nova_exception (servers_get N None uuid)"

definition get_server_with_microversion :: "'n nova_client \<Rightarrow> string \<Rightarrow> string \<Rightarrow> ('n, 'k, server) prog" where
  "get_server_with_microversion N uuid api_version = translate_nova_exception (servers_get N (Some api_version) uuid)"

definition stop_server :: "'n nova_client \<Rightarrow> string \<Rightarrow> ('n, 'k, unit) prog" where
  "stop_server N uuid = translate_nova_exception (servers_stop N uuid)"

definition start_server :: "'n nova_client \<Rightarrow> string \<Rightarrow> ('n, 'k, unit) prog" where
  "start_server N uuid = translate_nova_exception (servers_start N uuid)"

definition get_aggregate_list :: "'n nova_client \<Rightarrow> ('n, 'k, aggregate list) prog" where
  "get_aggregate_list N = translate_nova_exception (aggregates_list N)"

definition add_host_to_aggregate :: "'n nova_client \<Rightarrow> string \<Rightarrow> aggregate \<Rightarrow> ('n, 'k, unit) prog" where
  "add_host_to_aggregate N host ag = translate_nova_exception (aggregates_add_host N (ag_id ag) host)"

definition lock_server :: "'n nova_client \<Rightarrow> string \<Rightarrow> ('n, 'k, unit) prog" where
  "lock_server N uuid = translate_nova_exception (servers_lock N uuid)"

definition unlock_server :: "'n nova_client \<Rightarrow> string \<Rightarrow> ('n, 'k, unit) prog" where
  "unlock_server N uuid = translate_nova_exception (servers_unlock N uuid)"

definition find_compute_service :: "'n nova_client \<Rightarrow> string \<Rightarrow> ('n, 'k, unit) prog" where
  "find_compute_service N compute_name = translate_nova_exception
     (bindM (services_list N compute_name ''nova-compute'') (\<lambda>computes.
      if length computes = 0 then raiseM (OtherError (mk_ComputeNotFoundByName compute_name))
      else retM ()))"

lemmas nova_call_defs = get_servers_def enable_disable_service_def is_service_disabled_def
  evacuate_instance_def evacuate_instance_stopped_def reset_instance_state_def get_server_def
  get_server_with_microversion_def stop_server_def start_server_def get_aggregate_list_def
  add_host_to_aggregate_def lock_server_def unlock_server_def find_compute_service_def

section \<open>What a call does to the program\<close>

text \<open>Whatever Nova answers, a call changes nothing of the program's own state.\<close>

lemma wp_translate [wp_simps]:
  "wp (translate_nova_exception m) Q E = (\<lambda>w. case m (infra w) of
     (Inl e, n) \<Rightarrow> E (translated e) (w\<lparr>infra := n\<rparr>) | (Inr a, n) \<Rightarrow> Q a (w\<lparr>infra := n\<rparr>))"
  by (simp add: fun_eq_iff wp_def translate_nova_exception_def split: prod.split sum.split)

text \<open>
  \<open>off_infra I\<close>: the property \<open>I\<close> of the state does not look at Nova's part of it. Every call
  keeps such a property.
\<close>

definition off_infra :: "(('n, 'k) world \<Rightarrow> bool) \<Rightarrow> bool" where
  "off_infra I \<longleftrightarrow> (\<forall>w n. I (w\<lparr>infra := n\<rparr>) = I w)"

lemma pres_translate: "off_infra I \<Longrightarrow> pres I (translate_nova_exception m)"
  by (rule presI) (auto simp: translate_nova_exception_def off_infra_def split: prod.splits sum.splits)

lemma pres_nova_calls [pres_intros]:
  assumes "off_infra I"
  shows "pres I (get_servers N h)" "pres I (enable_disable_service N h b r)"
    "pres I (is_service_disabled N h p)" "pres I (evacuate_instance N u t)"
    "pres I (evacuate_instance_stopped C N u t)" "pres I (reset_instance_state N u s)"
    "pres I (get_server N u)" "pres I (get_server_with_microversion N u v)" "pres I (stop_server N u)"
    "pres I (start_server N u)" "pres I (get_aggregate_list N)" "pres I (add_host_to_aggregate N h a)"
    "pres I (lock_server N u)" "pres I (unlock_server N u)" "pres I (find_compute_service N c)"
  by (simp_all add: nova_call_defs pres_translate assms)

section \<open>A concrete client\<close>

text \<open>
  A client for the witnesses, with the behaviour of \<open>FakeNovaClient\<close> in
  \<open>masakari/tests/unit/fakes.py\<close>: its state is the list of the servers, the list of the compute
  services by host, and the list of the aggregates.
\<close>

record nova_state =
  ns_servers :: "server list"
  ns_services :: "(string \<times> compute_service) list"
  ns_aggregates :: "aggregate list"

definition ns_server_op :: "(server \<Rightarrow> server) \<Rightarrow> string \<Rightarrow> (nova_state, unit) call" where
  "ns_server_op f u n = (if \<exists>s \<in> set (ns_servers n). sv_id s = u
     then (Inr (), n\<lparr>ns_servers := map (\<lambda>s. if sv_id s = u then f s else s) (ns_servers n)\<rparr>)
     else (Inl (NovaNotFound u), n))"

definition ns_service_op :: "string \<Rightarrow> string \<Rightarrow> (nova_state, unit) call" where
  "ns_service_op st i n = (Inr (), n\<lparr>ns_services :=
     map (\<lambda>(h, s). if sc_id s = i then (h, s\<lparr>sc_status := st\<rparr>) else (h, s)) (ns_services n)\<rparr>)"

definition ns_get :: "string \<Rightarrow> (nova_state, server) call" where
  "ns_get u n = (case find (\<lambda>s. sv_id s = u) (ns_servers n) of
     None \<Rightarrow> (Inl (NovaNotFound u), n) | Some s \<Rightarrow> (Inr s, n))"

definition ns_evacuated :: "string option \<Rightarrow> server \<Rightarrow> server" where
  "ns_evacuated target s = s\<lparr>sv_host := Some (case target of None \<Rightarrow> ''fake-host-1'' | Some t \<Rightarrow> t),
     sv_vm_state := if sv_vm_state s \<in> {''active'', ''error''} then ''active'' else ''stopped''\<rparr>"

definition demo_nova :: "nova_state nova_client" where
  "demo_nova = \<lparr>
     servers_list = (\<lambda>h n. (Inr (filter (\<lambda>s. sv_host s = Some h) (ns_servers n)), n)),
     servers_get = (\<lambda>_. ns_get),
     servers_evacuate = (\<lambda>_ u target. ns_server_op (ns_evacuated target) u),
     servers_reset_state = (\<lambda>u st. ns_server_op (sv_vm_state_update (\<lambda>_. st)) u),
     servers_stop = ns_server_op (sv_vm_state_update (\<lambda>_. ''stopped'')),
     servers_start = ns_server_op (sv_vm_state_update (\<lambda>_. ''active'')),
     servers_lock = ns_server_op (sv_locked_update (\<lambda>_. True)),
     servers_unlock = ns_server_op (sv_locked_update (\<lambda>_. False)),
     services_list = (\<lambda>h _ n. (Inr (map snd (filter (\<lambda>(h', _). h' = h) (ns_services n))), n)),
     services_disable = ns_service_op ''disabled'',
     services_disable_log_reason = (\<lambda>i _. ns_service_op ''disabled'' i),
     services_enable = ns_service_op ''enabled'',
     aggregates_list = (\<lambda>n. (Inr (ns_aggregates n), n)),
     aggregates_add_host = (\<lambda>_ _ n. (Inr (), n))\<rparr>"

text \<open>Two servers on a host, one of them enabled for recovery, and the compute service of the host.\<close>

definition demo_server :: "string \<Rightarrow> bool \<Rightarrow> server" where
  "demo_server i ha = \<lparr>sv_id = i, sv_name = ''fake_instance'',
     sv_metadata = [(''HA_Enabled'', if ha then ''True'' else ''False'')], sv_vm_state = ''active'',
     sv_task_state = None, sv_power_state = 1, sv_host = Some ''compute1'', sv_locked = False\<rparr>"

definition demo_servers :: nova_state where
  "demo_servers = \<lparr>ns_servers = [demo_server ''i1'' True, demo_server ''i2'' False],
     ns_services = [(''compute1'', \<lparr>sc_id = ''1'', sc_status = ''enabled''\<rparr>)], ns_aggregates = []\<rparr>"

end
