(* ===== verification/Masakari_Objects.thy ===== *)
theory Masakari_Objects
  imports Masakari_Nova
begin

text \<open>
  \<open>masakari/objects\<close>: the versioned objects, as far as they do more than carry a row. An object
  is the row it was loaded from; saving it takes the record of the fields that were set. A host
  object comes with its failover segment, as the ORM loads it. The START and END notifications
  of the API objects are emitted around the write, and a write that raises leaves the START
  without an END. A notification about an object that has no uuid yet has an empty subject.
\<close>

section \<open>Failover segments\<close>

definition FailoverSegment_get_by_uuid :: "request_context \<Rightarrow> string \<Rightarrow> ('n, 'k, segment) prog" where
  "FailoverSegment_get_by_uuid ctx u = failover_segment_get_by_uuid ctx u"

definition FailoverSegment_create :: "lib \<Rightarrow> request_context \<Rightarrow> segment \<Rightarrow> ('n, 'k, segment) prog" where
  "FailoverSegment_create L ctx sg =
     bindM (generate_uuid L) (\<lambda>u.
     bindM (emit SEGMENT_CREATE PH_START None '''') (\<lambda>_.
     bindM (failover_segment_create ctx (sg\<lparr>sg_uuid := u\<rparr>)) (\<lambda>db_segment.
     bindM (emit SEGMENT_CREATE PH_END None '''') (\<lambda>_.
     retM db_segment))))"

definition FailoverSegment_save :: "request_context \<Rightarrow> segment \<Rightarrow> segment_values \<Rightarrow> ('n, 'k, segment) prog" where
  "FailoverSegment_save ctx sg updates =
     bindM (emit SEGMENT_UPDATE PH_START None (sg_uuid sg)) (\<lambda>_.
     bindM (failover_segment_update ctx (sg_uuid sg) updates) (\<lambda>db_segment.
     bindM (emit SEGMENT_UPDATE PH_END None (sg_uuid sg)) (\<lambda>_.
     retM db_segment)))"

definition FailoverSegment_destroy :: "lib \<Rightarrow> request_context \<Rightarrow> segment \<Rightarrow> ('n, 'k, unit) prog" where
  "FailoverSegment_destroy L ctx sg =
     bindM (emit SEGMENT_DELETE PH_START None (sg_uuid sg)) (\<lambda>_.
     bindM (failover_segment_delete L ctx (sg_uuid sg)) (\<lambda>_.
     emit SEGMENT_DELETE PH_END None (sg_uuid sg)))"

definition FailoverSegment_is_under_recovery ::
  "request_context \<Rightarrow> segment \<Rightarrow> notification_status sel \<Rightarrow> ('n, 'k, bool) prog" where
  "FailoverSegment_is_under_recovery ctx sg status = is_failover_segment_under_recovery ctx (sg_uuid sg) status"

section \<open>Hosts\<close>

text \<open>
  The relation \<open>failover_segment\<close> of a live host: the segment with its uuid, deleted or not.
  Without one \<open>_from_db_object\<close> would index \<open>None\<close>.
\<close>

definition with_segment :: "host \<Rightarrow> ('n, 'k, host \<times> segment) prog" where
  "with_segment h = bindM (getM segments) (\<lambda>sgs.
     case find (\<lambda>sg. sg_uuid sg = h_segment_id h) sgs of
       None \<Rightarrow> raiseM (Exc TypeError ''NoneType object is not subscriptable'')
     | Some sg \<Rightarrow> retM (h, sg))"

definition Host_get_by_uuid :: "request_context \<Rightarrow> string \<Rightarrow> string option \<Rightarrow> ('n, 'k, host \<times> segment) prog" where
  "Host_get_by_uuid ctx u segment_uuid = bindM (host_get_by_uuid ctx u segment_uuid) with_segment"

definition Host_get_by_name :: "request_context \<Rightarrow> string \<Rightarrow> ('n, 'k, host \<times> segment) prog" where
  "Host_get_by_name ctx name = bindM (host_get_by_name ctx name) with_segment"

definition Host_create :: "lib \<Rightarrow> request_context \<Rightarrow> host \<Rightarrow> segment \<Rightarrow> ('n, 'k, host \<times> segment) prog" where
  "Host_create L ctx h sg =
     bindM (generate_uuid L) (\<lambda>u.
     bindM (emit HOST_CREATE PH_START None '''') (\<lambda>_.
     bindM (host_create ctx (h\<lparr>h_uuid := u, h_segment_id := sg_uuid sg\<rparr>)) (\<lambda>db_host.
     bindM (emit HOST_CREATE PH_END None '''') (\<lambda>_.
     with_segment db_host))))"

definition Host_save :: "request_context \<Rightarrow> host \<Rightarrow> host_values \<Rightarrow> ('n, 'k, host \<times> segment) prog" where
  "Host_save ctx h updates =
     bindM (emit HOST_UPDATE PH_START None (h_uuid h)) (\<lambda>_.
     bindM (host_update ctx (h_uuid h) updates) (\<lambda>db_host.
     bindM (emit HOST_UPDATE PH_END None (h_uuid h)) (\<lambda>_.
     with_segment db_host)))"

definition Host_destroy :: "lib \<Rightarrow> request_context \<Rightarrow> host \<Rightarrow> ('n, 'k, unit) prog" where
  "Host_destroy L ctx h =
     bindM (emit HOST_DELETE PH_START None (h_uuid h)) (\<lambda>_.
     bindM (host_delete L ctx (h_uuid h)) (\<lambda>_.
     emit HOST_DELETE PH_END None (h_uuid h)))"

section \<open>Notifications\<close>

definition Notification_create :: "lib \<Rightarrow> request_context \<Rightarrow> notification \<Rightarrow> ('n, 'k, notification) prog" where
  "Notification_create L ctx n =
     bindM (generate_uuid L) (\<lambda>u.
     bindM (emit NOTIFICATION_CREATE PH_START None '''') (\<lambda>_.
     bindM (notification_create ctx (n\<lparr>n_uuid := u\<rparr>)) (\<lambda>db_notification.
     bindM (emit NOTIFICATION_CREATE PH_END None '''') (\<lambda>_.
     retM db_notification))))"

text \<open>\<open>notification.update({'status': \<dots>}); notification.save()\<close>.\<close>

definition Notification_save :: "request_context \<Rightarrow> notification \<Rightarrow> notification_values \<Rightarrow> ('n, 'k, notification) prog" where
  "Notification_save ctx n updates = notification_update ctx (n_uuid n) updates"

section \<open>VM moves\<close>

definition VMove_create :: "lib \<Rightarrow> request_context \<Rightarrow> vmove \<Rightarrow> ('n, 'k, vmove) prog" where
  "VMove_create L ctx v = bindM (generate_uuid L) (\<lambda>u. vmove_create ctx (v\<lparr>vm_uuid := u\<rparr>))"

definition VMove_save :: "request_context \<Rightarrow> vmove \<Rightarrow> vmove_values \<Rightarrow> ('n, 'k, vmove) prog" where
  "VMove_save ctx v updates = vmove_update ctx (vm_uuid v) updates"

definition VMoveList_get_all_vmoves ::
  "lib \<Rightarrow> request_context \<Rightarrow> string \<Rightarrow> vmove_status option \<Rightarrow> ('n, 'k, vmove list) prog" where
  "VMoveList_get_all_vmoves L ctx notification_uuid status =
     vmoves_get_all_by_filters L ctx \<lparr>vf_notification_uuid = Is notification_uuid, vf_type = Any,
       vf_status = (case status of None \<Rightarrow> Any | Some st \<Rightarrow> Is (Some st))\<rparr> [] [] None None"

section \<open>What the operations keep\<close>

text \<open>
  \<open>off_table T I\<close>: the property \<open>I\<close> does not look at the table \<open>T\<close>.
\<close>

definition off_table :: "(('n, 'k) world, 'a row_scheme) tbl \<Rightarrow> (('n, 'k) world \<Rightarrow> bool) \<Rightarrow> bool" where
  "off_table T I \<longleftrightarrow> (\<forall>w rows. I (t_put T rows w) = I w)"

lemma pres_row_get [pres_intros]: "pres I (row_get T ctx P nf)"
  unfolding row_get_def by (intro pres_intros)

lemma pres_row_list [pres_intros]: "pres I (row_list T ctx page P ks ds l m)"
  unfolding row_list_def by (intro pres_intros)

lemma pres_row_create: "off_table T I \<Longrightarrow> pres I (row_create T ctx dup nf v)"
  unfolding row_create_def off_table_def by (intro pres_intros) simp

lemma pres_row_update: "off_table T I \<Longrightarrow> pres I (row_update T ctx dup nf key f)"
  unfolding row_update_def off_table_def by (intro pres_intros) simp

lemma pres_row_soft_delete: "off_table T I \<Longrightarrow> pres I (row_soft_delete L T ctx P)"
  unfolding row_soft_delete_def off_table_def by (intro pres_intros) simp

lemma pres_reads [pres_intros]:
  "pres I (failover_segment_get_by_uuid ctx u)" "pres I (failover_segment_get_by_name ctx u)"
  "pres I (failover_segment_get_all_by_filters L ctx sf ks ds l m)"
  "pres I (is_failover_segment_under_recovery ctx u st)"
  "pres I (host_get_by_uuid ctx u sg)" "pres I (host_get_by_name ctx u)"
  "pres I (host_get_all_by_filters L ctx hf ks ds l m)"
  "pres I (notification_get_by_uuid ctx u)"
  "pres I (notifications_get_all_by_filters L ctx nf ks ds l m)"
  "pres I (vmove_get_by_uuid ctx u)" "pres I (vmoves_get_all_by_filters L ctx vf ks ds l m)"
  "pres I (with_segment h)" "pres I (FailoverSegment_get_by_uuid ctx u)"
  "pres I (Host_get_by_uuid ctx u sg)" "pres I (Host_get_by_name ctx u)"
  "pres I (VMoveList_get_all_vmoves L ctx nu vst)"
  unfolding failover_segment_get_by_uuid_def failover_segment_get_by_name_def
    failover_segment_get_all_by_filters_def is_failover_segment_under_recovery_def host_get_by_uuid_def
    host_get_by_name_def host_get_all_by_filters_def notification_get_by_uuid_def
    notifications_get_all_by_filters_def vmove_get_by_uuid_def vmoves_get_all_by_filters_def
    with_segment_def FailoverSegment_get_by_uuid_def Host_get_by_uuid_def Host_get_by_name_def
    VMoveList_get_all_vmoves_def
  by (intro pres_intros)+

lemma pres_Host_save [pres_intros]: "off_table hosts_tbl I \<Longrightarrow> off_events I \<Longrightarrow> pres I (Host_save ctx h hu)"
  unfolding Host_save_def host_update_def by (intro pres_intros pres_row_update)

lemma pres_VMove_create [pres_intros]: "off_table vmoves_tbl I \<Longrightarrow> off_aux I \<Longrightarrow> pres I (VMove_create L ctx v)"
  unfolding VMove_create_def vmove_create_def by (intro pres_intros pres_row_create)

lemma pres_VMove_save [pres_intros]: "off_table vmoves_tbl I \<Longrightarrow> pres I (VMove_save ctx v vu)"
  unfolding VMove_save_def vmove_update_def by (intro pres_row_update)

lemma pres_Notification_save [pres_intros]: "off_table notifications_tbl I \<Longrightarrow> pres I (Notification_save ctx n nu)"
  unfolding Notification_save_def notification_update_def by (intro pres_row_update)

text \<open>The tables are as they were.\<close>

definition same_tables :: "('n, 'k) world \<Rightarrow> ('n, 'k) world \<Rightarrow> bool" where
  "same_tables w v \<longleftrightarrow> segments v = segments w \<and> hosts v = hosts w \<and> notifications v = notifications w \<and>
     vmoves v = vmoves w \<and> drafts v = drafts w \<and> apply_jobs v = apply_jobs w \<and> clock v = clock w"

lemma same_tables_off [simp]: "off_infra (same_tables w)" "off_events (same_tables w)" "off_aux (same_tables w)"
  by (simp_all add: off_infra_def off_events_def off_aux_def same_tables_def)

lemma same_tables_refl [simp]: "same_tables w w"
  by (simp add: same_tables_def)

end
