(* ===== verification/Masakari_HaApi.thy ===== *)
theory Masakari_HaApi
  imports Masakari_Objects
begin

text \<open>
  \<open>masakari/ha/api.py\<close>: the operations behind the REST API on segments, hosts, notifications and
  VM moves. The body of a request is a record of its fields; a boolean field keeps the JSON value
  it was sent as, since the code converts it in different ways. Sending a notification to the
  engine (\<open>engine_rpcapi.process_notification\<close>, an RPC cast) is the parameter \<open>cast\<close>: the
  exception it raises, if any.
\<close>

section \<open>Booleans in requests\<close>

text \<open>
  \<open>strutils.bool_from_string(x, strict=True)\<close>, and \<open>bool(x)\<close>, which is how a boolean field of a
  versioned object converts the value it is set to.
\<close>

definition strict_bool :: "lib \<Rightarrow> json \<Rightarrow> exc + bool" where
  "strict_bool L x = (case x of
     JBool b \<Rightarrow> Inr b
   | JStr s \<Rightarrow> (case bool_from_string L s of None \<Rightarrow> Inl (Exc ValueError ''Unrecognized value'') | Some b \<Rightarrow> Inr b)
   | _ \<Rightarrow> Inl (Exc ValueError ''Unrecognized value''))"

definition strict_bool_or :: "lib \<Rightarrow> bool \<Rightarrow> json option \<Rightarrow> exc + bool" where
  "strict_bool_or L d x = (case x of None \<Rightarrow> Inr d | Some v \<Rightarrow> strict_bool L v)"

definition py_bool :: "json \<Rightarrow> bool" where
  "py_bool x = (case x of JNull \<Rightarrow> False | JBool b \<Rightarrow> b | JInt i \<Rightarrow> i \<noteq> 0 | JStr s \<Rightarrow> s \<noteq> ''''
     | JTime t \<Rightarrow> True | JList xs \<Rightarrow> xs \<noteq> [] | JObj d \<Rightarrow> d \<noteq> [])"

text \<open>
  \<open>except Exception as e\<close> with \<open>save_and_reraise_exception\<close> and an ERROR notification.
\<close>

definition notify_error :: "event_action \<Rightarrow> string \<Rightarrow> ('n, 'k, 'a) prog \<Rightarrow> ('n, 'k, 'a) prog" where
  "notify_error action subject m = tryM m
     (\<lambda>e. bindM (emit action PH_ERROR (Some e) subject) (\<lambda>_. raiseM e))"

section \<open>FailoverSegmentAPI\<close>

definition is_segment_under_recovery :: "request_context \<Rightarrow> segment \<Rightarrow> ('n, 'k, bool) prog" where
  "is_segment_under_recovery ctx sg = FailoverSegment_is_under_recovery ctx sg (In [NS_NEW, NS_RUNNING, NS_ERROR])"

definition get_segment :: "lib \<Rightarrow> request_context \<Rightarrow> string \<Rightarrow> ('n, 'k, segment) prog" where
  "get_segment L ctx u = (if is_uuid_like L u then FailoverSegment_get_by_uuid ctx u
     else raiseM (mk_FailoverSegmentNotFound u))"

definition get_all_segments ::
  "lib \<Rightarrow> request_context \<Rightarrow> segment_filters \<Rightarrow> string list \<Rightarrow> string list \<Rightarrow> nat option \<Rightarrow> nat option
   \<Rightarrow> ('n, 'k, segment list) prog" where
  "get_all_segments L ctx filters sort_keys sort_dirs limit marker =
     failover_segment_get_all_by_filters L ctx filters sort_keys sort_dirs limit marker"

record segment_data =
  sd_name :: string
  sd_description :: "string option"
  sd_recovery_method :: recovery_method
  sd_service_type :: string
  sd_enabled :: "json option"

definition create_segment :: "lib \<Rightarrow> request_context \<Rightarrow> segment_data \<Rightarrow> ('n, 'k, segment) prog" where
  "create_segment L ctx data =
     bindM (liftE (strict_bool_or L True (sd_enabled data))) (\<lambda>enabled.
     notify_error SEGMENT_CREATE ''''
       (FailoverSegment_create L ctx \<lparr>rid = 0, created_at = None, updated_at = None, deleted_at = None,
          deleted = 0, sg_uuid = '''', sg_name = sd_name data, sg_service_type = sd_service_type data,
          sg_enabled = enabled, sg_description = sd_description data,
          sg_recovery_method = sd_recovery_method data\<rparr>))"

text \<open>A request to change a segment: the fields it gives.\<close>

record segment_update =
  sq_name :: "string option"
  sq_description :: "string option option"
  sq_recovery_method :: "recovery_method option"
  sq_service_type :: "string option"
  sq_enabled :: "json option"

definition segment_changes :: "segment_update \<Rightarrow> segment_values" where
  "segment_changes q = \<lparr>su_name = sq_name q, su_service_type = sq_service_type q,
     su_enabled = map_option py_bool (sq_enabled q), su_description = sq_description q,
     su_recovery_method = sq_recovery_method q\<rparr>"

definition update_segment :: "request_context \<Rightarrow> string \<Rightarrow> segment_update \<Rightarrow> ('n, 'k, segment) prog" where
  "update_segment ctx u data =
     bindM (FailoverSegment_get_by_uuid ctx u) (\<lambda>sg.
     bindM (is_segment_under_recovery ctx sg) (\<lambda>busy.
     if busy then raiseM (mk_FailoverSegmentInUse u)
     else notify_error SEGMENT_UPDATE (sg_uuid sg) (FailoverSegment_save ctx sg (segment_changes data))))"

definition delete_segment :: "lib \<Rightarrow> request_context \<Rightarrow> string \<Rightarrow> ('n, 'k, unit) prog" where
  "delete_segment L ctx u =
     bindM (FailoverSegment_get_by_uuid ctx u) (\<lambda>sg.
     bindM (is_segment_under_recovery ctx sg) (\<lambda>busy.
     if busy then raiseM (Exc FailoverSegmentInUse (''Failover segment ('' @ u @
       '') can'' @ [CHR 0x27] @ ''t be deleted as it is in-use to process notifications.''))
     else notify_error SEGMENT_DELETE (sg_uuid sg) (FailoverSegment_destroy L ctx sg)))"

section \<open>HostAPI\<close>

definition get_host :: "lib \<Rightarrow> request_context \<Rightarrow> string \<Rightarrow> string \<Rightarrow> ('n, 'k, host \<times> segment) prog" where
  "get_host L ctx segment_uuid host_uuid =
     (if is_uuid_like L host_uuid then Host_get_by_uuid ctx host_uuid (Some segment_uuid)
      else raiseM (mk_HostNotFound host_uuid))"

definition get_all_hosts ::
  "lib \<Rightarrow> request_context \<Rightarrow> host_filters \<Rightarrow> string list \<Rightarrow> string list \<Rightarrow> nat option \<Rightarrow> nat option
   \<Rightarrow> ('n, 'k, host list) prog" where
  "get_all_hosts L ctx filters sort_keys sort_dirs limit marker =
     host_get_all_by_filters L ctx filters sort_keys sort_dirs limit marker"

text \<open>
  The body may give \<open>null\<close> for the type and the control attributes, fields of the object that cannot
  be \<open>None\<close>: setting them raises \<open>ValueError\<close>.
\<close>

definition not_null :: "string \<Rightarrow> string option \<Rightarrow> exc + string" where
  "not_null field v = (case v of
     None \<Rightarrow> Inl (Exc ValueError (''Field `'' @ field @ [CHR 0x27] @ '' cannot be None'')) | Some s \<Rightarrow> Inr s)"

record host_data =
  hd_name :: string
  hd_type :: "string option"
  hd_control_attributes :: "string option"
  hd_on_maintenance :: "json option"
  hd_reserved :: "json option"

definition create_host ::
  "lib \<Rightarrow> 'n nova_client \<Rightarrow> request_context \<Rightarrow> string \<Rightarrow> host_data \<Rightarrow> ('n, 'k, host \<times> segment) prog" where
  "create_host L N ctx segment_uuid data =
     bindM (FailoverSegment_get_by_uuid ctx segment_uuid) (\<lambda>sg.
     bindM (liftE (not_null ''type'' (hd_type data))) (\<lambda>host_type.
     bindM (liftE (not_null ''control_attributes'' (hd_control_attributes data))) (\<lambda>control_attributes.
     bindM (liftE (strict_bool_or L False (hd_on_maintenance data))) (\<lambda>on_maintenance.
     bindM (liftE (strict_bool_or L False (hd_reserved data))) (\<lambda>reserved.
     bindM (find_compute_service N (hd_name data)) (\<lambda>_.
     notify_error HOST_CREATE ''''
       (Host_create L ctx \<lparr>rid = 0, created_at = None, updated_at = None, deleted_at = None, deleted = 0,
          h_uuid = '''', h_name = hd_name data, h_reserved = reserved, h_type = host_type,
          h_control_attributes = control_attributes, h_on_maintenance = on_maintenance,
          h_segment_id = ''''\<rparr> sg)))))))"

record host_update_data =
  hq_name :: "string option"
  hq_type :: "string option option"
  hq_control_attributes :: "string option option"
  hq_on_maintenance :: "json option"
  hq_reserved :: "json option"

definition optional_bool :: "lib \<Rightarrow> json option \<Rightarrow> exc + bool option" where
  "optional_bool L x = (case x of None \<Rightarrow> Inr None | Some v \<Rightarrow> map_sum id Some (strict_bool L v))"

definition given_not_null :: "string \<Rightarrow> string option option \<Rightarrow> exc + string option" where
  "given_not_null field x = (case x of None \<Rightarrow> Inr None | Some v \<Rightarrow> map_sum id Some (not_null field v))"

definition update_host ::
  "lib \<Rightarrow> 'n nova_client \<Rightarrow> request_context \<Rightarrow> string \<Rightarrow> string \<Rightarrow> host_update_data
   \<Rightarrow> ('n, 'k, host \<times> segment) prog" where
  "update_host L N ctx segment_uuid i data =
     bindM (Host_get_by_uuid ctx i (Some segment_uuid)) (\<lambda>(h, sg).
     bindM (is_segment_under_recovery ctx sg) (\<lambda>busy.
     if busy then raiseM (mk_HostInUse (h_uuid h))
     else
       bindM (case hq_name data of None \<Rightarrow> retM () | Some name \<Rightarrow> find_compute_service N name) (\<lambda>_.
       bindM (liftE (optional_bool L (hq_on_maintenance data))) (\<lambda>on_maintenance.
       bindM (liftE (optional_bool L (hq_reserved data))) (\<lambda>reserved.
       notify_error HOST_UPDATE (h_uuid h)
         (bindM (liftE (given_not_null ''type'' (hq_type data))) (\<lambda>host_type.
          bindM (liftE (given_not_null ''control_attributes'' (hq_control_attributes data))) (\<lambda>control_attributes.
          Host_save ctx h \<lparr>hu_name = hq_name data, hu_reserved = reserved, hu_type = host_type,
            hu_control_attributes = control_attributes, hu_on_maintenance = on_maintenance\<rparr>))))))))"

definition delete_host :: "lib \<Rightarrow> request_context \<Rightarrow> string \<Rightarrow> string \<Rightarrow> ('n, 'k, unit) prog" where
  "delete_host L ctx segment_uuid i =
     bindM (Host_get_by_uuid ctx i (Some segment_uuid)) (\<lambda>(h, sg).
     bindM (is_segment_under_recovery ctx sg) (\<lambda>busy.
     if busy then raiseM (Exc HostInUse (''Host '' @ h_uuid h @
       '' can'' @ [CHR 0x27] @ ''t be deleted as it is in-use to process notifications.''))
     else notify_error HOST_DELETE (h_uuid h) (Host_destroy L ctx h)))"

section \<open>NotificationAPI\<close>

record notification_data =
  nd_hostname :: string
  nd_type :: notification_type
  nd_generated_time :: int
  nd_payload :: "string dict"

definition is_duplicate_notification ::
  "lib \<Rightarrow> conf \<Rightarrow> request_context \<Rightarrow> notification_data \<Rightarrow> string \<Rightarrow> ('n, 'k, bool) prog" where
  "is_duplicate_notification L C ctx data source_host_uuid =
     bindM (notifications_get_all_by_filters L ctx
       \<lparr>nf_source_host_uuid = Is source_host_uuid, nf_type = Is (nd_type data), nf_status = Any,
        nf_generated_since = Some (nd_generated_time data - duplicate_notification_detection_interval C)\<rparr>
       [] [] None None) (\<lambda>notifications_list.
     retM (list_ex (\<lambda>n. dict_eq (n_payload n) (nd_payload data)) notifications_list))"

definition create_notification_locked ::
  "lib \<Rightarrow> conf \<Rightarrow> (notification \<Rightarrow> exc option) \<Rightarrow> request_context \<Rightarrow> notification_data \<Rightarrow> ('n, 'k, notification) prog" where
  "create_notification_locked L C cast ctx data =
     bindM (Host_get_by_name ctx (nd_hostname data)) (\<lambda>(h, sg).
     if h_on_maintenance h
     then raiseM (Exc HostOnMaintenanceError (''Notification received from host '' @ nd_hostname data @
       '' of type '' @ [CHR 0x27] @ notification_type_value (nd_type data) @ [CHR 0x27] @
       '' is ignored as the host is already under maintenance.''))
     else
       bindM (is_duplicate_notification L C ctx data (h_uuid h)) (\<lambda>duplicate.
       if duplicate
       then raiseM (Exc DuplicateNotification (''Notification received from host '' @ nd_hostname data @
         '' of type '' @ notification_type_value (nd_type data) @ '' is duplicate.''))
       else
         bindM (notify_error NOTIFICATION_CREATE ''''
           (Notification_create L ctx \<lparr>rid = 0, created_at = None, updated_at = None, deleted_at = None,
              deleted = 0, n_uuid = '''', n_generated_time = nd_generated_time data, n_type = nd_type data,
              n_payload = nd_payload data, n_status = NS_NEW, n_source_host_uuid = h_uuid h\<rparr>)) (\<lambda>n.
         notify_error NOTIFICATION_CREATE (n_uuid n)
           (case cast n of None \<Rightarrow> retM n | Some e \<Rightarrow> raiseM e))))"

text \<open>
  For a host notification the same function runs under a lock of the coordinator on the host
  name: the runs of one host are one after the other, as the model runs them.
\<close>

definition create_notification ::
  "lib \<Rightarrow> conf \<Rightarrow> (notification \<Rightarrow> exc option) \<Rightarrow> request_context \<Rightarrow> notification_data \<Rightarrow> ('n, 'k, notification) prog" where
  "create_notification L C cast ctx data = create_notification_locked L C cast ctx data"

definition get_all_notifications ::
  "lib \<Rightarrow> request_context \<Rightarrow> notification_filters \<Rightarrow> string list \<Rightarrow> string list \<Rightarrow> nat option \<Rightarrow> nat option
   \<Rightarrow> ('n, 'k, notification list) prog" where
  "get_all_notifications L ctx filters sort_keys sort_dirs limit marker =
     notifications_get_all_by_filters L ctx filters sort_keys sort_dirs limit marker"

definition get_notification :: "lib \<Rightarrow> request_context \<Rightarrow> string \<Rightarrow> ('n, 'k, notification) prog" where
  "get_notification L ctx u = (if is_uuid_like L u then notification_get_by_uuid ctx u
     else raiseM (mk_NotificationNotFound u))"

section \<open>VMoveAPI\<close>

definition is_valid_notification :: "request_context \<Rightarrow> string \<Rightarrow> ('n, 'k, unit) prog" where
  "is_valid_notification ctx u = bindM (notification_get_by_uuid ctx u) (\<lambda>n.
     if n_type n \<noteq> COMPUTE_HOST then raiseM (mk_NotificationWithoutVMoves u) else retM ())"

definition get_all_vmoves_of ::
  "lib \<Rightarrow> request_context \<Rightarrow> string \<Rightarrow> vmove_filters \<Rightarrow> string list \<Rightarrow> string list \<Rightarrow> nat option \<Rightarrow> nat option
   \<Rightarrow> ('n, 'k, vmove list) prog" where
  "get_all_vmoves_of L ctx u filters sort_keys sort_dirs limit marker =
     bindM (is_valid_notification ctx u) (\<lambda>_.
     vmoves_get_all_by_filters L ctx (filters\<lparr>vf_notification_uuid := Is u\<rparr>) sort_keys sort_dirs limit marker)"

definition get_vmove :: "lib \<Rightarrow> request_context \<Rightarrow> string \<Rightarrow> string \<Rightarrow> ('n, 'k, vmove) prog" where
  "get_vmove L ctx notification_uuid vmove_uuid =
     bindM (is_valid_notification ctx notification_uuid) (\<lambda>_.
     if is_uuid_like L vmove_uuid then vmove_get_by_uuid ctx vmove_uuid
     else raiseM (mk_VMoveNotFound vmove_uuid))"

section \<open>Lookups on a good database\<close>

text \<open>A live host is found by its name, a segment by its uuid.\<close>

lemma find_unique:
  "x \<in> set xs \<Longrightarrow> P x \<Longrightarrow> (\<And>y. y \<in> set xs \<Longrightarrow> P y \<Longrightarrow> y = x) \<Longrightarrow> find P xs = Some x"
  by (cases "find P xs") (use find_None [of P xs] find_SomeD [of P xs] in blast)+

lemma live_host_by_name:
  assumes "live_ctx ctx" and "db_ok L w" and h: "h \<in> set (hosts w)" "deleted h = 0"
  shows "host_get_by_name ctx (h_name h) w = (Inr h, w)"
proof -
  have "distinct (map (\<lambda>r. (h_name r, deleted r)) (hosts w))"
    using assms(2) by (simp add: db_ok_def table_ok_def uniq_hosts_def)
  then have "find (\<lambda>r. h_name r = h_name h) (filter (\<lambda>r. deleted r = 0) (hosts w)) = Some h"
    using h by (intro find_unique) (auto simp: distinct_map inj_on_def)
  then show ?thesis
    using assms(1) by (simp add: host_get_by_name_def row_get_def first_by_def model_query_live comp_defs liftE_def)
qed

lemma find_segment:
  assumes "db_ok L w" and "sg \<in> set (segments w)"
  shows "find (\<lambda>s. sg_uuid s = sg_uuid sg) (segments w) = Some sg"
proof -
  have "distinct (map sg_uuid (segments w))"
    using assms(1) by (simp add: db_ok_def table_ok_def uniq_segments_def)
  then show ?thesis using assms(2) by (intro find_unique) (auto simp: distinct_map inj_on_def)
qed

lemma live_notification_insert:
  assumes "live_ctx ctx" and "db_ok L w" and "n_uuid v \<notin> n_uuid ` set (notifications w)"
  shows "notification_create ctx v w = (Inr (stamped notifications_tbl v w),
    w\<lparr>notifications := notifications w @ [stamped notifications_tbl v w]\<rparr>)"
proof -
  have ok: "table_ok L notifications_tbl w" using assms(2) by (simp add: db_ok_def)
  then have "uniq_notifications (notifications w @ [stamped notifications_tbl v w])"
    using assms(3) by (auto simp: table_ok_def uniq_notifications_def stamped_def)
  then have "insert_row (t_uniq notifications_tbl) (clock w) v (t_get notifications_tbl w) =
      Inr (notifications w @ [stamped notifications_tbl v w])"
    by (simp add: insert_row_def stamped_def Let_def)
  then show ?thesis
    by (simp add: notification_create_def notifications_store.create_eq [OF assms(1) ok])
qed

text \<open>The notifications that count as duplicates of a request.\<close>

definition duplicates :: "conf \<Rightarrow> notification_data \<Rightarrow> host \<Rightarrow> ('n, 'k) world \<Rightarrow> notification set" where
  "duplicates C data h w = {n \<in> set (notifications w). deleted n = 0 \<and> n_source_host_uuid n = h_uuid h \<and>
     n_type n = nd_type data \<and>
     nd_generated_time data - duplicate_notification_detection_interval C \<le> n_generated_time n \<and>
     map_of (n_payload n) = map_of (nd_payload data)}"

lemma is_duplicate_iff:
  assumes "live_ctx ctx" and "lib_ok L"
  shows "is_duplicate_notification L C ctx data (h_uuid h) w = (Inr (duplicates C data h w \<noteq> {}), w)"
proof -
  have "paginator_ok (page_notifications L)" using assms(2) by (simp add: lib_ok_def)
  from row_list_all [OF assms(1) this, of notifications_tbl
      "\<lambda>r. n_source_host_uuid r = h_uuid h \<and> n_type r = nd_type data \<and>
         nd_generated_time data - duplicate_notification_detection_interval C \<le> n_generated_time r" w]
  obtain res where res: "notifications_get_all_by_filters L ctx
       \<lparr>nf_source_host_uuid = Is (h_uuid h), nf_type = Is (nd_type data), nf_status = Any,
        nf_generated_since = Some (nd_generated_time data - duplicate_notification_detection_interval C)\<rparr>
       [] [] None None w = (Inr res, w)"
    and set: "set res = {r \<in> set (notifications w). deleted r = 0 \<and> n_source_host_uuid r = h_uuid h \<and>
       n_type r = nd_type data \<and>
       nd_generated_time data - duplicate_notification_detection_interval C \<le> n_generated_time r}"
    by (auto simp: notifications_get_all_by_filters_def)
  show ?thesis
    unfolding is_duplicate_notification_def bindM_def res retM_def
    by (auto simp: list_ex_iff dict_eq_iff set duplicates_def)
qed

section \<open>Properties of the API\<close>

text \<open>Accepting a notification of a registered host: it is refused, with the database as it was,
  when the host is on maintenance (\<open>HostOnMaintenanceError\<close>) or when a live notification of the
  same host, type and payload was generated within the detection interval
  (\<open>DuplicateNotification\<close>). Otherwise the database gains exactly one notification, in state new,
  START and END are emitted, the notification is sent to the engine, and when that fails one ERROR
  is emitted and the caller sees the failure.\<close>

lemma create_notification_spec:
  assumes "live_ctx ctx" and "lib_ok L" and "db_ok L w"
    and "h \<in> set (hosts w)" and "deleted h = 0" and "h_name h = nd_hostname data"
    and "sg \<in> set (segments w)" and "sg_uuid sg = h_segment_id h"
    and "gen_uuid L (uuid_seq w) \<notin> n_uuid ` set (notifications w)"
  shows "if h_on_maintenance h
    then \<exists>m. create_notification L C cast ctx data w = (Inl (Exc HostOnMaintenanceError m), w)
    else if duplicates C data h w \<noteq> {}
    then \<exists>m. create_notification L C cast ctx data w = (Inl (Exc DuplicateNotification m), w)
    else \<exists>n w'. create_notification L C cast ctx data w =
          ((case cast n of None \<Rightarrow> Inr n | Some e \<Rightarrow> Inl e), w') \<and>
        notifications w' = notifications w @ [n] \<and> hosts w' = hosts w \<and> segments w' = segments w \<and> db_ok L w' \<and>
        n_status n = NS_NEW \<and> deleted n = 0 \<and> n_source_host_uuid n = h_uuid h \<and> n_type n = nd_type data \<and>
        n_payload n = nd_payload data \<and> n_uuid n = gen_uuid L (uuid_seq w) \<and>
        events w' = events w @ [event_of NOTIFICATION_CREATE PH_START None '''',
            event_of NOTIFICATION_CREATE PH_END None ''''] @
          (case cast n of None \<Rightarrow> [] | Some e \<Rightarrow> [event_of NOTIFICATION_CREATE PH_ERROR (Some e) (n_uuid n)])"
proof -
  have host: "Host_get_by_name ctx (nd_hostname data) w = (Inr (h, sg), w)"
    using live_host_by_name [OF assms(1,3,4,5)] find_segment [OF assms(3,7)] assms(6,8)
    by (simp add: Host_get_by_name_def with_segment_def comp_defs)
  note dup = is_duplicate_iff [OF assms(1,2), of C data h w]
  let ?w = "w\<lparr>uuid_seq := Suc (uuid_seq w), events := events w @ [event_of NOTIFICATION_CREATE PH_START None '''']\<rparr>"
  let ?v = "\<lparr>rid = 0, created_at = None, updated_at = None, deleted_at = None, deleted = 0,
    n_uuid = gen_uuid L (uuid_seq w), n_generated_time = nd_generated_time data, n_type = nd_type data,
    n_payload = nd_payload data, n_status = NS_NEW, n_source_host_uuid = h_uuid h\<rparr>"
  have "db_ok L ?w" using assms(3) by (simp add: db_ok_def table_ok_def)
  with assms(9) have ins: "notification_create ctx ?v ?w = (Inr (stamped notifications_tbl ?v ?w),
      ?w\<lparr>notifications := notifications w @ [stamped notifications_tbl ?v ?w]\<rparr>)"
    using live_notification_insert [OF assms(1), of L ?w ?v] by simp
  have "table_ok L notifications_tbl ?w" using \<open>db_ok L ?w\<close> by (simp add: db_ok_def)
  from notifications_store.create_live [OF assms(1) this ins [unfolded notification_create_def]]
  have "table_ok L notifications_tbl (?w\<lparr>notifications := notifications w @ [stamped notifications_tbl ?v ?w]\<rparr>)" by blast
  then have kept: "db_ok L (w\<lparr>uuid_seq := k, notifications := notifications w @ [stamped notifications_tbl ?v ?w], events := es\<rparr>)" for k es
    using assms(3) by (simp add: db_ok_def table_ok_def tbl_defs)
  show ?thesis
    using host dup ins
    by (auto simp: kept [unfolded stamped_def, simplified] create_notification_def create_notification_locked_def notify_error_def comp_defs
      Notification_create_def generate_uuid_def emit_def event_of_def get_fault_and_priority_def
      stamped_def split: option.split)
qed

lemma host_in_segment:
  assumes "live_ctx ctx" and "db_ok L w" and "h \<in> set (hosts w)" and "deleted h = 0"
    and "sg \<in> set (segments w)" and "sg_uuid sg = h_segment_id h" and "sg_uuid sg \<noteq> ''''"
  shows "Host_get_by_uuid ctx (h_uuid h) (Some (sg_uuid sg)) w = (Inr (h, sg), w)"
proof -
  have "distinct (map h_uuid (hosts w))" using assms(2) by (simp add: db_ok_def table_ok_def uniq_hosts_def)
  then have "find (\<lambda>r. h_uuid r = h_uuid h \<and> h_segment_id r = sg_uuid sg)
      (filter (\<lambda>r. deleted r = 0) (hosts w)) = Some h"
    using assms(3,4,6) by (intro find_unique) (auto simp: distinct_map inj_on_def)
  then have "host_get_by_uuid ctx (h_uuid h) (Some (sg_uuid sg)) w = (Inr h, w)"
    using assms(1,7) by (simp add: host_get_by_uuid_def row_get_def first_by_def model_query_live comp_defs liftE_def)
  then show ?thesis using find_segment [OF assms(2,5)] assms(6)
    by (simp add: Host_get_by_uuid_def with_segment_def comp_defs)
qed

lemma segment_by_uuid:
  assumes "live_ctx ctx" and "db_ok L w" and "sg \<in> set (segments w)" and "deleted sg = 0"
  shows "FailoverSegment_get_by_uuid ctx (sg_uuid sg) w = (Inr sg, w)"
proof -
  have "distinct (map (t_key segments_tbl) (t_get segments_tbl w))"
    using assms(2) by (simp add: db_ok_def table_ok_def uniq_segments_def)
  from live_Some [OF this, of "sg_uuid sg" sg] assms show ?thesis
    by (simp add: FailoverSegment_get_by_uuid_def get_by_uuid_live)
qed

text \<open>The hosts of a segment whose notifications are still being worked on.\<close>

definition in_use :: "segment \<Rightarrow> ('n, 'k) world \<Rightarrow> bool" where
  "in_use sg w \<longleftrightarrow> (\<exists>n \<in> set (notifications w). deleted n = 0 \<and> n_status n \<in> {NS_NEW, NS_RUNNING, NS_ERROR} \<and>
     (\<exists>h \<in> set (hosts w). deleted h = 0 \<and> h_segment_id h = sg_uuid sg \<and> n_source_host_uuid n = h_uuid h))"

lemma under_recovery_in_use:
  "live_ctx ctx \<Longrightarrow> is_segment_under_recovery ctx sg w = (Inr (in_use sg w), w)"
  by (auto simp: is_segment_under_recovery_def FailoverSegment_is_under_recovery_def in_use_def
    is_failover_segment_under_recovery_def comp_defs liftE_def model_query_live filter_empty_conv
    Let_def image_iff)

text \<open>
  While a notification of the segment is new, running or in error, neither the segment nor any of its hosts
  can be changed or deleted: all four operations raise their in-use exception and leave the state as it was.
\<close>

lemma segment_in_use_refused:
  assumes "live_ctx ctx" and "db_ok L w" and "sg \<in> set (segments w)" and "deleted sg = 0"
    and "sg_uuid sg \<noteq> ''''" and "h \<in> set (hosts w)" and "deleted h = 0" and "h_segment_id h = sg_uuid sg"
  shows "if in_use sg w
    then update_segment ctx (sg_uuid sg) data w = (Inl (mk_FailoverSegmentInUse (sg_uuid sg)), w) \<and>
      (\<exists>m. delete_segment L ctx (sg_uuid sg) w = (Inl (Exc FailoverSegmentInUse m), w)) \<and>
      update_host L N ctx (sg_uuid sg) (h_uuid h) hdata w = (Inl (mk_HostInUse (h_uuid h)), w) \<and>
      (\<exists>m. delete_host L ctx (sg_uuid sg) (h_uuid h) w = (Inl (Exc HostInUse m), w))
    else update_segment ctx (sg_uuid sg) data w =
        notify_error SEGMENT_UPDATE (sg_uuid sg) (FailoverSegment_save ctx sg (segment_changes data)) w \<and>
      delete_segment L ctx (sg_uuid sg) w =
        notify_error SEGMENT_DELETE (sg_uuid sg) (FailoverSegment_destroy L ctx sg) w \<and>
      delete_host L ctx (sg_uuid sg) (h_uuid h) w = notify_error HOST_DELETE (h_uuid h) (Host_destroy L ctx h) w"
proof -
  note get = segment_by_uuid [OF assms(1-4)] host_in_segment [OF assms(1,2,6,7,3) assms(8) [symmetric] assms(5)]
  note busy = under_recovery_in_use [OF assms(1), of sg w]
  show ?thesis using get busy
    by (simp add: update_segment_def delete_segment_def update_host_def delete_host_def bindM_def raiseM_def)
qed

text \<open>What a deletion that is not refused leaves: the events around it are no part of the tables.\<close>

lemma delete_segment_run:
  assumes "live_ctx ctx" and "lib_ok L" and "db_ok L w" and "sg \<in> set (segments w)" and "deleted sg = 0" and "\<not> in_use sg w"
  shows "\<exists>w'. delete_segment L ctx (sg_uuid sg) w = (Inr (), w') \<and> db_ok L w' \<and>
    live segments_tbl w' = (live segments_tbl w)(sg_uuid sg := None) \<and>
    live hosts_tbl w' = (\<lambda>x. case live hosts_tbl w x of None \<Rightarrow> None
      | Some h \<Rightarrow> if h_segment_id h = sg_uuid sg then None else Some h) \<and> notifications w' = notifications w"
proof -
  let ?u = "sg_uuid sg"
  let ?w = "w\<lparr>events := events w @ [event_of SEGMENT_DELETE PH_START None ?u]\<rparr>"
  have "live segments_tbl w ?u = Some sg"
    using live_Some [OF segments_store.ok_keys, of L w ?u sg] assms(3-5) by (simp add: db_ok_def segments_tbl_def)
  moreover have frame: "live segments_tbl ?w = live segments_tbl w" "live hosts_tbl ?w = live hosts_tbl w" by (simp_all add: live_def)
  ultimately have here: "live segments_tbl ?w ?u \<noteq> None" by simp
  have ok: "db_ok L ?w" using assms(3) by (simp add: db_ok_def table_ok_def)
  obtain w1 where w1: "failover_segment_delete L ctx ?u ?w = (Inr (), w1)" "db_ok L w1"
    "live segments_tbl w1 = (live segments_tbl ?w)(?u := None)"
    "live hosts_tbl w1 = (\<lambda>x. case live hosts_tbl ?w x of None \<Rightarrow> None | Some h \<Rightarrow> if h_segment_id h = ?u then None else Some h)"
    "\<exists>sgs hs. w1 = ?w\<lparr>segments := sgs, hosts := hs\<rparr>"
    using segment_delete_cascades [OF assms(1,2) ok, of ?u] here by auto
  let ?t = "w1\<lparr>events := events w1 @ [event_of SEGMENT_DELETE PH_END None ?u]\<rparr>"
  have run: "delete_segment L ctx ?u w = (Inr (), ?t)"
    using segment_by_uuid [OF assms(1,3-5)] under_recovery_in_use [OF assms(1), of sg w] assms(6) w1(1)
    by (simp add: delete_segment_def FailoverSegment_destroy_def notify_error_def emit_def event_of_def get_fault_and_priority_def comp_defs)
  have "db_ok L ?t" "live segments_tbl ?t = live segments_tbl w1" "live hosts_tbl ?t = live hosts_tbl w1"
    using w1(2) by (simp_all add: db_ok_def table_ok_def live_def)
  with run w1(3-5) frame show ?thesis by auto
qed

lemma delete_host_run:
  assumes "live_ctx ctx" and "lib_ok L" and "db_ok L w" and "h \<in> set (hosts w)" and "deleted h = 0"
    and "sg \<in> set (segments w)" and "sg_uuid sg = h_segment_id h" and "sg_uuid sg \<noteq> ''''" and "\<not> in_use sg w"
  shows "\<exists>w'. delete_host L ctx (sg_uuid sg) (h_uuid h) w = (Inr (), w') \<and> db_ok L w' \<and>
    live segments_tbl w' = live segments_tbl w \<and> live hosts_tbl w' = (live hosts_tbl w)(h_uuid h := None) \<and>
    notifications w' = notifications w"
proof -
  let ?u = "h_uuid h"
  let ?w = "w\<lparr>events := events w @ [event_of HOST_DELETE PH_START None ?u]\<rparr>"
  have "live hosts_tbl w ?u = Some h"
    using live_Some [OF hosts_store.ok_keys, of L w ?u h] assms(3-5) by (simp add: db_ok_def hosts_tbl_def)
  moreover have frame: "live segments_tbl ?w = live segments_tbl w" "live hosts_tbl ?w = live hosts_tbl w" by (simp_all add: live_def)
  ultimately have here: "live hosts_tbl ?w ?u = Some h" by simp
  have ok: "db_ok L ?w" using assms(3) by (simp add: db_ok_def table_ok_def)
  obtain w1 where w1: "host_delete L ctx ?u ?w = (Inr (), w1)" "db_ok L w1"
    "live hosts_tbl w1 = (live hosts_tbl ?w)(?u := None)" "\<exists>hs. w1 = ?w\<lparr>hosts := hs\<rparr>"
    using host_delete_live [OF assms(1,2) ok here] by auto
  let ?t = "w1\<lparr>events := events w1 @ [event_of HOST_DELETE PH_END None ?u]\<rparr>"
  have run: "delete_host L ctx (sg_uuid sg) ?u w = (Inr (), ?t)"
    using host_in_segment [OF assms(1,3-8)] under_recovery_in_use [OF assms(1), of sg w] assms(9) w1(1)
    by (simp add: delete_host_def Host_destroy_def notify_error_def emit_def event_of_def get_fault_and_priority_def comp_defs)
  have "live segments_tbl w1 = live segments_tbl ?w" using w1(4) by (auto simp: live_def)
  moreover have "db_ok L ?t" "live segments_tbl ?t = live segments_tbl w1" "live hosts_tbl ?t = live hosts_tbl w1"
    using w1(2) by (simp_all add: db_ok_def table_ok_def live_def)
  ultimately show ?thesis using run w1(3,4) frame by auto
qed

section \<open>Creating a segment\<close>

text \<open>
  The whole operation on a fresh uuid: the name decides, and the events are those of the object, with an
  ERROR when the database refuses.
\<close>

lemma create_segment_run:
  assumes "live_ctx ctx" and "db_ok L w" and "strict_bool_or L True (sd_enabled data) = Inr enabled"
    and "gen_uuid L (uuid_seq w) \<notin> sg_uuid ` set (segments w)"
  shows "if \<exists>r \<in> set (segments w). deleted r = 0 \<and> sg_name r = sd_name data
    then \<exists>w'. create_segment L ctx data w = (Inl (mk_FailoverSegmentExists (sd_name data)), w') \<and> segments w' = segments w
    else \<exists>sg w'. create_segment L ctx data w = (Inr sg, w') \<and> segments w' = segments w @ [sg] \<and> db_ok L w' \<and>
      deleted sg = 0 \<and> sg_uuid sg = gen_uuid L (uuid_seq w) \<and> sg_name sg = sd_name data \<and> sg_enabled sg = enabled \<and>
      sg_description sg = sd_description data \<and> sg_recovery_method sg = sd_recovery_method data \<and>
      sg_service_type sg = sd_service_type data"
proof -
  define v where "v = \<lparr>rid = 0, created_at = None, updated_at = None, deleted_at = None, deleted = 0,
    sg_uuid = gen_uuid L (uuid_seq w), sg_name = sd_name data, sg_service_type = sd_service_type data, sg_enabled = enabled,
    sg_description = sd_description data, sg_recovery_method = sd_recovery_method data\<rparr>"
  define w1 where "w1 = w\<lparr>uuid_seq := Suc (uuid_seq w), events := events w @ [event_of SEGMENT_CREATE PH_START None '''']\<rparr>"
  have ok: "db_ok L w1" using assms(2) by (simp add: w1_def db_ok_def table_ok_def)
  have used: "(\<exists>r \<in> set (segments w1). sg_uuid r = sg_uuid v \<or> deleted r = 0 \<and> sg_name r = sg_name v) \<longleftrightarrow>
      (\<exists>r \<in> set (segments w). deleted r = 0 \<and> sg_name r = sd_name data)"
    using assms(4) by (auto simp: w1_def v_def image_iff)
  have run: "create_segment L ctx data w = notify_error SEGMENT_CREATE ''''
      (\<lambda>_. bindM (failover_segment_create ctx v) (\<lambda>r. bindM (emit SEGMENT_CREATE PH_END None '''') (\<lambda>_. retM r)) w1) w"
    using assms(3)
    by (simp add: create_segment_def FailoverSegment_create_def notify_error_def generate_uuid_def emit_def event_of_def
      get_fault_and_priority_def comp_defs liftE_def v_def w1_def)
  note spec = segment_create_spec [OF assms(1) ok, of v, unfolded used]
  show ?thesis
  proof (cases "\<exists>r \<in> set (segments w). deleted r = 0 \<and> sg_name r = sd_name data")
    case True
    with spec have "failover_segment_create ctx v w1 = (Inl (mk_FailoverSegmentExists (sd_name data)), w1)" by (simp add: v_def)
    with True show ?thesis
      by (simp add: run notify_error_def comp_defs emit_def get_fault_and_priority_def w1_def)
  next
    case False
    with spec obtain w2 where w2: "failover_segment_create ctx v w1 = (Inr (stamped segments_tbl v w1), w2)" "db_ok L w2"
      "w2 = w1\<lparr>segments := segments w1 @ [stamped segments_tbl v w1]\<rparr>" by auto
    have "db_ok L (w2\<lparr>events := events w2 @ [event_of SEGMENT_CREATE PH_END None '''']\<rparr>)"
      using w2(2) by (simp add: db_ok_def table_ok_def)
    with False w2 show ?thesis
      by (simp add: run notify_error_def comp_defs emit_def event_of_def get_fault_and_priority_def)
        (simp add: stamped_def v_def w1_def)
  qed
qed

end
