(* ===== verification/Masakari_Flows.thy ===== *)
theory Masakari_Flows
  imports Masakari_Objects
begin

text \<open>
  The recovery flows of \<open>masakari/engine/drivers/taskflow\<close> for instances and processes. Taskflow is
  another package: a \<open>flow\<close> is what the program builds, and the engine that runs it is the
  parameter \<open>E\<close>. \<open>engine_ok E\<close> states what the documentation of taskflow says of the flows used
  here: a linear flow runs its members in order and stops at the first that raises, and a flow
  with the retry \<open>ParameterizedForEach\<close> runs its members for the first value and, when they fail,
  for the next one, until the values are used up.
\<close>

section \<open>Flows\<close>

datatype ('n, 'k) flow =
    Task "('n, 'k, unit) prog"
  | Linear "('n, 'k) flow list"
  | ForEach "string list" "string \<Rightarrow> ('n, 'k, unit) prog list"

type_synonym ('n, 'k) engine = "('n, 'k) flow \<Rightarrow> ('n, 'k, unit) prog"

definition engine_ok :: "('n, 'k) engine \<Rightarrow> bool" where
  "engine_ok E \<longleftrightarrow>
     (\<forall>m. E (Task m) = m) \<and> (\<forall>fs. E (Linear fs) = forM fs E) \<and>
     (\<forall>v body. E (ForEach [v] body) = forM (body v) id) \<and>
     (\<forall>v u vs body. E (ForEach (v # u # vs) body) = tryM (forM (body v) id) (\<lambda>_. E (ForEach (u # vs) body)))"

text \<open>An engine with this behaviour, for the witnesses.\<close>

primrec run_each :: "string list \<Rightarrow> (string \<Rightarrow> ('n, 'k, unit) prog list) \<Rightarrow> ('n, 'k, unit) prog" where
  "run_each [] body = retM ()"
| "run_each (v # vs) body = (if vs = [] then forM (body v) id else tryM (forM (body v) id) (\<lambda>_. run_each vs body))"

function demo_engine :: "('n, 'k) flow \<Rightarrow> ('n, 'k, unit) prog" where
  "demo_engine (Task m) = m"
| "demo_engine (Linear []) = retM ()"
| "demo_engine (Linear (f # fs)) = bindM (demo_engine f) (\<lambda>_. demo_engine (Linear fs))"
| "demo_engine (ForEach vs body) = run_each vs body"
  by pat_completeness auto
termination by (relation "measure (size_flow (\<lambda>_. 0) (\<lambda>_. 0))") auto

lemma demo_engine_linear: "demo_engine (Linear fs) = forM fs demo_engine"
  by (induction fs) simp_all

lemma demo_engine_ok: "engine_ok demo_engine"
  by (simp add: engine_ok_def demo_engine_linear)

lemma bindM_retM [simp]: "bindM m retM = m"
  by (auto simp: bindM_def retM_def fun_eq_iff split: prod.split sum.split)

lemma bindM_unit [simp]: "bindM (m :: ('s, 'e, unit) comp) (\<lambda>_. retM ()) = m"
  by (auto simp: bindM_def retM_def fun_eq_iff split: prod.split sum.split)

lemma engine_linear:
  assumes "engine_ok E"
  shows "E (Linear [Linear (map Task a), Linear (map Task b), Linear (map Task c)]) =
     bindM (forM a id) (\<lambda>_. bindM (forM b id) (\<lambda>_. forM c id))"
proof -
  have "forM (map Task ms) E = forM ms id" for ms
    using assms by (induction ms) (simp_all add: engine_ok_def)
  then show ?thesis using assms by (simp add: engine_ok_def)
qed

section \<open>Instance failure\<close>

text \<open>
  \<open>strutils.bool_from_string(instance.metadata.get(key, False))\<close>: not strict, so an unknown value
  counts as false.
\<close>

definition ha_enabled :: "lib \<Rightarrow> string \<Rightarrow> server \<Rightarrow> bool" where
  "ha_enabled L key sv = (case map_of (sv_metadata sv) key of None \<Rightarrow> False
     | Some v \<Rightarrow> bool_from_string L v = Some True)"

definition timed_out :: exc where
  "timed_out = Exc LoopingCallTimeOut ''Looping call timed out''"

text \<open>One call of the function that a wait polls with: done when Nova reports the state.\<close>

definition wait_for_vm_state :: "'n nova_client \<Rightarrow> string \<Rightarrow> string \<Rightarrow> ('n, 'k, unit option) prog" where
  "wait_for_vm_state N u st = bindM (get_server N u) (\<lambda>sv.
     retM (if sv_vm_state sv = st then Some () else None))"

definition StopInstanceTask :: "lib \<Rightarrow> conf \<Rightarrow> 'n nova_client \<Rightarrow> string \<Rightarrow> ('n, 'k, unit) prog" where
  "StopInstanceTask L C N u =
     bindM (get_server N u) (\<lambda>instance.
     if \<not> process_all_instances C \<and> \<not> ha_enabled L (instance_ha_key C) instance
     then bindM (update_details (''Skipping recovery for instance: '' @ u @ '' as it is not Ha_Enabled'') 100)
       (\<lambda>_. raiseM (Exc SkipInstanceRecoveryException ''Skipping execution of instance recovery workflow.''))
     else let vm_state = sv_vm_state instance in
     if vm_state \<in> {''paused'', ''rescued''}
     then let msg = ''Recovery of instance '' @ [CHR 0x27] @ u @ [CHR 0x27] @ '' is ignored as it is in '' @
            [CHR 0x27] @ vm_state @ [CHR 0x27] @ '' state.''
       in bindM (update_details msg 100) (\<lambda>_. raiseM (Exc IgnoreInstanceRecoveryException msg))
     else
       bindM (whenM (vm_state \<noteq> ''stopped'')
         (bindM (whenM (vm_state = ''resized'') (reset_instance_state N (sv_id instance) ''active'')) (\<lambda>_.
          bindM (update_details (''Stopping instance: '' @ u) 0) (\<lambda>_.
          tryM (stop_server N (sv_id instance)) (\<lambda>e.
            if isinstance e Conflict
            then bindM (update_details (''Conflict when stopping instance: '' @ u) 0) (\<lambda>_.
                 bindM (get_server N u) (\<lambda>again.
                 if sv_vm_state again \<noteq> ''stopped'' then raiseM e else retM ()))
            else raiseM e))))) (\<lambda>_.
       tryM
         (bindM (poll timed_out (polls_power_off C) (wait_for_vm_state N u ''stopped'')) (\<lambda>_.
          update_details (''Stopped instance: '' @ [CHR 0x27] @ u @ [CHR 0x27]) 100))
         (\<lambda>e. if isinstance e LoopingCallTimeOut
           then let msg = ''Failed to stop instance '' @ sv_id instance
             in bindM (update_details msg 100) (\<lambda>_. raiseM (Exc InstanceRecoveryFailureException msg))
           else raiseM e)))"

definition StartInstanceTask :: "'n nova_client \<Rightarrow> string \<Rightarrow> ('n, 'k, unit) prog" where
  "StartInstanceTask N u =
     bindM (update_details (''Starting instance: '' @ [CHR 0x27] @ u @ [CHR 0x27]) 0) (\<lambda>_.
     bindM (get_server N u) (\<lambda>instance.
     if sv_vm_state instance = ''stopped''
     then bindM (start_server N (sv_id instance)) (\<lambda>_.
          update_details (''Instance started: '' @ [CHR 0x27] @ u @ [CHR 0x27]) 100)
     else let msg = ''Invalid state for Instance '' @ u @ ''. Expected state: '' @ [CHR 0x27] @ ''STOPPED'' @
            [CHR 0x27] @ '', Actual state: '' @ [CHR 0x27] @ sv_vm_state instance @ [CHR 0x27]
       in bindM (update_details msg 100) (\<lambda>_. raiseM (Exc InstanceRecoveryFailureException msg))))"

definition ConfirmInstanceActiveTask :: "conf \<Rightarrow> 'n nova_client \<Rightarrow> string \<Rightarrow> ('n, 'k, unit) prog" where
  "ConfirmInstanceActiveTask C N u = tryM
     (bindM (update_details (''Confirming instance '' @ [CHR 0x27] @ u @ [CHR 0x27] @ '' vm_state is ACTIVE'') 0) (\<lambda>_.
      bindM (poll timed_out (polls_power_on C) (wait_for_vm_state N u ''active'')) (\<lambda>_.
      update_details (''Confirmed instance '' @ [CHR 0x27] @ u @ [CHR 0x27] @ '' vm_state is ACTIVE'') 100)))
     (\<lambda>e. if isinstance e LoopingCallTimeOut
       then let msg = ''Failed to start instance '' @ u
         in bindM (update_details msg 100) (\<lambda>_. raiseM (Exc InstanceRecoveryFailureException msg))
       else raiseM e)"

text \<open>The flow, with the tasks that the configuration names by default.\<close>

definition get_instance_recovery_flow ::
  "lib \<Rightarrow> conf \<Rightarrow> 'n nova_client \<Rightarrow> string \<Rightarrow> ('n, 'k) flow" where
  "get_instance_recovery_flow L C N u = Linear
     [Linear (map Task [StopInstanceTask L C N u]), Linear (map Task [StartInstanceTask N u]),
      Linear (map Task [ConfirmInstanceActiveTask C N u])]"

section \<open>Process failure\<close>

definition DisableComputeNodeTask :: "conf \<Rightarrow> 'n nova_client \<Rightarrow> string \<Rightarrow> string \<Rightarrow> ('n, 'k, unit) prog" where
  "DisableComputeNodeTask C N process_name host_name =
     bindM (update_details (''Disabling compute service on host: '' @ [CHR 0x27] @ host_name @ [CHR 0x27]) 0) (\<lambda>_.
     bindM (is_service_disabled N host_name process_name) (\<lambda>disabled.
     if \<not> disabled
     then bindM (enable_disable_service N host_name False (Some (process_disable_reason C))) (\<lambda>_.
          update_details (''Disabled compute service on host: '' @ [CHR 0x27] @ host_name @ [CHR 0x27]) 100)
     else update_details (''Skipping recovery for process '' @ process_name @ '' as it is already disabled'') 100))"

definition ConfirmComputeNodeDisabledTask ::
  "conf \<Rightarrow> 'n nova_client \<Rightarrow> string \<Rightarrow> string \<Rightarrow> ('n, 'k, unit) prog" where
  "ConfirmComputeNodeDisabledTask C N process_name host_name = tryM
     (bindM (update_details (''Confirming compute service is disabled on host: '' @ [CHR 0x27] @ host_name @ [CHR 0x27]) 0) (\<lambda>_.
      bindM (poll timed_out (polls_service_update C)
        (bindM (is_service_disabled N host_name process_name) (\<lambda>disabled. retM (if disabled then Some () else None)))) (\<lambda>_.
      update_details (''Confirmed compute service is disabled on host: '' @ [CHR 0x27] @ host_name @ [CHR 0x27]) 100)))
     (\<lambda>e. if isinstance e LoopingCallTimeOut
       then let msg = ''Failed to disable service '' @ process_name
         in bindM (update_details msg 100) (\<lambda>_. raiseM (Exc ProcessRecoveryFailureException msg))
       else raiseM e)"

definition get_compute_process_recovery_flow ::
  "conf \<Rightarrow> 'n nova_client \<Rightarrow> string \<Rightarrow> string \<Rightarrow> ('n, 'k) flow" where
  "get_compute_process_recovery_flow C N process_name host_name = Linear
     [Linear (map Task [DisableComputeNodeTask C N process_name host_name]),
      Linear (map Task [ConfirmComputeNodeDisabledTask C N process_name host_name]), Linear (map Task [])]"

section \<open>What the flows do\<close>

lemma poll_result: "poll e n f s = (Inr a, t) \<Longrightarrow> \<exists>u. f u = (Inr (Some a), t)"
proof (induction n arbitrary: s)
  case 0
  then show ?case by (simp add: raiseM_def)
next
  case (Suc n)
  then show ?case by (auto simp: bindM_def retM_def split: prod.splits sum.splits option.splits)
qed

lemma bindM_Inr: "bindM m f s = (Inr b, t) \<Longrightarrow> \<exists>a u. m s = (Inr a, u) \<and> f a u = (Inr b, t)"
  by (auto simp: bindM_def split: prod.splits sum.splits)

lemma tryM_Inr: "tryM m h s = (Inr b, t) \<Longrightarrow> m s = (Inr b, t) \<or> (\<exists>e u. m s = (Inl e, u) \<and> h e u = (Inr b, t))"
  by (auto simp: tryM_def split: prod.splits sum.splits)

lemma get_server_infra:
  "get_server N u w = (Inr sv, w') \<Longrightarrow> servers_get N None u (infra w) = (Inr sv, infra w')"
  by (auto simp: get_server_def translate_nova_exception_def split: prod.splits sum.splits)

lemma update_details_run: "update_details m p w = (r, w') \<longleftrightarrow> r = Inr () \<and> w' = w\<lparr>progress := progress w @ [(m, p)]\<rparr>"
  by (auto simp: update_details_def modM_def)

lemma wait_done:
  assumes "poll e n (wait_for_vm_state N u st) w = (Inr (), w')"
  shows "\<exists>k sv. servers_get N None u k = (Inr sv, infra w') \<and> sv_vm_state sv = st"
proof -
  obtain v where v: "wait_for_vm_state N u st v = (Inr (Some ()), w')" using poll_result [OF assms] by blast
  then obtain sv v' where g: "get_server N u v = (Inr sv, v')"
      and r: "retM (if sv_vm_state sv = st then Some () else None) v' = (Inr (Some ()) :: exc + unit option, w')"
    unfolding wait_for_vm_state_def by (blast dest: bindM_Inr)
  from r have "sv_vm_state sv = st" "v' = w'" by (auto simp: retM_def split: if_splits)
  with get_server_infra [OF g] show ?thesis by blast
qed

lemma confirm_done:
  assumes "ConfirmInstanceActiveTask C N u w = (Inr (), w')"
  shows "\<exists>k sv. servers_get N None u k = (Inr sv, infra w') \<and> sv_vm_state sv = ''active''"
  using assms unfolding ConfirmInstanceActiveTask_def
  by (auto dest!: tryM_Inr bindM_Inr wait_done simp: update_details_run raiseM_def Let_def split: if_splits)

lemma same_tables_wait: "pres (same_tables w) (wait_for_vm_state N u st)"
  unfolding wait_for_vm_state_def by (intro pres_intros) simp_all

lemma instance_flow_run:
  "engine_ok E \<Longrightarrow> E (get_instance_recovery_flow L C N u) = bindM (StopInstanceTask L C N u)
      (\<lambda>_. bindM (StartInstanceTask N u) (\<lambda>_. ConfirmInstanceActiveTask C N u))"
  unfolding get_instance_recovery_flow_def by (subst engine_linear) simp_all

lemma process_flow_run:
  "engine_ok E \<Longrightarrow> E (get_compute_process_recovery_flow C N p h) =
     bindM (DisableComputeNodeTask C N p h) (\<lambda>_. ConfirmComputeNodeDisabledTask C N p h)"
  unfolding get_compute_process_recovery_flow_def by (subst engine_linear) simp_all

lemma same_tables_instance_flow:
  assumes "engine_ok E"
  shows "pres (same_tables w) (E (get_instance_recovery_flow L C N u))"
proof -
  have "pres (same_tables w) (StopInstanceTask L C N u)"
    unfolding StopInstanceTask_def
    by (intro pres_intros same_tables_wait same_tables_off)
  moreover have "pres (same_tables w) (StartInstanceTask N u)"
    unfolding StartInstanceTask_def by (intro pres_intros same_tables_off)
  moreover have "pres (same_tables w) (ConfirmInstanceActiveTask C N u)"
    unfolding ConfirmInstanceActiveTask_def by (intro pres_intros same_tables_wait same_tables_off)
  ultimately show ?thesis unfolding instance_flow_run [OF assms] by (intro pres_intros)
qed

lemma same_tables_process_flow:
  assumes "engine_ok E"
  shows "pres (same_tables w) (E (get_compute_process_recovery_flow C N p h))"
  unfolding process_flow_run [OF assms] DisableComputeNodeTask_def ConfirmComputeNodeDisabledTask_def
  by (intro pres_intros same_tables_off)

lemma is_service_disabled_infra:
  "is_service_disabled N h p w = (Inr b, w') \<Longrightarrow>
     \<exists>s ss. services_list N h p (infra w) = (Inr (s # ss), infra w') \<and> b = (sc_status s = ''disabled'')"
  by (auto simp: is_service_disabled_def translate_nova_exception_def first_service_def raiseM_def retM_def
    split: prod.splits sum.splits list.splits dest!: bindM_Inr)

lemma confirm_disabled_done:
  assumes "ConfirmComputeNodeDisabledTask C N p h w = (Inr (), w')"
  shows "\<exists>k s ss. services_list N h p k = (Inr (s # ss), infra w') \<and> sc_status s = ''disabled''"
proof -
  have "\<exists>k s ss. services_list N h p k = (Inr (s # ss), infra v') \<and> sc_status s = ''disabled''"
    if polled: "poll timed_out n (bindM (is_service_disabled N h p) (\<lambda>disabled. retM (if disabled then Some () else None))) v =
      (Inr (), v')" for n v v'
  proof -
    obtain x where "bindM (is_service_disabled N h p) (\<lambda>disabled. retM (if disabled then Some () else None)) x = (Inr (Some ()), v')"
      using poll_result [OF polled] by blast
    then obtain b y where "is_service_disabled N h p x = (Inr b, y)" and r: "retM (if b then Some () else None) y =
        (Inr (Some ()) :: exc + unit option, v')"
      by (blast dest: bindM_Inr)
    moreover from r have "b" "y = v'" by (auto simp: retM_def split: if_splits)
    ultimately show ?thesis using is_service_disabled_infra by blast
  qed
  with assms show ?thesis unfolding ConfirmComputeNodeDisabledTask_def
    by (auto dest!: tryM_Inr bindM_Inr simp: update_details_run raiseM_def Let_def split: if_splits)
qed

text \<open>When the instance may be recovered at all: the answer of the first question to Nova.\<close>

definition recoverable :: "lib \<Rightarrow> conf \<Rightarrow> server \<Rightarrow> bool" where
  "recoverable L C sv \<longleftrightarrow> (process_all_instances C \<or> ha_enabled L (instance_ha_key C) sv) \<and>
     sv_vm_state sv \<noteq> ''paused'' \<and> sv_vm_state sv \<noteq> ''rescued''"

text \<open>C28. Recovery of an instance: the tables are not touched; an instance that is not enabled for it,
  or is paused or rescued, is left alone, nothing being asked of Nova after the first look at it, and the
  flow raises the skip or the ignore exception; and when the flow returns, the last thing Nova
  answered about the instance was that it is active.\<close>

theorem instance_recovery_spec:
  assumes "engine_ok E" and run: "E (get_instance_recovery_flow L C N u) w = (r, w')"
  shows "same_tables w w' \<and>
    (case servers_get N None u (infra w) of
       (Inl e, k) \<Rightarrow> r = Inl (translated e) \<and> infra w' = k
     | (Inr sv, k) \<Rightarrow> \<not> recoverable L C sv \<longrightarrow> infra w' = k \<and>
         (\<exists>e. r = Inl e \<and> isinstance_any e [SkipInstanceRecoveryException, IgnoreInstanceRecoveryException])) \<and>
    (r = Inr () \<longrightarrow> (\<exists>k sv. servers_get N None u k = (Inr sv, infra w') \<and> sv_vm_state sv = ''active''))"
proof (intro conjI)
  show "same_tables w w'"
    using presD [OF same_tables_instance_flow [OF assms(1)] run] by simp
  have run': "bindM (StopInstanceTask L C N u)
      (\<lambda>_. bindM (StartInstanceTask N u) (\<lambda>_. ConfirmInstanceActiveTask C N u)) w = (r, w')"
    using run unfolding instance_flow_run [OF assms(1)] .
  show "case servers_get N None u (infra w) of
       (Inl e, k) \<Rightarrow> r = Inl (translated e) \<and> infra w' = k
     | (Inr sv, k) \<Rightarrow> \<not> recoverable L C sv \<longrightarrow> infra w' = k \<and>
         (\<exists>e. r = Inl e \<and> isinstance_any e [SkipInstanceRecoveryException, IgnoreInstanceRecoveryException])"
    using run'
    by (auto simp: StopInstanceTask_def bindM_def get_server_def translate_nova_exception_def raiseM_def
      update_details_def modM_def recoverable_def Let_def isinstance_simps split: prod.split sum.split if_splits)
  show "r = Inr () \<longrightarrow> (\<exists>k sv. servers_get N None u k = (Inr sv, infra w') \<and> sv_vm_state sv = ''active'')"
    using run' by (auto dest!: bindM_Inr confirm_done)
qed

lemma instance_recovery_spec_witness:
  "\<exists>w'. demo_engine (get_instance_recovery_flow demo_lib demo_conf demo_nova ''i1'') (demo_world demo_servers ()) = (Inr (), w') \<and>
     same_tables (demo_world demo_servers ()) w' \<and>
     (\<exists>k sv. servers_get demo_nova None ''i1'' k = (Inr sv, infra w') \<and> sv_vm_state sv = ''active'')"
proof -
  have "fst (demo_engine (get_instance_recovery_flow demo_lib demo_conf demo_nova ''i1'') (demo_world demo_servers ())) = Inr ()"
    by code_simp
  then obtain w' where run: "demo_engine (get_instance_recovery_flow demo_lib demo_conf demo_nova ''i1'')
      (demo_world demo_servers ()) = (Inr (), w')"
    by (metis prod.collapse)
  from instance_recovery_spec [OF demo_engine_ok run] run show ?thesis by blast
qed

text \<open>C29. Recovery of a failed process: the tables are not touched; when the flow returns, Nova's last
  answer was that the service is disabled; a service that was disabled at the first look is not
  disabled again; and when the wait runs out, the failure is \<open>ProcessRecoveryFailureException\<close>.\<close>

theorem process_recovery_spec:
  assumes "engine_ok E" and run: "E (get_compute_process_recovery_flow C N p h) w = (r, w')"
  shows "same_tables w w' \<and>
    (r = Inr () \<longrightarrow> (\<exists>k s ss. services_list N h p k = (Inr (s # ss), infra w') \<and> sc_status s = ''disabled'')) \<and>
    (\<forall>e. r = Inl e \<longrightarrow> \<not> isinstance e LoopingCallTimeOut \<or> fst (DisableComputeNodeTask C N p h w) = Inl e) \<and>
    (\<forall>s ss k. services_list N h p (infra w) = (Inr (s # ss), k) \<and> sc_status s = ''disabled'' \<longrightarrow>
       (\<exists>v. DisableComputeNodeTask C N p h w = (Inr (), v) \<and> infra v = k))"
proof (intro conjI)
  have run': "bindM (DisableComputeNodeTask C N p h) (\<lambda>_. ConfirmComputeNodeDisabledTask C N p h) w = (r, w')"
    using run unfolding process_flow_run [OF assms(1)] .
  show "same_tables w w'"
    using presD [OF same_tables_process_flow [OF assms(1)] run] by simp
  show "r = Inr () \<longrightarrow> (\<exists>k s ss. services_list N h p k = (Inr (s # ss), infra w') \<and> sc_status s = ''disabled'')"
    using run' by (auto dest!: bindM_Inr confirm_disabled_done)
  have "escapes (\<lambda>e. \<not> isinstance e LoopingCallTimeOut) (ConfirmComputeNodeDisabledTask C N p h :: ('a, 'b, unit) prog)"
    unfolding ConfirmComputeNodeDisabledTask_def Let_def
    by (rule escapes_tryM [OF escapes_top]) (intro escapes_intros; simp add: isinstance_def issubclass_def mro_unfold)
  then have not: "\<not> isinstance e LoopingCallTimeOut" if "ConfirmComputeNodeDisabledTask C N p h v = (Inl e, v')"
    for e and v v' :: "('a, 'b) world"
    using that by (rule escapesD)
  show "\<forall>e. r = Inl e \<longrightarrow> \<not> isinstance e LoopingCallTimeOut \<or> fst (DisableComputeNodeTask C N p h w) = Inl e"
    using run' not by (auto simp: bindM_def split: prod.splits sum.splits)
  show "\<forall>s ss k. services_list N h p (infra w) = (Inr (s # ss), k) \<and> sc_status s = ''disabled'' \<longrightarrow>
       (\<exists>v. DisableComputeNodeTask C N p h w = (Inr (), v) \<and> infra v = k)"
    by (auto simp: DisableComputeNodeTask_def is_service_disabled_def translate_nova_exception_def bindM_def
      first_service_def update_details_def modM_def retM_def)
qed

lemma process_recovery_spec_witness:
  "\<exists>w'. demo_engine (get_compute_process_recovery_flow demo_conf demo_nova ''nova-compute'' ''compute1'')
       (demo_world demo_servers ()) = (Inr (), w') \<and> same_tables (demo_world demo_servers ()) w' \<and>
     (\<exists>k s ss. services_list demo_nova ''compute1'' ''nova-compute'' k = (Inr (s # ss), infra w') \<and> sc_status s = ''disabled'')"
proof -
  have "fst (demo_engine (get_compute_process_recovery_flow demo_conf demo_nova ''nova-compute'' ''compute1'')
      (demo_world demo_servers ())) = Inr ()" by code_simp
  then obtain w' where run: "demo_engine (get_compute_process_recovery_flow demo_conf demo_nova ''nova-compute'' ''compute1'')
      (demo_world demo_servers ()) = (Inr (), w')" by (metis prod.collapse)
  from process_recovery_spec [OF demo_engine_ok run] run show ?thesis by blast
qed

end
