(* ===== verification/Masakari_HostFailure.thy ===== *)
theory Masakari_HostFailure
  imports Masakari_Flows "HOL-Library.List_Lexorder" "HOL-Library.Char_ord"
begin

text \<open>
  \<open>engine/drivers/taskflow/host_failure.py\<close>: the tasks that recover the instances of a failed host.
  The green threads of \<open>EvacuateInstancesTask\<close> are run one after the other, in the order they are
  spawned: each of them works on its own VM move and its own instance. An exception that leaves a
  thread ends that thread only. \<open>eventlet.sleep\<close> is left out.
\<close>

definition join :: "string \<Rightarrow> string list \<Rightarrow> string" where
  "join sep xs = (case xs of [] \<Rightarrow> '''' | x # rest \<Rightarrow> foldl (\<lambda>acc y. acc @ sep @ y) x rest)"

definition quoted :: "string \<Rightarrow> string" where
  "quoted s = [CHR 0x27] @ s @ [CHR 0x27]"

section \<open>Preparation\<close>

definition DisableComputeServiceTask :: "conf \<Rightarrow> 'n nova_client \<Rightarrow> string \<Rightarrow> ('n, 'k, unit) prog" where
  "DisableComputeServiceTask C N host_name =
     bindM (update_details (''Disabling compute service on host: '' @ quoted host_name) 0) (\<lambda>_.
     bindM (enable_disable_service N host_name False (Some (host_disable_reason C))) (\<lambda>_.
     update_details (''Disabled compute service on host: '' @ quoted host_name) 100))"

text \<open>The loop of \<open>_filter_instances\<close>, with its two lists.\<close>

definition ignored :: "conf \<Rightarrow> server \<Rightarrow> bool" where
  "ignored C i \<longleftrightarrow> ignore_instances_in_error_state C \<and> sv_vm_state i = ''error''"

primrec split_instances ::
  "lib \<Rightarrow> conf \<Rightarrow> server list \<Rightarrow> server list \<Rightarrow> server list \<Rightarrow> ('n, 'k, server list \<times> server list) prog" where
  "split_instances L C [] ha non_ha = retM (ha, non_ha)"
| "split_instances L C (i # rest) ha non_ha =
     (let enabled = ha_enabled L (host_ha_key C) i in
      if ignored C i
      then bindM (whenM enabled (update_details (''Ignoring recovery of HA_Enabled instance '' @
               quoted (sv_id i) @ '' as it is in '' @ quoted ''error'' @ '' state.'') 40)) (\<lambda>_.
           split_instances L C rest ha non_ha)
      else if enabled then split_instances L C rest (ha @ [i]) non_ha
      else split_instances L C rest ha (non_ha @ [i]))"

definition filter_instances :: "lib \<Rightarrow> conf \<Rightarrow> server list \<Rightarrow> ('n, 'k, server list) prog" where
  "filter_instances L C instance_list =
     bindM (split_instances L C instance_list [] []) (\<lambda>(ha, non_ha).
     bindM (update_details (''Total HA Enabled instances count: '' @ quoted (show_nat (length ha))) 60) (\<lambda>_.
     if evacuate_all_instances C
     then bindM (update_details (''Total Non-HA Enabled instances count: '' @ quoted (show_nat (length non_ha))) 70) (\<lambda>_.
          bindM (update_details (''All instances (HA Enabled/Non-HA Enabled) should be considered for evacuation. Total count is: ''
            @ quoted (show_nat (length (ha @ non_ha)))) 80) (\<lambda>_. retM (ha @ non_ha)))
     else retM ha))"

definition new_vmove :: "string \<Rightarrow> string \<Rightarrow> server \<Rightarrow> vmove" where
  "new_vmove host_name notification_uuid i = \<lparr>rid = 0, created_at = None, updated_at = None, deleted_at = None,
     deleted = 0, vm_uuid = '''', vm_notification_uuid = notification_uuid, vm_instance_uuid = sv_id i,
     vm_instance_name = sv_name i, vm_source_host = Some host_name, vm_dest_host = None, vm_start_time = None,
     vm_end_time = None, vm_type = Some EVACUATION, vm_status = Some VS_PENDING, vm_message = None\<rparr>"

definition PrepareHAEnabledInstancesTask ::
  "lib \<Rightarrow> conf \<Rightarrow> 'n nova_client \<Rightarrow> request_context \<Rightarrow> string \<Rightarrow> string \<Rightarrow> ('n, 'k, unit) prog" where
  "PrepareHAEnabledInstancesTask L C N ctx host_name notification_uuid =
     bindM (update_details ''Preparing instances for evacuation'' 0) (\<lambda>_.
     bindM (get_servers N host_name) (\<lambda>instance_list.
     bindM (update_details (''Total instances running on failed host '' @ quoted host_name @ '' is '' @
       show_nat (length instance_list)) 30) (\<lambda>_.
     bindM (filter_instances L C instance_list) (\<lambda>instance_list.
     if instance_list = []
     then let msg = ''Skipped host '' @ quoted host_name @ '' recovery as no instances needs to be evacuated''
       in bindM (update_details msg 100) (\<lambda>_. raiseM (Exc SkipHostRecoveryException msg))
     else
       bindM (forM instance_list (\<lambda>i.
         bindM (VMove_create L ctx (new_vmove host_name notification_uuid i)) (\<lambda>_. retM ()))) (\<lambda>_.
       update_details (''Instances to be evacuated are: '' @ quoted (join '','' (map sv_id instance_list))) 100)))))"

section \<open>Evacuation of one instance\<close>

text \<open>\<open>_update_vmove\<close>: only the arguments that are true are set.\<close>

definition update_vmove ::
  "request_context \<Rightarrow> vmove \<Rightarrow> vmove_status option \<Rightarrow> int option \<Rightarrow> int option \<Rightarrow> string option \<Rightarrow> string option
   \<Rightarrow> ('n, 'k, unit) prog" where
  "update_vmove ctx v status start_time end_time dest_host msg =
     (let truthy = (\<lambda>x. case x of None \<Rightarrow> None | Some s \<Rightarrow> if s = '''' then None else Some (Some s)) in
      bindM (VMove_save ctx v \<lparr>vu_source_host = None, vu_dest_host = truthy dest_host,
        vu_start_time = map_option Some start_time, vu_end_time = map_option Some end_time, vu_type = None,
        vu_status = map_option Some status, vu_message = truthy msg\<rparr>) (\<lambda>_. retM ()))"

text \<open>The instance power state of the code: \<open>SHUTDOWN = 4\<close>.\<close>

definition shutdown_state :: int where
  "shutdown_state = 4"

text \<open>
  The part of \<open>_evacuate_and_confirm\<close> that brings the instance into a state Nova evacuates; it
  gives the instance as last read, and whether the instance is stopped after the evacuation.
\<close>

definition prepare_instance :: "'n nova_client \<Rightarrow> server \<Rightarrow> ('n, 'k, server \<times> bool) prog" where
  "prepare_instance N instance =
     (let vm_state = sv_vm_state instance; task_state = sv_task_state instance in
      if vm_state \<notin> {''active'', ''error'', ''stopped''}
      then bindM (reset_instance_state N (sv_id instance) ''error'') (\<lambda>_.
           bindM (get_server N (sv_id instance)) (\<lambda>i.
           retM (i, \<not> (vm_state = ''resized'' \<and> sv_power_state i \<noteq> shutdown_state))))
      else if vm_state = ''stopped'' \<and> task_state = None then retM (instance, False)
      else if task_state \<noteq> None
      then bindM (reset_instance_state N (sv_id instance) ''error'') (\<lambda>_.
           bindM (get_server N (sv_id instance)) (\<lambda>i. retM (i, vm_state \<noteq> ''active'')))
      else retM (instance, True))"

definition evacuation_confirmation :: "'n nova_client \<Rightarrow> vmove \<Rightarrow> server \<Rightarrow> ('n, 'k, unit option) prog" where
  "evacuation_confirmation N v instance =
     bindM (get_server N (sv_id instance)) (\<lambda>new_instance.
     let old_vm_state = sv_vm_state instance; new_vm_state = sv_vm_state new_instance in
     if new_vm_state = ''error'' \<and> new_vm_state \<noteq> old_vm_state
     then raiseM (mk_InstanceEvacuateFailed (sv_id instance))
     else if sv_host new_instance \<noteq> vm_source_host v \<and>
         ((old_vm_state = ''error'' \<and> new_vm_state = ''active'') \<or> old_vm_state = new_vm_state)
     then retM (Some ()) else retM None)"

text \<open>
  \<open>_stop_after_evacuation\<close>: when \<open>stop_server\<close> raises, the \<open>finally\<close> clause stops a timer that was
  never assigned, and that error takes the place of the first one.
\<close>

definition stop_after_evacuation :: "conf \<Rightarrow> 'n nova_client \<Rightarrow> server \<Rightarrow> ('n, 'k, unit) prog" where
  "stop_after_evacuation C N instance =
     bindM (tryM (stop_server N (sv_id instance))
        (\<lambda>_. raiseM (Exc UnboundLocalError ''local variable timer referenced before assignment''))) (\<lambda>_.
     poll timed_out (polls_power_off C) (wait_for_vm_state N (sv_id instance) ''stopped''))"

definition evacuate_instance_of ::
  "lib \<Rightarrow> conf \<Rightarrow> 'n nova_client \<Rightarrow> request_context \<Rightarrow> vmove \<Rightarrow> string option \<Rightarrow> server \<Rightarrow> ('n, 'k, unit) prog" where
  "evacuate_instance_of L C N ctx v reserved_host instance =
     bindM (prepare_instance N instance) (\<lambda>(i, stop_instance).
     bindM utcnow (\<lambda>now.
     bindM (update_vmove ctx v (Some VS_ONGOING) (Some now) None None None) (\<lambda>_.
     bindM (evacuate_instance N (sv_id i) reserved_host) (\<lambda>_.
     bindM (poll timed_out (polls_evacuation C) (evacuation_confirmation N v i)) (\<lambda>_.
     bindM (whenM (sv_vm_state instance \<noteq> ''active'' \<and> stop_instance)
       (bindM (stop_after_evacuation C N i) (\<lambda>_.
        whenM (sv_vm_state instance = ''error'') (reset_instance_state N (sv_id i) ''error'')))) (\<lambda>_.
     bindM (get_server N (vm_instance_uuid v)) (\<lambda>moved.
     update_vmove ctx v (Some VS_SUCCEEDED) None None (sv_host moved) None)))))))"

text \<open>
  Reading and locking the instance comes before the \<open>try\<close>. The lock is released under the id the
  instance was locked by.
\<close>

definition evacuate_and_confirm ::
  "lib \<Rightarrow> conf \<Rightarrow> 'n nova_client \<Rightarrow> request_context \<Rightarrow> vmove \<Rightarrow> string option \<Rightarrow> ('n, 'k, unit) prog" where
  "evacuate_and_confirm L C N ctx v reserved_host =
     bindM (get_server N (vm_instance_uuid v)) (\<lambda>instance.
     bindM (get_server N (sv_id instance)) (\<lambda>again.
     let already_locked = sv_locked again in
     bindM (whenM (\<not> already_locked) (lock_server N (sv_id instance))) (\<lambda>_.
     finallyM
       (tryM (evacuate_instance_of L C N ctx v reserved_host instance)
         (\<lambda>e. if isinstance e LoopingCallTimeOut
           then update_vmove ctx v (Some VS_FAILED) None None None (Some ''Failed reason: timeout.'')
           else update_vmove ctx v (Some VS_FAILED) None None None (Some (message e))))
       (bindM utcnow (\<lambda>now.
        bindM (update_vmove ctx v None None (Some now) None None) (\<lambda>_.
        whenM (\<not> already_locked) (unlock_server N (sv_id instance))))))))"

section \<open>Evacuation of a host\<close>

text \<open>\<open>engine/manager.py\<close>: a reserved host that takes instances is no longer reserved.\<close>

definition update_host_method :: "request_context \<Rightarrow> string \<Rightarrow> ('n, 'k, unit) prog" where
  "update_host_method ctx host_name =
     bindM (Host_get_by_name ctx host_name) (\<lambda>(reserved_host, _).
     bindM (Host_save ctx reserved_host (no_host_values\<lparr>hu_reserved := Some False\<rparr>)) (\<lambda>_. retM ()))"

definition enable_reserved_host ::
  "conf \<Rightarrow> 'n nova_client \<Rightarrow> request_context \<Rightarrow> string \<Rightarrow> string \<Rightarrow> ('n, 'k, unit) prog" where
  "enable_reserved_host C N ctx host_name reserved_host =
     bindM (update_details (''Enabling reserved host: '' @ quoted reserved_host) 10) (\<lambda>_.
     bindM (whenM (add_reserved_host_to_aggregate C)
       (bindM (get_aggregate_list N) (\<lambda>aggregates.
        forM aggregates (\<lambda>ag. whenM (host_name \<in> set (ag_hosts ag))
          (tryM
            (bindM (update_details (''Add host '' @ reserved_host @ '' to aggregate '' @ ag_name ag) 20) (\<lambda>_.
             bindM (add_host_to_aggregate N reserved_host ag) (\<lambda>_.
             update_details (''Added host '' @ reserved_host @ '' to aggregate '' @ ag_name ag) 30)))
            (\<lambda>e. if isinstance e Conflict
              then update_details (''Host '' @ quoted reserved_host @ '' already has been added to aggregate '' @
                quoted (ag_name ag) @ ''.'') 100
              else raiseM e)))))) (\<lambda>_.
     bindM (enable_disable_service N reserved_host True None) (\<lambda>_.
     update_host_method ctx reserved_host)))"

text \<open>\<open>thread_pool.spawn_n\<close>: what the thread raises does not reach the task.\<close>

definition spawned :: "('n, 'k, unit) prog \<Rightarrow> ('n, 'k, unit) prog" where
  "spawned m = tryM m (\<lambda>_. retM ())"

definition evacuation_outcome ::
  "lib \<Rightarrow> request_context \<Rightarrow> string \<Rightarrow> string \<Rightarrow> ('n, 'k, unit) prog" where
  "evacuation_outcome L ctx host_name notification_uuid =
     bindM (VMoveList_get_all_vmoves L ctx notification_uuid None) (\<lambda>all_vmoves.
     let succeeded = map vm_instance_uuid (filter (\<lambda>v. vm_status v = Some VS_SUCCEEDED) all_vmoves);
         failed = map vm_instance_uuid (filter (\<lambda>v. vm_status v = Some VS_FAILED) all_vmoves) in
     bindM (whenM (succeeded \<noteq> []) (update_details (''Successfully evacuate instances '' @
       quoted (join '','' (sort succeeded)) @ '' from host '' @ quoted host_name) 70)) (\<lambda>_.
     if failed \<noteq> []
     then let msg = ''Failed to evacuate instances '' @ quoted (join '','' failed) @ '' from host '' @ quoted host_name
       in bindM (update_details msg 70) (\<lambda>_. raiseM (Exc HostRecoveryFailureException msg))
     else update_details ''Evacuation process completed!'' 100))"

definition do_evacuate ::
  "lib \<Rightarrow> conf \<Rightarrow> 'n nova_client \<Rightarrow> request_context \<Rightarrow> string \<Rightarrow> string \<Rightarrow> string option \<Rightarrow> vmove list
   \<Rightarrow> ('n, 'k, unit) prog" where
  "do_evacuate L C N ctx host_name notification_uuid reserved_host all_vmoves =
     bindM (case reserved_host of None \<Rightarrow> retM () | Some rh \<Rightarrow> enable_reserved_host C N ctx host_name rh) (\<lambda>_.
     bindM (forM all_vmoves (\<lambda>v.
       bindM (update_details (''Evacuation of instance started: '' @ quoted (vm_instance_uuid v)) 50) (\<lambda>_.
       spawned (evacuate_and_confirm L C N ctx v reserved_host)))) (\<lambda>_.
     evacuation_outcome L ctx host_name notification_uuid))"

definition EvacuateInstancesTask ::
  "lib \<Rightarrow> conf \<Rightarrow> 'n nova_client \<Rightarrow> request_context \<Rightarrow> string \<Rightarrow> string \<Rightarrow> string option \<Rightarrow> ('n, 'k, unit) prog" where
  "EvacuateInstancesTask L C N ctx host_name notification_uuid reserved_host =
     bindM (VMoveList_get_all_vmoves L ctx notification_uuid (Some VS_PENDING)) (\<lambda>all_vmoves.
     bindM (update_details (''Start evacuation of instances from failed host '' @ quoted host_name @
       '', instance uuids are: '' @ quoted (join '','' (map vm_instance_uuid all_vmoves))) 0) (\<lambda>_.
     case reserved_host of
       None \<Rightarrow> do_evacuate L C N ctx host_name notification_uuid None all_vmoves
     | Some rh \<Rightarrow> synchronized rh False
         (do_evacuate L C N ctx host_name notification_uuid (Some rh) all_vmoves)))"

section \<open>The flows\<close>

text \<open>
  The task lists that the configuration names by default. In the reserved-host flow the main
  tasks are retried with each reserved host in turn.
\<close>

definition get_auto_flow ::
  "lib \<Rightarrow> conf \<Rightarrow> 'n nova_client \<Rightarrow> request_context \<Rightarrow> string \<Rightarrow> string \<Rightarrow> ('n, 'k) flow" where
  "get_auto_flow L C N ctx host_name notification_uuid = Linear
     [Linear (map Task [DisableComputeServiceTask C N host_name]),
      Linear (map Task [PrepareHAEnabledInstancesTask L C N ctx host_name notification_uuid]),
      Linear (map Task [EvacuateInstancesTask L C N ctx host_name notification_uuid None])]"

definition get_rh_flow ::
  "lib \<Rightarrow> conf \<Rightarrow> 'n nova_client \<Rightarrow> request_context \<Rightarrow> string \<Rightarrow> string \<Rightarrow> string list \<Rightarrow> ('n, 'k) flow" where
  "get_rh_flow L C N ctx host_name notification_uuid reserved_host_list = Linear
     [Linear (map Task [DisableComputeServiceTask C N host_name]),
      ForEach reserved_host_list (\<lambda>reserved_host.
        [PrepareHAEnabledInstancesTask L C N ctx host_name notification_uuid,
         EvacuateInstancesTask L C N ctx host_name notification_uuid (Some reserved_host)]),
      Linear (map Task [])]"

section \<open>One VM move\<close>

text \<open>
  The part of the state an evacuation thread may change: the row of its own VM move, Nova's
  state, and the records of what happened.
\<close>

definition only_vmove :: "lib \<Rightarrow> string \<Rightarrow> ('n, 'k) world \<Rightarrow> ('n, 'k) world \<Rightarrow> bool" where
  "only_vmove L u w t \<longleftrightarrow> table_ok L vmoves_tbl t \<and>
     (\<exists>r r0. live vmoves_tbl w u = Some r0 \<and> live vmoves_tbl t u = Some r \<and>
        vm_notification_uuid r = vm_notification_uuid r0) \<and>
     (\<forall>x. x \<noteq> u \<longrightarrow> live vmoves_tbl t x = live vmoves_tbl w x) \<and>
     same_tables (w\<lparr>vmoves := []\<rparr>) (t\<lparr>vmoves := []\<rparr>)"

lemma only_vmove_off [simp]: "off_infra (only_vmove L u w)" "off_events (only_vmove L u w)" "off_aux (only_vmove L u w)"
  by (auto simp: off_infra_def off_events_def off_aux_def only_vmove_def same_tables_def table_ok_def live_def)

lemma update_vmove_run:
  assumes "live_ctx ctx" and ok: "table_ok L vmoves_tbl t" and r: "live vmoves_tbl t (vm_uuid v) = Some r"
  shows "\<exists>r' rows. update_vmove ctx v st s e d m t = (Inr (), t\<lparr>vmoves := rows\<rparr>) \<and>
    table_ok L vmoves_tbl (t\<lparr>vmoves := rows\<rparr>) \<and>
    live vmoves_tbl (t\<lparr>vmoves := rows\<rparr>) = (live vmoves_tbl t)(vm_uuid v \<mapsto> r') \<and>
    vm_notification_uuid r' = vm_notification_uuid r \<and> vm_status r' = (case st of None \<Rightarrow> vm_status r | Some x \<Rightarrow> Some x) \<and>
    vm_end_time r' = (case e of None \<Rightarrow> vm_end_time r | Some x \<Rightarrow> Some x)"
proof -
  obtain vu where vu: "update_vmove ctx v st s e d m t = bindM (VMove_save ctx v vu) (\<lambda>_. retM ()) t"
    and st: "vu_status vu = map_option Some st" and et: "vu_end_time vu = map_option Some e"
    by (simp add: update_vmove_def Let_def)
  obtain r' rows where run: "vmove_update ctx (vm_uuid v) vu t = (Inr r', t\<lparr>vmoves := rows\<rparr>)"
    and l: "live vmoves_tbl (t\<lparr>vmoves := rows\<rparr>) = (live vmoves_tbl t)(vm_uuid v \<mapsto> r')"
    and k: "table_ok L vmoves_tbl (t\<lparr>vmoves := rows\<rparr>)"
    and r': "r' = (if set_vmove vu r = r then r else (set_vmove vu r)\<lparr>updated_at := Some (clock t)\<rparr>)"
    using vmoves_store.update_total [OF assms(1) ok _ _ _ _ r, of "set_vmove vu" id "mk_VMoveNotFound (vm_uuid v)"]
    by (auto simp: vmove_update_def)
  have "vm_notification_uuid (set_vmove vu r) = vm_notification_uuid r"
    "vm_status (set_vmove vu r) = (case st of None \<Rightarrow> vm_status r | Some x \<Rightarrow> Some x)"
    "vm_end_time (set_vmove vu r) = (case e of None \<Rightarrow> vm_end_time r | Some x \<Rightarrow> Some x)"
    by (simp_all add: set_vmove_def st et upd_def split: option.split)
  then have "vm_notification_uuid r' = vm_notification_uuid r" "vm_status r' = (case st of None \<Rightarrow> vm_status r | Some x \<Rightarrow> Some x)"
    "vm_end_time r' = (case e of None \<Rightarrow> vm_end_time r | Some x \<Rightarrow> Some x)"
    using r' by (auto split: if_splits)
  moreover have "update_vmove ctx v st s e d m t = (Inr (), t\<lparr>vmoves := rows\<rparr>)"
    using run by (simp add: vu VMove_save_def comp_defs)
  ultimately show ?thesis using l k by blast
qed

lemma only_vmove_update:
  assumes "live_ctx ctx" and "only_vmove L (vm_uuid v) w t"
  shows "wp (update_vmove ctx v st s e d m) (\<lambda>_ t'. only_vmove L (vm_uuid v) w t' \<and> (\<exists>r r'.
      live vmoves_tbl t (vm_uuid v) = Some r \<and> live vmoves_tbl t' (vm_uuid v) = Some r' \<and>
      vm_status r' = (case st of None \<Rightarrow> vm_status r | Some x \<Rightarrow> Some x) \<and>
      vm_end_time r' = (case e of None \<Rightarrow> vm_end_time r | Some x \<Rightarrow> Some x))) (\<lambda>_ _. False) t"
proof -
  obtain r where r: "live vmoves_tbl t (vm_uuid v) = Some r" and ok: "table_ok L vmoves_tbl t"
    using assms(2) by (auto simp: only_vmove_def)
  from update_vmove_run [OF assms(1) ok r] obtain r' rows where
    run: "update_vmove ctx v st s e d m t = (Inr (), t\<lparr>vmoves := rows\<rparr>)"
    and k: "table_ok L vmoves_tbl (t\<lparr>vmoves := rows\<rparr>)"
    and l: "live vmoves_tbl (t\<lparr>vmoves := rows\<rparr>) = (live vmoves_tbl t)(vm_uuid v \<mapsto> r')"
    and nu: "vm_notification_uuid r' = vm_notification_uuid r"
    and st: "vm_status r' = (case st of None \<Rightarrow> vm_status r | Some x \<Rightarrow> Some x)"
    and et: "vm_end_time r' = (case e of None \<Rightarrow> vm_end_time r | Some x \<Rightarrow> Some x)" by blast
  have "only_vmove L (vm_uuid v) w (t\<lparr>vmoves := rows\<rparr>)"
    using assms(2) k l nu r by (auto simp: only_vmove_def same_tables_def)
  then show ?thesis using run l r st et by (simp add: wp_def)
qed

lemma pres_update_vmove: "live_ctx ctx \<Longrightarrow> pres (only_vmove L (vm_uuid v) w) (update_vmove ctx v st s e d m)"
  by (rule pres_wp, rule wp_mono, rule only_vmove_update [where w = w]) auto

text \<open>The VM move has one of the two final outcomes.\<close>

definition outcome :: "string \<Rightarrow> vmove_status \<Rightarrow> ('n, 'k) world \<Rightarrow> bool" where
  "outcome u st t \<longleftrightarrow> (\<exists>r. live vmoves_tbl t u = Some r \<and> vm_status r = Some st)"

lemma wp_evacuate_instance_of:
  assumes "live_ctx ctx" and "only_vmove L (vm_uuid v) w t"
  shows "wp (evacuate_instance_of L C N ctx v rh i)
    (\<lambda>_ t'. only_vmove L (vm_uuid v) w t' \<and> outcome (vm_uuid v) VS_SUCCEEDED t')
    (\<lambda>_ t'. only_vmove L (vm_uuid v) w t') t"
proof -
  let ?I = "only_vmove L (vm_uuid v) w"
  have p: "pres ?I (prepare_instance N i)"
    unfolding prepare_instance_def by (intro pres_intros only_vmove_off)
  have e: "pres ?I (evacuation_confirmation N v j)" for j
    unfolding evacuation_confirmation_def by (intro pres_intros only_vmove_off)
  have s: "pres ?I (stop_after_evacuation C N j)" for j
    unfolding stop_after_evacuation_def wait_for_vm_state_def by (intro pres_intros only_vmove_off)
  have last: "wp (update_vmove ctx v (Some VS_SUCCEEDED) None None d None)
      (\<lambda>_ t'. ?I t' \<and> outcome (vm_uuid v) VS_SUCCEEDED t') (\<lambda>_. ?I) u" if "?I u" for u d
    by (rule wp_mono [OF only_vmove_update [OF assms(1) that]]) (auto simp: outcome_def)
  show ?thesis
    unfolding evacuate_instance_of_def case_prod_unfold
    by (intro wp_bindM_pres [where I = ?I] pres_intros p e s only_vmove_off pres_update_vmove [OF assms(1)]
        last assms(2)) 
qed

text \<open>The thread has brought its VM move to an end.\<close>

definition ended :: "string \<Rightarrow> ('n, 'k) world \<Rightarrow> bool" where
  "ended u t \<longleftrightarrow> (\<exists>r. live vmoves_tbl t u = Some r \<and>
     (vm_status r = Some VS_SUCCEEDED \<or> vm_status r = Some VS_FAILED) \<and> vm_end_time r = Some (clock t))"

lemma ended_off: "off_infra (\<lambda>t. only_vmove L u w t \<and> ended u t)"
  by (auto simp: off_infra_def off_aux_def only_vmove_def same_tables_def table_ok_def live_def ended_def)

lemma wp_finish_vmove:
  assumes ctx: "live_ctx ctx" and "only_vmove L (vm_uuid v) w t" and "outcome (vm_uuid v) st t"
    and st: "st = VS_SUCCEEDED \<or> st = VS_FAILED"
  shows "wp (bindM utcnow (\<lambda>now. bindM (update_vmove ctx v None None (Some now) None None) (\<lambda>_.
      whenM b (unlock_server N i)))) (\<lambda>_ t'. only_vmove L (vm_uuid v) w t' \<and> ended (vm_uuid v) t')
      (\<lambda>_ t'. only_vmove L (vm_uuid v) w t' \<and> ended (vm_uuid v) t') t"
proof -
  let ?J = "\<lambda>t'. only_vmove L (vm_uuid v) w t' \<and> ended (vm_uuid v) t'"
  have unlock: "wp (whenM b (unlock_server N i)) (\<lambda>_. ?J) (\<lambda>_. ?J) u" if "?J u" for u
  proof -
    have "pres ?J (whenM b (unlock_server N i))" by (intro pres_intros ended_off)
    from wp_pres [OF this escapes_top that] show ?thesis by simp
  qed
  have "wp (update_vmove ctx v None None (Some (clock t)) None None)
      (\<lambda>_ u. wp (whenM b (unlock_server N i)) (\<lambda>_. ?J) (\<lambda>_. ?J) u) (\<lambda>_. ?J) t"
  proof (rule wp_mono [OF only_vmove_update [OF ctx assms(2)]])
    fix a u
    assume "only_vmove L (vm_uuid v) w u \<and> (\<exists>r r'. live vmoves_tbl t (vm_uuid v) = Some r \<and>
      live vmoves_tbl u (vm_uuid v) = Some r' \<and>
      vm_status r' = (case None of None \<Rightarrow> vm_status r | Some x \<Rightarrow> Some x) \<and>
      vm_end_time r' = (case Some (clock t) of None \<Rightarrow> vm_end_time r | Some x \<Rightarrow> Some x))"
    moreover from this have "clock u = clock t" using assms(2) by (simp add: only_vmove_def same_tables_def)
    ultimately show "wp (whenM b (unlock_server N i)) (\<lambda>_. ?J) (\<lambda>_. ?J) u"
      using assms(3) st by (intro unlock) (auto simp: ended_def outcome_def)
  qed simp
  then show ?thesis by (simp add: wp_bindM wp_utcnow)
qed

lemma same_tables_only_vmove:
  "same_tables w t \<Longrightarrow> table_ok L vmoves_tbl w \<Longrightarrow> live vmoves_tbl w u = Some r \<Longrightarrow> only_vmove L u w t"
  by (simp add: same_tables_def only_vmove_def table_ok_def live_def)

lemma evacuate_and_confirm_spec_aux:
  assumes "live_ctx ctx" and "table_ok L vmoves_tbl w" and "live vmoves_tbl w (vm_uuid v) = Some r"
    and run: "evacuate_and_confirm L C N ctx v reserved_host w = (res, w')"
  shows "only_vmove L (vm_uuid v) w w' \<and>
    (ended (vm_uuid v) w' \<or> (\<exists>e. res = Inl e) \<and> same_tables w w')"
proof -
  let ?I = "only_vmove L (vm_uuid v) w"
  let ?J = "\<lambda>t. ?I t \<and> ended (vm_uuid v) t"
  let ?E = "\<lambda>_ t. ?I t \<and> (ended (vm_uuid v) t \<or> same_tables w t)"
  let ?F = "\<lambda>b i. bindM utcnow (\<lambda>now. bindM (update_vmove ctx v None None (Some now) None None)
      (\<lambda>_. whenM b (unlock_server N i)))"
  have fin: "wp (?F b i) (\<lambda>_. ?J) ?E t" if "?I t" "outcome (vm_uuid v) st t" "st = VS_SUCCEEDED \<or> st = VS_FAILED" for b i t st
    by (rule wp_mono [OF wp_finish_vmove [OF assms(1) that]]) auto
  have failed: "wp (update_vmove ctx v (Some VS_FAILED) None None None m) (\<lambda>_. wp (?F b i) (\<lambda>_. ?J) ?E) X t"
    if "?I t" for b i t m and X :: "exc \<Rightarrow> ('a, 'b) world \<Rightarrow> bool"
    by (rule wp_mono [OF only_vmove_update [OF assms(1) that]]) (auto simp: outcome_def intro!: fin)
  have main: "wp (finallyM (tryM (evacuate_instance_of L C N ctx v reserved_host i)
        (\<lambda>e. if isinstance e LoopingCallTimeOut
          then update_vmove ctx v (Some VS_FAILED) None None None (Some ''Failed reason: timeout.'')
          else update_vmove ctx v (Some VS_FAILED) None None None (Some (message e)))) (?F b j))
      (\<lambda>_. ?J) ?E t" if "?I t" for i b j t
    unfolding wp_finallyM wp_tryM
    by (rule wp_mono [OF wp_evacuate_instance_of [OF assms(1) that]])
      (auto simp: wp_if intro!: fin failed)
  have "wp (evacuate_and_confirm L C N ctx v reserved_host) (\<lambda>_. ?J) ?E w"
    unfolding evacuate_and_confirm_def Let_def
    by (rule wp_bindM_pres [where I = "same_tables w"] | rule main same_tables_only_vmove
      | intro pres_intros | simp add: assms)+
  then show ?thesis using run by (cases res) (auto simp: wp_def)
qed

text \<open>C7. The thread that evacuates one instance: whatever Nova answers, it touches no table but the
  row of its own VM move, and ends with that VM move succeeded or failed, with an end time; the
  only other way out is an exception before its \<open>try\<close> (reading or locking the instance), and
  then every VM move is as it was.\<close>

theorem evacuate_and_confirm_spec:
  assumes "live_ctx ctx" and "table_ok L vmoves_tbl w" and "live vmoves_tbl w (vm_uuid v) = Some r"
    and run: "evacuate_and_confirm L C N ctx v reserved_host w = (res, w')"
  shows "only_vmove L (vm_uuid v) w w' \<and>
    (ended (vm_uuid v) w' \<or> (\<exists>e. res = Inl e) \<and> same_tables w w')"
  by (rule evacuate_and_confirm_spec_aux [OF assms])

section \<open>All VM moves of a notification\<close>

text \<open>
  What the threads of a task leave of the VM moves, \<open>us\<close> being the ones it was started for.
\<close>

definition evac_inv :: "lib \<Rightarrow> string set \<Rightarrow> ('n, 'k) world \<Rightarrow> ('n, 'k) world \<Rightarrow> bool" where
  "evac_inv L us w t \<longleftrightarrow> table_ok L vmoves_tbl t \<and> clock t = clock w \<and>
     (\<forall>u. u \<notin> us \<longrightarrow> live vmoves_tbl t u = live vmoves_tbl w u) \<and>
     (\<forall>u r. live vmoves_tbl w u = Some r \<longrightarrow> live vmoves_tbl t u = Some r \<or>
        (\<exists>r'. live vmoves_tbl t u = Some r' \<and> vm_notification_uuid r' = vm_notification_uuid r \<and> ended u t))"

lemma evac_inv_off [simp]:
  "off_infra (evac_inv L us w)" "off_aux (evac_inv L us w)" "off_table hosts_tbl (evac_inv L us w)" "off_events (evac_inv L us w)"
  by (auto simp: off_infra_def off_events_def off_aux_def off_table_def evac_inv_def table_ok_def live_def ended_def)

lemma evac_inv_step:
  assumes ctx: "live_ctx ctx" and inv: "evac_inv L us w t" and v: "vm_uuid v \<in> us"
    and row: "live vmoves_tbl w (vm_uuid v) = Some row"
  shows "wp (spawned (evacuate_and_confirm L C N ctx v rh)) (\<lambda>_. evac_inv L us w) (\<lambda>_. evac_inv L us w) t"
proof -
  obtain res t' where run: "evacuate_and_confirm L C N ctx v rh t = (res, t')" by fastforce
  have ok: "table_ok L vmoves_tbl t" using inv by (simp add: evac_inv_def)
  obtain r where r: "live vmoves_tbl t (vm_uuid v) = Some r" "vm_notification_uuid r = vm_notification_uuid row"
    using inv row unfolding evac_inv_def by blast
  note spec = evacuate_and_confirm_spec_aux [OF ctx ok r(1) run]
  have "evac_inv L us w t'"
  proof -
    have clock: "clock t' = clock t" and k: "table_ok L vmoves_tbl t'"
      and others: "x \<noteq> vm_uuid v \<Longrightarrow> live vmoves_tbl t' x = live vmoves_tbl t x" for x
      using spec by (simp_all add: only_vmove_def same_tables_def)
    have end': "ended x t' = ended x t" if "x \<noteq> vm_uuid v" for x
      using others [OF that] clock by (simp add: ended_def)
    have mine: "live vmoves_tbl t' (vm_uuid v) = live vmoves_tbl t (vm_uuid v) \<and> ended (vm_uuid v) t' = ended (vm_uuid v) t \<or>
        (\<exists>r'. live vmoves_tbl t' (vm_uuid v) = Some r' \<and> vm_notification_uuid r' = vm_notification_uuid row \<and>
          ended (vm_uuid v) t')"
    proof (cases "ended (vm_uuid v) t'")
      case True
      then show ?thesis using spec r unfolding only_vmove_def by force
    next
      case False
      then have "same_tables t t'" using spec by blast
      then have "live vmoves_tbl t' = live vmoves_tbl t" "clock t' = clock t"
        by (simp_all add: same_tables_def live_def)
      then show ?thesis by (simp add: ended_def)
    qed
    show ?thesis unfolding evac_inv_def
    proof (intro conjI allI impI)
      show "table_ok L vmoves_tbl t'" by (rule k)
      show "clock t' = clock w" using clock inv by (simp add: evac_inv_def)
      fix u
      show "u \<notin> us \<Longrightarrow> live vmoves_tbl t' u = live vmoves_tbl w u"
        using others [of u] v inv unfolding evac_inv_def by (cases "u = vm_uuid v") auto
      fix q
      assume q: "live vmoves_tbl w u = Some q"
      show "live vmoves_tbl t' u = Some q \<or> (\<exists>r'. live vmoves_tbl t' u = Some r' \<and>
          vm_notification_uuid r' = vm_notification_uuid q \<and> ended u t')"
      proof (cases "u = vm_uuid v")
        case True
        then show ?thesis using mine q inv row unfolding evac_inv_def by (metis option.inject)
      next
        case False
        then show ?thesis using others [OF False] end' [OF False] q inv unfolding evac_inv_def by simp
      qed
    qed
  qed
  then show ?thesis using run by (simp add: spawned_def wp_def tryM_def retM_def split: sum.split)
qed

lemma vmoves_of_notification:
  assumes "live_ctx ctx" and "lib_ok L" and "table_ok L vmoves_tbl w"
  shows "\<exists>res. VMoveList_get_all_vmoves L ctx nu st w = (Inr res, w) \<and>
    (\<forall>r. r \<in> set res \<longleftrightarrow> live vmoves_tbl w (vm_uuid r) = Some r \<and> vm_notification_uuid r = nu \<and>
       (st = None \<or> vm_status r = st))"
proof -
  have "paginator_ok (page_vmoves L)" using assms(2) by (simp add: lib_ok_def)
  from row_list_all [OF assms(1) this, of vmoves_tbl
      "\<lambda>r. sel_matches (Is nu) (vm_notification_uuid r) \<and> sel_matches Any (vm_type r) \<and>
         sel_matches (case st of None \<Rightarrow> Any | Some s \<Rightarrow> Is (Some s)) (vm_status r)" w]
  obtain res where res: "VMoveList_get_all_vmoves L ctx nu st w = (Inr res, w)"
    and set: "set res = {r \<in> set (vmoves w). deleted r = 0 \<and> vm_notification_uuid r = nu \<and>
         sel_matches (case st of None \<Rightarrow> Any | Some s \<Rightarrow> Is (Some s)) (vm_status r)}"
    by (auto simp: VMoveList_get_all_vmoves_def vmoves_get_all_by_filters_def)
  note keys = vmoves_store.ok_keys [OF assms(3)]
  have "r \<in> set res \<longleftrightarrow> live vmoves_tbl w (vm_uuid r) = Some r \<and> vm_notification_uuid r = nu \<and>
       (st = None \<or> vm_status r = st)" for r
    using live_Some [OF keys, of "vm_uuid r" r] set by (cases st) auto
  with res show ?thesis by blast
qed

text \<open>The end of the task: it raises exactly when a VM move of the notification has failed.\<close>

definition some_failed :: "string \<Rightarrow> ('n, 'k) world \<Rightarrow> bool" where
  "some_failed nu w \<longleftrightarrow> (\<exists>u r. live vmoves_tbl w u = Some r \<and> vm_notification_uuid r = nu \<and> vm_status r = Some VS_FAILED)"

lemma wp_evacuation_outcome:
  assumes "live_ctx ctx" and "lib_ok L" and "evac_inv L us w t"
  shows "wp (evacuation_outcome L ctx h nu) (\<lambda>_ t'. evac_inv L us w t' \<and> \<not> some_failed nu t')
    (\<lambda>e t'. evac_inv L us w t' \<and> cls_of e = HostRecoveryFailureException \<and> some_failed nu t') t"
proof -
  have ok: "table_ok L vmoves_tbl t" using assms(3) by (simp add: evac_inv_def)
  obtain res where res: "VMoveList_get_all_vmoves L ctx nu None t = (Inr res, t)"
    and mem: "\<And>r. r \<in> set res \<longleftrightarrow> live vmoves_tbl t (vm_uuid r) = Some r \<and> vm_notification_uuid r = nu"
    using vmoves_of_notification [OF assms(1,2) ok, of nu None] by auto
  have fail: "some_failed nu t \<longleftrightarrow> (\<exists>r \<in> set res. vm_status r = Some VS_FAILED)"
    using live_SomeD [of vmoves_tbl t] mem unfolding some_failed_def by fastforce
  have prog: "some_failed nu (t\<lparr>progress := p\<rparr>) = some_failed nu t" for p
    by (simp add: some_failed_def live_def)
  have inv: "evac_inv L us w (t\<lparr>progress := p\<rparr>)" for p
    using evac_inv_off(2) [of L us w] assms(3) unfolding off_aux_def by simp
  have "wp (VMoveList_get_all_vmoves L ctx nu None) Q E t = Q res t" for Q :: "vmove list \<Rightarrow> ('a, 'b) world \<Rightarrow> bool" and E
    by (simp add: wp_def res)
  then show ?thesis using assms(3) fail prog inv
    by (auto simp: evacuation_outcome_def wp_simps Let_def filter_empty_conv)
qed

lemma pres_enable_reserved_host: "live_ctx ctx \<Longrightarrow> pres (evac_inv L us w) (enable_reserved_host C N ctx h rh)"
  unfolding enable_reserved_host_def update_host_method_def by (intro pres_intros evac_inv_off)

text \<open>The task, up to its last check: what it was started for is what was pending.\<close>

lemma evacuate_task_run:
  assumes "live_ctx ctx" and "lib_ok L" and "table_ok L vmoves_tbl w"
    and run: "EvacuateInstancesTask L C N ctx host_name nu reserved_host w = (res, w')"
  shows "\<exists>us. (\<forall>u \<in> us. \<forall>r. live vmoves_tbl w u = Some r \<longrightarrow> vm_notification_uuid r = nu \<and> vm_status r = Some VS_PENDING) \<and>
    evac_inv L us w w' \<and> (res = Inr () \<longrightarrow> \<not> some_failed nu w')"
proof -
  obtain all where all: "VMoveList_get_all_vmoves L ctx nu (Some VS_PENDING) w = (Inr all, w)"
    and mem: "\<And>r. r \<in> set all \<longleftrightarrow> live vmoves_tbl w (vm_uuid r) = Some r \<and> vm_notification_uuid r = nu \<and>
       vm_status r = Some VS_PENDING"
    using vmoves_of_notification [OF assms(1-3), of nu "Some VS_PENDING"] by auto
  let ?us = "vm_uuid ` set all"
  let ?I = "evac_inv L ?us w"
  have init: "?I w" using assms(3) by (simp add: evac_inv_def)
  have loop: "wp (forM all (\<lambda>v. bindM (update_details (m v) 50) (\<lambda>_.
      spawned (evacuate_and_confirm L C N ctx v rh)))) (\<lambda>_. ?I) (\<lambda>_. ?I) t" if "?I t" for t m rh
  proof (rule wp_forM_inv [where I = ?I, OF _ that])
    fix v u
    assume v: "v \<in> set all" and u: "?I u"
    show "wp (bindM (update_details (m v) 50) (\<lambda>_. spawned (evacuate_and_confirm L C N ctx v rh)))
        (\<lambda>_. ?I) (\<lambda>_. ?I) u"
      using v mem by (intro wp_bindM_pres [where I = ?I] pres_intros evac_inv_off u
        evac_inv_step [OF assms(1), where row = v]) auto
  qed
  let ?Q = "\<lambda>_ t. ?I t \<and> \<not> some_failed nu t"
  have body: "wp (do_evacuate L C N ctx host_name nu rh all) ?Q (\<lambda>_. ?I) t" if "?I t" for t rh
  proof -
    have "pres ?I (case rh of None \<Rightarrow> retM () | Some h \<Rightarrow> enable_reserved_host C N ctx host_name h)"
      by (intro pres_intros pres_enable_reserved_host assms(1))
    then show ?thesis unfolding do_evacuate_def using that
      by (rule wp_bindM_pres) (simp_all add: wp_bindM wp_mono [OF loop] wp_mono [OF wp_evacuation_outcome [OF assms(1,2)]])
  qed
  have locks: "?Q () (t\<lparr>held_locks := l\<rparr>) = ?Q () t" "?I (t\<lparr>held_locks := l\<rparr>) = ?I t" for t l
    using evac_inv_off(2) [of L ?us w] by (simp_all add: off_aux_def some_failed_def live_def)
  have "?I (w\<lparr>progress := p\<rparr>)" "?I (w\<lparr>progress := p, held_locks := l\<rparr>)" for p l
    using evac_inv_off(2) [of L ?us w] init by (simp_all add: off_aux_def)
  then have "wp (EvacuateInstancesTask L C N ctx host_name nu reserved_host) ?Q (\<lambda>_. ?I) w"
    using all locks
    by (auto simp: EvacuateInstancesTask_def wp_bindM wp_update_details wp_synchronized wp_def [of "VMoveList_get_all_vmoves L ctx nu st" for st]
      intro!: body wp_mono [OF body] split: option.split)
  then have fin: "?I w'" "res = Inr () \<longrightarrow> \<not> some_failed nu w'" using run by (auto simp: wp_def split: sum.splits)
  have "vm_notification_uuid r = nu \<and> vm_status r = Some VS_PENDING"
    if "u \<in> ?us" and r: "live vmoves_tbl w u = Some r" for u r
  proof -
    obtain v where "v \<in> set all" "u = vm_uuid v" using \<open>u \<in> ?us\<close> by blast
    with mem [of v] r show ?thesis by simp
  qed
  with fin show ?thesis by blast
qed

text \<open>C24. The evacuation task: when it returns, no VM move of the notification has failed, those that
  were pending have succeeded (or their thread died before it began, and they are still pending),
  and every other VM move is as it was. So a VM move that failed in an earlier attempt makes
  every later attempt raise, however well it goes.\<close>

theorem evacuate_task_spec:
  assumes "live_ctx ctx" and "lib_ok L" and "table_ok L vmoves_tbl w"
    and run: "EvacuateInstancesTask L C N ctx host_name nu reserved_host w = (Inr (), w')"
  shows "\<not> some_failed nu w \<and> \<not> some_failed nu w' \<and>
    (\<forall>u r. live vmoves_tbl w u = Some r \<longrightarrow>
       (if vm_notification_uuid r = nu \<and> vm_status r = Some VS_PENDING
        then live vmoves_tbl w' u = Some r \<or> (\<exists>r'. live vmoves_tbl w' u = Some r' \<and>
          vm_status r' = Some VS_SUCCEEDED \<and> vm_end_time r' = Some (clock w))
        else live vmoves_tbl w' u = Some r))"
proof -
  obtain us where only: "\<And>u r. u \<in> us \<Longrightarrow> live vmoves_tbl w u = Some r \<Longrightarrow>
      vm_notification_uuid r = nu \<and> vm_status r = Some VS_PENDING"
    and fin: "evac_inv L us w w'" "\<not> some_failed nu w'"
    using evacuate_task_run [OF assms] by blast
  have step: "live vmoves_tbl w' u = Some r \<or> (\<exists>r'. live vmoves_tbl w' u = Some r' \<and>
      vm_notification_uuid r' = vm_notification_uuid r \<and> ended u w')"
    if "live vmoves_tbl w u = Some r" for u r
    using fin(1) that unfolding evac_inv_def by blast
  have outside: "live vmoves_tbl w' u = live vmoves_tbl w u" if "u \<notin> us" for u
    using fin(1) that unfolding evac_inv_def by blast
  have others: "live vmoves_tbl w' u = Some r" if "live vmoves_tbl w u = Some r"
      "\<not> (vm_notification_uuid r = nu \<and> vm_status r = Some VS_PENDING)" for u r
  proof -
    have "u \<notin> us" using only that by blast
    with outside that(1) show ?thesis by simp
  qed
  have clock: "clock w' = clock w" using fin(1) by (simp add: evac_inv_def)
  have mine: "live vmoves_tbl w' u = Some r \<or> (\<exists>r'. live vmoves_tbl w' u = Some r' \<and>
      vm_status r' = Some VS_SUCCEEDED \<and> vm_end_time r' = Some (clock w))"
    if r: "live vmoves_tbl w u = Some r" "vm_notification_uuid r = nu" for u r
    using step [OF r(1)]
  proof
    assume "\<exists>r'. live vmoves_tbl w' u = Some r' \<and> vm_notification_uuid r' = vm_notification_uuid r \<and> ended u w'"
    then obtain r' where r': "live vmoves_tbl w' u = Some r'" "vm_notification_uuid r' = nu"
      and "ended u w'" using r(2) by auto
    then have e: "vm_status r' = Some VS_SUCCEEDED \<or> vm_status r' = Some VS_FAILED" "vm_end_time r' = Some (clock w)"
      using clock by (auto simp: ended_def)
    have "vm_status r' \<noteq> Some VS_FAILED"
      using fin(2) r' unfolding some_failed_def by blast
    with e r' show ?thesis by blast
  qed simp
  have "\<not> some_failed nu w"
  proof
    assume "some_failed nu w"
    then obtain u r where r: "live vmoves_tbl w u = Some r" "vm_notification_uuid r = nu" "vm_status r = Some VS_FAILED"
      unfolding some_failed_def by blast
    then have "live vmoves_tbl w' u = Some r" using others by simp
    with r fin(2) show False unfolding some_failed_def by blast
  qed
  then show ?thesis using fin(2) others mine by simp
qed

section \<open>The VM moves that are prepared\<close>

text \<open>
  The instances that are evacuated, in their order: those enabled for recovery first, then, if the
  configuration asks for all instances, the others; instances in the error state are left out when
  the configuration says so.
\<close>

definition evacuation_targets :: "lib \<Rightarrow> conf \<Rightarrow> server list \<Rightarrow> server list" where
  "evacuation_targets L C l =
     (let kept = filter (\<lambda>i. \<not> ignored C i) l in
      filter (ha_enabled L (host_ha_key C)) kept @
      (if evacuate_all_instances C then filter (\<lambda>i. \<not> ha_enabled L (host_ha_key C) i) kept else []))"

lemma wp_split_instances:
  assumes "\<And>t p. I t \<Longrightarrow> I (t\<lparr>progress := p\<rparr>)"
  shows "I w \<Longrightarrow> wp (split_instances L C l ha non_ha)
     (\<lambda>res t. I t \<and> res = (ha @ filter (ha_enabled L (host_ha_key C)) (filter (\<lambda>i. \<not> ignored C i) l),
        non_ha @ filter (\<lambda>i. \<not> ha_enabled L (host_ha_key C) i) (filter (\<lambda>i. \<not> ignored C i) l)))
     (\<lambda>_ _. False) w"
proof (induction l arbitrary: ha non_ha w)
  case Nil
  then show ?case by (simp add: wp_simps)
next
  case (Cons i l)
  note keep = assms [OF Cons.prems]
  show ?case
  proof (cases "ignored C i")
    case True
    then show ?thesis using Cons.IH [OF Cons.prems, of ha non_ha] Cons.IH [OF keep, of ha non_ha]
      by (simp add: wp_bindM wp_whenM wp_update_details Let_def del: filter_filter)
  next
    case False
    then show ?thesis using Cons.IH [OF Cons.prems, of "ha @ [i]" non_ha] Cons.IH [OF Cons.prems, of ha "non_ha @ [i]"]
      by (simp add: Let_def del: filter_filter)
  qed
qed

lemma wp_filter_instances:
  assumes "\<And>t p. I t \<Longrightarrow> I (t\<lparr>progress := p\<rparr>)" and "I w"
  shows "wp (filter_instances L C l) (\<lambda>ts t. I t \<and> ts = evacuation_targets L C l) (\<lambda>_ _. False) w"
  unfolding filter_instances_def wp_bindM
  by (intro wp_mono [OF wp_split_instances [OF assms]])
    (auto simp: evacuation_targets_def wp_simps Let_def assms(1) simp del: filter_filter)

text \<open>Uuids that are still to be generated are new.\<close>

definition fresh_vmoves :: "lib \<Rightarrow> ('n, 'k) world \<Rightarrow> bool" where
  "fresh_vmoves L w \<longleftrightarrow> (\<forall>k \<ge> uuid_seq w. gen_uuid L k \<notin> vm_uuid ` set (vmoves w))"

definition prepared :: "string \<Rightarrow> string \<Rightarrow> server \<Rightarrow> vmove \<Rightarrow> bool" where
  "prepared host_name nu i v \<longleftrightarrow> vm_instance_uuid v = sv_id i \<and> vm_instance_name v = sv_name i \<and>
     vm_notification_uuid v = nu \<and> vm_source_host v = Some host_name \<and> vm_type v = Some EVACUATION \<and>
     vm_status v = Some VS_PENDING \<and> deleted v = 0"

lemma create_vmoves_run:
  assumes "live_ctx ctx" and "lib_ok L"
  shows "table_ok L vmoves_tbl w \<Longrightarrow> fresh_vmoves L w \<Longrightarrow>
    \<exists>new. forM l (\<lambda>i. bindM (VMove_create L ctx (new_vmove h nu i)) (\<lambda>_. retM ())) w =
        (Inr (), w\<lparr>vmoves := vmoves w @ new, uuid_seq := uuid_seq w + length l\<rparr>) \<and>
      table_ok L vmoves_tbl (w\<lparr>vmoves := vmoves w @ new\<rparr>) \<and> list_all2 (prepared h nu) l new"
proof (induction l arbitrary: w)
  case Nil
  then show ?case by (auto simp: retM_def intro: exI [of _ "[]"])
next
  case (Cons i l)
  let ?u = "gen_uuid L (uuid_seq w)"
  let ?w = "w\<lparr>uuid_seq := Suc (uuid_seq w)\<rparr>"
  let ?v = "(new_vmove h nu i)\<lparr>vm_uuid := ?u\<rparr>"
  let ?r = "stamped vmoves_tbl ?v ?w"
  let ?t = "?w\<lparr>vmoves := vmoves w @ [?r]\<rparr>"
  have ok: "table_ok L vmoves_tbl ?w" using Cons.prems(1) by (simp add: table_ok_def vmoves_tbl_def)
  have "?u \<notin> vm_uuid ` set (vmoves w)" using Cons.prems(2) by (simp add: fresh_vmoves_def)
  then have "insert_row (t_uniq vmoves_tbl) (clock ?w) ?v (t_get vmoves_tbl ?w) = Inr (vmoves w @ [?r])"
    using ok by (simp add: insert_row_def Let_def table_ok_def vmoves_tbl_def uniq_vmoves_def stamped_def)
  note ins = this vmoves_store.created_live [OF ok this]
  have put: "t_put vmoves_tbl (vmoves w @ [?r]) ?w = ?t" by (simp add: vmoves_tbl_def)
  have "VMove_create L ctx (new_vmove h nu i) w = (Inr ?r, ?t)"
    using vmoves_store.create_eq [OF assms(1) ok] ins(1) put
    by (simp add: VMove_create_def vmove_create_def generate_uuid_def getM_def modM_def bindM_def retM_def)
  moreover have "table_ok L vmoves_tbl ?t" using ins(2) put by simp
  moreover have "fresh_vmoves L ?t"
    using Cons.prems(2) assms(2) by (auto simp: fresh_vmoves_def lib_ok_def stamped_def inj_eq)
  ultimately obtain new where
    "forM (i # l) (\<lambda>i. bindM (VMove_create L ctx (new_vmove h nu i)) (\<lambda>_. retM ())) w =
        (Inr (), ?t\<lparr>vmoves := vmoves ?t @ new, uuid_seq := uuid_seq ?t + length l\<rparr>)"
    "table_ok L vmoves_tbl (?t\<lparr>vmoves := vmoves ?t @ new\<rparr>)" "list_all2 (prepared h nu) l new"
    using Cons.IH [of ?t] by (auto simp: bindM_def retM_def)
  moreover have "prepared h nu i ?r" by (simp add: prepared_def stamped_def new_vmove_def)
  ultimately show ?case
    by (intro exI [of _ "?r # new"]) (simp add: table_ok_def vmoves_tbl_def)
qed

text \<open>C25. Preparation: with the servers Nova lists on the failed host, either none is to be evacuated and
  the task raises \<open>SkipHostRecoveryException\<close> and changes no table, or it stores exactly one pending
  VM move per instance to evacuate, in their order, behind the VM moves there were, and returns.\<close>

theorem prepare_task_spec:
  assumes "live_ctx ctx" and "lib_ok L" and "table_ok L vmoves_tbl w" and "fresh_vmoves L w"
    and run: "PrepareHAEnabledInstancesTask L C N ctx h nu w = (r, w')"
  shows "case servers_list N h (infra w) of
      (Inl e, k) \<Rightarrow> r = Inl (translated e) \<and> same_tables w w'
    | (Inr l, k) \<Rightarrow> infra w' = k \<and>
        (if evacuation_targets L C l = []
         then (\<exists>m. r = Inl (Exc SkipHostRecoveryException m)) \<and> same_tables w w'
         else r = Inr () \<and> table_ok L vmoves_tbl w' \<and> same_tables (w\<lparr>vmoves := vmoves w'\<rparr>) w' \<and>
           (\<exists>new. vmoves w' = vmoves w @ new \<and> list_all2 (prepared h nu) (evacuation_targets L C l) new))"
proof (cases "servers_list N h (infra w)")
  case (Pair res k)
  show ?thesis
  proof (cases res)
    case (Inl e)
    then show ?thesis using run Pair
      by (auto simp: PrepareHAEnabledInstancesTask_def bindM_def update_details_def modM_def get_servers_def
        translate_nova_exception_def same_tables_def)
  next
    case (Inr l)
    let ?ts = "evacuation_targets L C l"
    let ?I = "\<lambda>t. \<exists>p. t = w\<lparr>infra := k, progress := p\<rparr>"
    have filt: "wp (filter_instances L C l) (\<lambda>ts t. ?I t \<and> ts = ?ts) (\<lambda>_ _. False) t" if "?I t" for t
      using that by (intro wp_filter_instances [where I = ?I]) auto
    let ?Q = "\<lambda>t. infra t = k \<and> ?ts \<noteq> [] \<and> table_ok L vmoves_tbl t \<and> same_tables (w\<lparr>vmoves := vmoves t\<rparr>) t \<and>
       (\<exists>new. vmoves t = vmoves w @ new \<and> list_all2 (prepared h nu) ?ts new)"
    let ?E = "\<lambda>e t. infra t = k \<and> ?ts = [] \<and> (\<exists>m. e = Exc SkipHostRecoveryException m) \<and> same_tables w t"
    have create: "wp (forM ?ts (\<lambda>i. bindM (VMove_create L ctx (new_vmove h nu i)) (\<lambda>_. retM ())))
        (\<lambda>_ t. \<forall>p. ?Q (t\<lparr>progress := p\<rparr>)) ?E t" if "?I t" "?ts \<noteq> []" for t
    proof -
      have "table_ok L vmoves_tbl t" "fresh_vmoves L t"
        using that(1) assms(3,4) by (auto simp: table_ok_def vmoves_tbl_def fresh_vmoves_def)
      from create_vmoves_run [OF assms(1,2) this, of ?ts h nu] that show ?thesis
        by (auto simp: wp_def same_tables_def table_ok_def vmoves_tbl_def)
    qed
    have skip: "infra t = k \<and> same_tables w t" if "?I t" for t
      using that by (auto simp: same_tables_def)
    have rest: "wp (bindM (filter_instances L C l) (\<lambda>il. if il = []
        then bindM (update_details m1 100) (\<lambda>_. raiseM (Exc SkipHostRecoveryException m2))
        else bindM (forM il (\<lambda>i. bindM (VMove_create L ctx (new_vmove h nu i)) (\<lambda>_. retM ()))) (\<lambda>_.
          update_details (m3 il) 100))) (\<lambda>_. ?Q) ?E t" if "?I t" for t m1 m2 m3
      by (subst wp_bindM, rule wp_mono [OF filt [OF that]])
        (auto simp: wp_bindM wp_update_details wp_raiseM same_tables_def intro!: wp_mono [OF create])
    have "wp (PrepareHAEnabledInstancesTask L C N ctx h nu) (\<lambda>_. ?Q) ?E w"
      unfolding PrepareHAEnabledInstancesTask_def Let_def get_servers_def
      using Pair Inr by (auto simp: wp_bindM [of "update_details m p" for m p] wp_update_details
        wp_bindM [of "translate_nova_exception c" for c] wp_translate intro!: rest)
    then show ?thesis using run Pair Inr by (cases r) (auto simp: wp_def)
  qed
qed

section \<open>A concrete run\<close>

definition demo_vmove :: vmove where
  "demo_vmove = (new_vmove ''compute1'' ''notif'' (demo_server ''i1'' True))\<lparr>rid := 1, vm_uuid := ''vm1''\<rparr>"

definition demo_moving :: "(nova_state, unit) world" where
  "demo_moving = (demo_world demo_servers ())\<lparr>vmoves := [demo_vmove]\<rparr>"

lemma demo_moving_ok: "table_ok L vmoves_tbl demo_moving" "live vmoves_tbl demo_moving (vm_uuid demo_vmove) = Some demo_vmove"
  by (simp_all add: table_ok_def ids_ok_def live_def tbl_defs uniq_vmoves_def demo_moving_def demo_vmove_def new_vmove_def)

lemma evacuate_and_confirm_spec_witness:
  "\<exists>w'. evacuate_and_confirm demo_lib demo_conf demo_nova demo_ctx demo_vmove None demo_moving = (Inr (), w') \<and>
     only_vmove demo_lib ''vm1'' demo_moving w' \<and> ended ''vm1'' w'"
proof -
  have "fst (evacuate_and_confirm demo_lib demo_conf demo_nova demo_ctx demo_vmove None demo_moving) = Inr ()"
    by code_simp
  then obtain w' where run: "evacuate_and_confirm demo_lib demo_conf demo_nova demo_ctx demo_vmove None demo_moving = (Inr (), w')"
    by (metis prod.collapse)
  have "vm_uuid demo_vmove = ''vm1''" by (simp add: demo_vmove_def)
  with evacuate_and_confirm_spec [OF live_demo_ctx demo_moving_ok run] run show ?thesis by auto
qed

lemma evacuate_task_spec_witness:
  "\<exists>w'. EvacuateInstancesTask demo_lib demo_conf demo_nova demo_ctx ''compute1'' ''notif'' None demo_moving = (Inr (), w') \<and>
     \<not> some_failed ''notif'' w' \<and> (\<exists>r. live vmoves_tbl w' ''vm1'' = Some r)"
proof -
  have "fst (EvacuateInstancesTask demo_lib demo_conf demo_nova demo_ctx ''compute1'' ''notif'' None demo_moving) = Inr ()"
    by code_simp
  then obtain w' where run: "EvacuateInstancesTask demo_lib demo_conf demo_nova demo_ctx ''compute1'' ''notif'' None demo_moving =
      (Inr (), w')" by (metis prod.collapse)
  have v: "vm_uuid demo_vmove = ''vm1''" "vm_notification_uuid demo_vmove = ''notif''" "vm_status demo_vmove = Some VS_PENDING"
    by (simp_all add: demo_vmove_def new_vmove_def)
  from evacuate_task_spec [OF live_demo_ctx demo_lib_ok demo_moving_ok(1) run] demo_moving_ok(2) v run
  show ?thesis by fastforce
qed

lemma prepare_task_spec_witness:
  "\<exists>w'. PrepareHAEnabledInstancesTask demo_lib demo_conf demo_nova demo_ctx ''compute1'' ''notif'' (demo_world demo_servers ()) =
      (Inr (), w') \<and> length (vmoves w') = 2"
proof -
  let ?w = "demo_world demo_servers ()"
  have ts: "evacuation_targets demo_lib demo_conf (ns_servers demo_servers) = ns_servers demo_servers" by code_simp
  have sl: "servers_list demo_nova ''compute1'' (infra ?w) = (Inr (ns_servers demo_servers), demo_servers)" by code_simp
  have ne: "length (ns_servers demo_servers) = 2" "ns_servers demo_servers \<noteq> []" by (simp_all add: demo_servers_def)
  have "table_ok demo_lib vmoves_tbl ?w" "fresh_vmoves demo_lib ?w" "vmoves ?w = []"
    using demo_world_ok [of demo_lib demo_servers "()"] by (simp_all add: db_ok_def fresh_vmoves_def demo_world_def)
  moreover obtain r w' where run: "PrepareHAEnabledInstancesTask demo_lib demo_conf demo_nova demo_ctx ''compute1'' ''notif'' ?w = (r, w')"
    by fastforce
  ultimately show ?thesis using prepare_task_spec [OF live_demo_ctx demo_lib_ok _ _ run] ts sl ne
    by (auto dest: list_all2_lengthD)
qed

end
