(* ===== verification/Masakari_Driver.thy ===== *)
theory Masakari_Driver
  imports Masakari_HostFailure
begin

text \<open>
  \<open>engine/drivers/taskflow/driver.py\<close>, the notification driver that runs the recovery flows, and
  the contract of a notification driver (\<open>engine/driver.py\<close>), which the manager relies on, as the
  locale \<open>notification_driver_contract\<close>. The last section interprets the locale on the taskflow driver. The
  flows themselves are built without failing here: loading the tasks of a flow (stevedore) is not
  modelled, so the messages about a flow that could not be created are left out.
\<close>

section \<open>The contract of a notification driver\<close>

text \<open>
  A driver is the record of its operations: host failure with the name of the host, the recovery
  method, the uuid of the notification and the list of reserved hosts; instance failure and
  process failure.
\<close>

record ('n, 'k) notification_driver =
  execute_host :: "request_context \<Rightarrow> string \<Rightarrow> recovery_method \<Rightarrow> string \<Rightarrow> string list option \<Rightarrow> ('n, 'k, unit) prog"
  execute_instance :: "request_context \<Rightarrow> string option \<Rightarrow> string \<Rightarrow> ('n, 'k, unit) prog"
  execute_process :: "request_context \<Rightarrow> string option \<Rightarrow> string \<Rightarrow> string \<Rightarrow> ('n, 'k, unit) prog"

text \<open>
  What a driver leaves alone: the notifications and the segments, and what was said about the
  processing of notifications.
\<close>

definition process_events :: "('n, 'k) world \<Rightarrow> event list" where
  "process_events w = filter (\<lambda>e. ev_action e = NOTIFICATION_PROCESS) (events w)"

definition driver_frame :: "('n, 'k) world \<Rightarrow> ('n, 'k) world \<Rightarrow> bool" where
  "driver_frame w t \<longleftrightarrow> notifications t = notifications w \<and> segments t = segments w \<and> clock t = clock w \<and>
     process_events t = process_events w"

text \<open>
  The contract: every operation keeps the frame, and whatever leaves it is an exception of
  Masakari's own, which the manager turns into a status. \<open>ok\<close> is what the driver itself relies on.
\<close>

locale notification_driver_contract =
  fixes D :: "('n, 'k) notification_driver" and ok :: bool
  assumes host_frame: "ok \<Longrightarrow> live_ctx ctx \<Longrightarrow> pres (driver_frame w) (execute_host D ctx h m nu rhs)"
    and instance_frame: "ok \<Longrightarrow> live_ctx ctx \<Longrightarrow> pres (driver_frame w) (execute_instance D ctx u nu)"
    and process_frame: "ok \<Longrightarrow> live_ctx ctx \<Longrightarrow> pres (driver_frame w) (execute_process D ctx p h nu)"
    and host_escapes: "ok \<Longrightarrow> escapes (\<lambda>e. isinstance e MasakariException) (execute_host D ctx h m nu rhs)"
    and instance_escapes: "ok \<Longrightarrow> escapes (\<lambda>e. isinstance e MasakariException) (execute_instance D ctx u nu)"
    and process_escapes: "ok \<Longrightarrow> escapes (\<lambda>e. isinstance e MasakariException) (execute_process D ctx p h nu)"

section \<open>The taskflow driver\<close>

definition execute_auto_workflow ::
  "lib \<Rightarrow> conf \<Rightarrow> 'n nova_client \<Rightarrow> ('n, 'k) engine \<Rightarrow> request_context \<Rightarrow> string \<Rightarrow> string \<Rightarrow> ('n, 'k, unit) prog" where
  "execute_auto_workflow L C N E ctx host_name nu = E (get_auto_flow L C N ctx host_name nu)"

definition execute_rh_workflow ::
  "lib \<Rightarrow> conf \<Rightarrow> 'n nova_client \<Rightarrow> ('n, 'k) engine \<Rightarrow> request_context \<Rightarrow> string \<Rightarrow> string \<Rightarrow> string list option
   \<Rightarrow> ('n, 'k, unit) prog" where
  "execute_rh_workflow L C N E ctx host_name nu reserved_host_list =
     (if reserved_host_list = None \<or> reserved_host_list = Some []
      then raiseM (Exc ReservedHostsUnavailable ''No reserved_hosts available for evacuation.'')
      else tryM (E (get_rh_flow L C N ctx host_name nu (the reserved_host_list)))
        (\<lambda>ex. if isinstance ex LockAlreadyAcquired
          then raiseM (Exc HostRecoveryFailureException (message ex)) else raiseM ex))"

text \<open>The exceptions after which the other workflow is not tried.\<close>

definition no_fallback :: "exc \<Rightarrow> bool" where
  "no_fallback ex = (isinstance ex SkipHostRecoveryException \<or> isinstance ex StagedStartFailureException)"

definition execute_auto_priority_workflow ::
  "lib \<Rightarrow> conf \<Rightarrow> 'n nova_client \<Rightarrow> ('n, 'k) engine \<Rightarrow> request_context \<Rightarrow> string \<Rightarrow> string \<Rightarrow> string list option
   \<Rightarrow> ('n, 'k, unit) prog" where
  "execute_auto_priority_workflow L C N E ctx host_name nu reserved_host_list =
     tryM (execute_auto_workflow L C N E ctx host_name nu)
       (\<lambda>ex. if no_fallback ex then raiseM ex
         else execute_rh_workflow L C N E ctx host_name nu reserved_host_list)"

definition execute_rh_priority_workflow ::
  "lib \<Rightarrow> conf \<Rightarrow> 'n nova_client \<Rightarrow> ('n, 'k) engine \<Rightarrow> request_context \<Rightarrow> string \<Rightarrow> string \<Rightarrow> string list option
   \<Rightarrow> ('n, 'k, unit) prog" where
  "execute_rh_priority_workflow L C N E ctx host_name nu reserved_host_list =
     tryM (execute_rh_workflow L C N E ctx host_name nu reserved_host_list)
       (\<lambda>ex. if no_fallback ex then raiseM ex
         else execute_auto_workflow L C N E ctx host_name nu)"

definition execute_host_failure ::
  "lib \<Rightarrow> conf \<Rightarrow> 'n nova_client \<Rightarrow> ('n, 'k) engine \<Rightarrow> request_context \<Rightarrow> string \<Rightarrow> recovery_method \<Rightarrow> string
   \<Rightarrow> string list option \<Rightarrow> ('n, 'k, unit) prog" where
  "execute_host_failure L C N E ctx host_name recovery_method nu reserved_host_list =
     tryM
       (case recovery_method of
          AUTO \<Rightarrow> execute_auto_workflow L C N E ctx host_name nu
        | RESERVED_HOST \<Rightarrow> execute_rh_workflow L C N E ctx host_name nu reserved_host_list
        | AUTO_PRIORITY \<Rightarrow> execute_auto_priority_workflow L C N E ctx host_name nu reserved_host_list
        | RH_PRIORITY \<Rightarrow> execute_rh_priority_workflow L C N E ctx host_name nu reserved_host_list)
       (\<lambda>ex. if isinstance_any ex [SkipHostRecoveryException, HostRecoveryFailureException, ReservedHostsUnavailable]
         then raiseM ex
         else raiseM (Exc MasakariException (''Failed to execute host failure flow for notification '' @ quoted nu @ ''.'')))"

text \<open>A payload without the uuid of the instance gives Nova no server to look up.\<close>

definition execute_instance_failure ::
  "lib \<Rightarrow> conf \<Rightarrow> 'n nova_client \<Rightarrow> ('n, 'k) engine \<Rightarrow> request_context \<Rightarrow> string option \<Rightarrow> string \<Rightarrow> ('n, 'k, unit) prog" where
  "execute_instance_failure L C N E ctx instance_uuid nu =
     tryM
       (E (get_instance_recovery_flow L C N (case instance_uuid of None \<Rightarrow> ''None'' | Some u \<Rightarrow> u)))
       (\<lambda>ex. if isinstance_any ex [SkipInstanceRecoveryException, IgnoreInstanceRecoveryException,
             InstanceRecoveryFailureException]
         then raiseM ex
         else raiseM (Exc MasakariException (''Failed to execute instance failure flow for notification '' @ quoted nu @ ''.'')))"

definition execute_process_failure ::
  "lib \<Rightarrow> conf \<Rightarrow> 'n nova_client \<Rightarrow> ('n, 'k) engine \<Rightarrow> request_context \<Rightarrow> string option \<Rightarrow> string \<Rightarrow> string
   \<Rightarrow> ('n, 'k, unit) prog" where
  "execute_process_failure L C N E ctx process_name host_name nu =
     (if process_name = Some ''nova-compute''
      then tryM (E (get_compute_process_recovery_flow C N ''nova-compute'' host_name))
        (\<lambda>ex. if isinstance ex ProcessRecoveryFailureException then raiseM ex
          else raiseM (Exc MasakariException (''Failed to execute instance failure flow for notification '' @ quoted nu @ ''.'')))
      else raiseM (Exc SkipProcessRecoveryException ''Skipping execution of process recovery workflow.''))"

definition taskflow_driver :: "lib \<Rightarrow> conf \<Rightarrow> 'n nova_client \<Rightarrow> ('n, 'k) engine \<Rightarrow> ('n, 'k) notification_driver" where
  "taskflow_driver L C N E = \<lparr>execute_host = execute_host_failure L C N E,
     execute_instance = execute_instance_failure L C N E, execute_process = execute_process_failure L C N E\<rparr>"

section \<open>What the flows leave alone\<close>

lemma driver_frame_off [simp]: "off_infra (driver_frame w)" "off_aux (driver_frame w)"
  "off_table vmoves_tbl (driver_frame w)" "off_table hosts_tbl (driver_frame w)"
  by (auto simp: off_infra_def off_aux_def off_table_def driver_frame_def process_events_def tbl_defs)

lemma driver_frame_refl [simp]: "driver_frame w w"
  by (simp add: driver_frame_def)

lemma driver_frame_trans: "driver_frame w t \<Longrightarrow> driver_frame t u \<Longrightarrow> driver_frame w u"
  by (simp add: driver_frame_def)

lemma frame_emit: "action \<noteq> NOTIFICATION_PROCESS \<Longrightarrow> pres (driver_frame w) (emit action p e u)"
  by (auto simp: pres_def emit_def modM_def driver_frame_def process_events_def split: prod.split)

lemma frame_Host_save: "pres (driver_frame w) (Host_save ctx h hu)"
  unfolding Host_save_def host_update_def by (intro pres_intros pres_row_update frame_emit) simp_all

lemma frame_host_enable: "pres (driver_frame w) (enable_reserved_host C N ctx h rh)"
  unfolding enable_reserved_host_def update_host_method_def
  by (intro pres_intros frame_Host_save) simp_all

lemma frame_split_instances: "pres (driver_frame w) (split_instances L C l ha non_ha)"
  by (induction l arbitrary: ha non_ha) (auto intro!: pres_intros simp: Let_def)

lemma frame_tasks:
  "pres (driver_frame w) (DisableComputeServiceTask C N h)"
  "pres (driver_frame w) (PrepareHAEnabledInstancesTask L C N ctx h nu)"
  unfolding DisableComputeServiceTask_def PrepareHAEnabledInstancesTask_def filter_instances_def
  by (intro pres_intros frame_split_instances driver_frame_off)+

lemma frame_evacuate_and_confirm: "pres (driver_frame w) (evacuate_and_confirm L C N ctx v rh)"
  unfolding evacuate_and_confirm_def evacuate_instance_of_def prepare_instance_def evacuation_confirmation_def
    stop_after_evacuation_def wait_for_vm_state_def update_vmove_def
  by (intro pres_intros driver_frame_off)

lemma frame_evacuate_task: "pres (driver_frame w) (EvacuateInstancesTask L C N ctx h nu rh)"
  unfolding EvacuateInstancesTask_def do_evacuate_def evacuation_outcome_def spawned_def
  by (intro pres_intros frame_evacuate_and_confirm frame_host_enable driver_frame_off)

lemma auto_flow_run:
  "engine_ok E \<Longrightarrow> E (get_auto_flow L C N ctx h nu) = bindM (DisableComputeServiceTask C N h) (\<lambda>_.
     bindM (PrepareHAEnabledInstancesTask L C N ctx h nu) (\<lambda>_. EvacuateInstancesTask L C N ctx h nu None))"
  unfolding get_auto_flow_def by (subst engine_linear) simp_all

text \<open>The attempt with one reserved host.\<close>

definition rh_attempt ::
  "lib \<Rightarrow> conf \<Rightarrow> 'n nova_client \<Rightarrow> request_context \<Rightarrow> string \<Rightarrow> string \<Rightarrow> string \<Rightarrow> ('n, 'k, unit) prog" where
  "rh_attempt L C N ctx h nu rh = bindM (PrepareHAEnabledInstancesTask L C N ctx h nu)
     (\<lambda>_. EvacuateInstancesTask L C N ctx h nu (Some rh))"

fun rh_attempts ::
  "lib \<Rightarrow> conf \<Rightarrow> 'n nova_client \<Rightarrow> request_context \<Rightarrow> string \<Rightarrow> string \<Rightarrow> string list \<Rightarrow> ('n, 'k, unit) prog" where
  "rh_attempts L C N ctx h nu [] = retM ()"
| "rh_attempts L C N ctx h nu [rh] = rh_attempt L C N ctx h nu rh"
| "rh_attempts L C N ctx h nu (rh # rh' # rhs) =
     tryM (rh_attempt L C N ctx h nu rh) (\<lambda>_. rh_attempts L C N ctx h nu (rh' # rhs))"

lemma for_each_run:
  assumes "engine_ok E"
  shows "E (ForEach (rh # rhs) (\<lambda>rh. [PrepareHAEnabledInstancesTask L C N ctx h nu,
      EvacuateInstancesTask L C N ctx h nu (Some rh)])) = rh_attempts L C N ctx h nu (rh # rhs)"
  using assms by (induction rhs arbitrary: rh) (simp_all add: engine_ok_def rh_attempt_def)

lemma rh_flow_run:
  assumes "engine_ok E"
  shows "E (get_rh_flow L C N ctx h nu (rh # rhs)) =
    bindM (DisableComputeServiceTask C N h) (\<lambda>_. rh_attempts L C N ctx h nu (rh # rhs))"
  using assms for_each_run [OF assms, of rh rhs]
  by (simp add: get_rh_flow_def engine_ok_def)

lemma pres_rh_attempts:
  "(\<And>rh. pres I (rh_attempt L C N ctx h nu rh)) \<Longrightarrow> pres I (rh_attempts L C N ctx h nu rhs)"
  by (induction L C N ctx h nu rhs rule: rh_attempts.induct) (auto intro!: pres_intros)

lemma frame_flows:
  assumes "engine_ok E"
  shows "pres (driver_frame w) (execute_auto_workflow L C N E ctx h nu)"
    "pres (driver_frame w) (execute_rh_workflow L C N E ctx h nu rhs)"
proof -
  show "pres (driver_frame w) (execute_auto_workflow L C N E ctx h nu)"
    unfolding execute_auto_workflow_def auto_flow_run [OF assms]
    by (intro pres_intros frame_tasks frame_evacuate_task)
  have "pres (driver_frame w) (E (get_rh_flow L C N ctx h nu (x # xs)))" for x xs
    unfolding rh_flow_run [OF assms] rh_attempt_def
    by (intro pres_intros pres_rh_attempts frame_tasks) (simp add: rh_attempt_def pres_intros frame_tasks frame_evacuate_task)
  then show "pres (driver_frame w) (execute_rh_workflow L C N E ctx h nu rhs)"
    unfolding execute_rh_workflow_def
    by (cases "the rhs") (auto intro!: pres_intros split: option.splits)
qed

section \<open>The taskflow driver keeps the contract\<close>

lemma frame_execute:
  assumes "engine_ok E"
  shows "pres (driver_frame w) (execute_host_failure L C N E ctx h m nu rhs)"
    "pres (driver_frame w) (execute_instance_failure L C N E ctx u nu)"
    "pres (driver_frame w) (execute_process_failure L C N E ctx p h nu)"
proof -
  show "pres (driver_frame w) (execute_host_failure L C N E ctx h m nu rhs)"
    unfolding execute_host_failure_def execute_auto_priority_workflow_def execute_rh_priority_workflow_def
    by (cases m) (auto intro!: pres_intros frame_flows assms)
  have "pres (driver_frame w) (StopInstanceTask L C N i)" "pres (driver_frame w) (StartInstanceTask N i)"
    "pres (driver_frame w) (ConfirmInstanceActiveTask C N i)" for i
    unfolding StopInstanceTask_def StartInstanceTask_def ConfirmInstanceActiveTask_def wait_for_vm_state_def
    by (intro pres_intros driver_frame_off)+
  then show "pres (driver_frame w) (execute_instance_failure L C N E ctx u nu)"
    unfolding execute_instance_failure_def instance_flow_run [OF assms] by (intro pres_intros)
  show "pres (driver_frame w) (execute_process_failure L C N E ctx p h nu)"
    unfolding execute_process_failure_def process_flow_run [OF assms] DisableComputeNodeTask_def
      ConfirmComputeNodeDisabledTask_def
    by (intro pres_intros driver_frame_off)
qed

lemma escapes_execute:
  "escapes (\<lambda>e. isinstance_any e [SkipHostRecoveryException, HostRecoveryFailureException, ReservedHostsUnavailable] \<or>
     cls_of e = MasakariException) (execute_host_failure L C N E ctx h m nu rhs)"
  "escapes (\<lambda>e. isinstance_any e [SkipInstanceRecoveryException, IgnoreInstanceRecoveryException,
     InstanceRecoveryFailureException] \<or> cls_of e = MasakariException) (execute_instance_failure L C N E ctx u nu)"
  "escapes (\<lambda>e. isinstance_any e [SkipProcessRecoveryException, ProcessRecoveryFailureException] \<or>
     cls_of e = MasakariException) (execute_process_failure L C N E ctx p h nu)"
  unfolding execute_host_failure_def execute_instance_failure_def execute_process_failure_def
  by (rule escapes_tryM [OF escapes_top] escapes_intros | simp add: isinstance_any_def isinstance_def)+

interpretation taskflow: notification_driver_contract "taskflow_driver L C N E" "engine_ok E"
proof
  have own: "isinstance e MasakariException" if "isinstance e c" "base c = Some MasakariException" for e c
    using that unfolding isinstance_def by (rule issubclass_base)
  then have sub: "isinstance_any e [SkipHostRecoveryException, HostRecoveryFailureException, ReservedHostsUnavailable] \<or>
      isinstance_any e [SkipInstanceRecoveryException, IgnoreInstanceRecoveryException, InstanceRecoveryFailureException] \<or>
      isinstance_any e [SkipProcessRecoveryException, ProcessRecoveryFailureException] \<or> cls_of e = MasakariException \<Longrightarrow>
      isinstance e MasakariException" for e
    by (auto simp: isinstance_any_def) (simp add: isinstance_def)
  fix ctx :: request_context and w :: "('a, 'b) world" and h nu m rhs u p
  assume E: "engine_ok E"
  show "pres (driver_frame w) (execute_host (taskflow_driver L C N E) ctx h m nu rhs)"
    "pres (driver_frame w) (execute_instance (taskflow_driver L C N E) ctx u nu)"
    "pres (driver_frame w) (execute_process (taskflow_driver L C N E) ctx p h nu)"
    using frame_execute [OF E] by (simp_all add: taskflow_driver_def)
  show "escapes (\<lambda>e. isinstance e MasakariException) (execute_host (taskflow_driver L C N E) ctx h m nu rhs)"
    "escapes (\<lambda>e. isinstance e MasakariException) (execute_instance (taskflow_driver L C N E) ctx u nu)"
    "escapes (\<lambda>e. isinstance e MasakariException) (execute_process (taskflow_driver L C N E) ctx p h nu)"
    unfolding taskflow_driver_def by (auto intro: escapes_mono [OF escapes_execute(1)] escapes_mono [OF escapes_execute(2)]
      escapes_mono [OF escapes_execute(3)] sub)
qed

section \<open>A VM move that failed\<close>

text \<open>A failed VM move of the notification stays: nothing that is run for the notification removes it.\<close>

definition stuck :: "lib \<Rightarrow> string \<Rightarrow> ('n, 'k) world \<Rightarrow> bool" where
  "stuck L nu t \<longleftrightarrow> table_ok L vmoves_tbl t \<and> some_failed nu t"

lemma stuck_off [simp]: "off_infra (stuck L nu)" "off_aux (stuck L nu)" "off_events (stuck L nu)" "off_table hosts_tbl (stuck L nu)"
  by (auto simp: off_infra_def off_aux_def off_events_def off_table_def stuck_def some_failed_def live_def table_ok_def tbl_defs)

lemma stuck_create: "live_ctx ctx \<Longrightarrow> pres (stuck L nu) (VMove_create L ctx v)"
proof (rule presI)
  fix s t :: "('a, 'b) world" and r
  assume ctx: "live_ctx ctx" and run: "VMove_create L ctx v s = (r, t)" and st: "stuck L nu s"
  let ?s = "s\<lparr>uuid_seq := Suc (uuid_seq s)\<rparr>"
  have st': "stuck L nu ?s" using st by (simp add: stuck_def some_failed_def live_def table_ok_def tbl_defs)
  then have ok: "table_ok L vmoves_tbl ?s" by (simp add: stuck_def)
  have run': "row_create vmoves_tbl ctx id nf (v\<lparr>vm_uuid := gen_uuid L (uuid_seq s)\<rparr>) ?s = (r, t)"
    if "nf = mk_VMoveNotFound (gen_uuid L (uuid_seq s))" for nf
    using run that by (simp add: VMove_create_def vmove_create_def generate_uuid_def getM_def modM_def bindM_def retM_def)
  show "stuck L nu t"
  proof (cases r)
    case (Inl e)
    then show ?thesis using vmoves_store.create_raises [OF ctx ok run' [OF refl, unfolded Inl]] st' by simp
  next
    case (Inr row)
    have key: "t_key vmoves_tbl (v\<lparr>vm_uuid := x\<rparr>) = x" for x by (simp add: vmoves_tbl_def)
    from vmoves_store.create_live [OF ctx ok run' [OF refl, unfolded Inr]]
    have new: "live vmoves_tbl ?s (gen_uuid L (uuid_seq s)) = None"
      and l: "live vmoves_tbl t = (live vmoves_tbl ?s)(gen_uuid L (uuid_seq s) \<mapsto> row)"
      and k: "table_ok L vmoves_tbl t" unfolding key by blast+
    obtain u q where q: "live vmoves_tbl ?s u = Some q" "vm_notification_uuid q = nu" "vm_status q = Some VS_FAILED"
      using st' by (auto simp: stuck_def some_failed_def)
    with new have "u \<noteq> gen_uuid L (uuid_seq s)" by auto
    with l q have "live vmoves_tbl t u = Some q" by simp
    with q k show ?thesis unfolding stuck_def some_failed_def by blast
  qed
qed

lemma stuck_split: "pres (stuck L nu) (split_instances L' C l ha non_ha)"
  by (induction l arbitrary: ha non_ha) (auto intro!: pres_intros simp: Let_def)

lemma stuck_tasks:
  assumes "live_ctx ctx"
  shows "pres (stuck L nu) (DisableComputeServiceTask C N h)"
    "pres (stuck L nu) (PrepareHAEnabledInstancesTask L C N ctx h nu')"
  unfolding DisableComputeServiceTask_def PrepareHAEnabledInstancesTask_def filter_instances_def
  by (intro pres_intros stuck_split stuck_create assms stuck_off)+

lemma stuck_evacuate:
  assumes "live_ctx ctx" and "lib_ok L" and st: "stuck L nu w"
  shows "wp (EvacuateInstancesTask L C N ctx h nu rh) (\<lambda>_ _. False) (\<lambda>_. stuck L nu) w"
proof -
  obtain res w' where run: "EvacuateInstancesTask L C N ctx h nu rh w = (res, w')" by fastforce
  have ok: "table_ok L vmoves_tbl w" using st by (simp add: stuck_def)
  from evacuate_task_run [OF assms(1,2) ok run] obtain us where
    us: "\<And>u r. u \<in> us \<Longrightarrow> live vmoves_tbl w u = Some r \<Longrightarrow> vm_status r = Some VS_PENDING"
    and inv: "evac_inv L us w w'" and last: "res = Inr () \<Longrightarrow> \<not> some_failed nu w'" by blast
  obtain u q where q: "live vmoves_tbl w u = Some q" "vm_notification_uuid q = nu" "vm_status q = Some VS_FAILED"
    using st by (auto simp: stuck_def some_failed_def)
  have "u \<notin> us" using us [of u q] q by auto
  then have "live vmoves_tbl w' u = Some q" using inv q(1) by (simp add: evac_inv_def)
  then have "stuck L nu w'" using q inv unfolding stuck_def some_failed_def evac_inv_def by blast
  with last run show ?thesis by (cases res) (auto simp: wp_def stuck_def)
qed

lemma stuck_then: "pres (stuck L nu) m \<Longrightarrow> stuck L nu s \<Longrightarrow>
    (\<And>a t. stuck L nu t \<Longrightarrow> wp (f a) (\<lambda>_ _. False) (\<lambda>_. stuck L nu) t) \<Longrightarrow>
    wp (bindM m f) (\<lambda>_ _. False) (\<lambda>_. stuck L nu) s"
  by (rule wp_bindM_pres)

lemma stuck_workflows:
  assumes "engine_ok E" and "live_ctx ctx" and "lib_ok L" and "stuck L nu s"
  shows "wp (execute_auto_workflow L C N E ctx h nu) (\<lambda>_ _. False) (\<lambda>_. stuck L nu) s"
    "wp (execute_rh_workflow L C N E ctx h nu rhs) (\<lambda>_ _. False) (\<lambda>_. stuck L nu) s"
proof -
  note steps = stuck_then stuck_tasks [OF assms(2)] stuck_evacuate [OF assms(2,3)]
  show "wp (execute_auto_workflow L C N E ctx h nu) (\<lambda>_ _. False) (\<lambda>_. stuck L nu) s"
    unfolding execute_auto_workflow_def auto_flow_run [OF assms(1)] by (intro steps assms(4))
  have one: "wp (rh_attempt L C N ctx h nu rh) (\<lambda>_ _. False) (\<lambda>_. stuck L nu) t" if "stuck L nu t" for rh t
    unfolding rh_attempt_def by (intro steps that)
  have all: "wp (rh_attempts L C N ctx h nu (x # xs)) (\<lambda>_ _. False) (\<lambda>_. stuck L nu) t" if "stuck L nu t" for x xs t
    using that
  proof (induction xs arbitrary: x t)
    case Nil
    then show ?case by (simp add: one)
  next
    case (Cons y ys)
    show ?case unfolding rh_attempts.simps wp_tryM
      by (rule wp_mono [OF one [OF Cons.prems]]) (auto intro: Cons.IH)
  qed
  have "wp (E (get_rh_flow L C N ctx h nu (x # xs))) (\<lambda>_ _. False) (\<lambda>_. stuck L nu) s" for x xs
    unfolding rh_flow_run [OF assms(1)] by (intro steps assms(4) all)
  then show "wp (execute_rh_workflow L C N E ctx h nu rhs) (\<lambda>_ _. False) (\<lambda>_. stuck L nu) s"
    using assms(4) unfolding execute_rh_workflow_def
    by (cases "the rhs") (auto simp: wp_simps intro!: wp_mono [of "E (get_rh_flow L C N ctx h nu (x # xs))" for x xs])
qed

text \<open>C4. Host recovery by the driver, under any recovery method: it leaves the notifications, the segments and
  what was said about their processing alone; what it raises is one of the exceptions the manager
  knows; and once a VM move of the notification has failed, no further run for that notification
  ever returns, be it the fallback workflow, the next reserved host or the retry of the manager.\<close>

theorem host_failure_spec:
  assumes "engine_ok E" and "live_ctx ctx" and "lib_ok L" and "table_ok L vmoves_tbl w"
    and run: "execute_host_failure L C N E ctx h m nu rhs w = (r, w')"
  shows "driver_frame w w' \<and>
    (\<forall>e. r = Inl e \<longrightarrow> cls_of e = MasakariException \<or>
       isinstance_any e [SkipHostRecoveryException, HostRecoveryFailureException, ReservedHostsUnavailable]) \<and>
    (some_failed nu w \<longrightarrow> (\<exists>e. r = Inl e) \<and> some_failed nu w')"
proof (intro conjI impI)
  show "driver_frame w w'" using presD [OF frame_execute(1) [OF assms(1)] run, of w] by simp
  show "\<forall>e. r = Inl e \<longrightarrow> cls_of e = MasakariException \<or>
       isinstance_any e [SkipHostRecoveryException, HostRecoveryFailureException, ReservedHostsUnavailable]"
    using escapesD [OF escapes_execute(1)] run by blast
  assume "some_failed nu w"
  then have st: "stuck L nu w" using assms(4) by (simp add: stuck_def)
  have "wp (execute_host_failure L C N E ctx h m nu rhs) (\<lambda>_ _. False) (\<lambda>_. stuck L nu) w"
    unfolding execute_host_failure_def execute_auto_priority_workflow_def execute_rh_priority_workflow_def wp_tryM
    by (cases m) (auto simp: wp_simps intro!: wp_mono [OF stuck_workflows(1) [OF assms(1-3) st]]
      wp_mono [OF stuck_workflows(2) [OF assms(1-3) st]] wp_mono [OF stuck_workflows(1) [OF assms(1-3)]]
      wp_mono [OF stuck_workflows(2) [OF assms(1-3)]])
  then show "\<exists>e. r = Inl e" "some_failed nu w'" using run by (auto simp: wp_def stuck_def split: sum.splits)
qed

text \<open>A VM move that failed, and Nova answering well from then on: the retry raises all the same.\<close>

definition demo_failed :: "(nova_state, unit) world" where
  "demo_failed = demo_moving\<lparr>vmoves := [demo_vmove\<lparr>vm_status := Some VS_FAILED\<rparr>]\<rparr>"

lemma host_failure_spec_witness:
  "\<exists>e w'. execute_host_failure demo_lib demo_conf demo_nova demo_engine demo_ctx ''compute1'' AUTO ''notif'' None demo_failed =
     (Inl e, w') \<and> some_failed ''notif'' w'"
proof -
  have l: "live vmoves_tbl demo_failed ''vm1'' = Some (demo_vmove\<lparr>vm_status := Some VS_FAILED\<rparr>)"
    and ok: "table_ok demo_lib vmoves_tbl demo_failed"
    by (simp_all add: table_ok_def ids_ok_def live_def tbl_defs uniq_vmoves_def demo_failed_def demo_moving_def
      demo_vmove_def new_vmove_def)
  have "some_failed ''notif'' demo_failed"
    using l unfolding some_failed_def by (intro exI conjI) (assumption, simp_all add: demo_vmove_def new_vmove_def)
  moreover obtain r w' where run: "execute_host_failure demo_lib demo_conf demo_nova demo_engine demo_ctx
      ''compute1'' AUTO ''notif'' None demo_failed = (r, w')" by fastforce
  ultimately show ?thesis
    using host_failure_spec [OF demo_engine_ok live_demo_ctx demo_lib_ok ok run] by blast
qed

end
