(* ===== verification/Masakari_Manager.thy ===== *)
theory Masakari_Manager
  imports Masakari_Driver Masakari_HaApi
begin

text \<open>
  \<open>engine/manager.py\<close>: the handlers of the three kinds of notification, the processing of a
  notification sent by the API, and the periodic tasks. The driver is a parameter \<open>D\<close>: the
  properties of the handlers are proved from \<open>notification_driver_contract\<close>, and hold for the taskflow
  driver by its interpretation. The time does not advance during an operation. A lock that is
  waited for (\<open>blocking=True\<close>) is modelled by the run that follows once it is free.
\<close>

section \<open>Instance events\<close>

text \<open>\<open>engine/instance_events.py\<close>.\<close>

definition instance_events :: "string \<Rightarrow> string list option" where
  "instance_events = map_of [
     (''QEMU_GUEST_AGENT_ERROR'', [''STOPPED_FAILED'']),
     (''LIFECYCLE'', [''STOPPED_FAILED'']),
     (''IO_ERROR'', [''IO_ERROR_REPORT''])]"

definition is_valid_event :: "string dict \<Rightarrow> bool" where
  "is_valid_event payload =
     (case map_of payload ''event'' of None \<Rightarrow> False | Some ev \<Rightarrow>
       (case instance_events ev of None \<Rightarrow> False | Some vir_domain_event_list \<Rightarrow>
          (case map_of payload ''vir_domain_event'' of None \<Rightarrow> False
           | Some x \<Rightarrow> x \<in> set vir_domain_event_list)))"

section \<open>The handlers\<close>

text \<open>
  What a handler ends with: the status, and the exception to report. The versioned notification
  gets the text of the exception only, so its fault has no class of its own, and an empty text
  makes no fault at all.
\<close>

definition engine_fault :: "exc \<Rightarrow> exc option" where
  "engine_fault e = (if message e = '''' then None else Some (Exc OtherException (message e)))"

definition notify_processed :: "notification \<Rightarrow> exc option \<Rightarrow> ('n, 'k, unit) prog" where
  "notify_processed n exception_info = (case exception_info of
     Some e \<Rightarrow> emit NOTIFICATION_PROCESS PH_ERROR (engine_fault e) (n_uuid n)
   | None \<Rightarrow> emit NOTIFICATION_PROCESS PH_END None (n_uuid n))"

text \<open>\<open>None.upper()\<close>.\<close>

definition no_upper :: exc where
  "no_upper = Exc OtherException ''NoneType object has no attribute upper''"

definition upper_of :: "string option \<Rightarrow> ('n, 'k, string) prog" where
  "upper_of x = (case x of None \<Rightarrow> raiseM no_upper | Some s \<Rightarrow> retM (upper s))"

text \<open>
  The \<open>try\<close> around a call of the driver: the classes in \<open>skip\<close> give the status of the pair.
\<close>

definition driver_outcome ::
  "(exc_class \<times> notification_status \<times> bool) list \<Rightarrow> ('n, 'k, unit) prog
   \<Rightarrow> ('n, 'k, notification_status \<times> exc option) prog" where
  "driver_outcome skips m = tryM (bindM m (\<lambda>_. retM (NS_FINISHED, None)))
     (\<lambda>e. case find (\<lambda>(c, _). isinstance e c) skips of
        Some (_, st, report) \<Rightarrow> retM (st, if report then Some e else None)
      | None \<Rightarrow> if isinstance e MasakariException then retM (NS_ERROR, Some e) else raiseM e)"

definition handle_notification_type_process ::
  "('n, 'k) notification_driver \<Rightarrow> request_context \<Rightarrow> notification \<Rightarrow> ('n, 'k, notification_status) prog" where
  "handle_notification_type_process D ctx n =
     bindM (upper_of (map_of (n_payload n) ''event'')) (\<lambda>event.
     bindM
       (if event = ''STARTED'' then retM (NS_FINISHED, None)
        else if event = ''STOPPED'' then
          bindM (Host_get_by_uuid ctx (n_source_host_uuid n) None) (\<lambda>(h, _).
          bindM (Host_save ctx h (no_host_values\<lparr>hu_on_maintenance := Some True\<rparr>)) (\<lambda>_.
          driver_outcome [(SkipProcessRecoveryException, NS_FINISHED, False)]
            (execute_process D ctx (map_of (n_payload n) ''process_name'') (h_name h) (n_uuid n))))
        else retM (NS_IGNORED, None)) (\<lambda>(status, exception_info).
     bindM (notify_processed n exception_info) (\<lambda>_. retM status)))"

definition handle_notification_type_instance ::
  "('n, 'k) notification_driver \<Rightarrow> request_context \<Rightarrow> notification \<Rightarrow> ('n, 'k, notification_status) prog" where
  "handle_notification_type_instance D ctx n =
     (if \<not> is_valid_event (n_payload n) then retM NS_IGNORED
      else
        bindM (driver_outcome [(IgnoreInstanceRecoveryException, NS_IGNORED, True),
            (SkipInstanceRecoveryException, NS_FINISHED, False)]
          (execute_instance D ctx (map_of (n_payload n) ''instance_uuid'') (n_uuid n))) (\<lambda>(status, exception_info).
        bindM (notify_processed n exception_info) (\<lambda>_. retM status)))"

text \<open>
  The recovery of a host: it goes into maintenance and is no reserved host any more, and unless the
  method is \<open>AUTO\<close> the driver gets the names of the reserved hosts of the segment.
\<close>

definition reserved_hosts_of ::
  "lib \<Rightarrow> request_context \<Rightarrow> recovery_method \<Rightarrow> string \<Rightarrow> ('n, 'k, string list option) prog" where
  "reserved_hosts_of L ctx recovery_method segment_uuid =
     (if recovery_method \<noteq> AUTO
      then bindM (host_get_all_by_filters L ctx \<lparr>hf_segment_id = Is segment_uuid, hf_type = Any,
             hf_on_maintenance = Is False, hf_reserved = Is True\<rparr> [] [] None None) (\<lambda>hs.
           retM (Some (map h_name hs)))
      else retM None)"

definition recover_host ::
  "lib \<Rightarrow> ('n, 'k) notification_driver \<Rightarrow> request_context \<Rightarrow> notification
   \<Rightarrow> ('n, 'k, notification_status \<times> exc option) prog" where
  "recover_host L D ctx n =
     bindM (Host_get_by_uuid ctx (n_source_host_uuid n) None) (\<lambda>(h, sg).
     let host_name = h_name h; recovery_method = sg_recovery_method sg in
     bindM (Host_save ctx h (no_host_values\<lparr>hu_on_maintenance := Some True,
       hu_reserved := (if h_reserved h then Some False else None)\<rparr>)) (\<lambda>(_, sg).
     bindM (reserved_hosts_of L ctx recovery_method (sg_uuid sg)) (\<lambda>reserved_host_list.
     driver_outcome [(SkipHostRecoveryException, NS_FINISHED, False)]
       (execute_host D ctx host_name recovery_method (n_uuid n) reserved_host_list))))"

definition handle_notification_type_host ::
  "lib \<Rightarrow> ('n, 'k) notification_driver \<Rightarrow> request_context \<Rightarrow> notification \<Rightarrow> ('n, 'k, notification_status) prog" where
  "handle_notification_type_host L D ctx n =
     bindM
       (case map_of (n_payload n) ''host_status'' of None \<Rightarrow> retM (NS_IGNORED, None)
        | Some host_status \<Rightarrow>
            if upper host_status \<noteq> ''NORMAL'' then retM (NS_IGNORED, None)
            else bindM (upper_of (map_of (n_payload n) ''event'')) (\<lambda>event.
              if event = ''STARTED'' then retM (NS_FINISHED, None)
              else if event = ''STOPPED'' then recover_host L D ctx n
              else retM (NS_IGNORED, None))) (\<lambda>(status, exception_info).
     bindM (notify_processed n exception_info) (\<lambda>_. retM status))"

section \<open>Processing a notification\<close>

definition handle ::
  "lib \<Rightarrow> ('n, 'k) notification_driver \<Rightarrow> request_context \<Rightarrow> notification \<Rightarrow> ('n, 'k, notification_status) prog" where
  "handle L D ctx n = (case n_type n of
     PROCESS \<Rightarrow> handle_notification_type_process D ctx n
   | VM \<Rightarrow> handle_notification_type_instance D ctx n
   | COMPUTE_HOST \<Rightarrow> handle_notification_type_host L D ctx n)"

definition set_status :: "request_context \<Rightarrow> notification \<Rightarrow> notification_status \<Rightarrow> ('n, 'k, notification) prog" where
  "set_status ctx n st = Notification_save ctx n \<lparr>nu_status = Some st\<rparr>"

definition do_process_notification ::
  "lib \<Rightarrow> ('n, 'k) notification_driver \<Rightarrow> request_context \<Rightarrow> notification \<Rightarrow> ('n, 'k, unit) prog" where
  "do_process_notification L D ctx n =
     bindM (notification_get_by_uuid ctx (n_uuid n)) (\<lambda>notification_db.
     if n_status n = NS_NEW \<and> n_status notification_db \<noteq> NS_NEW then retM ()
     else
       bindM (set_status ctx n NS_RUNNING) (\<lambda>n1.
       bindM (handle L D ctx n1) (\<lambda>status.
       bindM (set_status ctx n1 status) (\<lambda>_. retM ()))))"

definition process_notification_of ::
  "lib \<Rightarrow> ('n, 'k) notification_driver \<Rightarrow> request_context \<Rightarrow> notification \<Rightarrow> ('n, 'k, unit) prog" where
  "process_notification_of L D ctx n =
     bindM (emit NOTIFICATION_PROCESS PH_START None (n_uuid n)) (\<lambda>_.
     synchronized (n_source_host_uuid n) True (do_process_notification L D ctx n))"

text \<open>
  The RPC method. The message of \<open>FailoverSegmentDisabled\<close> is given as a tuple of the format and
  its values, which are never put together; the format stands for it.
\<close>

definition process_notification ::
  "lib \<Rightarrow> ('n, 'k) notification_driver \<Rightarrow> request_context \<Rightarrow> notification \<Rightarrow> ('n, 'k, unit) prog" where
  "process_notification L D ctx n =
     bindM (Host_get_by_uuid ctx (n_source_host_uuid n) None) (\<lambda>(h, sg).
     if \<not> sg_enabled sg
     then bindM (set_status ctx n NS_IGNORED) (\<lambda>_.
          raiseM (Exc FailoverSegmentDisabled (''Notification %(notification_uuid)s of type: %(type)s is ignored, because the failover segment is disabled.'')))
     else process_notification_of L D ctx n)"

section \<open>Periodic tasks\<close>

text \<open>\<open>timeutils.is_older_than\<close>.\<close>

definition is_older_than :: "int \<Rightarrow> int \<Rightarrow> int \<Rightarrow> bool" where
  "is_older_than now before seconds \<longleftrightarrow> now - before > seconds"

definition notifications_in ::
  "lib \<Rightarrow> request_context \<Rightarrow> notification_status list \<Rightarrow> ('n, 'k, notification list) prog" where
  "notifications_in L ctx sts = notifications_get_all_by_filters L ctx
     \<lparr>nf_source_host_uuid = Any, nf_type = Any, nf_status = In sts, nf_generated_since = None\<rparr> [] [] None None"

definition retry_notification ::
  "lib \<Rightarrow> conf \<Rightarrow> ('n, 'k) notification_driver \<Rightarrow> request_context \<Rightarrow> notification \<Rightarrow> ('n, 'k, unit) prog" where
  "retry_notification L C D ctx n =
     bindM utcnow (\<lambda>now.
     bindM (whenM (n_status n = NS_ERROR \<or> n_status n = NS_NEW \<and>
         is_older_than now (n_generated_time n) (retry_notification_new_status_interval C))
       (process_notification_of L D ctx n)) (\<lambda>_.
     bindM (notification_get_by_uuid ctx (n_uuid n)) (\<lambda>notification_db.
     whenM (n_status notification_db = NS_ERROR)
       (bindM (set_status ctx notification_db NS_FAILED) (\<lambda>_. retM ())))))"

definition process_unfinished_notifications ::
  "lib \<Rightarrow> conf \<Rightarrow> ('n, 'k) notification_driver \<Rightarrow> request_context \<Rightarrow> ('n, 'k, unit) prog" where
  "process_unfinished_notifications L C D ctx =
     bindM (notifications_in L ctx [NS_ERROR, NS_NEW]) (\<lambda>notifications_list.
     forM notifications_list (retry_notification L C D ctx))"

definition check_expired_notifications :: "lib \<Rightarrow> conf \<Rightarrow> request_context \<Rightarrow> ('n, 'k, unit) prog" where
  "check_expired_notifications L C ctx =
     bindM (notifications_in L ctx [NS_RUNNING, NS_ERROR, NS_NEW]) (\<lambda>notifications_list.
     forM notifications_list (\<lambda>n.
       bindM utcnow (\<lambda>now.
       whenM (is_older_than now (n_generated_time n) (notifications_expired_interval C))
         (bindM (set_status ctx n NS_FAILED) (\<lambda>_. retM ())))))"

section \<open>What the operations change\<close>

text \<open>Two versions of a notification: only the status and the time of the update may differ.\<close>

definition same_notification :: "notification \<Rightarrow> notification \<Rightarrow> bool" where
  "same_notification r r' \<longleftrightarrow> rid r' = rid r \<and> n_uuid r' = n_uuid r \<and> n_type r' = n_type r \<and> n_payload r' = n_payload r \<and>
     n_generated_time r' = n_generated_time r \<and> n_source_host_uuid r' = n_source_host_uuid r"

lemma same_notification_refl [simp]: "same_notification r r"
  by (simp add: same_notification_def)

lemma same_notification_trans: "same_notification r q \<Longrightarrow> same_notification q p \<Longrightarrow> same_notification r p"
  by (simp add: same_notification_def)

lemma wp_set_status:
  assumes "live_ctx ctx" and "table_ok L notifications_tbl t" and r: "live notifications_tbl t (n_uuid n) = Some r"
    and Q: "\<And>r' rows. table_ok L notifications_tbl (t\<lparr>notifications := rows\<rparr>) \<Longrightarrow>
      live notifications_tbl (t\<lparr>notifications := rows\<rparr>) = (live notifications_tbl t)(n_uuid n \<mapsto> r') \<Longrightarrow>
      same_notification r r' \<Longrightarrow> n_status r' = st \<Longrightarrow> Q r' (t\<lparr>notifications := rows\<rparr>)"
  shows "wp (set_status ctx n st) Q E t"
proof -
  let ?f = "set_notification \<lparr>nu_status = Some st\<rparr>"
  have f: "rid (?f q) = rid q" "deleted (?f q) = deleted q" "deleted_at (?f q) = deleted_at q"
    "t_key notifications_tbl (?f q) = t_key notifications_tbl q" for q
    by (simp_all add: set_notification_def notifications_tbl_def)
  obtain r' rows where run: "set_status ctx n st t = (Inr r', t_put notifications_tbl rows t)"
    and l: "live notifications_tbl (t_put notifications_tbl rows t) = (live notifications_tbl t)(n_uuid n \<mapsto> r')"
    and k: "table_ok L notifications_tbl (t_put notifications_tbl rows t)"
    and r': "r' = (if ?f r = r then r else (?f r)\<lparr>updated_at := Some (clock t)\<rparr>)"
    using notifications_store.update_total [OF assms(1,2) f r, of id "mk_NotificationNotFound (n_uuid n)"]
    unfolding set_status_def Notification_save_def notification_update_def by blast
  have put: "t_put notifications_tbl rows t = t\<lparr>notifications := rows\<rparr>" by (simp add: notifications_tbl_def)
  have st': "n_status (?f r) = st" by (simp add: set_notification_def upd_def)
  have "same_notification r (?f r)" by (simp add: same_notification_def set_notification_def)
  then have "same_notification r r'" "n_status r' = st"
    using r' st' by (auto simp: same_notification_def split: if_splits)
  then show ?thesis using Q [of rows r'] run l k unfolding put by (simp add: wp_def)
qed

text \<open>What the handlers leave alone.\<close>

definition keeps :: "('n, 'k) world \<Rightarrow> ('n, 'k) world \<Rightarrow> bool" where
  "keeps w t \<longleftrightarrow> notifications t = notifications w \<and> segments t = segments w \<and> clock t = clock w"

lemma keeps_frame: "driver_frame w t \<Longrightarrow> keeps w t"
  by (simp add: keeps_def driver_frame_def)

text \<open>The report about a notification that has been processed, and the status that goes with it.\<close>

definition reported :: "notification \<Rightarrow> notification_status \<Rightarrow> event list \<Rightarrow> bool" where
  "reported n st es \<longleftrightarrow> (if n_type n = VM \<and> \<not> is_valid_event (n_payload n) then es = [] \<and> st = NS_IGNORED
     else \<exists>e. es = [e] \<and> ev_action e = NOTIFICATION_PROCESS \<and> ev_subject e = n_uuid n \<and>
       (st = NS_FINISHED \<and> ev_phase e = PH_END \<or> st = NS_ERROR \<and> ev_phase e = PH_ERROR \<or>
        st = NS_IGNORED \<and> ev_phase e = (if n_type n = VM then PH_ERROR else PH_END)))"

lemma wp_notify_processed:
  "driver_frame w t \<Longrightarrow> wp (notify_processed n ei) (\<lambda>_ t'. keeps w t' \<and> (\<exists>e. process_events t' = process_events w @ [e] \<and>
     ev_action e = NOTIFICATION_PROCESS \<and> ev_subject e = n_uuid n \<and> ev_phase e = (if ei = None then PH_END else PH_ERROR))) E t"
  by (cases ei) (auto simp: notify_processed_def wp_emit keeps_def driver_frame_def process_events_def event_of_def)

lemma wp_driver_outcome:
  assumes "pres (driver_frame w) m" and "escapes (\<lambda>e. isinstance e MasakariException) m" and "driver_frame w t"
  shows "wp (driver_outcome skips m) (\<lambda>(st, ei) t'. driver_frame w t' \<and>
      (st = NS_FINISHED \<and> ei = None \<or> st = NS_ERROR \<and> ei \<noteq> None \<or> (\<exists>c b. (c, st, b) \<in> set skips \<and> (ei \<noteq> None) = b)))
    (\<lambda>_ _. False) t"
proof -
  have "wp m (\<lambda>_. driver_frame w) (\<lambda>e t'. isinstance e MasakariException \<and> driver_frame w t') t"
    using wp_pres [OF assms] .
  then show ?thesis unfolding driver_outcome_def wp_tryM wp_bindM
    by (rule wp_mono) (auto simp: wp_simps dest: find_SomeD split: option.split)
qed

lemma frame_reads:
  "pres (driver_frame w) (Host_get_by_uuid ctx u sg)" "pres (driver_frame w) (reserved_hosts_of L ctx m u)"
  unfolding reserved_hosts_of_def by (intro pres_intros)+

text \<open>The common end of the handlers.\<close>

definition outcome_ok :: "notification \<Rightarrow> ('n, 'k) world \<Rightarrow> notification_status \<times> exc option \<Rightarrow> ('n, 'k) world \<Rightarrow> bool" where
  "outcome_ok n w x t \<longleftrightarrow> driver_frame w t \<and> (case x of (st, ei) \<Rightarrow>
     st = NS_FINISHED \<and> ei = None \<or> st = NS_ERROR \<and> ei \<noteq> None \<or> st = NS_IGNORED \<and> (ei \<noteq> None) = (n_type n = VM))"

abbreviation handled :: "notification \<Rightarrow> ('n, 'k) world \<Rightarrow> notification_status \<Rightarrow> ('n, 'k) world \<Rightarrow> bool" where
  "handled n w st t \<equiv> keeps w t \<and> (\<exists>es. process_events t = process_events w @ es \<and> reported n st es)"

lemma wp_report:
  assumes "wp m (outcome_ok n w) (\<lambda>_. driver_frame w) s" and "n_type n = VM \<longrightarrow> is_valid_event (n_payload n)"
  shows "wp (bindM m (\<lambda>(st, ei). bindM (notify_processed n ei) (\<lambda>_. retM st))) (handled n w) (\<lambda>_. driver_frame w) s"
  unfolding wp_bindM case_prod_unfold wp_retM
proof (rule wp_mono [OF assms(1)])
  fix x t
  assume x: "outcome_ok n w x t"
  then have "driver_frame w t" by (simp add: outcome_ok_def)
  then show "wp (notify_processed n (snd x)) (\<lambda>_. handled n w (fst x)) (\<lambda>_. driver_frame w) t"
    by (rule wp_mono [OF wp_notify_processed [where w = w]])
      (use x assms(2) in \<open>auto simp: reported_def outcome_ok_def split: prod.splits\<close>)
qed

lemma wp_report_now:
  "outcome_ok n w (st, ei) s \<Longrightarrow> n_type n = VM \<longrightarrow> is_valid_event (n_payload n) \<Longrightarrow>
   wp (bindM (notify_processed n ei) (\<lambda>_. retM st)) (handled n w) (\<lambda>_. driver_frame w) s"
  using wp_report [of "retM (st, ei)" n w s] by (simp add: wp_retM)

text \<open>
  Processing a notification whose stored version is \<open>r0\<close>: it is skipped when it was sent as new and
  is no longer new; otherwise it ends with the status of the report, or, when the handler raises,
  it is left running.
\<close>

definition skipped :: "notification \<Rightarrow> notification \<Rightarrow> bool" where
  "skipped n r0 \<longleftrightarrow> n_status n = NS_NEW \<and> n_status r0 \<noteq> NS_NEW"

definition untouched :: "lib \<Rightarrow> ('n, 'k) world \<Rightarrow> ('n, 'k) world \<Rightarrow> bool" where
  "untouched L w t \<longleftrightarrow> table_ok L notifications_tbl t \<and> segments t = segments w \<and> clock t = clock w"

definition replaced :: "notification \<Rightarrow> notification \<Rightarrow> notification \<Rightarrow> ('n, 'k) world \<Rightarrow> ('n, 'k) world \<Rightarrow> bool" where
  "replaced n r0 r w t \<longleftrightarrow> live notifications_tbl t = (live notifications_tbl w)(n_uuid n \<mapsto> r) \<and> same_notification r0 r"

definition finished :: "lib \<Rightarrow> notification \<Rightarrow> notification \<Rightarrow> event list \<Rightarrow> ('n, 'k) world \<Rightarrow> ('n, 'k) world \<Rightarrow> bool" where
  "finished L n r0 es0 w t \<longleftrightarrow> untouched L w t \<and>
     (if skipped n r0 then notifications t = notifications w \<and> process_events t = process_events w @ es0
      else \<exists>r es. replaced n r0 r w t \<and> process_events t = process_events w @ es0 @ es \<and> reported r (n_status r) es)"

definition aborted :: "lib \<Rightarrow> notification \<Rightarrow> notification \<Rightarrow> event list \<Rightarrow> ('n, 'k) world \<Rightarrow> ('n, 'k) world \<Rightarrow> bool" where
  "aborted L n r0 es0 w t \<longleftrightarrow> untouched L w t \<and> \<not> skipped n r0 \<and>
     (\<exists>r. replaced n r0 r w t \<and> n_status r = NS_RUNNING) \<and> process_events t = process_events w @ es0"

lemma reported_same: "same_notification n r \<Longrightarrow> reported n st es \<Longrightarrow> reported r st es"
  by (simp add: same_notification_def reported_def)

lemma live_notifications_cong:
  "notifications t = notifications u \<Longrightarrow> live notifications_tbl t = live notifications_tbl u"
  "notifications t = notifications u \<Longrightarrow> table_ok L notifications_tbl t = table_ok L notifications_tbl u"
  by (auto simp: live_def table_ok_def notifications_tbl_def)

definition start_event :: "notification \<Rightarrow> event" where
  "start_event n = event_of NOTIFICATION_PROCESS PH_START None (n_uuid n)"

lemma finished_start:
  assumes "finished L n r0 [] (w\<lparr>events := events w @ [start_event n], held_locks := l\<rparr>) t"
  shows "finished L n r0 [start_event n] w (t\<lparr>held_locks := m\<rparr>)"
  using assms by (auto simp: finished_def untouched_def replaced_def process_events_def start_event_def event_of_def
    live_def table_ok_def notifications_tbl_def)

lemma aborted_start:
  assumes "aborted L n r0 [] (w\<lparr>events := events w @ [start_event n], held_locks := l\<rparr>) t"
  shows "aborted L n r0 [start_event n] w (t\<lparr>held_locks := m\<rparr>)"
  using assms by (auto simp: aborted_def untouched_def replaced_def process_events_def start_event_def event_of_def
    live_def table_ok_def notifications_tbl_def)

text \<open>A handler, in the words of the contract of its driver.\<close>

context notification_driver_contract
begin

lemma wp_recover_host:
  assumes ok "live_ctx ctx"
  shows "wp (recover_host L D ctx n) (outcome_ok n w) (\<lambda>_. driver_frame w) w"
  unfolding recover_host_def case_prod_unfold Let_def
  by (rule wp_bindM_pres [OF frame_reads(1) driver_frame_refl], assumption, rule wp_bindM_pres [OF frame_Host_save], assumption, assumption,
      rule wp_bindM_pres [OF frame_reads(2)], assumption, assumption,
      rule wp_mono [OF wp_driver_outcome [OF host_frame host_escapes]])
    (use assms in \<open>auto simp: outcome_ok_def case_prod_unfold\<close>)

lemma wp_stop_process:
  assumes ok "live_ctx ctx"
  shows "wp (bindM (Host_get_by_uuid ctx u None) (\<lambda>(h, _). bindM (Host_save ctx h hu) (\<lambda>_.
      driver_outcome [(SkipProcessRecoveryException, NS_FINISHED, False)] (execute_process D ctx pn (h_name h) nu))))
      (outcome_ok n w) (\<lambda>_. driver_frame w) w"
  unfolding case_prod_unfold
  by (rule wp_bindM_pres [OF frame_reads(1) driver_frame_refl], assumption, rule wp_bindM_pres [OF frame_Host_save], assumption, assumption,
      rule wp_mono [OF wp_driver_outcome [OF process_frame process_escapes]])
    (use assms in \<open>auto simp: outcome_ok_def case_prod_unfold\<close>)

lemma wp_handle:
  assumes ok "live_ctx ctx"
  shows "wp (handle L D ctx n) (handled n w) (\<lambda>_. driver_frame w) w"
proof (cases "n_type n")
  case PROCESS
  then have ign: "outcome_ok n w (NS_FINISHED, None) w" "outcome_ok n w (NS_IGNORED, None) w"
    by (simp_all add: outcome_ok_def)
  show ?thesis unfolding handle_def PROCESS notification_type.case handle_notification_type_process_def upper_of_def
    using ign PROCESS wp_stop_process [OF assms]
    by (cases "map_of (n_payload n) ''event''") (auto simp: wp_raiseM wp_retM intro!: wp_report wp_report_now)
next
  case VM
  show ?thesis
  proof (cases "is_valid_event (n_payload n)")
    case True
    have "wp (driver_outcome [(IgnoreInstanceRecoveryException, NS_IGNORED, True),
            (SkipInstanceRecoveryException, NS_FINISHED, False)]
          (execute_instance D ctx u nu)) (outcome_ok n w) (\<lambda>_. driver_frame w) w" for u nu
      by (rule wp_mono [OF wp_driver_outcome [OF instance_frame instance_escapes]])
        (use assms VM in \<open>auto simp: outcome_ok_def\<close>)
    then show ?thesis using True VM
      by (auto simp: handle_def handle_notification_type_instance_def intro!: wp_report)
  next
    case False
    then show ?thesis using VM
      by (simp add: handle_def handle_notification_type_instance_def wp_retM keeps_def reported_def)
  qed
next
  case COMPUTE_HOST
  then have ign: "outcome_ok n w (NS_FINISHED, None) w" "outcome_ok n w (NS_IGNORED, None) w"
    by (simp_all add: outcome_ok_def)
  show ?thesis unfolding handle_def COMPUTE_HOST notification_type.case handle_notification_type_host_def upper_of_def
    using ign COMPUTE_HOST wp_recover_host [OF assms, of L n w]
    by (intro wp_report) (auto simp: wp_raiseM wp_retM split: option.split)
qed


lemma wp_do_process:
  assumes ok and ctx: "live_ctx ctx" and w: "table_ok L notifications_tbl w"
    and r0: "live notifications_tbl w (n_uuid n) = Some r0"
  shows "wp (do_process_notification L D ctx n) (\<lambda>_. finished L n r0 [] w) (\<lambda>_. aborted L n r0 [] w) w"
proof -
  have get: "wp (notification_get_by_uuid ctx (n_uuid n)) Q E w = Q r0 w" for Q and E :: "exc \<Rightarrow> ('n, 'k) world \<Rightarrow> bool"
    using r0 by (simp add: wp_def get_by_uuid_live [OF ctx])
  have run: "wp (bindM (set_status ctx n NS_RUNNING) (\<lambda>n1. bindM (handle L D ctx n1) (\<lambda>status.
      bindM (set_status ctx n1 status) (\<lambda>_. retM ())))) (\<lambda>_. finished L n r0 [] w) (\<lambda>_. aborted L n r0 [] w) w"
    if new: "\<not> skipped n r0"
    unfolding wp_bindM wp_retM
  proof (rule wp_set_status [OF ctx w r0])
    fix r1 rows
    let ?t = "w\<lparr>notifications := rows\<rparr>"
    assume t: "table_ok L notifications_tbl ?t" "live notifications_tbl ?t = (live notifications_tbl w)(n_uuid n \<mapsto> r1)"
      and r1: "same_notification r0 r1" "n_status r1 = NS_RUNNING"
    have uuid: "n_uuid r1 = n_uuid n" using r1(1) live_SomeD [OF r0] by (simp add: same_notification_def notifications_tbl_def)
    show "wp (handle L D ctx r1) (\<lambda>status. wp (set_status ctx r1 status) (\<lambda>_. finished L n r0 [] w) (\<lambda>_. aborted L n r0 [] w))
      (\<lambda>_. aborted L n r0 [] w) ?t"
    proof (rule wp_mono [OF wp_handle [OF assms(1) ctx]])
      fix st u
      assume u: "handled r1 ?t st u"
      have "live notifications_tbl u = live notifications_tbl ?t" "table_ok L notifications_tbl u"
        using u t(1) by (simp_all add: keeps_def live_notifications_cong [of u ?t])
      then have lu: "live notifications_tbl u (n_uuid r1) = Some r1" "table_ok L notifications_tbl u"
        "live notifications_tbl u = (live notifications_tbl w)(n_uuid n \<mapsto> r1)" using t(2) uuid by simp_all
      show "wp (set_status ctx r1 st) (\<lambda>_. finished L n r0 [] w) (\<lambda>_. aborted L n r0 [] w) u"
      proof (rule wp_set_status [OF ctx lu(2,1)])
        fix r2 rows'
        assume "table_ok L notifications_tbl (u\<lparr>notifications := rows'\<rparr>)"
          and "live notifications_tbl (u\<lparr>notifications := rows'\<rparr>) = (live notifications_tbl u)(n_uuid r1 \<mapsto> r2)"
          and r2: "same_notification r1 r2" "n_status r2 = st"
        moreover obtain es where "process_events u = process_events w @ es" "reported r1 st es"
          using u by (auto simp: process_events_def)
        ultimately show "finished L n r0 [] w (u\<lparr>notifications := rows'\<rparr>)"
          using new u lu(3) uuid reported_same [OF r2(1)] same_notification_trans [OF r1(1) r2(1)]
          by (auto simp: finished_def untouched_def replaced_def keeps_def process_events_def)
      qed
    next
      fix e u
      assume u: "driver_frame ?t u"
      then have "live notifications_tbl u = live notifications_tbl ?t" "table_ok L notifications_tbl u"
        using t(1) by (simp_all add: driver_frame_def live_notifications_cong [of u ?t])
      then show "aborted L n r0 [] w u" using u new t r1
        by (auto simp: aborted_def untouched_def replaced_def driver_frame_def process_events_def)
    qed
  qed
  show ?thesis unfolding do_process_notification_def wp_bindM get
    using run w r0 by (auto simp: wp_retM wp_bindM finished_def untouched_def skipped_def)
qed


lemma wp_process_notification_of:
  assumes ok and ctx: "live_ctx ctx" and w: "table_ok L notifications_tbl w"
    and r0: "live notifications_tbl w (n_uuid n) = Some r0"
  shows "wp (process_notification_of L D ctx n) (\<lambda>_. finished L n r0 [start_event n] w)
    (\<lambda>_. aborted L n r0 [start_event n] w) w"
proof -
  let ?w = "\<lambda>l. w\<lparr>events := events w @ [start_event n], held_locks := l\<rparr>"
  have "table_ok L notifications_tbl (?w l)" "live notifications_tbl (?w l) (n_uuid n) = Some r0" for l
    using w r0 by (simp_all add: live_notifications_cong(1) [of "?w l" w] live_notifications_cong(2) [of "?w l" w])
  from wp_do_process [OF assms(1) ctx this] show ?thesis
    unfolding process_notification_of_def start_event_def [symmetric]
    by (simp add: wp_bindM wp_emit wp_synchronized start_event_def [symmetric])
      (rule wp_mono, assumption, erule finished_start, erule aborted_start)
qed

end

section \<open>Processing a notification\<close>

text \<open>C12. A notification that was sent as new and is no longer new in the database is not processed again:
  nothing is asked of Nova, no table changes, and all that is left of it is the START report.\<close>

theorem no_double_recovery:
  assumes "live_ctx ctx" and "live notifications_tbl w (n_uuid n) = Some r0"
    and "n_status n = NS_NEW" and "n_status r0 \<noteq> NS_NEW"
  shows "\<exists>w'. process_notification_of L D ctx n w = (Inr (), w') \<and> infra w' = infra w \<and> same_tables w w' \<and>
    process_events w' = process_events w @ [start_event n]"
proof -
  let ?w = "w\<lparr>events := events w @ [start_event n], held_locks := lock_key (n_source_host_uuid n) # held_locks w\<rparr>"
  have "live notifications_tbl ?w (n_uuid n) = Some r0" using assms(2) by (simp add: live_notifications_cong(1) [of ?w w])
  then have "do_process_notification L D ctx n ?w = (Inr (), ?w)"
    using assms(3,4) by (simp add: do_process_notification_def bindM_def get_by_uuid_live [OF assms(1)] retM_def)
  then show ?thesis
    by (auto simp: process_notification_of_def emit_def synchronized_def bindM_def modM_def getM_def finallyM_def
      same_tables_def process_events_def start_event_def event_of_def split: prod.split)
qed


section \<open>Periodic tasks\<close>

lemma wp_notifications_in:
  assumes "live_ctx ctx" and "lib_ok L" and "table_ok L notifications_tbl w"
    and Q: "\<And>res. distinct (map n_uuid res) \<Longrightarrow>
      (\<And>r. r \<in> set res \<longleftrightarrow> live notifications_tbl w (n_uuid r) = Some r \<and> n_status r \<in> set sts) \<Longrightarrow> Q res w"
  shows "wp (notifications_in L ctx sts) Q E w"
proof -
  have pg: "paginator_ok (page_notifications L)" using assms(2) by (simp add: lib_ok_def)
  have k: "t_key notifications_tbl = n_uuid" by (simp add: notifications_tbl_def)
  from row_list_rows [OF assms(1) pg notifications_store.ok_keys [OF assms(3)], of "\<lambda>r. n_status r \<in> set sts"]
  obtain res where "row_list notifications_tbl ctx (page_notifications L) (\<lambda>r. n_status r \<in> set sts) [] [] None None w = (Inr res, w)"
    and "distinct (map n_uuid res)"
    and "\<forall>r. r \<in> set res \<longleftrightarrow> live notifications_tbl w (n_uuid r) = Some r \<and> n_status r \<in> set sts"
    unfolding k by blast
  then show ?thesis using Q [of res]
    by (simp add: wp_def notifications_in_def notifications_get_all_by_filters_def)
qed

text \<open>What has become of each live notification; none is added or lost.\<close>

definition each_notification :: "(notification \<Rightarrow> notification \<Rightarrow> bool) \<Rightarrow> ('n, 'k) world \<Rightarrow> ('n, 'k) world \<Rightarrow> bool" where
  "each_notification R w t \<longleftrightarrow> (\<forall>u. case live notifications_tbl w u of None \<Rightarrow> live notifications_tbl t u = None
     | Some r \<Rightarrow> \<exists>r'. live notifications_tbl t u = Some r' \<and> R r r')"

lemma each_notificationI:
  assumes res: "\<And>r. r \<in> set res \<Longrightarrow> live notifications_tbl w (n_uuid r) = Some r"
    and out: "\<forall>u. u \<notin> n_uuid ` set res \<longrightarrow> live notifications_tbl t u = live notifications_tbl w u"
    and inside: "\<forall>x \<in> set res. \<exists>y. live notifications_tbl t (n_uuid x) = Some y \<and> R x y"
    and rest: "\<And>r. live notifications_tbl w (n_uuid r) = Some r \<Longrightarrow> r \<notin> set res \<Longrightarrow> R r r"
  shows "each_notification R w t"
  unfolding each_notification_def
proof
  fix u
  show "case live notifications_tbl w u of None \<Rightarrow> live notifications_tbl t u = None
     | Some r \<Rightarrow> \<exists>r'. live notifications_tbl t u = Some r' \<and> R r r'"
  proof (cases "u \<in> n_uuid ` set res")
    case True
    then obtain x where "x \<in> set res" "u = n_uuid x" by blast
    with res [of x] inside show ?thesis by auto
  next
    case False
    then have same: "live notifications_tbl t u = live notifications_tbl w u" using out by blast
    show ?thesis
    proof (cases "live notifications_tbl w u")
      case (Some r)
      then have "n_uuid r = u" using live_SomeD [of notifications_tbl w u r] by (simp add: notifications_tbl_def)
      then have "R r r" using False Some rest [of r] by blast
      with Some same show ?thesis by simp
    qed (simp add: same)
  qed
qed

text \<open>The notifications the periodic task runs again.\<close>

definition due :: "conf \<Rightarrow> int \<Rightarrow> notification \<Rightarrow> bool" where
  "due C now n \<longleftrightarrow> n_status n = NS_ERROR \<or> n_status n = NS_NEW \<and>
     is_older_than now (n_generated_time n) (retry_notification_new_status_interval C)"

definition interrupted :: "conf \<Rightarrow> int \<Rightarrow> notification \<Rightarrow> notification \<Rightarrow> bool" where
  "interrupted C now n r \<longleftrightarrow> due C now n \<and> same_notification n r \<and> n_status r = NS_RUNNING"

definition retried :: "conf \<Rightarrow> int \<Rightarrow> notification \<Rightarrow> notification \<Rightarrow> bool" where
  "retried C now n r \<longleftrightarrow> (if due C now n then same_notification n r \<and> n_status r \<in> {NS_FINISHED, NS_FAILED, NS_IGNORED} else r = n)"

context notification_driver_contract
begin

lemma wp_retry_notification:
  assumes ok and ctx: "live_ctx ctx" and t: "untouched L w t" and x: "live notifications_tbl t (n_uuid x) = Some x"
    and st: "n_status x \<in> {NS_ERROR, NS_NEW}"
  shows "wp (retry_notification L C D ctx x)
    (\<lambda>_ u. untouched L w u \<and> (\<exists>y. live notifications_tbl u = (live notifications_tbl t)(n_uuid x \<mapsto> y) \<and> retried C (clock w) x y))
    (\<lambda>_ u. untouched L w u \<and> (\<exists>y. live notifications_tbl u = (live notifications_tbl t)(n_uuid x \<mapsto> y) \<and>
       due C (clock w) x \<and> same_notification x y \<and> n_status y = NS_RUNNING)) t"
proof (cases "due C (clock w) x")
  case False
  then show ?thesis using t x st
    by (auto simp: retry_notification_def wp_simps due_def untouched_def retried_def wp_def get_by_uuid_live [OF ctx]
      whenM_def retM_def utcnow_def getM_def bindM_def fun_upd_idem)
next
  case True
  have c: "clock t = clock w" and tok: "table_ok L notifications_tbl t" using t by (simp_all add: untouched_def)
  have last: "wp (bindM (notification_get_by_uuid ctx (n_uuid x)) (\<lambda>notification_db.
      whenM (n_status notification_db = NS_ERROR) (bindM (set_status ctx notification_db NS_FAILED) (\<lambda>_. retM ()))))
      (\<lambda>_ u. untouched L w u \<and> (\<exists>y. live notifications_tbl u = (live notifications_tbl t)(n_uuid x \<mapsto> y) \<and> retried C (clock w) x y)) E v"
    if v: "finished L x x [start_event x] t v" for v and E :: "exc \<Rightarrow> ('n, 'k) world \<Rightarrow> bool"
  proof -
    from v obtain r es where r: "live notifications_tbl v = (live notifications_tbl t)(n_uuid x \<mapsto> r)" "same_notification x r"
      and u: "untouched L t v" and rep: "reported r (n_status r) es"
      by (auto simp: finished_def skipped_def replaced_def)
    have s: "n_status r \<in> {NS_FINISHED, NS_ERROR, NS_IGNORED}" using rep by (auto simp: reported_def split: if_splits)
    have id: "n_uuid r = n_uuid x" using r(2) by (simp add: same_notification_def)
    have uw: "untouched L w v" using u t by (simp add: untouched_def)
    have get: "wp (notification_get_by_uuid ctx (n_uuid x)) Q E v = Q r v" for Q
      using r by (simp add: wp_def get_by_uuid_live [OF ctx])
    show ?thesis unfolding wp_bindM get wp_whenM
    proof (simp add: wp_bindM wp_retM, intro conjI impI)
      assume "n_status r = NS_ERROR"
      have "table_ok L notifications_tbl v" "live notifications_tbl v (n_uuid r) = Some r"
        using uw r id by (simp_all add: untouched_def)
      from wp_set_status [OF ctx this] show "wp (set_status ctx r NS_FAILED) (\<lambda>a u. untouched L w u \<and>
          (\<exists>y. live notifications_tbl u = (live notifications_tbl t)(n_uuid x \<mapsto> y) \<and> retried C (clock w) x y)) E v"
        by (rule wp_mono) (use True r id uw same_notification_trans [OF r(2)] in \<open>auto simp: untouched_def retried_def\<close>)
    next
      assume "n_status r \<noteq> NS_ERROR"
      then show "untouched L w v" "\<exists>y. live notifications_tbl v = (live notifications_tbl t)(n_uuid x \<mapsto> y) \<and> retried C (clock w) x y"
        using uw r s True by (auto simp: retried_def)
    qed
  qed
  have guard: "(n_status x = NS_ERROR \<or> n_status x = NS_NEW \<and>
      is_older_than (clock t) (n_generated_time x) (retry_notification_new_status_interval C)) = True"
    using True c by (simp add: due_def)
  have "wp (process_notification_of L D ctx x) (\<lambda>_. finished L x x [start_event x] t) (\<lambda>_. aborted L x x [start_event x] t) t"
    by (rule wp_process_notification_of [OF assms(1) ctx tok x])
  then show ?thesis unfolding retry_notification_def wp_bindM [of utcnow] wp_utcnow
    unfolding wp_bindM [of "whenM b m" for b m] wp_whenM guard if_True
  proof (rule wp_mono)
    fix a v
    assume v: "finished L x x [start_event x] t v"
    show "wp (bindM (notification_get_by_uuid ctx (n_uuid x)) (\<lambda>notification_db.
      whenM (n_status notification_db = NS_ERROR) (bindM (set_status ctx notification_db NS_FAILED) (\<lambda>_. retM ()))))
      (\<lambda>_ u. untouched L w u \<and> (\<exists>y. live notifications_tbl u = (live notifications_tbl t)(n_uuid x \<mapsto> y) \<and> retried C (clock w) x y))
      (\<lambda>_ u. untouched L w u \<and> (\<exists>y. live notifications_tbl u = (live notifications_tbl t)(n_uuid x \<mapsto> y) \<and>
       due C (clock w) x \<and> same_notification x y \<and> n_status y = NS_RUNNING)) v"
      by (rule last [OF v])
  qed (use True t in \<open>auto simp: aborted_def replaced_def untouched_def\<close>)
qed

text \<open>The whole task.\<close>

lemma wp_process_unfinished:
  assumes ok and ctx: "live_ctx ctx" and L: "lib_ok L" and w: "table_ok L notifications_tbl w"
  shows "wp (process_unfinished_notifications L C D ctx)
    (\<lambda>_ t. untouched L w t \<and> each_notification (retried C (clock w)) w t)
    (\<lambda>_ t. untouched L w t \<and> each_notification (\<lambda>r r'. r' = r \<or> retried C (clock w) r r' \<or> interrupted C (clock w) r r') w t) w"
  unfolding process_unfinished_notifications_def wp_bindM
proof (rule wp_notifications_in [OF ctx L w])
  fix res
  let ?c = "clock w"
  assume d: "distinct (map n_uuid res)"
    and mem: "\<And>r. r \<in> set res \<longleftrightarrow> live notifications_tbl w (n_uuid r) = Some r \<and> n_status r \<in> set [NS_ERROR, NS_NEW]"
  have rest: "retried C ?c r r" if "live notifications_tbl w (n_uuid r) = Some r" "r \<notin> set res" for r
    using mem [of r] that by (auto simp: retried_def due_def)
  have "wp (forM res (retry_notification L C D ctx))
    (\<lambda>_ t. untouched L w t \<and> (\<forall>u. u \<notin> n_uuid ` set res \<longrightarrow> live notifications_tbl t u = live notifications_tbl w u) \<and>
       (\<forall>x \<in> set res. \<exists>y. live notifications_tbl t (n_uuid x) = Some y \<and> retried C ?c x y))
    (\<lambda>_ t. untouched L w t \<and> (\<forall>u. u \<notin> n_uuid ` set res \<longrightarrow> live notifications_tbl t u = live notifications_tbl w u) \<and>
       (\<forall>x \<in> set res. \<exists>y. live notifications_tbl t (n_uuid x) = Some y \<and> (retried C ?c x y \<or> interrupted C ?c x y \<or> y = x)) \<and>
       (\<exists>x \<in> set res. \<exists>y. interrupted C ?c x y)) w"
  proof (rule wp_forM_rows)
    fix x t
    assume "x \<in> set res" "untouched L w t" "live notifications_tbl t (n_uuid x) = Some x"
    then show "wp (retry_notification L C D ctx x)
      (\<lambda>_ u. untouched L w u \<and> (\<exists>y. live notifications_tbl u = (live notifications_tbl t)(n_uuid x \<mapsto> y) \<and> retried C ?c x y))
      (\<lambda>_ u. untouched L w u \<and> (\<exists>y. live notifications_tbl u = (live notifications_tbl t)(n_uuid x \<mapsto> y) \<and> interrupted C ?c x y)) t"
      using mem [of x] unfolding interrupted_def by (intro wp_retry_notification [OF assms(1) ctx]) auto
  qed (use d mem w in \<open>auto simp: untouched_def\<close>)
  then show "wp (forM res (retry_notification L C D ctx))
    (\<lambda>_ t. untouched L w t \<and> each_notification (retried C ?c) w t)
    (\<lambda>_ t. untouched L w t \<and> each_notification (\<lambda>r r'. r' = r \<or> retried C ?c r r' \<or> interrupted C ?c r r') w t) w"
    by (rule wp_mono) (use mem rest in \<open>auto intro!: each_notificationI [where res = res]\<close>)
qed

end

text \<open>C13. The periodic task that runs unfinished notifications again. When it returns, every notification
  that was in error, or new and older than the interval, is finished, failed or ignored, and every
  other live one is exactly as it was. When it is cut short by an exception, each notification is
  either as it was, or dealt with, or left running. No notification is added or lost.\<close>

theorem process_unfinished_spec:
  assumes "engine_ok E" and "live_ctx ctx" and "lib_ok L" and "table_ok L notifications_tbl w"
    and run: "process_unfinished_notifications L C (taskflow_driver L C N E) ctx w = (res, w')"
  shows "table_ok L notifications_tbl w' \<and> segments w' = segments w \<and>
    (case res of
      Inr _ \<Rightarrow> each_notification (retried C (clock w)) w w'
    | Inl _ \<Rightarrow> each_notification (\<lambda>r r'. r' = r \<or> retried C (clock w) r r' \<or> interrupted C (clock w) r r') w w')"
proof -
  have "wp (process_unfinished_notifications L C (taskflow_driver L C N E) ctx)
    (\<lambda>_ t. untouched L w t \<and> each_notification (retried C (clock w)) w t)
    (\<lambda>_ t. untouched L w t \<and> each_notification (\<lambda>r r'. r' = r \<or> retried C (clock w) r r' \<or> interrupted C (clock w) r r') w t) w"
    by (rule taskflow.wp_process_unfinished [OF assms(1-4)])
  then show ?thesis using run by (simp add: wp_def untouched_def split: sum.splits)
qed

text \<open>What becomes of a notification when the expired ones are looked for.\<close>

definition expiry :: "conf \<Rightarrow> int \<Rightarrow> notification \<Rightarrow> notification \<Rightarrow> bool" where
  "expiry C now n r \<longleftrightarrow> (if n_status n \<in> {NS_RUNNING, NS_ERROR, NS_NEW} \<and>
      is_older_than now (n_generated_time n) (notifications_expired_interval C)
    then same_notification n r \<and> n_status r = NS_FAILED else r = n)"

lemma check_expired_run:
  assumes ctx: "live_ctx ctx" and L: "lib_ok L" and w: "table_ok L notifications_tbl w"
  shows "\<exists>w'. check_expired_notifications L C ctx w = (Inr (), w') \<and> w' = w\<lparr>notifications := notifications w'\<rparr> \<and>
    table_ok L notifications_tbl w' \<and> each_notification (expiry C (clock w)) w w'"
proof -
  let ?I = "\<lambda>t. table_ok L notifications_tbl t \<and> t = w\<lparr>notifications := notifications t\<rparr>"
  have "wp (check_expired_notifications L C ctx) (\<lambda>_ t. ?I t \<and> each_notification (expiry C (clock w)) w t) (\<lambda>_ _. False) w"
    unfolding check_expired_notifications_def wp_bindM [of "notifications_in L ctx sts" for sts]
  proof (rule wp_notifications_in [OF ctx L w])
    fix res
    assume d: "distinct (map n_uuid res)"
      and mem: "\<And>r. r \<in> set res \<longleftrightarrow> live notifications_tbl w (n_uuid r) = Some r \<and>
        n_status r \<in> set [NS_RUNNING, NS_ERROR, NS_NEW]"
    let ?f = "\<lambda>n. bindM utcnow (\<lambda>now. whenM (is_older_than now (n_generated_time n) (notifications_expired_interval C))
         (bindM (set_status ctx n NS_FAILED) (\<lambda>_. retM ())))"
    have "wp (forM res ?f)
      (\<lambda>_ t. ?I t \<and> (\<forall>u. u \<notin> n_uuid ` set res \<longrightarrow> live notifications_tbl t u = live notifications_tbl w u) \<and>
         (\<forall>x \<in> set res. \<exists>y. live notifications_tbl t (n_uuid x) = Some y \<and> expiry C (clock w) x y))
      (\<lambda>_ t. ?I t \<and> (\<forall>u. u \<notin> n_uuid ` set res \<longrightarrow> live notifications_tbl t u = live notifications_tbl w u) \<and>
         (\<forall>x \<in> set res. \<exists>y. live notifications_tbl t (n_uuid x) = Some y \<and> (expiry C (clock w) x y \<or> False \<or> y = x)) \<and>
         (\<exists>x \<in> set res. \<exists>y :: notification. False)) w"
    proof (rule wp_forM_rows [where I = ?I and P = "expiry C (clock w)" and E = "\<lambda>_ _. False"])
      fix x t
      assume x: "x \<in> set res" and t: "?I t" "live notifications_tbl t (n_uuid x) = Some x"
      have c: "clock t = clock w" by (subst conjunct2 [OF t(1)]) simp
      have put: "t\<lparr>notifications := rows\<rparr> = w\<lparr>notifications := rows\<rparr>" for rows by (subst conjunct2 [OF t(1)]) simp
      show "wp (?f x) (\<lambda>_ u. ?I u \<and> (\<exists>y. live notifications_tbl u = (live notifications_tbl t)(n_uuid x \<mapsto> y) \<and> expiry C (clock w) x y))
          (\<lambda>_ u. ?I u \<and> (\<exists>y. live notifications_tbl u = (live notifications_tbl t)(n_uuid x \<mapsto> y) \<and> False)) t"
      proof (cases "is_older_than (clock w) (n_generated_time x) (notifications_expired_interval C)")
        case True
        then show ?thesis using x mem [of x] t c
          by (auto simp: wp_bindM wp_utcnow wp_whenM wp_retM expiry_def put
            intro!: wp_set_status [OF ctx conjunct1 [OF t(1)] t(2)])
      next
        case False
        then show ?thesis using t c by (auto simp: wp_bindM wp_utcnow wp_whenM wp_retM expiry_def fun_upd_idem)
      qed
    qed (use d mem w in auto)
    then show "wp (forM res ?f) (\<lambda>_ t. ?I t \<and> each_notification (expiry C (clock w)) w t) (\<lambda>_ _. False) w"
      by (rule wp_mono) (use mem in \<open>auto simp: expiry_def intro!: each_notificationI [where res = res]\<close>)
  qed
  then show ?thesis by (auto simp: wp_def split: prod.splits sum.splits)
qed

text \<open>C23. The periodic task that looks for expired notifications always returns; it changes nothing but
  notifications, and of the live ones exactly those that are running, in error or new and older
  than the interval, which become failed. So no notification stays unfinished longer than that.\<close>

theorem check_expired_spec:
  assumes ctx: "live_ctx ctx" and L: "lib_ok L" and w: "table_ok L notifications_tbl w"
  shows "\<exists>w'. check_expired_notifications L C ctx w = (Inr (), w') \<and> w' = w\<lparr>notifications := notifications w'\<rparr> \<and>
    table_ok L notifications_tbl w' \<and> each_notification (expiry C (clock w)) w w'"
  by (rule check_expired_run [OF assms])

section \<open>The life of a notification\<close>

text \<open>
  What the API and the engine do to the notifications, in any order: the API stores a new one, the
  engine processes one that the API sent (its status is the one it was created with), the periodic
  tasks run, and time passes.
\<close>

inductive engine_step ::
  "lib \<Rightarrow> conf \<Rightarrow> ('n, 'k) notification_driver \<Rightarrow> request_context \<Rightarrow> ('n, 'k) world \<Rightarrow> ('n, 'k) world \<Rightarrow> bool"
  for L C D ctx where
  create: "Notification_create L ctx n w = (res, w') \<Longrightarrow> engine_step L C D ctx w w'"
| process: "live notifications_tbl w (n_uuid n) \<noteq> None \<Longrightarrow> n_status n = NS_NEW \<Longrightarrow>
    process_notification L D ctx n w = (res, w') \<Longrightarrow> engine_step L C D ctx w w'"
| unfinished: "process_unfinished_notifications L C D ctx w = (res, w') \<Longrightarrow> engine_step L C D ctx w w'"
| expired: "check_expired_notifications L C ctx w = (res, w') \<Longrightarrow> engine_step L C D ctx w w'"
| tick: "clock w \<le> c \<Longrightarrow> engine_step L C D ctx w (w\<lparr>clock := c\<rparr>)"

inductive engine_steps ::
  "lib \<Rightarrow> conf \<Rightarrow> ('n, 'k) notification_driver \<Rightarrow> request_context \<Rightarrow> ('n, 'k) world \<Rightarrow> ('n, 'k) world \<Rightarrow> bool"
  for L C D ctx where
  refl: "engine_steps L C D ctx w w"
| step: "engine_step L C D ctx w v \<Longrightarrow> engine_steps L C D ctx v u \<Longrightarrow> engine_steps L C D ctx w u"

inductive_cases engine_stepE: "engine_step L C D ctx w v"

definition terminal :: "notification_status \<Rightarrow> bool" where
  "terminal st \<longleftrightarrow> st \<in> {NS_FINISHED, NS_FAILED, NS_IGNORED}"

text \<open>The order on the databases that every step respects.\<close>

definition later :: "lib \<Rightarrow> ('n, 'k) world \<Rightarrow> ('n, 'k) world \<Rightarrow> bool" where
  "later L w t \<longleftrightarrow> table_ok L notifications_tbl t \<and> (\<forall>u r. live notifications_tbl w u = Some r \<longrightarrow>
     (\<exists>r'. live notifications_tbl t u = Some r' \<and> same_notification r r' \<and> (terminal (n_status r) \<longrightarrow> terminal (n_status r'))))"

lemma later_refl: "table_ok L notifications_tbl w \<Longrightarrow> later L w w"
  by (simp add: later_def)

lemma later_trans: "later L w t \<Longrightarrow> later L t u \<Longrightarrow> later L w u"
  unfolding later_def by (meson same_notification_trans)

lemma each_notificationD:
  assumes "each_notification R w t" and "live notifications_tbl w u = Some r"
  shows "\<exists>r'. live notifications_tbl t u = Some r' \<and> R r r'"
proof -
  have "case live notifications_tbl w u of None \<Rightarrow> live notifications_tbl t u = None
     | Some r \<Rightarrow> \<exists>r'. live notifications_tbl t u = Some r' \<and> R r r'"
    using assms(1) unfolding each_notification_def by (rule spec)
  with assms(2) show ?thesis by simp
qed

lemma later_each:
  assumes "table_ok L notifications_tbl t" and "each_notification R w t"
    and "\<And>r r'. R r r' \<Longrightarrow> same_notification r r' \<and> (terminal (n_status r) \<longrightarrow> terminal (n_status r'))"
  shows "later L w t"
  unfolding later_def using assms(1) each_notificationD [OF assms(2)] assms(3) by blast

lemma later_cong: "notifications t = notifications u \<Longrightarrow> later L w t = later L w u"
  by (simp add: later_def live_notifications_cong [of t u])

lemma later_create:
  assumes ctx: "live_ctx ctx" and w: "table_ok L notifications_tbl w" and run: "Notification_create L ctx n w = (res, w')"
  shows "later L w w'"
proof -
  let ?u = "gen_uuid L (uuid_seq w)"
  let ?w = "w\<lparr>uuid_seq := Suc (uuid_seq w), events := events w @ [event_of NOTIFICATION_CREATE PH_START None []]\<rparr>"
  let ?v = "n\<lparr>n_uuid := ?u\<rparr>"
  have key: "t_key notifications_tbl ?v = ?u" by (simp add: notifications_tbl_def)
  have ok: "table_ok L notifications_tbl ?w" and lw: "later L w ?w"
    using w later_refl [OF w] by (simp_all add: live_notifications_cong(2) [of ?w w] later_cong [of ?w w])
  obtain r t where db: "notification_create ctx ?v ?w = (r, t)" by fastforce
  have w': "notifications w' = notifications t"
    using run db by (cases r) (auto simp: Notification_create_def generate_uuid_def bindM_def getM_def modM_def emit_def retM_def
      event_of_def split: prod.splits)
  have "later L ?w t"
  proof (cases r)
    case (Inl e)
    then show ?thesis using notifications_store.create_raises [OF ctx ok db [unfolded notification_create_def Inl]] later_refl [OF ok]
      by simp
  next
    case (Inr row)
    from notifications_store.create_live [OF ctx ok db [unfolded notification_create_def Inr]]
    have "live notifications_tbl ?w ?u = None" "live notifications_tbl t = (live notifications_tbl ?w)(?u \<mapsto> row)"
      "table_ok L notifications_tbl t" unfolding key by blast+
    then show ?thesis by (auto simp: later_def)
  qed
  then have "later L w t" by (rule later_trans [OF lw])
  then show ?thesis by (simp add: later_cong [OF w'])
qed

lemma later_replaced:
  assumes "untouched L w t" and "replaced n r0 r w t" and "live notifications_tbl w (n_uuid n) = Some r0"
    and "terminal (n_status r0) \<longrightarrow> terminal (n_status r)"
  shows "later L w t"
  using assms by (auto simp: later_def untouched_def replaced_def)

lemma later_set_status:
  assumes "live_ctx ctx" and "table_ok L notifications_tbl w" and "live notifications_tbl w (n_uuid n) \<noteq> None" and "terminal st"
  shows "wp (set_status ctx n st) (\<lambda>_. later L w) (\<lambda>_. later L w) w"
proof -
  obtain r where "live notifications_tbl w (n_uuid n) = Some r" using assms(3) by blast
  from wp_set_status [OF assms(1,2) this] assms(4) this show ?thesis by (auto simp: later_def)
qed

context notification_driver_contract
begin

lemma later_process:
  assumes ok and ctx: "live_ctx ctx" and w: "table_ok L notifications_tbl w"
    and n: "live notifications_tbl w (n_uuid n) = Some r0" "n_status n = NS_NEW"
  shows "wp (process_notification L D ctx n) (\<lambda>_. later L w) (\<lambda>_. later L w) w"
proof -
  have fin: "later L w t" if t: "finished L n r0 [start_event n] w t" for t
  proof (cases "skipped n r0")
    case True
    then have "notifications t = notifications w" using t by (simp add: finished_def)
    from later_cong [OF this] later_refl [OF w] show ?thesis by blast
  next
    case False
    then have "n_status r0 = NS_NEW" using n(2) by (simp add: skipped_def)
    then have "\<not> terminal (n_status r0)" by (simp add: terminal_def)
    then show ?thesis using t False n(1) by (auto simp: finished_def intro: later_replaced)
  qed
  have ab: "later L w t" if "aborted L n r0 [start_event n] w t" for t
    using that n by (auto simp: aborted_def skipped_def terminal_def intro!: later_replaced)
  have "wp (process_notification_of L D ctx n) (\<lambda>_. later L w) (\<lambda>_. later L w) w"
    by (rule wp_mono [OF wp_process_notification_of [OF assms(1-4)]]) (simp_all add: fin ab)
  moreover have "wp (set_status ctx n NS_IGNORED) (\<lambda>_. later L w) (\<lambda>_. later L w) w"
    using later_set_status [OF ctx w] n(1) by (simp add: terminal_def)
  moreover have "pres ((=) w) (Host_get_by_uuid ctx u None)" for u by (intro pres_intros)
  ultimately show ?thesis unfolding process_notification_def case_prod_unfold
    by (intro wp_bindM_pres [where I = "(=) w"]) (auto simp: later_refl [OF w] wp_if wp_bindM wp_raiseM)
qed

lemma later_step:
  assumes ok and ctx: "live_ctx ctx" and L: "lib_ok L" and "engine_step L C D ctx w v" and w: "table_ok L notifications_tbl w"
  shows "later L w v"
  using assms(4)
proof cases
  case (create n res)
  then show ?thesis using later_create [OF ctx w] by blast
next
  case (process n res)
  then obtain r0 where "live notifications_tbl w (n_uuid n) = Some r0" by blast
  from later_process [OF assms(1) ctx w this] process show ?thesis by (auto simp: wp_def split: sum.splits)
next
  case (unfinished res)
  have keep: "same_notification r r' \<and> (terminal (n_status r) \<longrightarrow> terminal (n_status r'))"
    if "r' = r \<or> retried C (clock w) r r' \<or> interrupted C (clock w) r r'" for r r'
    using that by (auto simp: retried_def interrupted_def due_def terminal_def split: if_splits)
  have "wp (process_unfinished_notifications L C D ctx) (\<lambda>_. later L w) (\<lambda>_. later L w) w"
    by (rule wp_mono [OF wp_process_unfinished [OF assms(1) ctx L w]])
      (auto simp: untouched_def elim!: later_each intro!: keep)
  then show ?thesis using unfinished by (auto simp: wp_def split: sum.splits)
next
  case (expired res)
  from check_expired_run [OF ctx L w, of C] obtain w' where
    "check_expired_notifications L C ctx w = (Inr (), w')" "table_ok L notifications_tbl w'"
    "each_notification (expiry C (clock w)) w w'" by blast
  then show ?thesis using expired by (auto simp: expiry_def terminal_def split: if_splits intro!: later_each)
next
  case (tick c)
  then have "notifications v = notifications w" by simp
  from later_cong [OF this] later_refl [OF w] show ?thesis by blast
qed

lemma later_steps:
  assumes ok "live_ctx ctx" "lib_ok L"
  shows "engine_steps L C D ctx w v \<Longrightarrow> table_ok L notifications_tbl w \<Longrightarrow> later L w v"
proof (induction rule: engine_steps.induct)
  case (refl w)
  then show ?case by (rule later_refl)
next
  case (step w v u)
  have first: "later L w v" by (rule later_step [OF assms step.hyps(1) step.prems])
  then have "later L v u" by (intro step.IH) (simp add: later_def)
  with first show ?case by (rule later_trans)
qed

end


section \<open>The recovery of a host\<close>

lemma uniq_hosts_map:
  assumes "\<And>q. h_name (g q) = h_name q" "\<And>q. deleted (g q) = deleted q" "\<And>q. h_uuid (g q) = h_uuid q"
  shows "uniq_hosts (map g rows) = uniq_hosts rows"
  by (simp add: uniq_hosts_def o_def assms)

lemma host_save_run:
  assumes ctx: "live_ctx ctx" and ok: "table_ok L hosts_tbl w" and h: "live hosts_tbl w (h_uuid h) = Some h"
    and sg: "find (\<lambda>s. sg_uuid s = h_segment_id h) (segments w) = Some sg" and hu: "hu_name hu = None"
  shows "\<exists>h' rows es. Host_save ctx h hu w = (Inr (h', sg), w\<lparr>hosts := rows, events := es\<rparr>) \<and>
    live hosts_tbl (w\<lparr>hosts := rows, events := es\<rparr>) = (live hosts_tbl w)(h_uuid h \<mapsto> h') \<and>
    table_ok L hosts_tbl (w\<lparr>hosts := rows, events := es\<rparr>) \<and> h' = (if set_host hu h = h then h else (set_host hu h)\<lparr>updated_at := Some (clock w)\<rparr>)"
proof -
  let ?f = "set_host hu"
  let ?w = "w\<lparr>events := events w @ [event_of HOST_UPDATE PH_START None (h_uuid h)]\<rparr>"
  have f: "rid (?f q) = rid q" "deleted (?f q) = deleted q" "deleted_at (?f q) = deleted_at q"
    "t_key hosts_tbl (?f q) = t_key hosts_tbl q" "h_name (?f q) = h_name q" "h_segment_id (?f q) = h_segment_id q"
    "h_uuid (?f q) = h_uuid q" for q
    using hu by (simp_all add: set_host_def hosts_tbl_def upd_def)
  have ok': "table_ok L hosts_tbl ?w" and h': "live hosts_tbl ?w (h_uuid h) = Some h"
    using ok h by (simp_all add: table_ok_def live_def hosts_tbl_def)
  let ?g = "\<lambda>q. if rid q = rid h \<and> ?f q \<noteq> q then (?f q)\<lparr>updated_at := Some (clock ?w)\<rparr> else q"
  have "uniq_hosts (map ?g rows) = uniq_hosts rows" for rows
    using f by (intro uniq_hosts_map) simp_all
  then have u: "t_uniq hosts_tbl (map ?g (t_get hosts_tbl ?w))"
    using ok' by (simp add: table_ok_def hosts_tbl_def)
  note run = hosts_store.update_ok [OF ctx ok' f(1-4) h' u]
  obtain r' rows where upd: "host_update ctx (h_uuid h) hu ?w = (Inr r', t_put hosts_tbl rows ?w)"
    and l: "live hosts_tbl (t_put hosts_tbl rows ?w) = (live hosts_tbl ?w)(h_uuid h \<mapsto> r')"
    and k: "table_ok L hosts_tbl (t_put hosts_tbl rows ?w)"
    and r': "r' = (if ?f h = h then h else (?f h)\<lparr>updated_at := Some (clock ?w)\<rparr>)"
    unfolding host_update_def using run by blast
  have put: "t_put hosts_tbl rows ?w = ?w\<lparr>hosts := rows\<rparr>" by (simp add: hosts_tbl_def)
  have seg: "h_segment_id r' = h_segment_id h" using r' f by simp
  let ?es = "events ?w @ [event_of HOST_UPDATE PH_END None (h_uuid h)]"
  have "Host_save ctx h hu w = (Inr (r', sg), w\<lparr>hosts := rows, events := ?es\<rparr>)"
    using upd seg sg unfolding put
    by (simp add: Host_save_def bindM_def emit_run with_segment_def getM_def retM_def)
  moreover have "live hosts_tbl (w\<lparr>hosts := rows, events := ?es\<rparr>) = (live hosts_tbl w)(h_uuid h \<mapsto> r')"
    "table_ok L hosts_tbl (w\<lparr>hosts := rows, events := ?es\<rparr>)"
    using l k unfolding put by (simp_all add: live_def table_ok_def hosts_tbl_def)
  ultimately show ?thesis using r' by (intro exI conjI) simp_all
qed

text \<open>The names the driver may use: the live reserved hosts of the segment that are not in maintenance.\<close>

definition spare_hosts :: "string \<Rightarrow> ('n, 'k) world \<Rightarrow> host set" where
  "spare_hosts segment_uuid w = {r \<in> set (hosts w). deleted r = 0 \<and> h_segment_id r = segment_uuid \<and> h_reserved r \<and>
     \<not> h_on_maintenance r}"

lemma reserved_hosts_run:
  assumes "live_ctx ctx" and "lib_ok L"
  shows "\<exists>names. reserved_hosts_of L ctx m u w = (Inr names, w) \<and> (names = None \<longleftrightarrow> m = AUTO) \<and>
    (\<forall>ns. names = Some ns \<longrightarrow> set ns = h_name ` spare_hosts u w)"
proof -
  have "paginator_ok (page_hosts L)" using assms(2) by (simp add: lib_ok_def)
  from row_list_all [OF assms(1) this, of hosts_tbl "\<lambda>r. sel_matches (Is u) (h_segment_id r) \<and> sel_matches Any (h_type r) \<and>
      sel_matches (Is False) (h_on_maintenance r) \<and> sel_matches (Is True) (h_reserved r)" w]
  obtain res where "host_get_all_by_filters L ctx \<lparr>hf_segment_id = Is u, hf_type = Any, hf_on_maintenance = Is False,
      hf_reserved = Is True\<rparr> [] [] None None w = (Inr res, w)" and "set res = spare_hosts u w"
    by (auto simp: host_get_all_by_filters_def spare_hosts_def hosts_tbl_def conj_ac)
  then show ?thesis by (auto simp: reserved_hosts_of_def bindM_def retM_def)
qed

text \<open>C14. The recovery of a host hands over to the driver only when the host is in maintenance and no
  longer reserved, which is all that has changed by then; the driver gets no reserved hosts when the
  method is \<open>AUTO\<close>, and otherwise the names of exactly the live reserved hosts of the segment that are
  not in maintenance, of which the failed host is never one.\<close>

theorem recover_host_spec:
  assumes ctx: "live_ctx ctx" and L: "lib_ok L" and ok: "db_ok L w"
    and h: "h \<in> set (hosts w)" "deleted h = 0" and sg: "sg \<in> set (segments w)" "sg_uuid sg = h_segment_id h"
    and n: "n_source_host_uuid n = h_uuid h"
  shows "\<exists>names v h'. recover_host L D ctx n w = driver_outcome [(SkipHostRecoveryException, NS_FINISHED, False)]
      (execute_host D ctx (h_name h) (sg_recovery_method sg) (n_uuid n) names) v \<and>
    live hosts_tbl v = (live hosts_tbl w)(h_uuid h \<mapsto> h') \<and> h_on_maintenance h' \<and> \<not> h_reserved h' \<and> h_name h' = h_name h \<and>
    v = w\<lparr>hosts := hosts v, events := events v\<rparr> \<and>
    (names = None \<longleftrightarrow> sg_recovery_method sg = AUTO) \<and>
    (\<forall>ns. names = Some ns \<longrightarrow> set ns = h_name ` spare_hosts (sg_uuid sg) v \<and> h_name h \<notin> set ns)"
proof -
  let ?hu = "no_host_values\<lparr>hu_on_maintenance := Some True, hu_reserved := (if h_reserved h then Some False else None)\<rparr>"
  have hok: "table_ok L hosts_tbl w" using ok by (simp add: db_ok_def)
  have key: "t_key hosts_tbl = h_uuid" "t_get hosts_tbl = hosts" by (simp_all add: hosts_tbl_def)
  have lh: "live hosts_tbl w (h_uuid h) = Some h"
    using live_Some [OF hosts_store.ok_keys [OF hok]] h unfolding key by blast
  have seg: "find (\<lambda>s. sg_uuid s = h_segment_id h) (segments w) = Some sg"
    using find_segment [OF ok sg(1)] sg(2) by simp
  obtain h' rows es where save: "Host_save ctx h ?hu w = (Inr (h', sg), w\<lparr>hosts := rows, events := es\<rparr>)"
    and l: "live hosts_tbl (w\<lparr>hosts := rows, events := es\<rparr>) = (live hosts_tbl w)(h_uuid h \<mapsto> h')"
    and k: "table_ok L hosts_tbl (w\<lparr>hosts := rows, events := es\<rparr>)"
    and h': "h' = (if set_host ?hu h = h then h else (set_host ?hu h)\<lparr>updated_at := Some (clock w)\<rparr>)"
    using host_save_run [OF ctx hok lh seg, of ?hu] by auto
  let ?v = "w\<lparr>hosts := rows, events := es\<rparr>"
  have new: "h_on_maintenance (set_host ?hu h)" "\<not> h_reserved (set_host ?hu h)" "h_name (set_host ?hu h) = h_name h"
    by (simp_all add: set_host_def upd_def)
  then have new': "h_on_maintenance h'" "\<not> h_reserved h'" "h_name h' = h_name h"
    using h' by (auto split: if_splits)
  obtain names where names: "reserved_hosts_of L ctx (sg_recovery_method sg) (sg_uuid sg) ?v = (Inr names, ?v)"
    "names = None \<longleftrightarrow> sg_recovery_method sg = AUTO" "\<forall>ns. names = Some ns \<longrightarrow> set ns = h_name ` spare_hosts (sg_uuid sg) ?v"
    using reserved_hosts_run [OF ctx L] by blast
  have "Host_get_by_uuid ctx (h_uuid h) None w = (Inr (h, sg), w)"
    using lh seg by (simp add: Host_get_by_uuid_def get_by_uuid_live [OF ctx] bindM_def with_segment_def getM_def retM_def)
  then have run: "recover_host L D ctx n w = driver_outcome [(SkipHostRecoveryException, NS_FINISHED, False)]
      (execute_host D ctx (h_name h) (sg_recovery_method sg) (n_uuid n) names) ?v"
    using save names(1) n by (cases "h_reserved h") (simp_all add: recover_host_def bindM_def Let_def)
  have not_spare: "h_name h \<notin> h_name ` spare_hosts u ?v" for u
  proof
    assume "h_name h \<in> h_name ` spare_hosts u ?v"
    then obtain q where q: "q \<in> set rows" "deleted q = 0" "\<not> h_on_maintenance q" "h_name q = h_name h"
      by (auto simp: spare_hosts_def)
    have mem: "h' \<in> set rows" "deleted h' = 0"
      using l live_SomeD [of hosts_tbl ?v "h_uuid h" h'] by (simp_all add: hosts_tbl_def)
    have "distinct (map (\<lambda>r. (h_name r, deleted r)) rows)"
      using k by (simp add: table_ok_def hosts_tbl_def uniq_hosts_def)
    then have "q = h'" using mem q new'(3) by (auto simp: distinct_map inj_on_def)
    with q(3) new'(1) show False by simp
  qed
  show ?thesis
    using run l new' names(2,3) not_spare by (intro exI [of _ names] exI [of _ ?v] exI [of _ h']) auto
qed

section \<open>A concrete run\<close>

definition demo_vm_notification :: notification where
  "demo_vm_notification = demo_notification\<lparr>n_type := VM, n_status := NS_NEW, n_payload :=
     [(''event'', ''LIFECYCLE''), (''vir_domain_event'', ''STOPPED_FAILED''), (''instance_uuid'', ''i1'')]\<rparr>"

definition demo_site :: "notification_status \<Rightarrow> (nova_state, unit) world" where
  "demo_site st = (demo_world demo_servers ())\<lparr>notifications := [demo_vm_notification\<lparr>n_status := st\<rparr>]\<rparr>"

abbreviation demo_driver :: "(nova_state, unit) notification_driver" where
  "demo_driver \<equiv> taskflow_driver demo_lib demo_conf demo_nova demo_engine"

lemma demo_site_ok:
  "table_ok L notifications_tbl (demo_site st)"
  "live notifications_tbl (demo_site st) (n_uuid demo_vm_notification) = Some (demo_vm_notification\<lparr>n_status := st\<rparr>)"
  by (simp_all add: demo_site_def demo_vm_notification_def demo_defs table_ok_def ids_ok_def live_def tbl_defs uniq_notifications_def)

lemma demo_new: "demo_vm_notification\<lparr>n_status := NS_NEW\<rparr> = demo_vm_notification" "n_status demo_vm_notification = NS_NEW"
  by (simp_all add: demo_vm_notification_def)

lemma no_double_recovery_witness:
  "\<exists>w'. process_notification_of demo_lib demo_driver demo_ctx demo_vm_notification (demo_site NS_RUNNING) = (Inr (), w') \<and>
     infra w' = demo_servers"
proof -
  have "infra (demo_site NS_RUNNING) = demo_servers" by (simp add: demo_site_def demo_world_def)
  then show ?thesis
    using no_double_recovery [OF live_demo_ctx demo_site_ok(2) [of NS_RUNNING] demo_new(2), where L = demo_lib and D = demo_driver]
    by auto
qed


lemma process_unfinished_spec_witness:
  "\<exists>res w' r. process_unfinished_notifications demo_lib demo_conf demo_driver demo_ctx (demo_site NS_ERROR) = (res, w') \<and>
     live notifications_tbl w' (n_uuid demo_vm_notification) = Some r \<and> n_status r = NS_FINISHED"
proof -
  have st: "case process_unfinished_notifications demo_lib demo_conf demo_driver demo_ctx (demo_site NS_ERROR) of
      (r, w') \<Rightarrow> r = Inr () \<and> map n_status (notifications w') = [NS_FINISHED]" by code_simp
  then obtain w' where run: "process_unfinished_notifications demo_lib demo_conf demo_driver demo_ctx (demo_site NS_ERROR) = (Inr (), w')"
    and s: "map n_status (notifications w') = [NS_FINISHED]" by (auto split: prod.splits)
  from process_unfinished_spec [OF demo_engine_ok live_demo_ctx demo_lib_ok demo_site_ok(1) run]
  have "each_notification (retried demo_conf (clock (demo_site NS_ERROR))) (demo_site NS_ERROR) w'" by simp
  from each_notificationD [OF this demo_site_ok(2)] obtain r where
    r: "live notifications_tbl w' (n_uuid demo_vm_notification) = Some r" by blast
  then have "r \<in> set (notifications w')" using live_SomeD [OF r] by (simp add: notifications_tbl_def)
  then have "n_status r \<in> set (map n_status (notifications w'))" by simp
  with s r run show ?thesis by auto
qed

lemma check_expired_spec_witness:
  "\<exists>w' r. check_expired_notifications demo_lib demo_conf demo_ctx ((demo_site NS_RUNNING)\<lparr>clock := 9000000\<rparr>) = (Inr (), w') \<and>
     live notifications_tbl w' (n_uuid demo_vm_notification) = Some r \<and> n_status r = NS_FAILED"
proof -
  let ?w = "(demo_site NS_RUNNING)\<lparr>clock := 9000000\<rparr>"
  have ok: "table_ok demo_lib notifications_tbl ?w" and
    l: "live notifications_tbl ?w (n_uuid demo_vm_notification) = Some (demo_vm_notification\<lparr>n_status := NS_RUNNING\<rparr>)"
    using demo_site_ok(1) [of demo_lib NS_RUNNING] demo_site_ok(2) [of NS_RUNNING] by (simp_all add: table_ok_def live_def notifications_tbl_def)
  obtain w' where run: "check_expired_notifications demo_lib demo_conf demo_ctx ?w = (Inr (), w')"
    and e: "each_notification (expiry demo_conf (clock ?w)) ?w w'"
    using check_expired_spec [OF live_demo_ctx demo_lib_ok ok] by blast
  from each_notificationD [OF e l] run show ?thesis
    by (auto simp: expiry_def is_older_than_def demo_conf_def demo_vm_notification_def demo_notification_def)
qed


lemma recover_host_spec_witness:
  "\<exists>v h'. live hosts_tbl v = (live hosts_tbl (demo_world demo_servers ()))(h_uuid demo_host \<mapsto> h') \<and>
     h_on_maintenance h' \<and> \<not> h_reserved h' \<and> recover_host demo_lib demo_driver demo_ctx demo_notification (demo_world demo_servers ()) =
       driver_outcome [(SkipHostRecoveryException, NS_FINISHED, False)]
         (execute_host demo_driver demo_ctx (h_name demo_host) AUTO (n_uuid demo_notification) None) v"
proof -
  have m: "demo_host \<in> set (hosts (demo_world demo_servers ()))" "deleted demo_host = 0"
    "demo_segment \<in> set (segments (demo_world demo_servers ()))" "sg_uuid demo_segment = h_segment_id demo_host"
    "n_source_host_uuid demo_notification = h_uuid demo_host" and a: "sg_recovery_method demo_segment = AUTO"
    by (simp_all add: demo_defs)
  from recover_host_spec [OF live_demo_ctx demo_lib_ok demo_world_ok m, where D = demo_driver] a show ?thesis by fastforce
qed

end
