(* ===== verification/Masakari_Etcd.thy ===== *)
theory Masakari_Etcd
  imports Masakari_Nova "HOL-Library.Sublist" "HOL-Library.List_Lexorder" "HOL-Library.Char_ord"
begin

text \<open>
  The access to etcd that the staged recovery and the fencing share: the client, the encoding of
  keys and values, and the compare-and-swap loop. The client (etcd3gw) is not part of the
  repository: \<open>etcd_client\<close> is the record of its operations on a state \<open>'k\<close> of its own. What the
  program relies on is \<open>etcd_ok\<close>: etcd is a map from keys to values, each operation acts on it at
  one point in time, and before that point other engines may have changed the map (\<open>env\<close>).
\<close>

section \<open>The client\<close>

text \<open>
  \<open>get\<close> returns a list of values, or of pairs of a value and its metadata. A value is the JSON
  text of a record; the model has the record itself. A lease is known by its id. \<open>ec_leases\<close> is the
  attribute \<open>leases\<close> some clients have; \<open>ec_lease_class\<close> says whether \<open>etcd3gw.lease\<close> can be imported.
\<close>

datatype fetched = Bare json | WithMetadata json

record 'k etcd_client =
  ec_status :: "('k, exc, unit) comp"
  ec_get :: "string \<Rightarrow> ('k, exc, fetched list) comp"
  ec_get_prefix :: "string \<Rightarrow> ('k, exc, json list) comp"
  ec_create :: "string \<Rightarrow> json \<Rightarrow> json option \<Rightarrow> ('k, exc, bool) comp"
  ec_replace :: "string \<Rightarrow> json \<Rightarrow> json \<Rightarrow> ('k, exc, bool) comp"
  ec_put :: "string \<Rightarrow> json \<Rightarrow> ('k, exc, bool) comp"
  ec_delete :: "string \<Rightarrow> ('k, exc, bool) comp"
  ec_lease :: "int \<Rightarrow> ('k, exc, json) comp"
  ec_refresh :: "json \<Rightarrow> ('k, exc, int) comp"
  ec_revoke :: "json \<Rightarrow> ('k, exc, unit) comp"
  ec_leases :: "'k \<Rightarrow> json list option"
  ec_lease_class :: bool

definition on_etcd :: "('k, exc, 'a) comp \<Rightarrow> ('n, 'k, 'a) prog" where
  "on_etcd m = zoomM etcd (\<lambda>k w. w\<lparr>etcd := k\<rparr>) m"

text \<open>
  Documented behaviour of etcd. A request that ends in an exception (a time-out, say) may have
  been carried out or not. A lease that is revoked takes the keys attached to it with it.
\<close>

definition reads :: "('k \<Rightarrow> 'k \<Rightarrow> bool) \<Rightarrow> ('k, exc, 'a) comp \<Rightarrow> ('a \<Rightarrow> 'k \<Rightarrow> bool) \<Rightarrow> bool" where
  "reads env m P \<longleftrightarrow> (\<forall>k r k'. m k = (r, k') \<longrightarrow> env k k' \<and> (\<forall>a. r = Inr a \<longrightarrow> P a k'))"

definition writes ::
  "('k \<Rightarrow> string \<Rightarrow> json option) \<Rightarrow> ('k \<Rightarrow> 'k \<Rightarrow> bool) \<Rightarrow> ('k, exc, bool) comp \<Rightarrow> string \<Rightarrow> json option
   \<Rightarrow> (json option \<Rightarrow> bool) \<Rightarrow> bool" where
  "writes kv env m key v guard \<longleftrightarrow> (\<forall>k r k'. m k = (r, k') \<longrightarrow>
     (\<exists>k1. env k k1 \<and>
        (case r of
           Inr True \<Rightarrow> guard (kv k1 key) \<and> kv k' = (kv k1)(key := v)
         | Inr False \<Rightarrow> \<not> guard (kv k1 key) \<and> k' = k1
         | Inl _ \<Rightarrow> k' = k1 \<or> guard (kv k1 key) \<and> kv k' = (kv k1)(key := v))))"

definition fetched_value :: "fetched \<Rightarrow> json" where
  "fetched_value f = (case f of Bare v \<Rightarrow> v | WithMetadata v \<Rightarrow> v)"

definition etcd_ok ::
  "'k etcd_client \<Rightarrow> ('k \<Rightarrow> string \<Rightarrow> json option) \<Rightarrow> ('k \<Rightarrow> 'k \<Rightarrow> bool) \<Rightarrow> bool" where
  "etcd_ok E kv env \<longleftrightarrow>
     (\<forall>k. env k k) \<and> (\<forall>k1 k2 k3. env k1 k2 \<longrightarrow> env k2 k3 \<longrightarrow> env k1 k3) \<and>
     reads env (ec_status E) (\<lambda>_ _. True) \<and>
     (\<forall>key. reads env (ec_get E key) (\<lambda>l k. map fetched_value l = (case kv k key of None \<Rightarrow> [] | Some v \<Rightarrow> [v]))) \<and>
     (\<forall>p. reads env (ec_get_prefix E p) (\<lambda>vs k. \<exists>keys. distinct keys \<and>
        set keys = {key. prefix p key \<and> kv k key \<noteq> None} \<and> vs = map (\<lambda>key. the (kv k key)) keys)) \<and>
     (\<forall>key v l. writes kv env (ec_create E key v l) key (Some v) (\<lambda>x. x = None)) \<and>
     (\<forall>key old new. writes kv env (ec_replace E key old new) key (Some new) (\<lambda>x. x = Some old)) \<and>
     (\<forall>key v. writes kv env (ec_put E key v) key (Some v) (\<lambda>_. True)) \<and>
     (\<forall>key. writes kv env (ec_delete E key) key None (\<lambda>x. x \<noteq> None)) \<and>
     (\<forall>ttl. reads env (ec_lease E ttl) (\<lambda>_ _. True)) \<and>
     (\<forall>l. reads env (ec_refresh E l) (\<lambda>_ _. True)) \<and>
     (\<forall>l k r k'. ec_revoke E l k = (r, k') \<longrightarrow> (\<exists>k1. env k k1 \<and> kv k' \<subseteq>\<^sub>m kv k1))"

section \<open>Keys\<close>

text \<open>
  \<open>urllib.parse.quote\<close> with no safe characters, and \<open>unquote\<close>. A string stands for its UTF-8 bytes.
\<close>

definition always_safe :: "char \<Rightarrow> bool" where
  "always_safe c \<longleftrightarrow> (let n = (of_char c :: nat) in 48 \<le> n \<and> n \<le> 57 \<or> 65 \<le> n \<and> n \<le> 90 \<or> 97 \<le> n \<and> n \<le> 122 \<or>
     c \<in> {CHR ''_'', CHR ''.'', CHR ''-'', CHR ''~''})"

definition hex_digit :: "nat \<Rightarrow> char" where
  "hex_digit n = (if n < 10 then char_of (48 + n) else char_of (55 + n))"

definition hex_value :: "char \<Rightarrow> nat option" where
  "hex_value c = (let n = (of_char c :: nat) in
     if 48 \<le> n \<and> n \<le> 57 then Some (n - 48) else if 65 \<le> n \<and> n \<le> 70 then Some (n - 55)
     else if 97 \<le> n \<and> n \<le> 102 then Some (n - 87) else None)"

definition quote_char :: "char \<Rightarrow> string" where
  "quote_char c = (if always_safe c then [c]
     else [CHR ''%'', hex_digit (of_char c div 16), hex_digit (of_char c mod 16)])"

definition encode_key_part :: "string \<Rightarrow> string" where
  "encode_key_part value = concat (map quote_char value)"

fun decode_key_part :: "string \<Rightarrow> string" where
  "decode_key_part (p # a # b # r) =
     (if p = CHR ''%'' then (case (hex_value a, hex_value b) of
          (Some x, Some y) \<Rightarrow> char_of (16 * x + y) # decode_key_part r
        | _ \<Rightarrow> p # decode_key_part (a # b # r))
      else p # decode_key_part (a # b # r))"
| "decode_key_part r = r"

lemma hex_value_digit [simp]: "n < 16 \<Longrightarrow> hex_value (hex_digit n) = Some n"
  by (simp add: hex_value_def hex_digit_def)

lemma hex_digit_safe: "n < 16 \<Longrightarrow> always_safe (hex_digit n)"
  by (auto simp: always_safe_def hex_digit_def)

lemma of_char_digits: "16 * ((of_char c :: nat) div 16) + of_char c mod 16 = of_char c"
  by simp

lemma of_char_div: "(of_char c :: nat) div 16 < 16"
  using nat_of_char_less_256 [of c] by linarith

lemma decode_safe: "always_safe c \<Longrightarrow> decode_key_part (c # r) = c # decode_key_part r"
  by (cases r rule: decode_key_part.cases [of "c # r" for r])
    (auto simp: always_safe_def split: option.split)

text \<open>Encoding a part of a key and decoding it gives it back, whatever characters it has.\<close>

lemma decode_encode: "decode_key_part (encode_key_part s) = s"
proof (induction s)
  case (Cons c s)
  then show ?case
    using of_char_digits [of c] of_char_div [of c] by (simp add: encode_key_part_def quote_char_def decode_safe)
qed (simp add: encode_key_part_def)


lemma encode_no_slash: "CHR ''/'' \<notin> set (encode_key_part s)"
proof -
  have slash: "\<not> always_safe (CHR ''/'')" by (simp add: always_safe_def)
  have "CHR ''/'' \<notin> set (quote_char c)" for c
    using slash hex_digit_safe [of "of_char c div 16"] hex_digit_safe [of "of_char c mod 16"] of_char_div [of c]
    by (auto simp: quote_char_def)
  then show ?thesis by (auto simp: encode_key_part_def)
qed

lemma encode_inj [simp]: "encode_key_part a = encode_key_part b \<longleftrightarrow> a = b"
  by (metis decode_encode)

text \<open>A part of a key ends at the next slash.\<close>

lemma split_at_slash:
  "CHR ''/'' \<notin> set xs \<Longrightarrow> CHR ''/'' \<notin> set ys \<Longrightarrow>
   xs @ CHR ''/'' # r = ys @ CHR ''/'' # t \<longleftrightarrow> xs = ys \<and> r = t"
proof (induction xs arbitrary: ys)
  case Nil
  then show ?case by (cases ys) auto
next
  case (Cons x xs)
  then show ?case by (cases ys) auto
qed

lemma part_eq_iff [simp]:
  "encode_key_part a @ CHR ''/'' # r = encode_key_part b @ CHR ''/'' # t \<longleftrightarrow> a = b \<and> r = t"
  by (simp add: split_at_slash encode_no_slash)

lemma part_prefix_iff [simp]:
  "prefix (encode_key_part a @ CHR ''/'' # r) (encode_key_part b @ CHR ''/'' # t) \<longleftrightarrow> a = b \<and> prefix r t"
  by (auto simp: prefix_def)

section \<open>Values\<close>

text \<open>
  \<open>dumps\<close> writes the keys of every object in ascending order, so equal dictionaries have equal
  texts. \<open>loads\<close> of a text that is not an object gives a value that has no \<open>get\<close>.
\<close>

primrec sort_keys :: "json \<Rightarrow> json" where
  "sort_keys JNull = JNull"
| "sort_keys (JBool b) = JBool b"
| "sort_keys (JInt i) = JInt i"
| "sort_keys (JStr s) = JStr s"
| "sort_keys (JTime t) = JTime t"
| "sort_keys (JList xs) = JList (map sort_keys xs)"
| "sort_keys (JObj d) = JObj (sort_key fst (map (map_prod id sort_keys) d))"

definition dumps :: "json dict \<Rightarrow> json" where
  "dumps d = sort_keys (JObj (AList.clearjunk d))"

definition loads :: "json \<Rightarrow> exc + json dict" where
  "loads v = (case v of JObj d \<Rightarrow> Inr d | _ \<Rightarrow> Inl (Exc OtherException ''object has no attribute get''))"

text \<open>\<open>record.get(name)\<close>.\<close>

definition dget :: "json dict \<Rightarrow> string \<Rightarrow> json" where
  "dget d name = (case map_of d name of None \<Rightarrow> JNull | Some v \<Rightarrow> v)"

lemma map_of_sort_key: "distinct (map fst d) \<Longrightarrow> map_of (sort_key fst d) = map_of d"
  by (rule map_of_eqI) (auto simp: distinct_map inj_on_def)

lemma map_of_map_values: "map_of (map (map_prod id f) d) k = map_option f (map_of d k)"
  by (induction d) (auto split: if_splits)

lemma loads_dumps: "\<exists>d'. loads (dumps d) = Inr d' \<and> (\<forall>k. map_of d' k = map_option sort_keys (map_of d k))"
proof -
  have "distinct (map fst (map (map_prod id sort_keys) (AList.clearjunk d)))"
    by (simp add: comp_def distinct_clearjunk)
  then show ?thesis
    by (simp add: loads_def dumps_def map_of_sort_key map_of_map_values map_of_clearjunk)
qed

text \<open>The values of the records the program keeps are flat, except for the policies and plans.\<close>

definition flat :: "json \<Rightarrow> bool" where
  "flat v \<longleftrightarrow> sort_keys v = v"

lemma flat_simps [simp]: "flat JNull" "flat (JBool b)" "flat (JInt i)" "flat (JStr s)" "flat (JTime t)"
  by (simp_all add: flat_def)


section \<open>Compare and swap\<close>

definition mk_StateNotFound :: "string \<Rightarrow> exc" where
  "mk_StateNotFound key = Exc StateNotFound (''Staged recovery state '' @ key @ '' was not found.'')"

definition mk_ConcurrentStateUpdate :: "string \<Rightarrow> exc" where
  "mk_ConcurrentStateUpdate key = Exc ConcurrentStateUpdate (''Concurrent staged recovery state update for '' @ key @ ''.'')"

definition MAX_CAS_RETRIES :: nat where
  "MAX_CAS_RETRIES = 8"

text \<open>\<open>_get_raw\<close>: the first value, without its metadata.\<close>

definition get_raw :: "'k etcd_client \<Rightarrow> string \<Rightarrow> ('n, 'k, json option) prog" where
  "get_raw E key = bindM (on_etcd (ec_get E key)) (\<lambda>result.
     case result of [] \<Rightarrow> retM None | first # _ \<Rightarrow> retM (Some (fetched_value first)))"

text \<open>
  The loop of every update: read the record, compute the new one from it and from the time, and
  replace the text that was read; when another engine has changed it in between, start again.
  \<open>missing\<close> is what happens when there is no record; \<open>change\<close> may find that nothing is to be done.
\<close>

primrec cas_loop ::
  "'k etcd_client \<Rightarrow> string \<Rightarrow> exc + json dict option \<Rightarrow> (int \<Rightarrow> json dict \<Rightarrow> json dict option) \<Rightarrow> nat
   \<Rightarrow> ('n, 'k, json dict option) prog" where
  "cas_loop E key missing change 0 = raiseM (mk_ConcurrentStateUpdate key)"
| "cas_loop E key missing change (Suc n) =
     bindM (get_raw E key) (\<lambda>raw. case raw of
       None \<Rightarrow> liftE missing
     | Some current_raw \<Rightarrow>
         bindM (liftE (loads current_raw)) (\<lambda>current.
         bindM utcnow (\<lambda>now. case change now current of
           None \<Rightarrow> retM None
         | Some new \<Rightarrow>
             bindM (on_etcd (ec_replace E key current_raw (dumps new))) (\<lambda>replaced.
             if replaced then retM (Some new) else cas_loop E key missing change n))))"

lemma wp_on_etcd [wp_simps]:
  "wp (on_etcd m) Q E = (\<lambda>w. wp m (\<lambda>a k. Q a (w\<lparr>etcd := k\<rparr>)) (\<lambda>e k. E e (w\<lparr>etcd := k\<rparr>)) (etcd w))"
  by (simp add: on_etcd_def wp_zoomM)

lemma on_etcd_run: "on_etcd m w = (case m (etcd w) of (r, k) \<Rightarrow> (r, w\<lparr>etcd := k\<rparr>))"
  by (simp add: on_etcd_def zoomM_def)

definition off_etcd :: "(('n, 'k) world \<Rightarrow> bool) \<Rightarrow> bool" where
  "off_etcd I \<longleftrightarrow> (\<forall>w k. I (w\<lparr>etcd := k\<rparr>) = I w)"

lemma pres_on_etcd [pres_intros]: "off_etcd I \<Longrightarrow> pres I (on_etcd m)"
  by (rule presI) (auto simp: on_etcd_run off_etcd_def split: prod.splits)

lemma pres_get_raw [pres_intros]: "off_etcd I \<Longrightarrow> pres I (get_raw E key)"
  unfolding get_raw_def by (rule pres_bindM) (auto intro: pres_intros split: list.split)

lemma pres_cas_loop [pres_intros]: "off_etcd I \<Longrightarrow> pres I (cas_loop E key missing change n)"
  by (induction n) (auto intro!: pres_intros split: option.split)

text \<open>The laws, in the form the proofs use them.\<close>

lemma etcd_env_refl: "etcd_ok E kv env \<Longrightarrow> env k k"
  by (simp add: etcd_ok_def)

lemma etcd_env_trans: "etcd_ok E kv env \<Longrightarrow> env k1 k2 \<Longrightarrow> env k2 k3 \<Longrightarrow> env k1 k3"
  unfolding etcd_ok_def by blast

lemma wp_reads:
  assumes "reads env m P" and "\<And>a k'. env k k' \<Longrightarrow> P a k' \<Longrightarrow> Q a k'" and "\<And>e k'. env k k' \<Longrightarrow> X e k'"
  shows "wp m Q X k"
  using assms by (auto simp: wp_result reads_def split: sum.split)

lemma wp_writes:
  assumes "writes kv env m key v guard"
    and "\<And>k1 k'. env k k1 \<Longrightarrow> guard (kv k1 key) \<Longrightarrow> kv k' = (kv k1)(key := v) \<Longrightarrow> Q True k'"
    and "\<And>k'. env k k' \<Longrightarrow> \<not> guard (kv k' key) \<Longrightarrow> Q False k'"
    and "\<And>e k'. env k k' \<Longrightarrow> X e k'"
    and "\<And>e k1 k'. env k k1 \<Longrightarrow> guard (kv k1 key) \<Longrightarrow> kv k' = (kv k1)(key := v) \<Longrightarrow> X e k'"
  shows "wp m Q X k"
proof (unfold wp_result, intro allI impI)
  fix r k' assume "m k = (r, k')"
  with assms(1) obtain k1 where "env k k1" and "case r of
       Inr True \<Rightarrow> guard (kv k1 key) \<and> kv k' = (kv k1)(key := v) | Inr False \<Rightarrow> \<not> guard (kv k1 key) \<and> k' = k1
     | Inl _ \<Rightarrow> k' = k1 \<or> guard (kv k1 key) \<and> kv k' = (kv k1)(key := v)"
    unfolding writes_def by blast
  then show "case r of Inl e \<Rightarrow> X e k' | Inr a \<Rightarrow> Q a k'"
    using assms(2-5) by (auto split: sum.splits bool.splits)
qed

lemma etcd_get: "etcd_ok E kv env \<Longrightarrow>
    reads env (ec_get E key) (\<lambda>l k. map fetched_value l = (case kv k key of None \<Rightarrow> [] | Some v \<Rightarrow> [v]))"
  by (simp add: etcd_ok_def)

lemma etcd_replace: "etcd_ok E kv env \<Longrightarrow>
    writes kv env (ec_replace E key old new) key (Some new) (\<lambda>x. x = Some old)"
  by (simp add: etcd_ok_def)

lemma etcd_create: "etcd_ok E kv env \<Longrightarrow> writes kv env (ec_create E key v l) key (Some v) (\<lambda>x. x = None)"
  by (simp add: etcd_ok_def)

lemma etcd_put: "etcd_ok E kv env \<Longrightarrow> writes kv env (ec_put E key v) key (Some v) (\<lambda>_. True)"
  by (simp add: etcd_ok_def)

lemma etcd_delete: "etcd_ok E kv env \<Longrightarrow> writes kv env (ec_delete E key) key None (\<lambda>x. x \<noteq> None)"
  by (simp add: etcd_ok_def)

lemma etcd_lease: "etcd_ok E kv env \<Longrightarrow> reads env (ec_lease E ttl) (\<lambda>_ _. True)"
  by (simp add: etcd_ok_def)

lemma etcd_status: "etcd_ok E kv env \<Longrightarrow> reads env (ec_status E) (\<lambda>_ _. True)"
  by (simp add: etcd_ok_def)

lemma etcd_prefix_reads: "etcd_ok E kv env \<Longrightarrow>
    reads env (ec_get_prefix E p) (\<lambda>vs k. \<exists>keys. distinct keys \<and>
        set keys = {key. prefix p key \<and> kv k key \<noteq> None} \<and> vs = map (\<lambda>key. the (kv k key)) keys)"
  by (simp add: etcd_ok_def)

lemma etcd_revoke: "etcd_ok E kv env \<Longrightarrow> ec_revoke E l k = (r, k') \<Longrightarrow> \<exists>k1. env k k1 \<and> kv k' \<subseteq>\<^sub>m kv k1"
proof -
  assume "etcd_ok E kv env" and run: "ec_revoke E l k = (r, k')"
  then have "\<forall>l k r k'. ec_revoke E l k = (r, k') \<longrightarrow> (\<exists>k1. env k k1 \<and> kv k' \<subseteq>\<^sub>m kv k1)"
    unfolding etcd_ok_def by (elim conjE)
  from this [rule_format, OF run] show ?thesis .
qed

lemma wp_get_raw:
  assumes ok: "etcd_ok E kv env"
    and "\<And>k. env (etcd w) k \<Longrightarrow> Q (kv k key) (w\<lparr>etcd := k\<rparr>)" and "\<And>e k. env (etcd w) k \<Longrightarrow> X e (w\<lparr>etcd := k\<rparr>)"
  shows "wp (get_raw E key) Q X w"
  unfolding get_raw_def wp_bindM wp_on_etcd
  by (rule wp_reads [OF etcd_get [OF ok, of key]])
    (use assms(2,3) in \<open>fastforce simp: wp_retM split: list.split option.splits\<close>)+

text \<open>
  An update is atomic, whatever the other engines do in between: at one point in time it turns the
  record that is stored then into what \<open>change\<close> makes of it, and when it gives nothing it has
  written nothing. \<open>swapped\<close> says so of the state it starts from and the one it ends in.
\<close>

definition swapped ::
  "('k \<Rightarrow> string \<Rightarrow> json option) \<Rightarrow> ('k \<Rightarrow> 'k \<Rightarrow> bool) \<Rightarrow> string \<Rightarrow> (json dict \<Rightarrow> json dict option) \<Rightarrow> json dict
   \<Rightarrow> 'k \<Rightarrow> 'k \<Rightarrow> bool" where
  "swapped kv env key change new k k' \<longleftrightarrow> (\<exists>k1 raw current. env k k1 \<and> kv k1 key = Some raw \<and>
     loads raw = Inr current \<and> change current = Some new \<and> kv k' = (kv k1)(key \<mapsto> dumps new))"

lemma wp_cas_loop:
  assumes ok: "etcd_ok E kv env"
    and swap: "\<And>new k'. swapped kv env key (change (clock w)) new (etcd w) k' \<Longrightarrow> Q (Some new) (w\<lparr>etcd := k'\<rparr>)"
    and stop: "\<And>k' raw current. env (etcd w) k' \<Longrightarrow> kv k' key = Some raw \<Longrightarrow> loads raw = Inr current \<Longrightarrow>
        change (clock w) current = None \<Longrightarrow> Q None (w\<lparr>etcd := k'\<rparr>)"
    and missing: "\<And>k'. env (etcd w) k' \<Longrightarrow> kv k' key = None \<Longrightarrow>
        (case missing of Inl e \<Rightarrow> X e (w\<lparr>etcd := k'\<rparr>) | Inr a \<Rightarrow> Q a (w\<lparr>etcd := k'\<rparr>))"
    and idle: "\<And>e k'. env (etcd w) k' \<Longrightarrow> X e (w\<lparr>etcd := k'\<rparr>)"
    and unsure: "\<And>e new k'. swapped kv env key (change (clock w)) new (etcd w) k' \<Longrightarrow> X e (w\<lparr>etcd := k'\<rparr>)"
  shows "wp (cas_loop E key missing change n) Q X w"
proof -
  note env = etcd_env_refl [OF ok] etcd_env_trans [OF ok]
  have "wp (cas_loop E key missing change n) Q X (w\<lparr>etcd := k0\<rparr>)" if "env (etcd w) k0" for k0
    using that
  proof (induction n arbitrary: k0)
    case 0
    then show ?case by (simp add: wp_raiseM idle)
  next
    case (Suc n)
    have body: "wp (bindM (liftE (loads raw)) (\<lambda>current. bindM utcnow (\<lambda>now. case change now current of
           None \<Rightarrow> retM None
         | Some new \<Rightarrow> bindM (on_etcd (ec_replace E key raw (dumps new))) (\<lambda>replaced.
             if replaced then retM (Some new) else cas_loop E key missing change n)))) Q X (w\<lparr>etcd := k1\<rparr>)"
      if k1: "env (etcd w) k1" "kv k1 key = Some raw" for k1 raw
    proof (cases "loads raw")
      case (Inl e)
      then show ?thesis using idle k1 by (simp add: liftE_def wp_raiseM)
    next
      case current: (Inr current)
      show ?thesis
      proof (cases "change (clock w) current")
        case None
        then show ?thesis using stop k1 current by (simp add: liftE_def wp_bindM wp_retM wp_utcnow)
      next
        case (Some new)
        have sw: "swapped kv env key (change (clock w)) new (etcd w) k'"
          if "env k1 k2" "kv k2 key = Some raw" "kv k' = (kv k2)(key \<mapsto> dumps new)" for k2 k'
          unfolding swapped_def using that k1 current Some env(2) by blast
        have "wp (ec_replace E key raw (dumps new))
            (\<lambda>a k. wp (if a then retM (Some new) else cas_loop E key missing change n) Q X (w\<lparr>etcd := k\<rparr>))
            (\<lambda>e k. X e (w\<lparr>etcd := k\<rparr>)) k1"
        proof (rule wp_writes [OF etcd_replace [OF ok, of key raw "dumps new"]])
          fix k' assume "env k1 k'"
          with k1(1) have "env (etcd w) k'" by (rule env(2))
          then show "wp (if False then retM (Some new) else cas_loop E key missing change n) Q X (w\<lparr>etcd := k'\<rparr>)"
            using Suc.IH by simp
        next
          fix e k' assume "env k1 k'"
          with k1(1) have "env (etcd w) k'" by (rule env(2))
          then show "X e (w\<lparr>etcd := k'\<rparr>)" by (rule idle)
        next
          fix e k2 k' assume "env k1 k2" "kv k2 key = Some raw" "kv k' = (kv k2)(key := Some (dumps new))"
          then show "X e (w\<lparr>etcd := k'\<rparr>)" by (intro unsure [OF sw])
        qed (use swap sw in \<open>auto simp: wp_retM\<close>)
        then show ?thesis using current Some by (simp add: liftE_def wp_bindM wp_retM wp_utcnow wp_on_etcd)
      qed
    qed
    show ?case
      unfolding cas_loop.simps wp_bindM [of "get_raw E key"]
    proof (rule wp_get_raw [OF ok])
      fix k1 assume "env (etcd (w\<lparr>etcd := k0\<rparr>)) k1"
      then have k1: "env (etcd w) k1" using env(2) [OF Suc.prems] by simp
      show "wp (case kv k1 key of None \<Rightarrow> liftE missing | Some raw \<Rightarrow>
          bindM (liftE (loads raw)) (\<lambda>current. bindM utcnow (\<lambda>now. case change now current of
           None \<Rightarrow> retM None
         | Some new \<Rightarrow> bindM (on_etcd (ec_replace E key raw (dumps new))) (\<lambda>replaced.
             if replaced then retM (Some new) else cas_loop E key missing change n)))) Q X (w\<lparr>etcd := k0, etcd := k1\<rparr>)"
        using missing [OF k1] body [OF k1] by (auto simp: wp_liftE split: option.split)
    next
      fix e k1 assume "env (etcd (w\<lparr>etcd := k0\<rparr>)) k1"
      then show "X e (w\<lparr>etcd := k0, etcd := k1\<rparr>)" using idle env(2) [OF Suc.prems] by simp
    qed
  qed
  from this [OF env(1)] show ?thesis by simp
qed


text \<open>
  \<open>etcd_quiet\<close>: etcd answers every request and nobody else writes to it. Then an update succeeds in
  its first attempt.
\<close>

definition etcd_quiet ::
  "'k etcd_client \<Rightarrow> ('k \<Rightarrow> string \<Rightarrow> json option) \<Rightarrow> ('k \<Rightarrow> 'k \<Rightarrow> bool) \<Rightarrow> bool" where
  "etcd_quiet E kv env \<longleftrightarrow> etcd_ok E kv env \<and> (\<forall>k k'. env k k' \<longrightarrow> kv k' = kv k) \<and>
     (\<forall>key k. \<not> isl (fst (ec_get E key k))) \<and> (\<forall>key old new k. \<not> isl (fst (ec_replace E key old new k))) \<and>
     (\<forall>key v l k. \<not> isl (fst (ec_create E key v l k))) \<and> (\<forall>p k. \<not> isl (fst (ec_get_prefix E p k))) \<and>
     (\<forall>ttl k. \<not> isl (fst (ec_lease E ttl k))) \<and> (\<forall>key k. \<not> isl (fst (ec_delete E key k)))"

lemma get_raw_quiet:
  assumes quiet: "etcd_quiet E kv env"
  obtains k where "get_raw E key w = (Inr (kv (etcd w) key), w\<lparr>etcd := k\<rparr>)" "kv k = kv (etcd w)"
proof -
  obtain r k where get: "ec_get E key (etcd w) = (r, k)" by fastforce
  have ok: "etcd_ok E kv env" and still: "\<And>k k'. env k k' \<Longrightarrow> kv k' = kv k" and "\<not> isl r"
    using quiet get unfolding etcd_quiet_def by (blast, blast, metis fst_conv)
  then obtain l where r: "r = Inr l" by (cases r) auto
  from etcd_get [OF ok, of key] get r have k: "env (etcd w) k"
    and l: "map fetched_value l = (case kv k key of None \<Rightarrow> [] | Some v \<Rightarrow> [v])"
    unfolding reads_def by blast+
  have "kv k = kv (etcd w)" by (rule still [OF k])
  moreover have "get_raw E key w = (Inr (kv k key), w\<lparr>etcd := k\<rparr>)"
    using l get r by (auto simp: get_raw_def bindM_def on_etcd_run retM_def split: option.splits list.splits)
  ultimately show ?thesis using that by simp
qed

lemma reads_quiet:
  assumes "reads env m P" and "\<And>k k'. env k k' \<Longrightarrow> kv k' = kv k" and "\<not> isl (fst (m k))"
  obtains a k' where "m k = (Inr a, k')" "P a k'" "kv k' = kv k"
  using assms by (cases "m k"; cases "fst (m k)") (auto simp: reads_def)

lemma writes_quiet:
  assumes "writes kv env m key v guard" and "\<And>k k'. env k k' \<Longrightarrow> kv k' = kv k" and "\<not> isl (fst (m k))"
  obtains k' where "m k = (Inr (guard (kv k key)), k')"
    "kv k' = (if guard (kv k key) then (kv k)(key := v) else kv k)"
proof -
  obtain r k' where m: "m k = (r, k')" by fastforce
  with assms(3) obtain b where r: "r = Inr b" by (cases r) auto
  from assms(1) m r obtain k1 where "env k k1"
    "if b then guard (kv k1 key) \<and> kv k' = (kv k1)(key := v) else \<not> guard (kv k1 key) \<and> k' = k1"
    unfolding writes_def by (fastforce split: bool.splits)
  with assms(2) [of k k1] have "b = guard (kv k key)" "kv k' = (if b then (kv k)(key := v) else kv k)"
    by (auto split: if_splits)
  with that m r show ?thesis by auto
qed

lemma cas_loop_missing:
  "get_raw E key w = (Inr None, t) \<Longrightarrow> cas_loop E key missing change (Suc n) w = liftE missing t"
  by (simp add: bindM_def)

lemma cas_loop_quiet:
  assumes quiet: "etcd_quiet E kv env" and "kv (etcd w) key = Some raw" and "loads raw = Inr current"
    and "change (clock w) current = Some new"
  obtains k where "cas_loop E key missing change (Suc n) w = (Inr (Some new), w\<lparr>etcd := k\<rparr>)"
    "kv k = (kv (etcd w))(key \<mapsto> dumps new)"
proof -
  obtain k1 where get: "get_raw E key w = (Inr (Some raw), w\<lparr>etcd := k1\<rparr>)" and k1: "kv k1 = kv (etcd w)"
    using get_raw_quiet [OF quiet, of key w] assms(2) by metis
  have "etcd_ok E kv env" "\<And>k k'. env k k' \<Longrightarrow> kv k' = kv k" "\<not> isl (fst (ec_replace E key raw (dumps new) k1))"
    using quiet unfolding etcd_quiet_def by blast+
  from writes_quiet [OF etcd_replace [OF this(1)] this(2,3)] k1 assms(2) obtain k2
    where "ec_replace E key raw (dumps new) k1 = (Inr True, k2)" "kv k2 = (kv (etcd w))(key \<mapsto> dumps new)"
    by (metis (mono_tags, lifting))
  moreover from this have "cas_loop E key missing change (Suc n) w = (Inr (Some new), w\<lparr>etcd := k2\<rparr>)"
    using get assms(3,4) by (simp add: bindM_def liftE_def retM_def utcnow_def getM_def on_etcd_run)
  ultimately show ?thesis using that by blast
qed

section \<open>A concrete client\<close>

text \<open>
  A client for the witnesses, with the behaviour of \<open>FakeEtcdClient\<close> in
  \<open>test_staged_state_etcd.py\<close>: the keys with their values, the keys attached to each lease, the
  next lease id, and the writes of other engines that are still to come, one of which takes place
  before each request.
\<close>

record etcd_state =
  es_data :: "json dict"
  es_attached :: "(string \<times> json) list"
  es_next_lease :: int
  es_others :: "(string \<times> json option) list"

definition es_write :: "string \<Rightarrow> json option \<Rightarrow> etcd_state \<Rightarrow> etcd_state" where
  "es_write key v k = k\<lparr>es_data := (case v of None \<Rightarrow> AList.delete key (es_data k) | Some x \<Rightarrow> AList.update key x (es_data k))\<rparr>"

definition es_step :: "etcd_state \<Rightarrow> etcd_state" where
  "es_step k = (case es_others k of [] \<Rightarrow> k | (key, v) # rest \<Rightarrow> (es_write key v k)\<lparr>es_others := rest\<rparr>)"

definition es_kv :: "etcd_state \<Rightarrow> string \<Rightarrow> json option" where
  "es_kv k = map_of (es_data k)"

definition es_op :: "(etcd_state \<Rightarrow> etcd_state) \<Rightarrow> (etcd_state \<Rightarrow> 'a \<times> etcd_state) \<Rightarrow> (etcd_state, exc, 'a) comp" where
  "es_op step f k = (case f (step k) of (a, k') \<Rightarrow> (Inr a, k'))"

definition es_keys :: "string \<Rightarrow> etcd_state \<Rightarrow> string list" where
  "es_keys p k = filter (prefix p) (sort (remdups (map fst (es_data k))))"

definition es_client :: "(etcd_state \<Rightarrow> etcd_state) \<Rightarrow> etcd_state etcd_client" where
  "es_client step = \<lparr>
     ec_status = es_op step (\<lambda>k. ((), k)),
     ec_get = (\<lambda>key. es_op step (\<lambda>k. (case es_kv k key of None \<Rightarrow> [] | Some v \<Rightarrow> [Bare v], k))),
     ec_get_prefix = (\<lambda>p. es_op step (\<lambda>k. (map (\<lambda>key. the (es_kv k key)) (es_keys p k), k))),
     ec_create = (\<lambda>key v l. es_op step (\<lambda>k. if es_kv k key = None
       then (True, (es_write key (Some v) k)\<lparr>es_attached := (case l of None \<Rightarrow> es_attached k | Some i \<Rightarrow> (key, i) # es_attached k)\<rparr>)
       else (False, k))),
     ec_replace = (\<lambda>key old new. es_op step (\<lambda>k. if es_kv k key = Some old then (True, es_write key (Some new) k) else (False, k))),
     ec_put = (\<lambda>key v. es_op step (\<lambda>k. (True, es_write key (Some v) k))),
     ec_delete = (\<lambda>key. es_op step (\<lambda>k. if es_kv k key = None then (False, k) else (True, es_write key None k))),
     ec_lease = (\<lambda>ttl. es_op step (\<lambda>k. (JInt (es_next_lease k), k\<lparr>es_next_lease := es_next_lease k + 1\<rparr>))),
     ec_refresh = (\<lambda>l. es_op step (\<lambda>k. (30, k))),
     ec_revoke = (\<lambda>l. es_op step (\<lambda>k. ((), fold (\<lambda>(key, i) k. if i = l then es_write key None k else k) (es_attached k) k))),
     ec_leases = (\<lambda>k. Some (map (JInt \<circ> int) [0..<nat (es_next_lease k)])), ec_lease_class = True\<rparr>"

text \<open>With the writes of the others, and alone.\<close>

definition demo_etcd :: "etcd_state etcd_client" where
  "demo_etcd = es_client es_step"

definition quiet_etcd :: "etcd_state etcd_client" where
  "quiet_etcd = es_client id"

definition es_env :: "(etcd_state \<Rightarrow> etcd_state) \<Rightarrow> etcd_state \<Rightarrow> etcd_state \<Rightarrow> bool" where
  "es_env step k k' \<longleftrightarrow> (\<exists>n. es_kv k' = es_kv ((step ^^ n) k) \<and> es_others k' = es_others ((step ^^ n) k))"

text \<open>A step looks at the values and at what is to come, at nothing else.\<close>

definition es_respects :: "(etcd_state \<Rightarrow> etcd_state) \<Rightarrow> bool" where
  "es_respects step \<longleftrightarrow> (\<forall>k l. es_kv k = es_kv l \<longrightarrow> es_others k = es_others l \<longrightarrow>
     es_kv (step k) = es_kv (step l) \<and> es_others (step k) = es_others (step l))"

lemma es_kv_write [simp]: "es_kv (es_write key v k) = (es_kv k)(key := v)"
  by (auto simp: es_kv_def es_write_def delete_conv' split: option.split)

lemma es_write_others [simp]: "es_others (es_write key v k) = es_others k"
  by (simp add: es_write_def)

lemma es_kv_simps [simp]: "es_kv (k\<lparr>es_attached := a\<rparr>) = es_kv k" "es_kv (k\<lparr>es_next_lease := i\<rparr>) = es_kv k"
  "es_kv (k\<lparr>es_others := os\<rparr>) = es_kv k"
  by (simp_all add: es_kv_def)

lemma es_respects_step: "es_respects es_step" "es_respects id"
  by (auto simp: es_respects_def es_step_def split: list.split)

lemma es_env_step: "es_env step k (step k)"
  unfolding es_env_def by (rule exI [of _ 1]) simp

lemma es_env_same: "es_env step k k1 \<Longrightarrow> es_kv k' = es_kv k1 \<Longrightarrow> es_others k' = es_others k1 \<Longrightarrow> es_env step k k'"
  by (simp add: es_env_def)

lemma es_env_refl: "es_env step k k"
  unfolding es_env_def by (rule exI [of _ 0]) simp

lemma es_env_trans:
  assumes "es_respects step" and "es_env step k1 k2" and "es_env step k2 k3"
  shows "es_env step k1 k3"
proof -
  have same: "es_kv ((step ^^ m) k) = es_kv ((step ^^ m) l) \<and> es_others ((step ^^ m) k) = es_others ((step ^^ m) l)"
    if "es_kv k = es_kv l" "es_others k = es_others l" for k l m
  proof (induction m)
    case (Suc m)
    then show ?case using assms(1) unfolding es_respects_def funpow.simps comp_apply by blast
  qed (use that in simp_all)
  from assms(2,3) obtain n m where
    n: "es_kv k2 = es_kv ((step ^^ n) k1)" "es_others k2 = es_others ((step ^^ n) k1)" and
    m: "es_kv k3 = es_kv ((step ^^ m) k2)" "es_others k3 = es_others ((step ^^ m) k2)"
    unfolding es_env_def by blast
  from same [OF n, of m] m show ?thesis
    unfolding es_env_def by (intro exI [of _ "m + n"]) (simp add: funpow_add)
qed

lemma es_fold_le: "es_kv (fold (\<lambda>(key, i) k. if i = l then es_write key None k else k) xs k) \<subseteq>\<^sub>m es_kv k"
proof (induction xs arbitrary: k)
  case (Cons x xs)
  have less: "es_kv (es_write key None k) \<subseteq>\<^sub>m es_kv k" for key by (simp add: map_le_def)
  show ?case using Cons map_le_trans [OF Cons less] by (cases x) auto
qed simp

lemma es_client_ok:
  assumes step: "es_respects step"
  shows "etcd_ok (es_client step) es_kv (es_env step)"
proof -
  note env = es_env_refl es_env_trans [OF step] es_env_step
  have rd: "reads (es_env step) (es_op step f) P"
    if "\<And>k a k'. f k = (a, k') \<Longrightarrow> es_kv k' = es_kv k \<and> es_others k' = es_others k \<and> P a k'" for f :: "etcd_state \<Rightarrow> 'b \<times> etcd_state" and P
    unfolding reads_def es_op_def
    using that [of "step k" for k] es_env_same [OF es_env_step [of step]] by (auto split: prod.splits)
  have wr: "writes es_kv (es_env step) (es_op step f) key v guard"
    if "\<And>k a k'. f k = (a, k') \<Longrightarrow> a = guard (es_kv k key) \<and> (if a then es_kv k' = (es_kv k)(key := v) else k' = k)"
    for f key v guard
    unfolding writes_def es_op_def
  proof (intro allI impI)
    fix k r k' assume "(case f (step k) of (a, k') \<Rightarrow> (Inr a, k')) = (r, k')"
    then obtain a where "f (step k) = (a, k')" "r = Inr a" by (auto split: prod.splits)
    with that [of "step k" a k'] env(3) [of step k] show "\<exists>k1. es_env step k k1 \<and> (case r of
        Inr True \<Rightarrow> guard (es_kv k1 key) \<and> es_kv k' = (es_kv k1)(key := v) | Inr False \<Rightarrow> \<not> guard (es_kv k1 key) \<and> k' = k1
      | Inl _ \<Rightarrow> k' = k1 \<or> guard (es_kv k1 key) \<and> es_kv k' = (es_kv k1)(key := v))"
      by (intro exI [of _ "step k"]) (auto split: bool.splits if_splits)
  qed
  show ?thesis
    unfolding etcd_ok_def
  proof (intro conjI allI impI)
    fix p
    show "reads (es_env step) (ec_get_prefix (es_client step) p) (\<lambda>vs k. \<exists>keys. distinct keys \<and>
        set keys = {key. prefix p key \<and> es_kv k key \<noteq> None} \<and> vs = map (\<lambda>key. the (es_kv k key)) keys)"
    proof (simp add: es_client_def, rule rd)
      fix k a k' assume "(map (\<lambda>key. the (es_kv k key)) (es_keys p k), k) = (a, k')"
      moreover have "set (es_keys p k) = {key. prefix p key \<and> (\<exists>y. es_kv k key = Some y)}" "distinct (es_keys p k)"
        by (auto simp: es_keys_def es_kv_def dest: map_of_SomeD weak_map_of_SomeI intro: rev_image_eqI)
      ultimately show "es_kv k' = es_kv k \<and> es_others k' = es_others k \<and> (\<exists>keys. distinct keys \<and>
          set keys = {key. prefix p key \<and> (\<exists>y. es_kv k' key = Some y)} \<and> a = map (\<lambda>key. the (es_kv k' key)) keys)"
        by blast
    qed
  next
    fix l k r k' assume "ec_revoke (es_client step) l k = (r, k')"
    then have "k' = fold (\<lambda>(key, i) k. if i = l then es_write key None k else k) (es_attached (step k)) (step k)"
      by (simp add: es_client_def es_op_def)
    then show "\<exists>k1. es_env step k k1 \<and> es_kv k' \<subseteq>\<^sub>m es_kv k1"
      by (intro exI [of _ "step k"] conjI env(3)) (simp only: es_fold_le)
  next
    show "es_env step k k" for k by (rule env(1))
  next
    show "es_env step k1 k2 \<Longrightarrow> es_env step k2 k3 \<Longrightarrow> es_env step k1 k3" for k1 k2 k3 by (rule env(2))
  qed (unfold es_client_def etcd_client.simps, (rule rd wr; auto simp: fetched_value_def split: if_splits option.splits)+)
qed

lemma demo_etcd_ok: "etcd_ok demo_etcd es_kv (es_env es_step)"
  by (simp add: demo_etcd_def es_client_ok es_respects_step)

lemma quiet_etcd_ok: "etcd_quiet quiet_etcd es_kv (es_env id)"
proof -
  have "es_env id k k' \<Longrightarrow> es_kv k' = es_kv k" for k k' by (auto simp: es_env_def)
  then show ?thesis using es_client_ok [OF es_respects_step(2)]
    by (auto simp: etcd_quiet_def quiet_etcd_def es_client_def es_op_def split: prod.splits)
qed

text \<open>An etcd that holds some keys, and the writes of others still to come.\<close>

definition demo_etcd_state :: "json dict \<Rightarrow> (string \<times> json option) list \<Rightarrow> etcd_state" where
  "demo_etcd_state d others = \<lparr>es_data = d, es_attached = [], es_next_lease = 100, es_others = others\<rparr>"

end
