(* ===== verification/Masakari_StagedState.thy ===== *)
theory Masakari_StagedState
  imports Masakari_Etcd
begin

text \<open>
  \<open>engine/drivers/taskflow/staged_state_etcd.py\<close>: the store of the staged recovery. It keeps one
  record per notification and instance (the step its recovery has reached), one start lease per
  destination host and instance that is starting, and the options that are set at run time. A
  record is a JSON object; its fields are read with \<open>dget\<close>, where an absent one is \<open>JNull\<close>.
\<close>

section \<open>Steps and keys\<close>

definition STEP_DISCOVERED :: string where "STEP_DISCOVERED = ''DISCOVERED''"
definition STEP_EVACUATING :: string where "STEP_EVACUATING = ''EVACUATING''"
definition STEP_EVACUATED_STOPPED :: string where "STEP_EVACUATED_STOPPED = ''EVACUATED_STOPPED''"
definition STEP_WAITING_START_SLOT :: string where "STEP_WAITING_START_SLOT = ''WAITING_START_SLOT''"
definition STEP_STARTING :: string where "STEP_STARTING = ''STARTING''"
definition STEP_ACTIVE :: string where "STEP_ACTIVE = ''ACTIVE''"
definition STEP_FAILED :: string where "STEP_FAILED = ''FAILED''"
definition STEP_IGNORED :: string where "STEP_IGNORED = ''IGNORED''"

lemmas step_defs = STEP_DISCOVERED_def STEP_EVACUATING_def STEP_EVACUATED_STOPPED_def
  STEP_WAITING_START_SLOT_def STEP_STARTING_def STEP_ACTIVE_def STEP_FAILED_def STEP_IGNORED_def

definition CONFIG_MAX_PARALLEL_STARTS_PER_HOST :: string where
  "CONFIG_MAX_PARALLEL_STARTS_PER_HOST = ''max_parallel_starts_per_host''"

record 'k staged_store =
  ss_prefix :: string
  ss_owner :: string
  ss_client :: "'k etcd_client"

definition rstrip_slash :: "string \<Rightarrow> string" where
  "rstrip_slash s = rev (dropWhile (\<lambda>c. c = CHR ''/'') (rev s))"

definition make_store :: "conf \<Rightarrow> string \<Rightarrow> 'k etcd_client \<Rightarrow> 'k staged_store" where
  "make_store C owner client = \<lparr>ss_prefix = rstrip_slash (etcd_prefix C), ss_owner = owner, ss_client = client\<rparr>"

definition assert_available :: "'k staged_store \<Rightarrow> ('n, 'k, unit) prog" where
  "assert_available S = tryM (on_etcd (ec_status (ss_client S)))
     (\<lambda>exc. raiseM (Exc MasakariException ''An unknown exception occurred.''))"

definition notification_instances_prefix :: "'k staged_store \<Rightarrow> string \<Rightarrow> string" where
  "notification_instances_prefix S notification_uuid =
     ss_prefix S @ ''/notifications/'' @ encode_key_part notification_uuid @ ''/instances/''"

definition instance_key :: "'k staged_store \<Rightarrow> string \<Rightarrow> string \<Rightarrow> string" where
  "instance_key S notification_uuid instance_uuid =
     ss_prefix S @ ''/notifications/'' @ encode_key_part notification_uuid @ ''/instances/'' @
     encode_key_part instance_uuid"

definition start_lease_prefix :: "'k staged_store \<Rightarrow> string \<Rightarrow> string" where
  "start_lease_prefix S dest_host = ss_prefix S @ ''/start-leases/'' @ encode_key_part dest_host @ ''/''"

definition start_lease_key :: "'k staged_store \<Rightarrow> string \<Rightarrow> string \<Rightarrow> string" where
  "start_lease_key S dest_host instance_uuid =
     ss_prefix S @ ''/start-leases/'' @ encode_key_part dest_host @ ''/'' @ encode_key_part instance_uuid"

definition runtime_config_key :: "'k staged_store \<Rightarrow> string \<Rightarrow> string" where
  "runtime_config_key S name = ss_prefix S @ ''/config/'' @ encode_key_part name"

section \<open>Lists of records\<close>

definition list_values :: "'k staged_store \<Rightarrow> string \<Rightarrow> ('n, 'k, json dict list) prog" where
  "list_values S p = bindM (on_etcd (ec_get_prefix (ss_client S) p)) (\<lambda>values. liftE (mapE loads values))"

definition matches_filters :: "json dict \<Rightarrow> json dict \<Rightarrow> bool" where
  "matches_filters filters record = list_all (\<lambda>(name, expected). dget record name = expected) filters"

definition apply_limit :: "nat option \<Rightarrow> 'a list \<Rightarrow> 'a list" where
  "apply_limit limit records = (case limit of None \<Rightarrow> records | Some n \<Rightarrow> take n records)"

text \<open>
  The sort by two fields, where an absent field counts as the empty string. Fields that are not
  strings cannot be compared with strings.
\<close>

definition sort_field :: "string \<Rightarrow> json dict \<Rightarrow> string option" where
  "sort_field name record = (case map_of record name of None \<Rightarrow> Some '''' | Some (JStr s) \<Rightarrow> Some s | _ \<Rightarrow> None)"

definition sort_records :: "string \<Rightarrow> string \<Rightarrow> json dict list \<Rightarrow> exc + json dict list" where
  "sort_records f g records =
     (if length records \<le> 1 \<or> list_all (\<lambda>r. sort_field f r \<noteq> None \<and> sort_field g r \<noteq> None) records
      then Inr (sort_key (\<lambda>r. [the (sort_field f r), the (sort_field g r)]) records)
      else Inl (Exc TypeError ''not supported between instances''))"

section \<open>Options set at run time\<close>

text \<open>
  \<open>int(value)\<close>: a string may have blanks around it, a sign, and single underscores between digits.
\<close>

definition is_blank :: "char \<Rightarrow> bool" where
  "is_blank c \<longleftrightarrow> (of_char c :: nat) \<in> {9, 10, 11, 12, 13, 28, 29, 30, 31, 32}"

definition digit_of :: "char \<Rightarrow> nat option" where
  "digit_of c = (let n = (of_char c :: nat) in if 48 \<le> n \<and> n \<le> 57 then Some (n - 48) else None)"

fun digits :: "nat \<Rightarrow> string \<Rightarrow> nat option" where
  "digits acc [] = Some acc"
| "digits acc (c # r) = (case digit_of c of Some d \<Rightarrow> digits (10 * acc + d) r
     | None \<Rightarrow> (case r of d # r' \<Rightarrow> (if c = CHR ''_'' \<and> digit_of d \<noteq> None then digits acc (d # r') else None)
                | [] \<Rightarrow> None))"

definition unsigned :: "string \<Rightarrow> nat option" where
  "unsigned s = (case s of [] \<Rightarrow> None | c # r \<Rightarrow> (case digit_of c of None \<Rightarrow> None | Some d \<Rightarrow> digits d r))"

definition int_of_string :: "string \<Rightarrow> int option" where
  "int_of_string s = (let t = rev (dropWhile is_blank (rev (dropWhile is_blank s))) in
     case t of [] \<Rightarrow> None
     | c # r \<Rightarrow> if c = CHR ''-'' then map_option (\<lambda>n. - int n) (unsigned r)
         else if c = CHR ''+'' then map_option int (unsigned r)
         else map_option int (unsigned t))"

definition py_int :: "json \<Rightarrow> int option" where
  "py_int v = (case v of JInt i \<Rightarrow> Some i | JBool b \<Rightarrow> Some (of_bool b) | JStr s \<Rightarrow> int_of_string s | _ \<Rightarrow> None)"

definition validate_positive_int :: "json \<Rightarrow> string \<Rightarrow> exc + int" where
  "validate_positive_int value name = (case py_int value of
     None \<Rightarrow> Inl (mk_InvalidInput (name @ '' must be an integer''))
   | Some i \<Rightarrow> if i < 1 then Inl (mk_InvalidInput (name @ '' must be >= 1'')) else Inr i)"

definition get_runtime_config :: "'k staged_store \<Rightarrow> string \<Rightarrow> ('n, 'k, json dict option) prog" where
  "get_runtime_config S name = bindM (get_raw (ss_client S) (runtime_config_key S name)) (\<lambda>raw.
     case raw of None \<Rightarrow> retM None | Some v \<Rightarrow> bindM (liftE (loads v)) (\<lambda>d. retM (Some d)))"

definition set_runtime_config :: "'k staged_store \<Rightarrow> string \<Rightarrow> json \<Rightarrow> ('n, 'k, json dict) prog" where
  "set_runtime_config S name value = bindM utcnow (\<lambda>now.
     let record = [(''schema_version'', JInt 1), (''name'', JStr name), (''value'', value),
       (''owner'', JStr (ss_owner S)), (''updated_at'', JTime now)] in
     bindM (on_etcd (ec_put (ss_client S) (runtime_config_key S name) (dumps record))) (\<lambda>_. retM record))"

definition clear_runtime_config :: "'k staged_store \<Rightarrow> string \<Rightarrow> ('n, 'k, bool) prog" where
  "clear_runtime_config S name = on_etcd (ec_delete (ss_client S) (runtime_config_key S name))"

definition get_max_parallel_starts_per_host_with_source ::
  "'k staged_store \<Rightarrow> json \<Rightarrow> ('n, 'k, int \<times> string) prog" where
  "get_max_parallel_starts_per_host_with_source S fallback =
     bindM (get_runtime_config S CONFIG_MAX_PARALLEL_STARTS_PER_HOST) (\<lambda>record. case record of
       None \<Rightarrow> bindM (liftE (validate_positive_int fallback CONFIG_MAX_PARALLEL_STARTS_PER_HOST)) (\<lambda>i.
         retM (i, ''config''))
     | Some r \<Rightarrow> bindM (liftE (validate_positive_int (dget r ''value'') CONFIG_MAX_PARALLEL_STARTS_PER_HOST)) (\<lambda>i.
         retM (i, ''runtime'')))"

definition get_max_parallel_starts_per_host :: "'k staged_store \<Rightarrow> json \<Rightarrow> ('n, 'k, int) prog" where
  "get_max_parallel_starts_per_host S fallback =
     bindM (get_max_parallel_starts_per_host_with_source S fallback) (\<lambda>(limit, _). retM limit)"

definition set_max_parallel_starts_per_host :: "'k staged_store \<Rightarrow> json \<Rightarrow> ('n, 'k, int) prog" where
  "set_max_parallel_starts_per_host S value =
     bindM (liftE (validate_positive_int value CONFIG_MAX_PARALLEL_STARTS_PER_HOST)) (\<lambda>i.
     bindM (set_runtime_config S CONFIG_MAX_PARALLEL_STARTS_PER_HOST (JInt i)) (\<lambda>_. retM i))"

definition clear_max_parallel_starts_per_host :: "'k staged_store \<Rightarrow> ('n, 'k, bool) prog" where
  "clear_max_parallel_starts_per_host S = clear_runtime_config S CONFIG_MAX_PARALLEL_STARTS_PER_HOST"

section \<open>States of instances\<close>

definition setdefault :: "string \<Rightarrow> 'v \<Rightarrow> 'v dict \<Rightarrow> 'v dict" where
  "setdefault k v d = (case map_of d k of None \<Rightarrow> AList.update k v d | Some _ \<Rightarrow> d)"

definition base_state :: "'k staged_store \<Rightarrow> int \<Rightarrow> string \<Rightarrow> string \<Rightarrow> json dict \<Rightarrow> json dict" where
  "base_state S now notification_uuid instance_uuid values =
     setdefault ''instance_uuid'' (JStr instance_uuid)
     (setdefault ''notification_uuid'' (JStr notification_uuid)
     (dict_update [(''schema_version'', JInt 1), (''notification_uuid'', JStr notification_uuid),
        (''instance_uuid'', JStr instance_uuid), (''owner'', JStr (ss_owner S)), (''created_at'', JTime now),
        (''updated_at'', JTime now), (''step'', JStr STEP_DISCOVERED), (''attempt'', JInt 0),
        (''last_error'', JNull)] values))"

definition create_or_get_instance_state ::
  "'k staged_store \<Rightarrow> string \<Rightarrow> string \<Rightarrow> json dict \<Rightarrow> ('n, 'k, json dict) prog" where
  "create_or_get_instance_state S notification_uuid instance_uuid values =
     (let key = instance_key S notification_uuid instance_uuid in
      bindM utcnow (\<lambda>now.
      let state = base_state S now notification_uuid instance_uuid values in
      bindM (on_etcd (ec_create (ss_client S) key (dumps state) None)) (\<lambda>created.
      if created then retM state
      else bindM (get_raw (ss_client S) key) (\<lambda>raw. case raw of
          None \<Rightarrow> raiseM (mk_StateNotFound key)
        | Some v \<Rightarrow> liftE (loads v)))))"

definition get_instance_state :: "'k staged_store \<Rightarrow> string \<Rightarrow> string \<Rightarrow> ('n, 'k, json dict option) prog" where
  "get_instance_state S notification_uuid instance_uuid =
     bindM (get_raw (ss_client S) (instance_key S notification_uuid instance_uuid)) (\<lambda>raw.
     case raw of None \<Rightarrow> retM None | Some v \<Rightarrow> bindM (liftE (loads v)) (\<lambda>d. retM (Some d)))"

definition list_instance_states :: "'k staged_store \<Rightarrow> string \<Rightarrow> ('n, 'k, json dict list) prog" where
  "list_instance_states S notification_uuid = list_values S (notification_instances_prefix S notification_uuid)"

definition list_all_instance_states ::
  "'k staged_store \<Rightarrow> json dict \<Rightarrow> nat option \<Rightarrow> ('n, 'k, json dict list) prog" where
  "list_all_instance_states S filters limit =
     bindM (list_values S (ss_prefix S @ ''/notifications/'')) (\<lambda>states.
     bindM (liftE (sort_records ''notification_uuid'' ''instance_uuid'' (filter (matches_filters filters) states))) (\<lambda>states.
     retM (apply_limit limit states)))"


text \<open>
  The records whose \<open>updated_at\<close> is old. Time stamps are the \<open>JTime\<close> the store writes; a false
  value counts as none, and anything else is not a time stamp.
\<close>

definition step_in :: "json dict \<Rightarrow> string list \<Rightarrow> bool" where
  "step_in record steps = list_ex (\<lambda>s. dget record ''step'' = JStr s) steps"

definition falsy :: "json \<Rightarrow> bool" where
  "falsy v \<longleftrightarrow> v \<in> {JNull, JBool False, JInt 0, JStr '''', JList [], JObj []}"

fun stale_states :: "int \<Rightarrow> int \<Rightarrow> string list \<Rightarrow> json dict list \<Rightarrow> exc + json dict list" where
  "stale_states now older_than_seconds steps [] = Inr []"
| "stale_states now older_than_seconds steps (state # rest) =
     (if \<not> step_in state steps \<or> falsy (dget state ''updated_at'') then stale_states now older_than_seconds steps rest
      else case dget state ''updated_at'' of
        JTime t \<Rightarrow> (case stale_states now older_than_seconds steps rest of Inl e \<Rightarrow> Inl e
          | Inr stale \<Rightarrow> Inr (if now - t \<ge> older_than_seconds then state # stale else stale))
      | JStr s \<Rightarrow> Inl (Exc ValueError ''Invalid isoformat string'')
      | _ \<Rightarrow> Inl (Exc OtherException ''object has no attribute endswith''))"

definition list_stale_instance_states ::
  "'k staged_store \<Rightarrow> int \<Rightarrow> string list \<Rightarrow> int option \<Rightarrow> ('n, 'k, json dict list) prog" where
  "list_stale_instance_states S older_than_seconds steps now_arg =
     bindM (case now_arg of None \<Rightarrow> utcnow | Some t \<Rightarrow> retM t) (\<lambda>now.
     bindM (list_values S (ss_prefix S @ ''/notifications/'')) (\<lambda>states.
     liftE (stale_states now older_than_seconds steps states)))"

text \<open>The new record of an update and of a transition.\<close>

definition stamped_patch :: "'k staged_store \<Rightarrow> json dict \<Rightarrow> int \<Rightarrow> json dict \<Rightarrow> json dict" where
  "stamped_patch S patch now d =
     AList.update ''updated_at'' (case map_of patch ''updated_at'' of None \<Rightarrow> JTime now | Some v \<Rightarrow> v)
     (AList.update ''owner'' (JStr (ss_owner S)) d)"

definition updated :: "'k staged_store \<Rightarrow> json dict \<Rightarrow> int \<Rightarrow> json dict \<Rightarrow> json dict option" where
  "updated S patch now current = Some (stamped_patch S patch now (dict_update current patch))"

definition transitioned ::
  "'k staged_store \<Rightarrow> string list \<Rightarrow> string \<Rightarrow> json dict \<Rightarrow> int \<Rightarrow> json dict \<Rightarrow> json dict option" where
  "transitioned S expected_steps new_step patch now current =
     (if \<not> step_in current expected_steps then None
      else Some (stamped_patch S patch now (AList.update ''step'' (JStr new_step) (dict_update current patch))))"

definition update_instance_state ::
  "'k staged_store \<Rightarrow> string \<Rightarrow> string \<Rightarrow> json dict \<Rightarrow> ('n, 'k, json dict) prog" where
  "update_instance_state S notification_uuid instance_uuid patch =
     (let key = instance_key S notification_uuid instance_uuid in
      bindM (cas_loop (ss_client S) key (Inl (mk_StateNotFound key)) (updated S patch) MAX_CAS_RETRIES)
        (\<lambda>new. retM (the new)))"

definition transition_instance_state ::
  "'k staged_store \<Rightarrow> string \<Rightarrow> string \<Rightarrow> string list \<Rightarrow> string \<Rightarrow> json dict \<Rightarrow> ('n, 'k, json dict option) prog" where
  "transition_instance_state S notification_uuid instance_uuid expected_steps new_step patch =
     (let key = instance_key S notification_uuid instance_uuid in
      cas_loop (ss_client S) key (Inl (mk_StateNotFound key)) (transitioned S expected_steps new_step patch)
        MAX_CAS_RETRIES)"

definition mark_failed :: "'k staged_store \<Rightarrow> string \<Rightarrow> string \<Rightarrow> string \<Rightarrow> ('n, 'k, json dict) prog" where
  "mark_failed S notification_uuid instance_uuid error =
     update_instance_state S notification_uuid instance_uuid
       [(''step'', JStr STEP_FAILED), (''last_error'', JStr error)]"

section \<open>Start leases\<close>

definition list_start_leases :: "'k staged_store \<Rightarrow> string \<Rightarrow> ('n, 'k, json dict list) prog" where
  "list_start_leases S dest_host = list_values S (start_lease_prefix S dest_host)"

definition list_all_start_leases ::
  "'k staged_store \<Rightarrow> json dict \<Rightarrow> nat option \<Rightarrow> ('n, 'k, json dict list) prog" where
  "list_all_start_leases S filters limit =
     bindM (case dget filters ''dest_host'' of
         JStr h \<Rightarrow> list_values S (if h = '''' then ss_prefix S @ ''/start-leases/'' else start_lease_prefix S h)
       | _ \<Rightarrow> list_values S (ss_prefix S @ ''/start-leases/'')) (\<lambda>leases.
     bindM (liftE (sort_records ''dest_host'' ''instance_uuid'' (filter (matches_filters filters) leases))) (\<lambda>leases.
     retM (apply_limit limit leases)))"

text \<open>What \<open>revoke\<close> raises is only logged.\<close>

definition revoke_quietly :: "'k staged_store \<Rightarrow> json \<Rightarrow> ('n, 'k, unit) prog" where
  "revoke_quietly S lease = tryM (on_etcd (ec_revoke (ss_client S) lease)) (\<lambda>_. retM ())"

definition create_start_lease ::
  "'k staged_store \<Rightarrow> string \<Rightarrow> string \<Rightarrow> string \<Rightarrow> int \<Rightarrow> ('n, 'k, json dict option) prog" where
  "create_start_lease S notification_uuid instance_uuid dest_host ttl =
     bindM (on_etcd (ec_lease (ss_client S) ttl)) (\<lambda>lease.
     bindM utcnow (\<lambda>now.
     let record = [(''schema_version'', JInt 1), (''notification_uuid'', JStr notification_uuid),
       (''instance_uuid'', JStr instance_uuid), (''dest_host'', JStr dest_host), (''owner'', JStr (ss_owner S)),
       (''etcd_lease_id'', lease), (''created_at'', JTime now), (''expires_at'', JTime (now + ttl))] in
     bindM (on_etcd (ec_create (ss_client S) (start_lease_key S dest_host instance_uuid) (dumps record) (Some lease)))
       (\<lambda>created.
     if created then retM (Some record)
     else bindM (revoke_quietly S lease) (\<lambda>_. retM None))))"

definition lease_by_id :: "'k staged_store \<Rightarrow> json \<Rightarrow> ('n, 'k, json option) prog" where
  "lease_by_id S lease_id = bindM (getM (\<lambda>w. ec_leases (ss_client S) (etcd w))) (\<lambda>leases.
     if (case leases of None \<Rightarrow> False | Some ls \<Rightarrow> lease_id \<in> set ls) then retM (Some lease_id)
     else if \<not> ec_lease_class (ss_client S) then retM None else retM (Some lease_id))"

definition refresh_start_lease :: "'k staged_store \<Rightarrow> json dict \<Rightarrow> ('n, 'k, bool) prog" where
  "refresh_start_lease S lease_record =
     bindM (lease_by_id S (dget lease_record ''etcd_lease_id'')) (\<lambda>lease. case lease of
       None \<Rightarrow> retM False
     | Some l \<Rightarrow> bindM (on_etcd (ec_refresh (ss_client S) l)) (\<lambda>ttl. retM (ttl \<ge> 0)))"

definition release_start_lease :: "'k staged_store \<Rightarrow> string \<Rightarrow> string \<Rightarrow> ('n, 'k, unit) prog" where
  "release_start_lease S dest_host instance_uuid =
     (let key = start_lease_key S dest_host instance_uuid in
      bindM (get_raw (ss_client S) key) (\<lambda>raw.
      bindM (case raw of None \<Rightarrow> retM JNull
        | Some v \<Rightarrow> bindM (liftE (loads v)) (\<lambda>d. retM (dget d ''etcd_lease_id''))) (\<lambda>lease_id.
      bindM (on_etcd (ec_delete (ss_client S) key)) (\<lambda>_.
      if lease_id = JNull then retM ()
      else bindM (lease_by_id S lease_id) (\<lambda>lease. case lease of
          None \<Rightarrow> retM ()
        | Some l \<Rightarrow> revoke_quietly S l)))))"

section \<open>Operations of the store change etcd only\<close>

lemma off_etcd_frame [simp]: "off_etcd (\<lambda>t. t = w\<lparr>etcd := etcd t\<rparr>)"
proof -
  have "(t\<lparr>etcd := k\<rparr> = w\<lparr>etcd := k\<rparr>) = (t = w\<lparr>etcd := etcd t\<rparr>)" for t k
    by (cases t; cases w) auto
  then show ?thesis by (simp add: off_etcd_def)
qed

lemma pres_store_ops [pres_intros]:
  assumes "off_etcd I"
  shows "pres I (assert_available S)" "pres I (list_values S p)" "pres I (list_instance_states S n)"
    "pres I (get_instance_state S n i)" "pres I (create_or_get_instance_state S n i vs)"
    "pres I (update_instance_state S n i patch)" "pres I (transition_instance_state S n i ex st patch)"
    "pres I (mark_failed S n i e)" "pres I (get_max_parallel_starts_per_host S f)" "pres I (list_start_leases S h)"
    "pres I (create_start_lease S n i h ttl)" "pres I (release_start_lease S h i)" "pres I (list_stale_instance_states S a sts b)"
  unfolding assert_available_def list_values_def list_instance_states_def get_instance_state_def
    create_or_get_instance_state_def update_instance_state_def transition_instance_state_def mark_failed_def
    get_max_parallel_starts_per_host_def get_max_parallel_starts_per_host_with_source_def get_runtime_config_def
    list_start_leases_def create_start_lease_def release_start_lease_def list_stale_instance_states_def
    lease_by_id_def revoke_quietly_def Let_def
  by (intro pres_intros assms)+

section \<open>Keys do not collide\<close>

lemmas key_defs = instance_key_def notification_instances_prefix_def start_lease_key_def
  start_lease_prefix_def runtime_config_key_def

lemma instance_key_eq [simp]: "instance_key S a b = instance_key S c d \<longleftrightarrow> a = c \<and> b = d"
  by (simp add: key_defs)

lemma start_lease_key_eq [simp]: "start_lease_key S a b = start_lease_key S c d \<longleftrightarrow> a = c \<and> b = d"
  by (simp add: key_defs)

lemma keys_apart [simp]:
  "instance_key S a b \<noteq> start_lease_key S c d" "start_lease_key S c d \<noteq> instance_key S a b"
  "runtime_config_key S n \<noteq> instance_key S a b" "runtime_config_key S n \<noteq> start_lease_key S c d"
  by (simp_all add: key_defs)

lemma prefix_instance_key [simp]: "prefix (notification_instances_prefix S n) (instance_key S a b) \<longleftrightarrow> n = a"
  by (simp add: key_defs)

lemma prefix_start_lease_key [simp]:
  "prefix (start_lease_prefix S h) (start_lease_key S a b) \<longleftrightarrow> h = a"
  "\<not> prefix (start_lease_prefix S h) (instance_key S c d)"
  "\<not> prefix (start_lease_prefix S h) (runtime_config_key S n)"
  "\<not> prefix (notification_instances_prefix S n) (start_lease_key S a b)"
  by (auto simp: key_defs)

text \<open>Names never get mixed up: a part of a key decodes to the name it was made of, different
  notifications and instances have different keys, and the listing prefix of a notification (of a host)
  covers the keys of that notification (of the leases on that host) and of no other.\<close>

theorem staged_keys_roundtrip:
  "decode_key_part (encode_key_part s) = s \<and>
   (instance_key S n i = instance_key S n' i' \<longleftrightarrow> n = n' \<and> i = i') \<and>
   (start_lease_key S h i = start_lease_key S h' i' \<longleftrightarrow> h = h' \<and> i = i') \<and>
   (prefix (notification_instances_prefix S n) (instance_key S n' i) \<longleftrightarrow> n = n') \<and>
   (prefix (start_lease_prefix S h) (start_lease_key S h' i) \<longleftrightarrow> h = h') \<and>
   instance_key S n i \<noteq> start_lease_key S h' i' \<and> runtime_config_key S c \<noteq> instance_key S n i"
  by (simp add: decode_encode)


section \<open>Updates under interference\<close>

text \<open>What a patched record has in each field.\<close>

lemma dget_update [simp]: "dget (AList.update k v d) f = (if f = k then v else dget d f)"
  by (simp add: dget_def)

lemma dget_dict_update: "f \<notin> fst ` set p \<Longrightarrow> dget (dict_update d p) f = dget d f"
  by (simp add: dget_def map_of_dict_update map_add_def map_of_eq_None_iff [THEN iffD2])

lemma dget_transitioned:
  assumes "transitioned S expected new_step patch now current = Some new"
  shows "step_in current expected" "dget new ''step'' = JStr new_step" "dget new ''owner'' = JStr (ss_owner S)"
    "f \<notin> {''step'', ''owner'', ''updated_at''} \<union> fst ` set patch \<Longrightarrow> dget new f = dget current f"
  using assms by (auto simp: transitioned_def stamped_patch_def dget_dict_update split: if_splits)

lemma loads_dumps_dget: "\<exists>d'. loads (dumps d) = Inr d' \<and> (\<forall>f. dget d' f = sort_keys (dget d f))"
  using loads_dumps [of d] by (auto simp: dget_def split: option.splits)

text \<open>
  \<open>moved_on\<close>: at one moment after \<open>k\<close> the record under the key was in one of the expected steps, and
  \<open>new\<close>, which is that record in the new step with every field kept that the patch does not name, was
  written over it; \<open>k'\<close> is the state of etcd after that moment.
\<close>

definition moved_on ::
  "'k staged_store \<Rightarrow> ('k \<Rightarrow> string \<Rightarrow> json option) \<Rightarrow> ('k \<Rightarrow> 'k \<Rightarrow> bool) \<Rightarrow> string \<Rightarrow> string list \<Rightarrow> string
   \<Rightarrow> json dict \<Rightarrow> 'k \<Rightarrow> 'k \<Rightarrow> json dict \<Rightarrow> bool" where
  "moved_on S kv env key expected new_step patch k k' new \<longleftrightarrow>
     (\<exists>k1 raw current. env k k1 \<and> kv k1 key = Some raw \<and> loads raw = Inr current \<and>
        step_in current expected \<and> dget new ''step'' = JStr new_step \<and> dget new ''owner'' = JStr (ss_owner S) \<and>
        (\<forall>f. f \<notin> {''step'', ''owner'', ''updated_at''} \<union> fst ` set patch \<longrightarrow> dget new f = dget current f) \<and>
        kv k' = (kv k1)(key \<mapsto> dumps new))"

lemma swapped_moved_on:
  "swapped kv env key (transitioned S expected new_step patch now) new k k' \<Longrightarrow>
   moved_on S kv env key expected new_step patch k k' new"
proof (unfold swapped_def, elim exE conjE)
  fix k1 raw current
  assume a: "env k k1" "kv k1 key = Some raw" "loads raw = Inr current" "kv k' = (kv k1)(key \<mapsto> dumps new)"
    and new: "transitioned S expected new_step patch now current = Some new"
  show ?thesis unfolding moved_on_def
    by (rule exI [of _ k1], rule exI [of _ raw], rule exI [of _ current]) (simp add: a dget_transitioned [OF new])
qed

text \<open>C15. A transition is atomic, whatever other engines write to etcd between its read and its write:
  when it returns a record, that record is the one stored at that moment moved on from one of the
  expected steps, every field the patch does not name kept, and it is written in the same moment; when
  it returns nothing, nothing was written and the record stored then is in none of the expected steps;
  when it raises, either nothing was written or the whole transition was. Nothing else of the state of
  the engine changes.\<close>

theorem transition_atomic:
  assumes ok: "etcd_ok (ss_client S) kv env"
    and run: "transition_instance_state S n i expected new_step patch w = (r, w')"
  shows "w' = w\<lparr>etcd := etcd w'\<rparr> \<and>
    (let key = instance_key S n i; done = moved_on S kv env key expected new_step patch (etcd w) (etcd w')
     in case r of
       Inr (Some new) \<Rightarrow> done new
     | Inr None \<Rightarrow> env (etcd w) (etcd w') \<and>
         (\<exists>raw current. kv (etcd w') key = Some raw \<and> loads raw = Inr current \<and> \<not> step_in current expected)
     | Inl e \<Rightarrow> env (etcd w) (etcd w') \<or> (\<exists>new. done new))"
proof -
  let ?key = "instance_key S n i"
  let ?done = "moved_on S kv env ?key expected new_step patch (etcd w)"
  have "wp (transition_instance_state S n i expected new_step patch)
     (\<lambda>a t. t = w\<lparr>etcd := etcd t\<rparr> \<and> (case a of Some new \<Rightarrow> ?done (etcd t) new
        | None \<Rightarrow> env (etcd w) (etcd t) \<and>
            (\<exists>raw current. kv (etcd t) ?key = Some raw \<and> loads raw = Inr current \<and> \<not> step_in current expected)))
     (\<lambda>e t. t = w\<lparr>etcd := etcd t\<rparr> \<and> (env (etcd w) (etcd t) \<or> (\<exists>new. ?done (etcd t) new))) w"
    unfolding transition_instance_state_def Let_def
    by (rule wp_cas_loop [OF ok]) (auto simp: transitioned_def [of _ _ _ _ "clock w"] dest: swapped_moved_on split: if_splits)
  with run show ?thesis by (auto simp: wp_def Let_def split: sum.splits option.splits)
qed


text \<open>
  The contents of the store as a map from a notification and an instance to the fields of the record.
\<close>

definition staged_states ::
  "'k staged_store \<Rightarrow> ('k \<Rightarrow> string \<Rightarrow> json option) \<Rightarrow> 'k \<Rightarrow> string \<times> string \<Rightarrow> (string \<Rightarrow> json) option" where
  "staged_states S kv k = (\<lambda>(n, i). case kv k (instance_key S n i) of None \<Rightarrow> None
     | Some raw \<Rightarrow> (case loads raw of Inl _ \<Rightarrow> None | Inr d \<Rightarrow> Some (\<lambda>f. sort_keys (dget d f))))"

text \<open>The abstract update: the fields of the patch over those of the record, with its writer and time.\<close>

definition abs_update :: "string \<Rightarrow> int \<Rightarrow> json dict \<Rightarrow> (string \<Rightarrow> json) \<Rightarrow> string \<Rightarrow> json" where
  "abs_update owner now patch r = (\<lambda>f.
     if f = ''updated_at'' then (case map_of patch ''updated_at'' of None \<Rightarrow> JTime now | Some v \<Rightarrow> sort_keys v)
     else if f = ''owner'' then JStr owner
     else case map_of (rev patch) f of None \<Rightarrow> r f | Some v \<Rightarrow> sort_keys v)"

lemma sort_key_map: "sort_key fst (map (map_prod id f) d) = map (map_prod id f) (sort_key fst d)"
proof -
  have ins: "insort_key fst (map_prod id f x) (map (map_prod id f) xs) = map (map_prod id f) (insort_key fst x xs)" for x xs
    by (induction xs) (auto simp: map_prod_def split: prod.splits)
  show ?thesis by (induction d) (simp_all only: list.map sort_key_simps ins)
qed

lemma sort_keys_idem [simp]: "sort_keys (sort_keys v) = sort_keys v"
proof (induction v)
  case (JObj d)
  let ?F = "map (map_prod id sort_keys)"
  have "map_prod id sort_keys (map_prod id sort_keys x) = map_prod id sort_keys x" if "x \<in> set d" for x
    using JObj [OF that] by (cases x) (auto simp: snds.simps)
  then have idem: "?F (?F d) = ?F d" by simp
  have "sort_key fst (?F (sort_key fst (?F d))) = sort_key fst (sort_key fst (?F (?F d)))"
    by (simp only: sort_key_map)
  also have "\<dots> = sort_key fst (?F d)" by (simp only: idem sort_key_id_if_sorted sorted_sort_key)
  finally show ?case by simp
qed simp_all

lemma dget_dict_update_cases:
  "dget (dict_update d p) f = (case map_of (rev p) f of None \<Rightarrow> dget d f | Some v \<Rightarrow> v)"
  by (simp add: dget_def map_of_dict_update map_add_def split: option.split)

lemma updated_abs:
  assumes "updated S patch now current = Some new" and "loads (dumps new) = Inr d"
  shows "(\<lambda>f. sort_keys (dget d f)) = abs_update (ss_owner S) now patch (\<lambda>f. sort_keys (dget current f))"
proof
  fix f
  have "sort_keys (dget d f) = sort_keys (dget new f)" using loads_dumps_dget [of new] assms(2) by auto
  moreover have "dget new f = (if f = ''updated_at'' then (case map_of patch ''updated_at'' of None \<Rightarrow> JTime now | Some v \<Rightarrow> v)
      else if f = ''owner'' then JStr (ss_owner S) else case map_of (rev patch) f of None \<Rightarrow> dget current f | Some v \<Rightarrow> v)"
    using assms(1) [symmetric] by (simp add: updated_def stamped_patch_def dget_dict_update_cases)
  ultimately show "sort_keys (dget d f) = abs_update (ss_owner S) now patch (\<lambda>f. sort_keys (dget current f)) f"
    by (simp add: abs_update_def split: option.split)
qed

text \<open>C16. Refinement: with etcd answering and nobody else writing, an update of a stored record returns it
  in the first attempt, and on the map from notifications and instances to records the store is, it is
  the update of that one entry; an entry that is not there raises \<open>StateNotFound\<close> and changes nothing.\<close>

theorem update_refines:
  assumes quiet: "etcd_quiet (ss_client S) kv env"
    and stored: "\<forall>raw. kv (etcd w) (instance_key S n i) = Some raw \<longrightarrow> (\<exists>d. loads raw = Inr d)"
    and run: "update_instance_state S n i patch w = (r, w')"
  shows "w' = w\<lparr>etcd := etcd w'\<rparr> \<and> (case staged_states S kv (etcd w) (n, i) of
      None \<Rightarrow> r = Inl (mk_StateNotFound (instance_key S n i)) \<and> kv (etcd w') = kv (etcd w)
    | Some a \<Rightarrow> (\<exists>new. r = Inr new) \<and> staged_states S kv (etcd w') =
        (staged_states S kv (etcd w))((n, i) \<mapsto> abs_update (ss_owner S) (clock w) patch a))"
proof (cases "kv (etcd w) (instance_key S n i)")
  case None
  obtain k where "get_raw (ss_client S) (instance_key S n i) w = (Inr None, w\<lparr>etcd := k\<rparr>)" "kv k = kv (etcd w)"
    using get_raw_quiet [OF quiet, of "instance_key S n i" w] None by metis
  then show ?thesis using run None
    by (auto simp: update_instance_state_def MAX_CAS_RETRIES_def eval_nat_numeral bindM_def [of "cas_loop E key m c n" for E key m c n]
      cas_loop_missing Let_def liftE_def raiseM_def staged_states_def simp del: cas_loop.simps)
next
  case (Some raw)
  then obtain current where current: "loads raw = Inr current" using stored by blast
  let ?key = "instance_key S n i"
  obtain new where new: "updated S patch (clock w) current = Some new" by (simp add: updated_def)
  obtain k where run': "cas_loop (ss_client S) ?key (Inl (mk_StateNotFound ?key)) (updated S patch) (Suc 7) w = (Inr (Some new), w\<lparr>etcd := k\<rparr>)"
    and k: "kv k = (kv (etcd w))(?key \<mapsto> dumps new)"
    by (rule cas_loop_quiet [where change = "updated S patch", OF quiet Some current new])
  have "r = Inr new" "w' = w\<lparr>etcd := k\<rparr>"
    using run run' by (simp_all add: update_instance_state_def MAX_CAS_RETRIES_def bindM_def retM_def Let_def)
  moreover obtain d where d: "loads (dumps new) = Inr d" using loads_dumps by blast
  have "staged_states S kv k = (staged_states S kv (etcd w))((n, i) \<mapsto>
      abs_update (ss_owner S) (clock w) patch (\<lambda>f. sort_keys (dget current f)))"
    using k d updated_abs [OF new d] by (auto simp: staged_states_def fun_eq_iff)
  ultimately show ?thesis using Some current by (simp add: staged_states_def)
qed


text \<open>Creating a record never overwrites one: either there was none, and the new one, with the given
  values over the defaults, is stored and returned, or nothing is written and the stored one is
  returned; after an exception the stored record is the old one or the new one in an empty place.\<close>

theorem create_or_get_spec:
  assumes ok: "etcd_ok (ss_client S) kv env"
    and run: "create_or_get_instance_state S n i values w = (r, w')"
  shows "w' = w\<lparr>etcd := etcd w'\<rparr> \<and>
    (let key = instance_key S n i; created = (\<exists>k1. env (etcd w) k1 \<and> kv k1 key = None \<and>
           kv (etcd w') = (kv k1)(key \<mapsto> dumps (base_state S (clock w) n i values)))
     in case r of
       Inr d \<Rightarrow> (created \<and> d = base_state S (clock w) n i values) \<or>
         (env (etcd w) (etcd w') \<and> (\<exists>raw. kv (etcd w') key = Some raw \<and> loads raw = Inr d))
     | Inl e \<Rightarrow> env (etcd w) (etcd w') \<or> created)"
proof -
  let ?key = "instance_key S n i" and ?new = "base_state S (clock w) n i values"
  let ?created = "\<lambda>k'. \<exists>k1. env (etcd w) k1 \<and> kv k1 ?key = None \<and> kv k' = (kv k1)(?key \<mapsto> dumps ?new)"
  note env = etcd_env_trans [OF ok]
  let ?Q = "\<lambda>d t. t = w\<lparr>etcd := etcd t\<rparr> \<and> ((?created (etcd t) \<and> d = ?new) \<or>
     (env (etcd w) (etcd t) \<and> (\<exists>raw. kv (etcd t) ?key = Some raw \<and> loads raw = Inr d)))"
  let ?X = "\<lambda>e t. t = w\<lparr>etcd := etcd t\<rparr> \<and> (env (etcd w) (etcd t) \<or> ?created (etcd t))"
  have found: "wp (bindM (get_raw (ss_client S) ?key) (\<lambda>raw. case raw of
      None \<Rightarrow> raiseM (mk_StateNotFound ?key) | Some v \<Rightarrow> liftE (loads v))) ?Q ?X (w\<lparr>etcd := k\<rparr>)"
    if "env (etcd w) k" for k
    unfolding wp_bindM
    by (rule wp_get_raw [OF ok]) (use env [OF that] in \<open>auto simp: wp_raiseM wp_liftE split: option.split sum.split\<close>)
  have "wp (create_or_get_instance_state S n i values) ?Q ?X w"
    unfolding create_or_get_instance_state_def Let_def wp_bindM [of utcnow] wp_utcnow
      wp_bindM [of "on_etcd m" for m] wp_on_etcd
    by (rule wp_writes [OF etcd_create [OF ok]]) (use found in \<open>auto simp: wp_retM\<close>)
  with run show ?thesis by (auto simp: wp_def Let_def split: sum.splits)
qed

section \<open>The limit of parallel starts\<close>

lemma validate_positive: "validate_positive_int v name = Inr i \<Longrightarrow> py_int v = Some i \<and> i \<ge> 1"
  by (auto simp: validate_positive_int_def split: option.splits if_splits)

lemma flat_sort_keys: "flat v \<Longrightarrow> sort_keys v = v"
  by (simp add: flat_def)

text \<open>The limit that is in force: the one set at run time, or else the configured one.\<close>

definition limit_in_force ::
  "'k staged_store \<Rightarrow> ('k \<Rightarrow> string \<Rightarrow> json option) \<Rightarrow> 'k \<Rightarrow> json \<Rightarrow> exc + int" where
  "limit_in_force S kv k fallback =
     (case kv k (runtime_config_key S CONFIG_MAX_PARALLEL_STARTS_PER_HOST) of
        None \<Rightarrow> validate_positive_int fallback CONFIG_MAX_PARALLEL_STARTS_PER_HOST
      | Some raw \<Rightarrow> (case loads raw of Inl e \<Rightarrow> Inl e
          | Inr d \<Rightarrow> validate_positive_int (dget d ''value'') CONFIG_MAX_PARALLEL_STARTS_PER_HOST))"

lemma wp_get_max_parallel:
  assumes ok: "etcd_ok (ss_client S) kv env"
    and "\<And>i k. env (etcd w) k \<Longrightarrow> limit_in_force S kv k fallback = Inr i \<Longrightarrow> Q i (w\<lparr>etcd := k\<rparr>)"
    and "\<And>e k. env (etcd w) k \<Longrightarrow> X e (w\<lparr>etcd := k\<rparr>)"
  shows "wp (get_max_parallel_starts_per_host S fallback) Q X w"
  unfolding get_max_parallel_starts_per_host_def get_max_parallel_starts_per_host_with_source_def
    get_runtime_config_def wp_bindM
  by (rule wp_get_raw [OF ok])
    (use assms(2,3) in \<open>auto simp: wp_simps limit_in_force_def split: option.split sum.split\<close>)

lemma get_max_parallel_quiet:
  assumes "etcd_quiet (ss_client S) kv env"
  obtains k where "get_max_parallel_starts_per_host S fallback w = (limit_in_force S kv (etcd w) fallback, w\<lparr>etcd := k\<rparr>)"
    "kv k = kv (etcd w)"
proof -
  obtain k where "get_raw (ss_client S) (runtime_config_key S CONFIG_MAX_PARALLEL_STARTS_PER_HOST) w =
      (Inr (kv (etcd w) (runtime_config_key S CONFIG_MAX_PARALLEL_STARTS_PER_HOST)), w\<lparr>etcd := k\<rparr>)"
    and k: "kv k = kv (etcd w)" by (rule get_raw_quiet [OF assms])
  then have "get_max_parallel_starts_per_host S fallback w = (limit_in_force S kv (etcd w) fallback, w\<lparr>etcd := k\<rparr>)"
    by (auto simp: get_max_parallel_starts_per_host_def get_max_parallel_starts_per_host_with_source_def
      get_runtime_config_def limit_in_force_def bindM_def liftE_def retM_def raiseM_def split: option.split sum.split)
  with k that show ?thesis by blast
qed

text \<open>Whatever is stored or configured, the limit of parallel starts the limiter works with is a positive
  number, the one set at run time where one is set; setting it rejects everything else before writing,
  and what was set is what is read back.\<close>

lemma max_parallel_starts_bounds:
  assumes quiet: "etcd_quiet (ss_client S) kv env"
    and set: "set_max_parallel_starts_per_host S v w = (r, w')"
    and get: "get_max_parallel_starts_per_host S fallback w' = (r', w'')"
  shows "(case r' of Inr i \<Rightarrow> i \<ge> 1 \<and> limit_in_force S kv (etcd w') fallback = Inr i | Inl _ \<Rightarrow> True) \<and>
    (case r of Inr i \<Rightarrow> py_int v = Some i \<and> r' = Inr i
     | Inl e \<Rightarrow> (\<exists>i. py_int v = Some i \<and> i \<ge> 1) \<or> w' = w \<and> cls_of e = InvalidInput)"
proof -
  let ?key = "runtime_config_key S CONFIG_MAX_PARALLEL_STARTS_PER_HOST"
  have ok: "etcd_ok (ss_client S) kv env" 
    using quiet unfolding etcd_quiet_def by blast
  have pos: "limit_in_force S kv k fallback = Inr i \<Longrightarrow> i \<ge> 1" for k i
    by (auto simp: limit_in_force_def dest: validate_positive split: option.splits sum.splits)
  have r': "r' = limit_in_force S kv (etcd w') fallback"
    using get_max_parallel_quiet [OF quiet, of fallback w'] get by (metis fst_conv)
  show ?thesis
  proof (cases "validate_positive_int v CONFIG_MAX_PARALLEL_STARTS_PER_HOST")
    case (Inl e)
    then have "r = Inl e" "w' = w" using set by (auto simp: set_max_parallel_starts_per_host_def bindM_def liftE_def raiseM_def)
    moreover have "(\<exists>i. py_int v = Some i \<and> i \<ge> 1) \<or> cls_of e = InvalidInput"
      using Inl by (auto simp: validate_positive_int_def mk_InvalidInput_def split: option.splits if_splits)
    ultimately show ?thesis using r' pos by (auto split: sum.splits)
  next
    case (Inr i)
    let ?rec = "[(''schema_version'', JInt 1), (''name'', JStr CONFIG_MAX_PARALLEL_STARTS_PER_HOST), (''value'', JInt i),
       (''owner'', JStr (ss_owner S)), (''updated_at'', JTime (clock w))]"
    obtain d where d: "loads (dumps ?rec) = Inr d" and "\<forall>f. dget d f = sort_keys (dget ?rec f)"
      using loads_dumps_dget by blast
    then have val: "dget d ''value'' = JInt i" by (simp add: dget_def)
    have "wp (set_max_parallel_starts_per_host S v) (\<lambda>j t. j = i \<and> kv (etcd t) ?key = Some (dumps ?rec)) (\<lambda>_ _. True) w"
      unfolding set_max_parallel_starts_per_host_def set_runtime_config_def wp_bindM Inr wp_liftE wp_utcnow Let_def wp_on_etcd
      by (simp add: wp_retM, rule wp_writes [OF etcd_put [OF ok]]) auto
    then have r: "case r of Inr j \<Rightarrow> j = i \<and> kv (etcd w') ?key = Some (dumps ?rec) | Inl _ \<Rightarrow> True"
      using set by (simp add: wp_def split: sum.splits)
    have "r' = Inr i" if "r = Inr j" for j
      using r that d val Inr r' by (auto simp: limit_in_force_def validate_positive_int_def py_int_def split: option.splits if_splits)
    then show ?thesis using r r' pos validate_positive [OF Inr] by (auto split: sum.splits)
  qed
qed


section \<open>Concrete runs\<close>

text \<open>
  A store with the record of one instance in \<open>EVACUATING\<close>; before the second request another engine
  writes an attempt count into the record, so that the first replacement fails.
\<close>

definition demo_record :: "int \<Rightarrow> json dict" where
  "demo_record attempt = [(''step'', JStr STEP_EVACUATING), (''attempt'', JInt attempt), (''original_vm_state'', JStr ''active'')]"

definition demo_store :: "etcd_state etcd_client \<Rightarrow> etcd_state staged_store" where
  "demo_store E = make_store demo_conf ''engine-1'' E"

definition demo_key :: string where
  "demo_key = ''/masakari/staged-recovery/notifications/n/instances/i1''"

definition demo_staged :: "(string \<times> json option) list \<Rightarrow> (nova_state, etcd_state) world" where
  "demo_staged others = demo_world demo_servers (demo_etcd_state [(demo_key, dumps (demo_record 0))] others)"

definition demo_race :: "(string \<times> json option) list" where
  "demo_race = [(''other'', None), (demo_key, Some (dumps (demo_record 1)))]"

lemma transition_atomic_witness:
  "\<exists>w' new. transition_instance_state (demo_store demo_etcd) ''n'' ''i1'' [STEP_EVACUATING] STEP_ACTIVE []
      (demo_staged demo_race) = (Inr (Some new), w') \<and> dget new ''attempt'' = JInt 1 \<and>
      moved_on (demo_store demo_etcd) es_kv (es_env es_step) (instance_key (demo_store demo_etcd) ''n'' ''i1'')
        [STEP_EVACUATING] STEP_ACTIVE [] (etcd (demo_staged demo_race)) (etcd w') new"
proof -
  let ?run = "transition_instance_state (demo_store demo_etcd) ''n'' ''i1'' [STEP_EVACUATING] STEP_ACTIVE []
      (demo_staged demo_race)"
  have "(case fst ?run of Inr (Some new) \<Rightarrow> dget new ''attempt'' = JInt 1 | _ \<Rightarrow> False)" by code_simp
  then obtain new w' where "?run = (Inr (Some new), w')" "dget new ''attempt'' = JInt 1"
    by (cases ?run) (auto split: sum.splits option.splits)
  with transition_atomic [of "demo_store demo_etcd" es_kv "es_env es_step" "''n''" "''i1''" "[STEP_EVACUATING]" STEP_ACTIVE "[]"
    "demo_staged demo_race" "Inr (Some new)" w'] show ?thesis
    by (auto simp: demo_store_def make_store_def demo_etcd_ok Let_def)
qed

lemma demo_quiet: "etcd_quiet (ss_client (demo_store quiet_etcd)) es_kv (es_env id)"
  by (simp add: demo_store_def make_store_def quiet_etcd_ok)

lemma update_refines_witness:
  "\<exists>w' new. update_instance_state (demo_store quiet_etcd) ''n'' ''i1'' [(''step'', JStr STEP_ACTIVE)] (demo_staged []) = (Inr new, w')"
proof -
  have key: "instance_key (demo_store quiet_etcd) ''n'' ''i1'' = demo_key" by code_simp
  have stored: "es_kv (etcd (demo_staged [])) demo_key = Some (dumps (demo_record 0))"
    by (simp add: demo_staged_def demo_world_def demo_etcd_state_def es_kv_def)
  obtain d where d: "loads (dumps (demo_record 0)) = Inr d" using loads_dumps by blast
  obtain r w' where run: "update_instance_state (demo_store quiet_etcd) ''n'' ''i1'' [(''step'', JStr STEP_ACTIVE)] (demo_staged []) = (r, w')"
    by fastforce
  from update_refines [OF demo_quiet _ run] key stored d run show ?thesis by (auto simp: staged_states_def)
qed

end
