(* ===== verification/Masakari_StagedTasks.thy ===== *)
theory Masakari_StagedTasks
  imports Masakari_StagedState Masakari_HostFailure
begin

text \<open>
  The staged recovery of a failed host: \<open>staged_limiter.py\<close>, which hands out the slots an instance
  needs to be started on its new host, and \<open>staged_host_failure.py\<close>, the three tasks that reconcile
  the state in etcd with Nova, evacuate the instances into the stopped state, and start them in
  batches. Green threads run one after the other as in \<open>Masakari_HostFailure\<close>.
\<close>

section \<open>The limiter\<close>

text \<open>
  \<open>lm_others\<close> is what the other engines do to etcd while this one sleeps between two attempts; a
  lock of the coordinator keeps them from changing the leases of a host while it is held.
\<close>

record 'k start_limiter =
  lm_store :: "'k staged_store"
  lm_configured_max_parallel :: int
  lm_ttl :: int
  lm_lockable :: bool
  lm_others :: "'k \<Rightarrow> 'k"

record start_slot =
  sl_notification_uuid :: json
  sl_instance_uuid :: json
  sl_dest_host :: json
  sl_lease_id :: json

definition validate_ttl :: "conf \<Rightarrow> int \<Rightarrow> exc + unit" where
  "validate_ttl C ttl = (let minimum = start_timeout C + batch_delay C in
     if ttl < minimum
     then Inl (mk_InvalidInput ''[staged_recovery] slot_lease_ttl must be greater than or equal to start_timeout + batch_delay'')
     else Inr ())"

definition EtcdStartLimiter :: "conf \<Rightarrow> 'k staged_store \<Rightarrow> ('k \<Rightarrow> 'k) \<Rightarrow> exc + 'k start_limiter" where
  "EtcdStartLimiter C S others = (case validate_ttl C (slot_lease_ttl C) of Inl e \<Rightarrow> Inl e
     | Inr _ \<Rightarrow> Inr \<lparr>lm_store = S, lm_configured_max_parallel = max_parallel_starts_per_host C,
         lm_ttl = slot_lease_ttl C, lm_lockable = coordination_configured C, lm_others = others\<rparr>)"

definition from_record :: "json dict \<Rightarrow> start_slot" where
  "from_record record = \<lparr>sl_notification_uuid = dget record ''notification_uuid'',
     sl_instance_uuid = dget record ''instance_uuid'', sl_dest_host = dget record ''dest_host'',
     sl_lease_id = dget record ''etcd_lease_id''\<rparr>"

text \<open>One attempt, made under the lock of the host.\<close>

definition try_acquire ::
  "'k start_limiter \<Rightarrow> string \<Rightarrow> string \<Rightarrow> string \<Rightarrow> ('n, 'k, start_slot option) prog" where
  "try_acquire M notification_uuid instance_uuid dest_host =
     bindM (list_start_leases (lm_store M) dest_host) (\<lambda>live.
     bindM (get_max_parallel_starts_per_host (lm_store M) (JInt (lm_configured_max_parallel M))) (\<lambda>limit.
     if int (length live) < limit
     then bindM (create_start_lease (lm_store M) notification_uuid instance_uuid dest_host (lm_ttl M)) (\<lambda>record.
          case record of None \<Rightarrow> retM None | Some r \<Rightarrow> retM (Some (from_record r)))
     else retM None))"

text \<open>The loop without an end: \<open>None\<close> when \<open>n\<close> attempts were not enough.\<close>

primrec acquire ::
  "'k start_limiter \<Rightarrow> string \<Rightarrow> string \<Rightarrow> string \<Rightarrow> nat \<Rightarrow> ('n, 'k, start_slot option) prog" where
  "acquire M notification_uuid instance_uuid dest_host 0 = retM None"
| "acquire M notification_uuid instance_uuid dest_host (Suc n) =
     (if \<not> lm_lockable M then raiseM (Exc MasakariException ''An unknown exception occurred.'')
      else bindM (try_acquire M notification_uuid instance_uuid dest_host) (\<lambda>slot. case slot of
          Some s \<Rightarrow> retM (Some s)
        | None \<Rightarrow> bindM (modM (\<lambda>w. w\<lparr>etcd := lm_others M (etcd w)\<rparr>)) (\<lambda>_.
            acquire M notification_uuid instance_uuid dest_host n)))"

text \<open>The names in a slot are the strings the limiter was called with.\<close>

definition json_str :: "json \<Rightarrow> string" where
  "json_str v = (case v of JStr s \<Rightarrow> s | _ \<Rightarrow> '''')"

definition release :: "'k start_limiter \<Rightarrow> start_slot \<Rightarrow> ('n, 'k, unit) prog" where
  "release M slot = release_start_lease (lm_store M) (json_str (sl_dest_host slot)) (json_str (sl_instance_uuid slot))"

section \<open>The number of leases on a host\<close>

definition lease_keys :: "'k staged_store \<Rightarrow> ('k \<Rightarrow> string \<Rightarrow> json option) \<Rightarrow> string \<Rightarrow> 'k \<Rightarrow> string set" where
  "lease_keys S kv h k = {key. prefix (start_lease_prefix S h) key \<and> kv k key \<noteq> None}"

text \<open>While the lock of the host is held, nobody else adds a lease on it.\<close>

definition locked :: "'k staged_store \<Rightarrow> ('k \<Rightarrow> string \<Rightarrow> json option) \<Rightarrow> ('k \<Rightarrow> 'k \<Rightarrow> bool) \<Rightarrow> string \<Rightarrow> bool" where
  "locked S kv env h \<longleftrightarrow> (\<forall>k k'. env k k' \<longrightarrow> lease_keys S kv h k' \<subseteq> lease_keys S kv h k)"

text \<open>At most \<open>n\<close> leases.\<close>

definition at_most :: "'k staged_store \<Rightarrow> ('k \<Rightarrow> string \<Rightarrow> json option) \<Rightarrow> string \<Rightarrow> nat \<Rightarrow> 'k \<Rightarrow> bool" where
  "at_most S kv h n k \<longleftrightarrow> finite (lease_keys S kv h k) \<and> card (lease_keys S kv h k) \<le> n"

lemma at_most_mono: "at_most S kv h m k \<Longrightarrow> lease_keys S kv h k' \<subseteq> lease_keys S kv h k \<Longrightarrow> m \<le> n \<Longrightarrow> at_most S kv h n k'"
proof -
  assume "at_most S kv h m k" and sub: "lease_keys S kv h k' \<subseteq> lease_keys S kv h k" and "m \<le> n"
  then have "finite (lease_keys S kv h k)" "card (lease_keys S kv h k) \<le> n" by (simp_all add: at_most_def)
  with finite_subset [OF sub] card_mono [OF _ sub] show ?thesis by (simp add: at_most_def)
qed

lemma at_most_env: "locked S kv env h \<Longrightarrow> env k k' \<Longrightarrow> at_most S kv h n k \<Longrightarrow> at_most S kv h n k'"
  unfolding locked_def by (meson at_most_mono order_refl)

lemma at_most_add:
  "kv k' = (kv k)(key \<mapsto> v) \<Longrightarrow> at_most S kv h n k \<Longrightarrow> at_most S kv h (Suc n) k'"
proof -
  assume k': "kv k' = (kv k)(key \<mapsto> v)" and n: "at_most S kv h n k"
  have sub: "lease_keys S kv h k' \<subseteq> insert key (lease_keys S kv h k)"
    using k' by (auto simp: lease_keys_def)
  have fin: "finite (insert key (lease_keys S kv h k))" using n by (simp add: at_most_def)
  have "card (insert key (lease_keys S kv h k)) \<le> Suc n"
    using n by (cases "key \<in> lease_keys S kv h k") (simp_all add: at_most_def insert_absorb)
  then show ?thesis using finite_subset [OF sub fin] card_mono [OF fin sub] by (simp add: at_most_def)
qed


lemma wp_list_values:
  assumes ok: "etcd_ok (ss_client S) kv env"
    and res: "\<And>ds keys k. env (etcd w) k \<Longrightarrow> distinct keys \<Longrightarrow> set keys = {key. prefix p key \<and> kv k key \<noteq> None} \<Longrightarrow>
        mapE loads (map (\<lambda>key. the (kv k key)) keys) = Inr ds \<Longrightarrow> Q ds (w\<lparr>etcd := k\<rparr>)"
    and exc: "\<And>e k. env (etcd w) k \<Longrightarrow> X e (w\<lparr>etcd := k\<rparr>)"
  shows "wp (list_values S p) Q X w"
  unfolding list_values_def wp_bindM wp_on_etcd wp_liftE
  by (rule wp_reads [OF etcd_prefix_reads [OF ok, of p]]) (use res exc in \<open>auto split: sum.split\<close>)

text \<open>
  \<open>capped\<close>: there are at most \<open>m\<close> leases on the host, and neither the limit in force nor the
  configured one is above \<open>m\<close>.
\<close>

definition capped ::
  "'k start_limiter \<Rightarrow> ('k \<Rightarrow> string \<Rightarrow> json option) \<Rightarrow> string \<Rightarrow> nat \<Rightarrow> 'k \<Rightarrow> bool" where
  "capped M kv h m k \<longleftrightarrow> at_most (lm_store M) kv h m k \<and> lm_configured_max_parallel M \<le> int m \<and>
     (\<forall>i. limit_in_force (lm_store M) kv k (JInt (lm_configured_max_parallel M)) = Inr i \<longrightarrow> i \<le> int m)"

definition keeps_limit :: "'k staged_store \<Rightarrow> ('k \<Rightarrow> string \<Rightarrow> json option) \<Rightarrow> ('k \<Rightarrow> 'k \<Rightarrow> bool) \<Rightarrow> bool" where
  "keeps_limit S kv env \<longleftrightarrow> (\<forall>k k'. env k k' \<longrightarrow>
     kv k' (runtime_config_key S CONFIG_MAX_PARALLEL_STARTS_PER_HOST) = kv k (runtime_config_key S CONFIG_MAX_PARALLEL_STARTS_PER_HOST))"

lemma capped_env:
  "locked (lm_store M) kv env h \<Longrightarrow> keeps_limit (lm_store M) kv env \<Longrightarrow> env k k' \<Longrightarrow> capped M kv h m k \<Longrightarrow> capped M kv h m k'"
  by (auto simp: capped_def keeps_limit_def limit_in_force_def intro: at_most_env)

lemma wp_create_start_lease:
  assumes ok: "etcd_ok (ss_client S) kv env"
    and made: "\<And>record k k'. env (etcd w) k \<Longrightarrow> kv k (start_lease_key S h i) = None \<Longrightarrow>
        kv k' = (kv k)(start_lease_key S h i \<mapsto> dumps record) \<Longrightarrow> dget record ''dest_host'' = JStr h \<Longrightarrow>
        dget record ''instance_uuid'' = JStr i \<Longrightarrow> Q (Some record) (w\<lparr>etcd := k'\<rparr>)"
    and none: "\<And>k k'. env (etcd w) k \<Longrightarrow> kv k' \<subseteq>\<^sub>m kv k \<Longrightarrow> Q None (w\<lparr>etcd := k'\<rparr>)"
    and exc: "\<And>e k. env (etcd w) k \<Longrightarrow> X e (w\<lparr>etcd := k\<rparr>)"
    and unsure: "\<And>e v k k'. env (etcd w) k \<Longrightarrow> kv k (start_lease_key S h i) = None \<Longrightarrow>
        kv k' = (kv k)(start_lease_key S h i \<mapsto> v) \<Longrightarrow> X e (w\<lparr>etcd := k'\<rparr>)"
  shows "wp (create_start_lease S n i h ttl) Q X w"
proof -
  note trans = etcd_env_trans [OF ok]
  have revoke: "wp (revoke_quietly S l) (\<lambda>_. Q None) X (w\<lparr>etcd := k\<rparr>)" if k: "env (etcd w) k" for l k
  proof -
    obtain r k' where run: "ec_revoke (ss_client S) l k = (r, k')" by fastforce
    from etcd_revoke [OF ok this] obtain k1 where "env k k1" "kv k' \<subseteq>\<^sub>m kv k1" by blast
    then have "Q None (w\<lparr>etcd := k'\<rparr>)" using none trans k by blast
    with run show ?thesis by (simp add: revoke_quietly_def wp_tryM wp_on_etcd wp_retM wp_def split: sum.split)
  qed
  show ?thesis
    unfolding create_start_lease_def wp_bindM [of "on_etcd m" for m] wp_on_etcd wp_bindM [of utcnow] wp_utcnow Let_def
  proof (rule wp_reads [OF etcd_lease [OF ok]])
    fix l k1 assume k1: "env (etcd w) k1"
    let ?rec = "[(''schema_version'', JInt 1), (''notification_uuid'', JStr n),
       (''instance_uuid'', JStr i), (''dest_host'', JStr h), (''owner'', JStr (ss_owner S)),
       (''etcd_lease_id'', l), (''created_at'', JTime (clock (w\<lparr>etcd := k1\<rparr>))), (''expires_at'', JTime (clock (w\<lparr>etcd := k1\<rparr>) + ttl))]"
    have rec: "dget ?rec ''dest_host'' = JStr h" "dget ?rec ''instance_uuid'' = JStr i" by (simp_all add: dget_def)
    show "wp (ec_create (ss_client S) (start_lease_key S h i) (dumps ?rec) (Some l))
       (\<lambda>a k. wp (if a then retM (Some ?rec) else bindM (revoke_quietly S l) (\<lambda>_. retM None)) Q X (w\<lparr>etcd := k1, etcd := k\<rparr>))
       (\<lambda>e k. X e (w\<lparr>etcd := k1, etcd := k\<rparr>)) (etcd (w\<lparr>etcd := k1\<rparr>))"
      by (rule wp_writes [OF etcd_create [OF ok]])
        (use made [OF trans [OF k1], OF _ _ _ rec] revoke [OF trans [OF k1]] exc [OF trans [OF k1]] unsure [OF trans [OF k1]]
          in \<open>auto simp: wp_retM wp_bindM\<close>)
  qed (rule exc)
qed


lemma capped_add:
  assumes "at_most (lm_store M) kv h n k" and "Suc n \<le> m" and "capped M kv h m k"
    and k': "kv k' = (kv k)(start_lease_key (lm_store M) h i \<mapsto> v)"
  shows "capped M kv h m k'"
proof -
  have "at_most (lm_store M) kv h m k'"
    by (rule at_most_mono [OF at_most_add [of kv k' k, OF k' assms(1)] order_refl assms(2)])
  then show ?thesis using assms(3) k' by (auto simp: capped_def limit_in_force_def)
qed

lemma capped_sub:
  assumes "capped M kv h m k" and sub: "kv k' \<subseteq>\<^sub>m kv k"
  shows "capped M kv h m k'"
proof -
  let ?key = "runtime_config_key (lm_store M) CONFIG_MAX_PARALLEL_STARTS_PER_HOST"
  have "lease_keys (lm_store M) kv h k' \<subseteq> lease_keys (lm_store M) kv h k"
    using sub by (fastforce simp: lease_keys_def map_le_def dom_def)
  then have "at_most (lm_store M) kv h m k'"
    using assms(1) unfolding capped_def by (meson at_most_mono order_refl)
  moreover have "i \<le> int m"
    if i: "limit_in_force (lm_store M) kv k' (JInt (lm_configured_max_parallel M)) = Inr i" for i
  proof (cases "kv k' ?key")
    case None
    then have "i = lm_configured_max_parallel M"
      using i by (auto simp: limit_in_force_def py_int_def dest: validate_positive)
    then show ?thesis using assms(1) by (simp add: capped_def)
  next
    case (Some raw)
    then have "kv k ?key = Some raw" using sub by (auto simp: map_le_def dom_def)
    then show ?thesis using assms(1) i Some by (simp add: capped_def limit_in_force_def)
  qed
  ultimately show ?thesis using assms(1) unfolding capped_def by simp
qed

lemma wp_try_acquire:
  assumes ok: "etcd_ok (ss_client (lm_store M)) kv env" and lock: "locked (lm_store M) kv env h"
    and keep: "keeps_limit (lm_store M) kv env" and cap: "capped M kv h m (etcd w)"
  shows "wp (try_acquire M n i h)
     (\<lambda>r t. t = w\<lparr>etcd := etcd t\<rparr> \<and> capped M kv h m (etcd t) \<and>
        (\<forall>s. r = Some s \<longrightarrow> sl_dest_host s = JStr h \<and> sl_instance_uuid s = JStr i))
     (\<lambda>_ t. t = w\<lparr>etcd := etcd t\<rparr> \<and> capped M kv h m (etcd t)) w"
proof -
  let ?S = "lm_store M"
  let ?Q = "\<lambda>r t. t = w\<lparr>etcd := etcd t\<rparr> \<and> capped M kv h m (etcd t) \<and>
     (\<forall>s. r = Some s \<longrightarrow> sl_dest_host s = JStr h \<and> sl_instance_uuid s = JStr i)"
  let ?X = "\<lambda>(_ :: exc) t. t = w\<lparr>etcd := etcd t\<rparr> \<and> capped M kv h m (etcd t)"
  note trans = etcd_env_trans [OF ok] and caps = capped_env [OF lock keep]
  have create: "wp (bindM (create_start_lease ?S n i h (lm_ttl M)) (\<lambda>record. case record of
      None \<Rightarrow> retM None | Some r \<Rightarrow> retM (Some (from_record r)))) ?Q ?X (w\<lparr>etcd := k\<rparr>)"
    if k: "capped M kv h m k" "at_most ?S kv h c k" "Suc c \<le> m" for k c
  proof -
    have add: "capped M kv h m k2" if "env k k1" "kv k2 = (kv k1)(start_lease_key ?S h i \<mapsto> v)" for k1 k2 v
      by (rule capped_add [OF at_most_env [OF lock that(1) k(2)] k(3) caps [OF that(1) k(1)] that(2)])
    have sub: "capped M kv h m k2" if "env k k1" "kv k2 \<subseteq>\<^sub>m kv k1" for k1 k2
      by (rule capped_sub [OF caps [OF that(1) k(1)] that(2)])
    show ?thesis
      unfolding wp_bindM
      by (rule wp_create_start_lease [OF ok]) (auto simp: wp_retM from_record_def intro: add sub caps [OF _ k(1)])
  qed
  show ?thesis
    unfolding try_acquire_def list_start_leases_def wp_bindM [of "list_values S p" for S p]
  proof (rule wp_list_values [OF ok])
    fix ds keys k1
    assume k1: "env (etcd w) k1" and keys: "distinct keys" "set keys = {key. prefix (start_lease_prefix ?S h) key \<and> kv k1 key \<noteq> None}"
      and ds: "mapE loads (map (\<lambda>key. the (kv k1 key)) keys) = Inr ds"
    have len: "at_most ?S kv h (length ds) k1"
      using keys mapE_length [OF ds] distinct_card [OF keys(1)] finite_set [of keys] by (simp add: at_most_def lease_keys_def)
    show "wp (bindM (get_max_parallel_starts_per_host ?S (JInt (lm_configured_max_parallel M))) (\<lambda>limit.
       if int (length ds) < limit
       then bindM (create_start_lease ?S n i h (lm_ttl M)) (\<lambda>record. case record of None \<Rightarrow> retM None | Some r \<Rightarrow> retM (Some (from_record r)))
       else retM None)) ?Q ?X (w\<lparr>etcd := k1\<rparr>)"
      unfolding wp_bindM [of "get_max_parallel_starts_per_host S f" for S f]
    proof (rule wp_get_max_parallel [OF ok])
      fix limit k2 assume k2: "env (etcd (w\<lparr>etcd := k1\<rparr>)) k2"
        and limit: "limit_in_force ?S kv k2 (JInt (lm_configured_max_parallel M)) = Inr limit"
      have cap2: "capped M kv h m k2" using caps [OF trans [OF k1] cap] k2 by simp
      then have "limit \<le> int m" using limit by (simp add: capped_def)
      moreover have "at_most ?S kv h (length ds) k2" using at_most_env [OF lock _ len] k2 by simp
      ultimately show "wp (if int (length ds) < limit
         then bindM (create_start_lease ?S n i h (lm_ttl M)) (\<lambda>record. case record of None \<Rightarrow> retM None | Some r \<Rightarrow> retM (Some (from_record r)))
         else retM None) ?Q ?X (w\<lparr>etcd := k1, etcd := k2\<rparr>)"
        using create [OF cap2] cap2 by (simp add: wp_retM)
    next
      fix e k2 assume "env (etcd (w\<lparr>etcd := k1\<rparr>)) k2"
      then show "?X e (w\<lparr>etcd := k1, etcd := k2\<rparr>)" using caps [OF trans [OF k1] cap] by simp
    qed
  next
    fix e k assume "env (etcd w) k"
    then show "?X e (w\<lparr>etcd := k\<rparr>)" using caps [OF _ cap] by simp
  qed
qed



text \<open>A free slot is handed out in the first attempt: with etcd answering and nobody else writing, when
  the host has fewer leases than the limit in force and the instance has none yet, \<open>acquire\<close> returns a
  slot, and the lease of the instance is stored.\<close>

lemma free_slot_acquired:
  assumes quiet: "etcd_quiet (ss_client (lm_store M)) kv env" and "lm_lockable M"
    and limit: "limit_in_force (lm_store M) kv (etcd w) (JInt (lm_configured_max_parallel M)) = Inr limit"
    and free: "int (card (lease_keys (lm_store M) kv h (etcd w))) < limit"
    and objects: "\<forall>key \<in> lease_keys (lm_store M) kv h (etcd w). \<exists>d. loads (the (kv (etcd w) key)) = Inr d"
    and new: "kv (etcd w) (start_lease_key (lm_store M) h i) = None"
  shows "\<exists>s w'. acquire M n i h (Suc a) w = (Inr (Some s), w') \<and> sl_dest_host s = JStr h \<and>
    sl_instance_uuid s = JStr i \<and> lease_keys (lm_store M) kv h (etcd w') =
      insert (start_lease_key (lm_store M) h i) (lease_keys (lm_store M) kv h (etcd w))"
proof -
  let ?S = "lm_store M" and ?E = "ss_client (lm_store M)" and ?key = "start_lease_key (lm_store M) h i"
  have ok: "etcd_ok ?E kv env" and still: "\<And>k k'. env k k' \<Longrightarrow> kv k' = kv k"
    and ans: "\<And>p k. \<not> isl (fst (ec_get_prefix ?E p k))" "\<And>ttl k. \<not> isl (fst (ec_lease ?E ttl k))"
      "\<And>key v l k. \<not> isl (fst (ec_create ?E key v l k))"
    using quiet unfolding etcd_quiet_def by blast+
  obtain vs k1 where list: "ec_get_prefix ?E (start_lease_prefix ?S h) (etcd w) = (Inr vs, k1)" and k1: "kv k1 = kv (etcd w)"
    and "\<exists>keys. distinct keys \<and> set keys = {key. prefix (start_lease_prefix ?S h) key \<and> kv k1 key \<noteq> None} \<and>
      vs = map (\<lambda>key. the (kv k1 key)) keys"
    by (rule reads_quiet [OF etcd_prefix_reads [OF ok] still ans(1)])
  then obtain keys where keys: "distinct keys" "set keys = lease_keys ?S kv h (etcd w)" "vs = map (\<lambda>key. the (kv (etcd w) key)) keys"
    by (auto simp: lease_keys_def)
  then have "\<exists>ds. mapE loads vs = Inr ds" using objects by (intro mapE_total) auto
  then obtain ds where ds: "mapE loads vs = Inr ds" by blast
  have len: "length ds = card (lease_keys ?S kv h (etcd w))"
    using mapE_length [OF ds] keys distinct_card by force
  have live: "list_start_leases ?S h w = (Inr ds, w\<lparr>etcd := k1\<rparr>)"
    using list ds by (simp add: list_start_leases_def list_values_def bindM_def on_etcd_run liftE_def retM_def)
  obtain k2 where max: "get_max_parallel_starts_per_host ?S (JInt (lm_configured_max_parallel M)) (w\<lparr>etcd := k1\<rparr>) =
      (Inr limit, w\<lparr>etcd := k2\<rparr>)" and k2: "kv k2 = kv (etcd w)"
    using get_max_parallel_quiet [OF quiet, of "JInt (lm_configured_max_parallel M)" "w\<lparr>etcd := k1\<rparr>"] limit k1
    by (auto simp: limit_in_force_def)
  obtain l k3 where lease: "ec_lease ?E (lm_ttl M) k2 = (Inr l, k3)" and k3: "kv k3 = kv k2"
    by (rule reads_quiet [OF etcd_lease [OF ok] still ans(2)])
  let ?rec = "[(''schema_version'', JInt 1), (''notification_uuid'', JStr n), (''instance_uuid'', JStr i),
      (''dest_host'', JStr h), (''owner'', JStr (ss_owner ?S)), (''etcd_lease_id'', l), (''created_at'', JTime (clock w)),
      (''expires_at'', JTime (clock w + lm_ttl M))]"
  obtain k4 where create: "ec_create ?E ?key (dumps ?rec) (Some l) k3 = (Inr (kv k3 ?key = None), k4)"
    and k4: "kv k4 = (if kv k3 ?key = None then (kv k3)(?key := Some (dumps ?rec)) else kv k3)"
    by (rule writes_quiet [OF etcd_create [OF ok] still ans(3)])
  have "create_start_lease ?S n i h (lm_ttl M) (w\<lparr>etcd := k2\<rparr>) = (Inr (Some ?rec), w\<lparr>etcd := k4\<rparr>)"
    using lease create new k2 k3
    by (simp add: create_start_lease_def bindM_def on_etcd_run utcnow_def getM_def retM_def Let_def)
  then have "try_acquire M n i h w = (Inr (Some (from_record ?rec)), w\<lparr>etcd := k4\<rparr>)"
    using live max free len by (simp add: try_acquire_def bindM_def retM_def)
  then have "acquire M n i h (Suc a) w = (Inr (Some (from_record ?rec)), w\<lparr>etcd := k4\<rparr>)"
    using assms(2) by (simp add: bindM_def retM_def)
  moreover have "lease_keys ?S kv h k4 = insert ?key (lease_keys ?S kv h (etcd w))"
    using k4 k3 k2 new by (auto simp: lease_keys_def)
  ultimately show ?thesis by (auto simp: from_record_def dget_def)
qed


section \<open>Reconciliation\<close>

definition assert_enabled :: "conf \<Rightarrow> 'k staged_store \<Rightarrow> ('n, 'k, unit) prog" where
  "assert_enabled C S = (if \<not> staged_enabled C then raiseM (Exc MasakariException ''An unknown exception occurred.'')
     else assert_available S)"

definition is_active :: "server \<Rightarrow> bool" where
  "is_active sv \<longleftrightarrow> sv_vm_state sv = ''active''"

definition is_stopped :: "server \<Rightarrow> bool" where
  "is_stopped sv \<longleftrightarrow> sv_vm_state sv = ''stopped'' \<or> sv_vm_state sv = ''shutoff''"

definition of_opt :: "string option \<Rightarrow> json" where
  "of_opt x = (case x of None \<Rightarrow> JNull | Some s \<Rightarrow> JStr s)"

definition initial_state_values :: "vmove \<Rightarrow> server \<Rightarrow> json dict" where
  "initial_state_values v sv = [(''instance_name'', JStr (vm_instance_name v)),
     (''source_host'', of_opt (vm_source_host v)), (''dest_host'', of_opt (vm_dest_host v)),
     (''original_vm_state'', JStr (sv_vm_state sv)), (''original_task_state'', of_opt (sv_task_state sv)),
     (''original_power_state'', JInt (sv_power_state sv)), (''current_vm_state'', JStr (sv_vm_state sv)),
     (''step'', JStr STEP_DISCOVERED)]"

text \<open>The patch: what Nova says now, and where the instance has moved, the step that follows from it.\<close>

definition reconcile_patch :: "conf \<Rightarrow> vmove \<Rightarrow> server \<Rightarrow> json dict \<Rightarrow> json dict" where
  "reconcile_patch C v sv current_state =
     [(''current_vm_state'', JStr (sv_vm_state sv)), (''current_task_state'', of_opt (sv_task_state sv)),
      (''current_power_state'', JInt (sv_power_state sv))] @
     (if sv_host sv \<noteq> None \<and> sv_host sv \<noteq> Some '''' \<and> sv_host sv \<noteq> vm_source_host v
      then (''dest_host'', of_opt (sv_host sv)) #
        (if is_active sv then [(''step'', JStr STEP_ACTIVE)]
         else if is_stopped sv
         then (if start_only_originally_active C \<and> dget current_state ''original_vm_state'' \<noteq> JStr ''active''
               then [(''step'', JStr STEP_IGNORED)] else [(''step'', JStr STEP_EVACUATED_STOPPED)])
         else [])
      else [])"

definition reconcile_state_from_server ::
  "conf \<Rightarrow> 'k staged_store \<Rightarrow> vmove \<Rightarrow> server \<Rightarrow> json dict \<Rightarrow> ('n, 'k, json dict) prog" where
  "reconcile_state_from_server C S v sv current_state =
     (let patch = reconcile_patch C v sv current_state in
      if length patch > 3 \<or> dget current_state ''current_vm_state'' \<noteq> JStr (sv_vm_state sv)
      then update_instance_state S (vm_notification_uuid v) (vm_instance_uuid v) patch
      else retM current_state)"

definition ReconcileStagedRecoveryTask ::
  "lib \<Rightarrow> conf \<Rightarrow> 'n nova_client \<Rightarrow> 'k staged_store \<Rightarrow> request_context \<Rightarrow> string \<Rightarrow> ('n, 'k, unit) prog" where
  "ReconcileStagedRecoveryTask L C N S ctx notification_uuid =
     bindM (assert_enabled C S) (\<lambda>_.
     bindM (VMoveList_get_all_vmoves L ctx notification_uuid None) (\<lambda>all_vmoves.
     forM all_vmoves (\<lambda>v.
       bindM (get_server N (vm_instance_uuid v)) (\<lambda>sv.
       bindM (create_or_get_instance_state S notification_uuid (vm_instance_uuid v) (initial_state_values v sv)) (\<lambda>current.
       bindM (reconcile_state_from_server C S v sv current) (\<lambda>_. retM ()))))))"

section \<open>Evacuation into the stopped state\<close>

text \<open>A dictionary by instance: the later VM move of an instance takes the place of the earlier.\<close>

definition get_target_vmoves :: "lib \<Rightarrow> request_context \<Rightarrow> string \<Rightarrow> ('n, 'k, vmove list) prog" where
  "get_target_vmoves L ctx notification_uuid =
     bindM (VMoveList_get_all_vmoves L ctx notification_uuid (Some VS_PENDING)) (\<lambda>pending.
     bindM (VMoveList_get_all_vmoves L ctx notification_uuid (Some VS_ONGOING)) (\<lambda>ongoing.
     retM (map snd (foldl (\<lambda>d v. AList.update (vm_instance_uuid v) v d) [] (pending @ ongoing)))))"

definition evacuated :: "vmove \<Rightarrow> server \<Rightarrow> bool" where
  "evacuated v sv \<longleftrightarrow> sv_host sv \<noteq> vm_source_host v \<and> (is_stopped sv \<or> is_active sv)"

definition wait_for_evacuation_confirmation ::
  "conf \<Rightarrow> 'n nova_client \<Rightarrow> vmove \<Rightarrow> ('n, 'k, server) prog" where
  "wait_for_evacuation_confirmation C N v =
     bindM (get_server N (vm_instance_uuid v)) (\<lambda>sv.
     if evacuated v sv then retM sv
     else poll timed_out (polls_evacuation C)
       (bindM (get_server N (vm_instance_uuid v)) (\<lambda>sv.
        if evacuated v sv then retM (Some sv)
        else if sv_vm_state sv = ''error'' then raiseM (mk_InstanceEvacuateFailed (vm_instance_uuid v))
        else retM None)))"

text \<open>When a resized instance is not shut down it is returned early, and so is every other one.\<close>

definition prepare_instance_for_evacuate :: "'n nova_client \<Rightarrow> server \<Rightarrow> ('n, 'k, server) prog" where
  "prepare_instance_for_evacuate N instance =
     (if sv_vm_state instance \<notin> {''active'', ''error'', ''stopped''} \<or> sv_task_state instance \<noteq> None
      then bindM (reset_instance_state N (sv_id instance) ''error'') (\<lambda>_. get_server N (sv_id instance))
      else retM instance)"

definition staged_failed ::
  "'k staged_store \<Rightarrow> request_context \<Rightarrow> vmove \<Rightarrow> exc \<Rightarrow> ('n, 'k, unit) prog" where
  "staged_failed S ctx v exc =
     bindM (update_vmove ctx v (Some VS_FAILED) None None None (Some (message exc))) (\<lambda>_.
     bindM (mark_failed S (vm_notification_uuid v) (vm_instance_uuid v) (message exc)) (\<lambda>_. retM ()))"

definition staged_finish ::
  "'n nova_client \<Rightarrow> request_context \<Rightarrow> vmove \<Rightarrow> bool \<Rightarrow> server \<Rightarrow> ('n, 'k, unit) prog" where
  "staged_finish N ctx v already_locked instance =
     bindM utcnow (\<lambda>now.
     bindM (update_vmove ctx v None None (Some now) None None) (\<lambda>_.
     whenM (\<not> already_locked) (unlock_server N (sv_id instance))))"

text \<open>The first half of the \<open>try\<close> block: \<open>None\<close> when the instance has been evacuated before.\<close>

definition staged_discover ::
  "'n nova_client \<Rightarrow> 'k staged_store \<Rightarrow> vmove \<Rightarrow> server \<Rightarrow> ('n, 'k, server option) prog" where
  "staged_discover N S v instance =
     bindM (create_or_get_instance_state S (vm_notification_uuid v) (vm_instance_uuid v)
       [(''instance_name'', JStr (vm_instance_name v)), (''source_host'', of_opt (vm_source_host v)),
        (''original_vm_state'', JStr (sv_vm_state instance)), (''original_task_state'', of_opt (sv_task_state instance)),
        (''original_power_state'', JInt (sv_power_state instance)), (''current_vm_state'', JStr (sv_vm_state instance)),
        (''step'', JStr STEP_DISCOVERED)]) (\<lambda>current.
     if step_in current [STEP_EVACUATED_STOPPED, STEP_ACTIVE, STEP_IGNORED] then retM None
     else bindM (prepare_instance_for_evacuate N instance) (\<lambda>i. retM (Some i)))"

text \<open>The second half. Whether the transition found the expected step is not looked at.\<close>

definition staged_move ::
  "conf \<Rightarrow> 'n nova_client \<Rightarrow> 'k staged_store \<Rightarrow> request_context \<Rightarrow> vmove \<Rightarrow> string option \<Rightarrow> server \<Rightarrow> ('n, 'k, unit) prog" where
  "staged_move C N S ctx v reserved_host instance =
     bindM (transition_instance_state S (vm_notification_uuid v) (vm_instance_uuid v)
       [STEP_DISCOVERED, STEP_EVACUATING] STEP_EVACUATING []) (\<lambda>_.
     bindM utcnow (\<lambda>now.
     bindM (update_vmove ctx v (Some VS_ONGOING) (Some now) None None None) (\<lambda>_.
     bindM (evacuate_instance_stopped C N (sv_id instance) reserved_host) (\<lambda>_.
     bindM (wait_for_evacuation_confirmation C N v) (\<lambda>sv.
     bindM (update_vmove ctx v (Some VS_SUCCEEDED) None None (sv_host sv) None) (\<lambda>_.
     bindM (update_instance_state S (vm_notification_uuid v) (vm_instance_uuid v)
       [(''step'', JStr (if is_active sv then STEP_ACTIVE else STEP_EVACUATED_STOPPED)),
        (''dest_host'', of_opt (sv_host sv)), (''current_vm_state'', JStr (sv_vm_state sv))]) (\<lambda>_.
     retM ())))))))"

text \<open>
  The \<open>finally\<close> clause uses the instance as the \<open>try\<close> block left it: the one that was prepared, once
  the preparation has returned it.
\<close>

definition staged_evacuate_and_confirm ::
  "conf \<Rightarrow> 'n nova_client \<Rightarrow> 'k staged_store \<Rightarrow> request_context \<Rightarrow> vmove \<Rightarrow> string option \<Rightarrow> ('n, 'k, unit) prog" where
  "staged_evacuate_and_confirm C N S ctx v reserved_host =
     bindM (get_server N (vm_instance_uuid v)) (\<lambda>instance.
     let already_locked = sv_locked instance; finish = staged_finish N ctx v already_locked in
     bindM (whenM (\<not> already_locked) (lock_server N (sv_id instance))) (\<lambda>_.
     bindM (tryM (tryM (staged_discover N S v instance)
         (\<lambda>exc. bindM (staged_failed S ctx v exc) (\<lambda>_. retM None)))
       (\<lambda>e. bindM (finish instance) (\<lambda>_. raiseM e))) (\<lambda>prepared. case prepared of
       None \<Rightarrow> finish instance
     | Some i \<Rightarrow> finallyM (tryM (staged_move C N S ctx v reserved_host i) (staged_failed S ctx v)) (finish i))))"

definition staged_enable_reserved_host ::
  "conf \<Rightarrow> 'n nova_client \<Rightarrow> request_context \<Rightarrow> string \<Rightarrow> string \<Rightarrow> bool \<Rightarrow> ('n, 'k, unit) prog" where
  "staged_enable_reserved_host C N ctx host_name reserved_host has_update_method =
     bindM (whenM (add_reserved_host_to_aggregate C)
       (bindM (get_aggregate_list N) (\<lambda>aggregates.
        forM aggregates (\<lambda>ag. whenM (host_name \<in> set (ag_hosts ag))
          (tryM (add_host_to_aggregate N reserved_host ag)
            (\<lambda>e. if isinstance e Conflict then retM () else raiseM e)))))) (\<lambda>_.
     bindM (enable_disable_service N reserved_host True None) (\<lambda>_.
     whenM has_update_method (update_host_method ctx reserved_host)))"

definition EvacuateToStoppedTask ::
  "lib \<Rightarrow> conf \<Rightarrow> 'n nova_client \<Rightarrow> 'k staged_store \<Rightarrow> request_context \<Rightarrow> string \<Rightarrow> string \<Rightarrow> string option \<Rightarrow> bool
   \<Rightarrow> ('n, 'k, unit) prog" where
  "EvacuateToStoppedTask L C N S ctx host_name notification_uuid reserved_host has_update_method =
     bindM (assert_enabled C S) (\<lambda>_.
     bindM (get_target_vmoves L ctx notification_uuid) (\<lambda>targets.
     bindM (case reserved_host of None \<Rightarrow> retM ()
       | Some rh \<Rightarrow> if rh = '''' then retM () else staged_enable_reserved_host C N ctx host_name rh has_update_method) (\<lambda>_.
     bindM (forM targets (\<lambda>v. spawned (staged_evacuate_and_confirm C N S ctx v reserved_host))) (\<lambda>_.
     bindM (VMoveList_get_all_vmoves L ctx notification_uuid None) (\<lambda>all_vmoves.
     let failed = map vm_instance_uuid (filter (\<lambda>v. vm_status v = Some VS_FAILED) all_vmoves) in
     if failed \<noteq> []
     then raiseM (Exc HostRecoveryFailureException (''Failed to evacuate instances '' @ quoted (join '','' failed) @
       '' from host '' @ quoted host_name))
     else retM ())))))"


section \<open>Starting in batches\<close>

definition wait_for_start_result :: "conf \<Rightarrow> 'n nova_client \<Rightarrow> string \<Rightarrow> ('n, 'k, server) prog" where
  "wait_for_start_result C N instance_uuid =
     (let started = (\<lambda>sv. is_active sv \<or> sv_vm_state sv = ''error'') in
      bindM (get_server N instance_uuid) (\<lambda>sv.
      if started sv then retM sv
      else poll timed_out (polls_start C)
        (bindM (get_server N instance_uuid) (\<lambda>sv. retM (if started sv then Some sv else None)))))"

text \<open>
  The fields a record must have. The values of \<open>notification_uuid\<close> and \<open>instance_uuid\<close> are written as
  strings by the store itself; a \<open>dest_host\<close> that is not a string stands for its \<open>str\<close>.
\<close>

definition field :: "json dict \<Rightarrow> string \<Rightarrow> exc + string" where
  "field d name = (case map_of d name of None \<Rightarrow> Inl (Exc KeyError name)
     | Some (JStr s) \<Rightarrow> Inr s | Some _ \<Rightarrow> Inr ''None'')"

definition start_failed :: "'k staged_store \<Rightarrow> string \<Rightarrow> string \<Rightarrow> exc \<Rightarrow> ('n, 'k, bool) prog" where
  "start_failed S notification_uuid instance_uuid exc =
     bindM (mark_failed S notification_uuid instance_uuid (message exc)) (\<lambda>_. retM False)"

text \<open>With a slot: start the instance and wait for the outcome.\<close>

definition start_with_slot ::
  "conf \<Rightarrow> 'n nova_client \<Rightarrow> 'k staged_store \<Rightarrow> string \<Rightarrow> string \<Rightarrow> ('n, 'k, bool) prog" where
  "start_with_slot C N S notification_uuid instance_uuid =
     bindM (transition_instance_state S notification_uuid instance_uuid [STEP_WAITING_START_SLOT] STEP_STARTING []) (\<lambda>_.
     bindM (start_server N instance_uuid) (\<lambda>_.
     bindM (wait_for_start_result C N instance_uuid) (\<lambda>sv.
     if is_active sv
     then bindM (update_instance_state S notification_uuid instance_uuid
            [(''step'', JStr STEP_ACTIVE), (''current_vm_state'', JStr (sv_vm_state sv))]) (\<lambda>_. retM True)
     else bindM (mark_failed S notification_uuid instance_uuid ''Nova reported instance ERROR during staged start'') (\<lambda>_.
       retM False))))"

text \<open>
  \<open>limiter\<close> is the outcome of making the limiter, which happens when it is first used. \<open>None\<close>: the
  thread still waits for a slot after \<open>attempts\<close> attempts. The handlers of the time-out and of any
  other exception do the same.
\<close>

definition start_one ::
  "conf \<Rightarrow> 'n nova_client \<Rightarrow> 'k staged_store \<Rightarrow> exc + 'k start_limiter \<Rightarrow> nat \<Rightarrow> json dict \<Rightarrow> ('n, 'k, bool option) prog" where
  "start_one C N S limiter attempts state =
     bindM (liftE (field state ''notification_uuid'')) (\<lambda>notification_uuid.
     bindM (liftE (field state ''instance_uuid'')) (\<lambda>instance_uuid.
     bindM (liftE (field state ''dest_host'')) (\<lambda>dest_host.
     let failed = start_failed S notification_uuid instance_uuid in
     bindM (tryM
         (bindM (transition_instance_state S notification_uuid instance_uuid
             [STEP_EVACUATED_STOPPED, STEP_WAITING_START_SLOT] STEP_WAITING_START_SLOT []) (\<lambda>_.
          bindM (liftE limiter) (\<lambda>M.
          bindM (acquire M notification_uuid instance_uuid dest_host attempts) (\<lambda>slot.
          retM (Inr (map_option (\<lambda>s. (M, s)) slot))))))
         (\<lambda>exc. bindM (failed exc) (\<lambda>b. retM (Inl b)))) (\<lambda>waited. case waited of
       Inl b \<Rightarrow> retM (Some b)
     | Inr None \<Rightarrow> retM None
     | Inr (Some (M, slot)) \<Rightarrow>
         bindM (finallyM (tryM (start_with_slot C N S notification_uuid instance_uuid) failed)
            (tryM (release M slot) (\<lambda>_. retM ()))) (\<lambda>b. retM (Some b))))))"

text \<open>The records to start; those that were not active before stay stopped and are marked \<open>IGNORED\<close>.\<close>

fun start_candidates :: "conf \<Rightarrow> 'k staged_store \<Rightarrow> json dict list \<Rightarrow> ('n, 'k, json dict list) prog" where
  "start_candidates C S [] = retM []"
| "start_candidates C S (state # rest) =
     (if dget state ''step'' \<noteq> JStr STEP_EVACUATED_STOPPED then start_candidates C S rest
      else if start_only_originally_active C \<and> dget state ''original_vm_state'' \<noteq> JStr ''active''
      then bindM (liftE (field state ''notification_uuid'')) (\<lambda>notification_uuid.
           bindM (liftE (field state ''instance_uuid'')) (\<lambda>instance_uuid.
           bindM (update_instance_state S notification_uuid instance_uuid [(''step'', JStr STEP_IGNORED)]) (\<lambda>_.
           start_candidates C S rest)))
      else bindM (start_candidates C S rest) (\<lambda>more. retM (state # more)))"

text \<open>The threads; \<open>False\<close> when one of them never ends, and the task with it.\<close>

fun start_all ::
  "conf \<Rightarrow> 'n nova_client \<Rightarrow> 'k staged_store \<Rightarrow> exc + 'k start_limiter \<Rightarrow> nat \<Rightarrow> json dict list \<Rightarrow> ('n, 'k, bool) prog" where
  "start_all C N S limiter attempts [] = retM True"
| "start_all C N S limiter attempts (state # rest) =
     bindM (tryM (bindM (start_one C N S limiter attempts state) (\<lambda>r. retM (r \<noteq> None))) (\<lambda>_. retM True)) (\<lambda>ended.
     bindM (start_all C N S limiter attempts rest) (\<lambda>all_ended. retM (ended \<and> all_ended)))"

definition failed_to_start :: "json dict \<Rightarrow> bool" where
  "failed_to_start s \<longleftrightarrow> dget s ''original_vm_state'' = JStr ''active'' \<and> dget s ''step'' = JStr STEP_FAILED"

definition report_failed_starts :: "'k staged_store \<Rightarrow> string \<Rightarrow> ('n, 'k, unit option) prog" where
  "report_failed_starts S notification_uuid =
     bindM (list_instance_states S notification_uuid) (\<lambda>all_states.
     if \<exists>s \<in> set all_states. failed_to_start s
     then bindM (liftE (mapE (\<lambda>s. field s ''instance_uuid'') (filter failed_to_start all_states))) (\<lambda>failed.
          raiseM (Exc StagedStartFailureException (''Failed to start staged recovery instances: '' @ join '','' failed)))
     else retM (Some ()))"

text \<open>\<open>None\<close>: the task does not return.\<close>

definition BatchedStartInstancesTask ::
  "conf \<Rightarrow> 'n nova_client \<Rightarrow> 'k staged_store \<Rightarrow> exc + 'k start_limiter \<Rightarrow> nat \<Rightarrow> string \<Rightarrow> ('n, 'k, unit option) prog" where
  "BatchedStartInstancesTask C N S limiter attempts notification_uuid =
     bindM (assert_enabled C S) (\<lambda>_.
     bindM (list_instance_states S notification_uuid) (\<lambda>instance_states.
     bindM (start_candidates C S instance_states) (\<lambda>candidates.
     bindM (start_all C N S limiter attempts candidates) (\<lambda>ended.
     if \<not> ended then retM None else report_failed_starts S notification_uuid))))"

section \<open>What the start task guarantees\<close>

text \<open>C31. When the start task returns, no instance of the notification that was active before the failure is
  in \<open>FAILED\<close> in etcd, whatever Nova, the limiter and the other engines did in the meantime; and when the
  task raises \<open>StagedStartFailureException\<close> at its end, some are.\<close>

theorem batched_start_reports_failures:
  fixes w :: "('n, 'k) world"
  assumes ok: "etcd_ok (ss_client S) kv env"
    and run: "BatchedStartInstancesTask C N S limiter attempts n w = (Inr (Some ()), w')"
  shows "\<forall>i raw d. kv (etcd w') (instance_key S n i) = Some raw \<longrightarrow> loads raw = Inr d \<longrightarrow> \<not> failed_to_start d"
proof -
  let ?Q = "\<lambda>r t. r = Some () \<longrightarrow> (\<forall>i raw d. kv (etcd t) (instance_key S n i) = Some raw \<longrightarrow> loads raw = Inr d \<longrightarrow> \<not> failed_to_start d)"
  have last: "wp (report_failed_starts S n) ?Q (\<lambda>_ _. True) t" for t :: "('n, 'k) world"
    unfolding report_failed_starts_def list_instance_states_def wp_bindM [of "list_values S p" for S p]
  proof (rule wp_list_values [OF ok])
    fix ds keys k
    assume keys: "set keys = {key. prefix (notification_instances_prefix S n) key \<and> kv k key \<noteq> None}"
      and ds: "mapE loads (map (\<lambda>key. the (kv k key)) keys) = Inr ds"
    have "d \<in> set ds" if "kv k (instance_key S n i) = Some raw" "loads raw = Inr d" for i raw d
      using that keys unfolding mapE_set [OF ds] by (auto intro!: exI [of _ "instance_key S n i"])
    then show "wp (if \<exists>s \<in> set ds. failed_to_start s
       then bindM (liftE (mapE (\<lambda>s. field s ''instance_uuid'') (filter failed_to_start ds))) (\<lambda>failed.
            raiseM (Exc StagedStartFailureException (''Failed to start staged recovery instances: '' @ join '','' failed)))
       else retM (Some ())) ?Q (\<lambda>_ _. True) (t\<lparr>etcd := k\<rparr>)"
      by (auto simp: wp_retM wp_bindM wp_raiseM wp_liftE split: sum.split)
  qed simp
  have "wp (BatchedStartInstancesTask C N S limiter attempts n) ?Q (\<lambda>_ _. True) w"
    unfolding BatchedStartInstancesTask_def
    by (rule wp_bindM_any)+ (use last in \<open>simp add: wp_if wp_retM\<close>)
  with run show ?thesis by (simp add: wp_def)
qed

text \<open>Which instances are started: exactly those whose evacuation has left them stopped and which were
  active before (all that are stopped, where the configuration says so), in the order of the listing;
  nothing else of the engine's state changes while they are picked.\<close>

theorem start_candidates_spec:
  fixes w :: "('n, 'k) world"
  assumes run: "start_candidates C S states w = (r, w')"
  shows "w' = w\<lparr>etcd := etcd w'\<rparr> \<and> (case r of Inl _ \<Rightarrow> start_only_originally_active C | Inr cs \<Rightarrow>
     cs = filter (\<lambda>d. dget d ''step'' = JStr STEP_EVACUATED_STOPPED \<and>
       (start_only_originally_active C \<longrightarrow> dget d ''original_vm_state'' = JStr ''active'')) states)"
proof -
  let ?pick = "\<lambda>d. dget d ''step'' = JStr STEP_EVACUATED_STOPPED \<and>
       (start_only_originally_active C \<longrightarrow> dget d ''original_vm_state'' = JStr ''active'')"
  have "pres (\<lambda>t. t = w\<lparr>etcd := etcd t\<rparr>) (start_candidates C S states)"
    by (induction states) (auto intro!: pres_intros)
  from presD [OF this run] have "w' = w\<lparr>etcd := etcd w'\<rparr>" by simp
  moreover have "wp (start_candidates C S states) (\<lambda>cs t. cs = filter ?pick states) (\<lambda>_ t. start_only_originally_active C) t" for t :: "('n, 'k) world"
  proof (induction states arbitrary: t)
    case (Cons d ds)
    have more: "wp (bindM (start_candidates C S ds) (\<lambda>more. retM (d # more))) (\<lambda>cs t. cs = d # filter ?pick ds)
        (\<lambda>_ t. start_only_originally_active C) u" for u :: "('n, 'k) world"
      unfolding wp_bindM by (rule wp_mono [OF Cons]) (simp_all add: wp_retM)
    have ignore: "wp (bindM (update_instance_state S n i p) (\<lambda>_. start_candidates C S ds)) (\<lambda>cs t. cs = filter ?pick ds)
        (\<lambda>_ t. start_only_originally_active C) u" if "start_only_originally_active C" for n i p and u :: "('n, 'k) world"
      unfolding wp_bindM by (rule wp_any) (use Cons that in simp_all)
    show ?case using Cons more ignore by (auto simp: wp_bindM [of "liftE x" for x] wp_liftE split: sum.split)
  qed (simp add: wp_retM)
  from this [of w] have "case r of Inl _ \<Rightarrow> start_only_originally_active C | Inr cs \<Rightarrow> cs = filter ?pick states"
    using run by (simp add: wp_def split: sum.splits)
  ultimately show ?thesis by blast
qed


text \<open>The step recorded for an instance.\<close>

definition step_of :: "'k staged_store \<Rightarrow> ('k \<Rightarrow> string \<Rightarrow> json option) \<Rightarrow> 'k \<Rightarrow> string \<Rightarrow> string \<Rightarrow> json option" where
  "step_of S kv k n i = (case kv k (instance_key S n i) of None \<Rightarrow> None
     | Some raw \<Rightarrow> (case loads raw of Inl _ \<Rightarrow> None | Inr d \<Rightarrow> Some (dget d ''step'')))"

text \<open>\<open>recorded\<close>: one record was written, with the given step, and nothing else of the state changed.\<close>

definition recorded ::
  "'k staged_store \<Rightarrow> ('k \<Rightarrow> string \<Rightarrow> json option) \<Rightarrow> string \<Rightarrow> string \<Rightarrow> string \<Rightarrow> ('n, 'k) world \<Rightarrow> ('n, 'k) world \<Rightarrow> bool" where
  "recorded S kv n i st w t \<longleftrightarrow> t = w\<lparr>etcd := etcd t\<rparr> \<and> step_of S kv (etcd t) n i = Some (JStr st) \<and>
     (\<forall>key. key \<noteq> instance_key S n i \<longrightarrow> kv (etcd t) key = kv (etcd w) key)"

lemma update_recorded:
  assumes quiet: "etcd_quiet (ss_client S) kv env" and there: "step_of S kv (etcd w) n i \<noteq> None"
    and st: "map_of (rev patch) ''step'' = Some (JStr st)"
  shows "wp (update_instance_state S n i patch) (\<lambda>_. recorded S kv n i st w) (\<lambda>_ _. False) w"
proof -
  obtain raw current where raw: "kv (etcd w) (instance_key S n i) = Some raw" "loads raw = Inr current"
    using there by (auto simp: step_of_def split: option.splits sum.splits)
  obtain new where new: "updated S patch (clock w) current = Some new" by (simp add: updated_def)
  obtain k where run: "cas_loop (ss_client S) (instance_key S n i) (Inl (mk_StateNotFound (instance_key S n i)))
      (updated S patch) (Suc 7) w = (Inr (Some new), w\<lparr>etcd := k\<rparr>)"
    and k: "kv k = (kv (etcd w))(instance_key S n i \<mapsto> dumps new)"
    by (rule cas_loop_quiet [where change = "updated S patch", OF quiet raw new])
  obtain d where d: "loads (dumps new) = Inr d" "\<forall>f. dget d f = sort_keys (dget new f)"
    using loads_dumps_dget by blast
  have "dget new ''step'' = JStr st"
    using new st by (auto simp: updated_def stamped_patch_def dget_dict_update_cases)
  then have "recorded S kv n i st w (w\<lparr>etcd := k\<rparr>)" using k d by (auto simp: recorded_def step_of_def)
  moreover have "update_instance_state S n i patch w = (Inr new, w\<lparr>etcd := k\<rparr>)"
    using run by (simp add: update_instance_state_def MAX_CAS_RETRIES_def bindM_def retM_def Let_def)
  ultimately show ?thesis by (simp add: wp_def)
qed

lemma transition_there:
  assumes quiet: "etcd_quiet (ss_client S) kv env" and there: "step_of S kv (etcd w) n i \<noteq> None"
  shows "wp (transition_instance_state S n i expected st []) (\<lambda>_ t. t = w\<lparr>etcd := etcd t\<rparr> \<and> step_of S kv (etcd t) n i \<noteq> None \<and>
    (\<forall>key. key \<noteq> instance_key S n i \<longrightarrow> kv (etcd t) key = kv (etcd w) key)) (\<lambda>_ _. False) w"
proof -
  obtain raw current where raw: "kv (etcd w) (instance_key S n i) = Some raw" "loads raw = Inr current"
    using there by (auto simp: step_of_def split: option.splits sum.splits)
  show ?thesis
  proof (cases "transitioned S expected st [] (clock w) current")
    case None
    obtain k where "get_raw (ss_client S) (instance_key S n i) w = (Inr (Some raw), w\<lparr>etcd := k\<rparr>)" "kv k = kv (etcd w)"
      using get_raw_quiet [OF quiet, of "instance_key S n i" w] raw(1) by metis
    then have "transition_instance_state S n i expected st [] w = (Inr None, w\<lparr>etcd := k\<rparr>)"
      using raw None by (simp add: transition_instance_state_def MAX_CAS_RETRIES_def eval_nat_numeral bindM_def Let_def
        liftE_def retM_def utcnow_def getM_def)
    then show ?thesis using there \<open>kv k = kv (etcd w)\<close> by (simp add: wp_def step_of_def)
  next
    case (Some new)
    obtain k where run: "cas_loop (ss_client S) (instance_key S n i) (Inl (mk_StateNotFound (instance_key S n i)))
        (transitioned S expected st []) (Suc 7) w = (Inr (Some new), w\<lparr>etcd := k\<rparr>)"
      and k: "kv k = (kv (etcd w))(instance_key S n i \<mapsto> dumps new)"
      by (rule cas_loop_quiet [where change = "transitioned S expected st []", OF quiet raw Some])
    obtain d where "loads (dumps new) = Inr d" using loads_dumps by blast
    with run k show ?thesis
      by (simp add: transition_instance_state_def MAX_CAS_RETRIES_def wp_def step_of_def Let_def)
  qed
qed



section \<open>What the evacuation guarantees\<close>

lemma only_vmove_off_etcd [simp]: "off_etcd (only_vmove L u w)" "off_etcd (same_tables w)"
  by (auto simp: off_etcd_def only_vmove_def same_tables_def table_ok_def live_def)

text \<open>The VM move has the given status, and its end time is the present.\<close>

definition closed_as :: "string \<Rightarrow> vmove_status option \<Rightarrow> ('n, 'k) world \<Rightarrow> bool" where
  "closed_as u st t \<longleftrightarrow> (\<exists>r. live vmoves_tbl t u = Some r \<and> vm_status r = st \<and> vm_end_time r = Some (clock t))"

lemma closed_as_off: "off_infra (\<lambda>t. only_vmove L u w t \<and> closed_as u st t)"
  by (auto simp: off_infra_def only_vmove_def same_tables_def table_ok_def live_def closed_as_def)

lemma wp_staged_finish:
  assumes ctx: "live_ctx ctx" and "only_vmove L (vm_uuid v) w t" and r: "live vmoves_tbl t (vm_uuid v) = Some r"
  shows "wp (staged_finish N ctx v b i) (\<lambda>_ t'. only_vmove L (vm_uuid v) w t' \<and> closed_as (vm_uuid v) (vm_status r) t')
    (\<lambda>_ t'. only_vmove L (vm_uuid v) w t' \<and> closed_as (vm_uuid v) (vm_status r) t') t"
proof -
  let ?J = "\<lambda>t'. only_vmove L (vm_uuid v) w t' \<and> closed_as (vm_uuid v) (vm_status r) t'"
  have unlock: "wp (whenM (\<not> b) (unlock_server N (sv_id i))) (\<lambda>_. ?J) (\<lambda>_. ?J) u" if "?J u" for u
  proof -
    have "pres ?J (whenM (\<not> b) (unlock_server N (sv_id i)))" by (intro pres_intros closed_as_off)
    from wp_pres [OF this escapes_top that] show ?thesis by simp
  qed
  have "wp (update_vmove ctx v None None (Some (clock t)) None None)
      (\<lambda>_ u. wp (whenM (\<not> b) (unlock_server N (sv_id i))) (\<lambda>_. ?J) (\<lambda>_. ?J) u) (\<lambda>_. ?J) t"
  proof (rule wp_mono [OF only_vmove_update [OF ctx assms(2)]])
    fix a u
    assume u: "only_vmove L (vm_uuid v) w u \<and> (\<exists>r r'. live vmoves_tbl t (vm_uuid v) = Some r \<and>
      live vmoves_tbl u (vm_uuid v) = Some r' \<and>
      vm_status r' = (case None of None \<Rightarrow> vm_status r | Some x \<Rightarrow> Some x) \<and>
      vm_end_time r' = (case Some (clock t) of None \<Rightarrow> vm_end_time r | Some x \<Rightarrow> Some x))"
    moreover from this have "clock u = clock t" using assms(2) by (simp add: only_vmove_def same_tables_def)
    ultimately show "wp (whenM (\<not> b) (unlock_server N (sv_id i))) (\<lambda>_. ?J) (\<lambda>_. ?J) u"
      using r by (intro unlock) (auto simp: closed_as_def)
  qed simp
  then show ?thesis by (simp add: staged_finish_def wp_bindM wp_utcnow)
qed

lemma wp_staged_failed:
  assumes ctx: "live_ctx ctx" and "only_vmove L (vm_uuid v) w t"
  shows "wp (staged_failed S ctx v e) (\<lambda>_ t'. only_vmove L (vm_uuid v) w t' \<and> outcome (vm_uuid v) VS_FAILED t')
    (\<lambda>_ t'. only_vmove L (vm_uuid v) w t' \<and> outcome (vm_uuid v) VS_FAILED t') t"
proof -
  let ?J = "\<lambda>t'. only_vmove L (vm_uuid v) w t' \<and> outcome (vm_uuid v) VS_FAILED t'"
  have off: "off_etcd ?J" using only_vmove_off_etcd(1) [of L "vm_uuid v" w]
    by (auto simp: off_etcd_def outcome_def live_def)
  have "pres ?J (bindM (mark_failed S n i m) (\<lambda>_. retM ()))" for n i m by (intro pres_intros off)
  from wp_pres [OF this escapes_top] have mark: "wp (bindM (mark_failed S n i m) (\<lambda>_. retM ())) (\<lambda>_. ?J) (\<lambda>_. ?J) u"
    if "?J u" for n i m and u :: "('a, 'b) world" using that by simp
  show ?thesis
    unfolding staged_failed_def wp_bindM [of "update_vmove c x s a b d m" for c x s a b d m]
    by (rule wp_mono [OF only_vmove_update [OF assms]], rule mark) (auto simp: outcome_def)
qed

lemma wp_staged_move:
  assumes ctx: "live_ctx ctx" and "only_vmove L (vm_uuid v) w t"
  shows "wp (staged_move C N S ctx v rh i)
    (\<lambda>_ t'. only_vmove L (vm_uuid v) w t' \<and> outcome (vm_uuid v) VS_SUCCEEDED t') (\<lambda>_. only_vmove L (vm_uuid v) w) t"
proof -
  let ?I = "only_vmove L (vm_uuid v) w"
  let ?J = "\<lambda>t'. ?I t' \<and> outcome (vm_uuid v) VS_SUCCEEDED t'"
  have off: "off_etcd ?J" using only_vmove_off_etcd(1) [of L "vm_uuid v" w]
    by (auto simp: off_etcd_def outcome_def live_def)
  have wait: "pres ?I (wait_for_evacuation_confirmation C N v)"
    unfolding wait_for_evacuation_confirmation_def by (intro pres_intros only_vmove_off)
  have "pres ?J (bindM (update_instance_state S n j p) (\<lambda>_. retM ()))" for n j p by (intro pres_intros off)
  from wp_pres [OF this escapes_top] have stored: "wp (bindM (update_instance_state S n j p) (\<lambda>_. retM ())) (\<lambda>_. ?J) (\<lambda>_. ?I) u"
    if "?J u" for n j p and u :: "('a, 'b) world" by (rule wp_mono) (use that in auto)
  have last: "wp (bindM (update_vmove ctx v (Some VS_SUCCEEDED) None None d None)
      (\<lambda>_. bindM (update_instance_state S n j p) (\<lambda>_. retM ()))) (\<lambda>_. ?J) (\<lambda>_. ?I) u" if "?I u" for d n j p u
    unfolding wp_bindM [of "update_vmove c x s a b d m" for c x s a b d m]
    by (rule wp_mono [OF only_vmove_update [OF ctx that]], rule stored) (auto simp: outcome_def)
  show ?thesis
    unfolding staged_move_def
    by (intro wp_bindM_pres [where I = ?I] pres_intros wait only_vmove_off only_vmove_off_etcd pres_update_vmove [OF ctx] last assms(2))
qed



text \<open>Releasing a slot gives it back: with etcd answering and nobody else writing it always returns, also
  when the lease itself cannot be revoked, and then the lease of the instance is gone from the host, and
  no lease has been added.\<close>

theorem release_frees_slot:
  assumes quiet: "etcd_quiet (ss_client S) kv env"
    and objects: "\<forall>raw. kv (etcd w) (start_lease_key S h i) = Some raw \<longrightarrow> (\<exists>d. loads raw = Inr d)"
    and run: "release_start_lease S h i w = (r, w')"
  shows "r = Inr () \<and> w' = w\<lparr>etcd := etcd w'\<rparr> \<and>
    lease_keys S kv h (etcd w') \<subseteq> lease_keys S kv h (etcd w) - {start_lease_key S h i}"
proof -
  let ?key = "start_lease_key S h i" and ?E = "ss_client S"
  have ok: "etcd_ok ?E kv env" and still: "\<And>k k'. env k k' \<Longrightarrow> kv k' = kv k"
    and ans: "\<And>key k. \<not> isl (fst (ec_delete ?E key k))"
    using quiet unfolding etcd_quiet_def by blast+
  obtain k1 where get: "get_raw ?E ?key w = (Inr (kv (etcd w) ?key), w\<lparr>etcd := k1\<rparr>)" and k1: "kv k1 = kv (etcd w)"
    by (rule get_raw_quiet [OF quiet])
  obtain id where id: "(case kv (etcd w) ?key of None \<Rightarrow> retM JNull
      | Some v \<Rightarrow> bindM (liftE (loads v)) (\<lambda>d. retM (dget d ''etcd_lease_id''))) (w\<lparr>etcd := k1\<rparr>) = (Inr id, w\<lparr>etcd := k1\<rparr>)"
    using objects by (cases "kv (etcd w) ?key") (auto simp: retM_def liftE_def bindM_def)
  obtain b k2 where del: "ec_delete ?E ?key k1 = (Inr b, k2)" and k2: "kv k2 = (kv (etcd w))(?key := None)"
  proof (rule writes_quiet [OF etcd_delete [OF ok] still ans])
    fix k2 assume "ec_delete ?E ?key k1 = (Inr (kv k1 ?key \<noteq> None), k2)"
      "kv k2 = (if kv k1 ?key \<noteq> None then (kv k1)(?key := None) else kv k1)"
    then show thesis using that k1 by (auto simp: fun_eq_iff split: if_splits)
  qed
  have "release_start_lease S h i w = (if id = JNull then retM ()
      else bindM (lease_by_id S id) (\<lambda>lease. case lease of None \<Rightarrow> retM () | Some l \<Rightarrow> revoke_quietly S l)) (w\<lparr>etcd := k2\<rparr>)"
    using get id del by (simp add: release_start_lease_def Let_def bindM_def [of "get_raw E k" for E k]
      bindM_def [of "on_etcd m" for m] on_etcd_run)
      (simp add: bindM_def)
  moreover have "\<exists>k3. (if id = JNull then retM ()
      else bindM (lease_by_id S id) (\<lambda>lease. case lease of None \<Rightarrow> retM () | Some l \<Rightarrow> revoke_quietly S l)) (w\<lparr>etcd := k2\<rparr>) =
      (Inr (), w\<lparr>etcd := k3\<rparr>) \<and> kv k3 \<subseteq>\<^sub>m kv k2"
  proof -
    have "\<exists>k3. revoke_quietly S l (w\<lparr>etcd := k2\<rparr>) = (Inr (), w\<lparr>etcd := k3\<rparr>) \<and> kv k3 \<subseteq>\<^sub>m kv k2" for l
    proof -
      obtain r3 k3 where "ec_revoke ?E l k2 = (r3, k3)" by fastforce
      with etcd_revoke [OF ok this] still show ?thesis
        by (cases r3) (auto simp: revoke_quietly_def tryM_def on_etcd_run retM_def)
    qed
    then show ?thesis by (auto simp: lease_by_id_def bindM_def getM_def retM_def)
  qed
  ultimately obtain k3 where "release_start_lease S h i w = (Inr (), w\<lparr>etcd := k3\<rparr>)" "kv k3 \<subseteq>\<^sub>m kv k2" by auto
  moreover have "lease_keys S kv h k3 \<subseteq> lease_keys S kv h (etcd w) - {?key}"
  proof -
    have "kv (etcd w) key = Some v \<and> key \<noteq> ?key" if "kv k3 key = Some v" for key v
      using \<open>kv k3 \<subseteq>\<^sub>m kv k2\<close> that k2 unfolding map_le_def by (metis domI fun_upd_apply option.distinct(1))
    then show ?thesis by (force simp: lease_keys_def)
  qed
  ultimately show ?thesis using run by auto
qed

section \<open>Concrete runs\<close>

text \<open>One instance evacuated and stopped, and the limiter of the default configuration.\<close>

definition demo_stopped :: "json dict" where
  "demo_stopped = [(''dest_host'', JStr ''compute2''), (''instance_uuid'', JStr ''i1''), (''notification_uuid'', JStr ''n''),
     (''original_vm_state'', JStr ''active''), (''step'', JStr STEP_EVACUATED_STOPPED)]"

definition demo_stopped_world :: "(nova_state, etcd_state) world" where
  "demo_stopped_world = demo_world demo_servers (demo_etcd_state [(demo_key, dumps demo_stopped)] [])"

definition demo_limiter :: "etcd_state start_limiter" where
  "demo_limiter = \<lparr>lm_store = demo_store quiet_etcd, lm_configured_max_parallel = 2, lm_ttl = 900, lm_lockable = True,
     lm_others = id\<rparr>"

lemma demo_no_leases: "lease_keys (demo_store E) es_kv h (etcd demo_stopped_world) = {}"
proof -
  have key: "demo_key = instance_key (demo_store E) ''n'' ''i1''"
    by (simp add: demo_key_def instance_key_def demo_store_def make_store_def demo_conf_def rstrip_slash_def encode_key_part_def
      quote_char_def always_safe_def)
  show ?thesis
    by (auto simp: key lease_keys_def demo_stopped_world_def demo_world_def demo_etcd_state_def es_kv_def split: if_splits)
qed

lemma demo_limit: "limit_in_force (demo_store quiet_etcd) es_kv (etcd demo_stopped_world) (JInt 2) = Inr 2"
  by code_simp


definition demo_conf_staged :: conf where
  "demo_conf_staged = demo_conf\<lparr>staged_enabled := True\<rparr>"

lemma batched_start_reports_failures_witness:
  "\<exists>w'. BatchedStartInstancesTask demo_conf_staged demo_nova (demo_store quiet_etcd) (Inr demo_limiter) 3 ''n'' demo_stopped_world =
      (Inr (Some ()), w') \<and> (\<forall>i raw d. es_kv (etcd w') (instance_key (demo_store quiet_etcd) ''n'' i) = Some raw \<longrightarrow>
        loads raw = Inr d \<longrightarrow> \<not> failed_to_start d)"
proof -
  let ?run = "BatchedStartInstancesTask demo_conf_staged demo_nova (demo_store quiet_etcd) (Inr demo_limiter) 3 ''n'' demo_stopped_world"
  have "fst ?run = Inr (Some ())" by code_simp
  then obtain w' where run: "?run = (Inr (Some ()), w')" by (metis prod.collapse)
  have "etcd_ok (ss_client (demo_store quiet_etcd)) es_kv (es_env id)" using demo_quiet by (simp add: etcd_quiet_def)
  from batched_start_reports_failures [OF this run] run show ?thesis by blast
qed

lemma demo_step: "step_of (demo_store quiet_etcd) es_kv (etcd demo_stopped_world) ''n'' ''i1'' = Some (JStr STEP_EVACUATED_STOPPED)"
  by code_simp



end
