(* ===== verification/Masakari_Stale.thy ===== *)
theory Masakari_Stale
  imports Masakari_Manager Masakari_StagedState
begin

text \<open>
  The periodic task of \<open>engine/manager.py\<close> that looks for staged recoveries whose record in etcd has
  not been updated for a while and sends their notifications back to the retry task. The lock of the
  coordinator makes the part it protects one uninterrupted run.
\<close>

definition stale_steps :: "string list" where
  "stale_steps = [STEP_EVACUATING, STEP_WAITING_START_SLOT, STEP_STARTING]"

text \<open>The notifications of the stale records, without repetition, in ascending order.\<close>

definition uuid_of :: "json \<Rightarrow> exc + string" where
  "uuid_of v = (case v of JStr s \<Rightarrow> Inr s | _ \<Rightarrow> Inl (Exc TypeError ''not supported between instances''))"

definition stale_notifications :: "json dict list \<Rightarrow> exc + string list" where
  "stale_notifications states =
     (case mapE uuid_of (filter (\<lambda>v. \<not> falsy v) (map (\<lambda>d. dget d ''notification_uuid'') states)) of
        Inl e \<Rightarrow> Inl e | Inr us \<Rightarrow> Inr (sort (remdups us)))"

definition reconcile_notification :: "conf \<Rightarrow> request_context \<Rightarrow> string \<Rightarrow> ('n, 'k, unit) prog" where
  "reconcile_notification C ctx notification_uuid =
     (if \<not> coordination_configured C then retM ()
      else tryM
        (bindM (notification_get_by_uuid ctx notification_uuid) (\<lambda>notification.
         if n_status notification \<noteq> NS_RUNNING then retM ()
         else bindM (set_status ctx notification NS_ERROR) (\<lambda>_. retM ())))
        (\<lambda>_. retM ()))"

definition process_stale_staged_recoveries :: "conf \<Rightarrow> 'k staged_store \<Rightarrow> request_context \<Rightarrow> ('n, 'k, unit) prog" where
  "process_stale_staged_recoveries C S ctx =
     (if \<not> staged_enabled C then retM ()
      else bindM (tryM (bindM (list_stale_instance_states S (stale_recovery_timeout C) stale_steps None) (\<lambda>l. retM (Some l)))
          (\<lambda>_. retM None)) (\<lambda>states. case states of
        None \<Rightarrow> retM ()
      | Some states \<Rightarrow> bindM (liftE (stale_notifications states)) (\<lambda>us. forM us (reconcile_notification C ctx))))"

section \<open>What the task does\<close>

text \<open>What becomes of a notification, \<open>us\<close> being those with a stale record.\<close>

definition stale_outcome :: "string set \<Rightarrow> notification \<Rightarrow> notification \<Rightarrow> bool" where
  "stale_outcome us n r \<longleftrightarrow> (if n_uuid n \<in> us \<and> n_status n = NS_RUNNING
     then same_notification n r \<and> n_status r = NS_ERROR else r = n)"

lemma wp_reconcile:
  assumes ctx: "live_ctx ctx" and ok: "table_ok L notifications_tbl t" and "coordination_configured C"
  shows "wp (reconcile_notification C ctx u) (\<lambda>_ t'. t' = t\<lparr>notifications := notifications t'\<rparr> \<and> table_ok L notifications_tbl t' \<and>
      (\<forall>x. x \<noteq> u \<longrightarrow> live notifications_tbl t' x = live notifications_tbl t x) \<and>
      (case live notifications_tbl t u of None \<Rightarrow> live notifications_tbl t' u = None
       | Some r \<Rightarrow> \<exists>r'. live notifications_tbl t' u = Some r' \<and> stale_outcome {u} r r')) (\<lambda>_ _. False) t"
proof (cases "live notifications_tbl t u")
  case None
  then have "notification_get_by_uuid ctx u t = (Inl (mk_NotificationNotFound u), t)"
    by (simp add: get_by_uuid_live(3) [OF ctx])
  then show ?thesis using None assms(3) ok
    by (simp add: reconcile_notification_def wp_def tryM_def bindM_def retM_def)
next
  case (Some r)
  have u: "n_uuid r = u" using live_SomeD [OF Some] by (simp add: notifications_tbl_def)
  have get: "notification_get_by_uuid ctx u t = (Inr r, t)"
    using Some by (simp add: get_by_uuid_live(3) [OF ctx])
  show ?thesis
  proof (cases "n_status r = NS_RUNNING")
    case False
    then show ?thesis using Some get assms(3) ok
      by (simp add: reconcile_notification_def wp_def tryM_def bindM_def retM_def stale_outcome_def)
  next
    case True
    let ?Q = "\<lambda>_ t'. t' = t\<lparr>notifications := notifications t'\<rparr> \<and> table_ok L notifications_tbl t' \<and>
      (\<forall>x. x \<noteq> u \<longrightarrow> live notifications_tbl t' x = live notifications_tbl t x) \<and>
      (\<exists>r'. live notifications_tbl t' u = Some r' \<and> stale_outcome {u} r r')"
    have "wp (set_status ctx r NS_ERROR) ?Q (\<lambda>_ _. False) t"
      by (rule wp_set_status [OF ctx ok]) (use Some True in \<open>auto simp: u stale_outcome_def\<close>)
    then have "wp (bindM (set_status ctx r NS_ERROR) (\<lambda>_. retM ())) ?Q (\<lambda>_ _. False) t"
      by (simp add: wp_bindM wp_retM)
    moreover have "notification_get_by_uuid ctx u = (\<lambda>w. notification_get_by_uuid ctx u w)" by simp
    ultimately show ?thesis using Some get True assms(3)
      by (auto simp: reconcile_notification_def wp_def tryM_def bindM_def [of "notification_get_by_uuid c x" for c x]
        split: prod.splits sum.splits)
  qed
qed

lemma wp_reconcile_all:
  assumes ctx: "live_ctx ctx" and "coordination_configured C"
  shows "distinct us \<Longrightarrow> table_ok L notifications_tbl t \<Longrightarrow> wp (forM us (reconcile_notification C ctx))
     (\<lambda>_ t'. t' = t\<lparr>notifications := notifications t'\<rparr> \<and> table_ok L notifications_tbl t' \<and>
        each_notification (stale_outcome (set us)) t t') (\<lambda>_ _. False) t"
proof (induction us arbitrary: t)
  case Nil
  then show ?case by (simp add: wp_retM each_notification_def stale_outcome_def split: option.split)
next
  case (Cons u us)
  show ?case
    unfolding forM.simps wp_bindM [of "reconcile_notification C ctx u"]
  proof (rule wp_mono [OF wp_reconcile [OF ctx Cons.prems(2) assms(2), of u]])
    fix t1
    assume t1: "t1 = t\<lparr>notifications := notifications t1\<rparr> \<and> table_ok L notifications_tbl t1 \<and>
      (\<forall>x. x \<noteq> u \<longrightarrow> live notifications_tbl t1 x = live notifications_tbl t x) \<and>
      (case live notifications_tbl t u of None \<Rightarrow> live notifications_tbl t1 u = None
       | Some r \<Rightarrow> \<exists>r'. live notifications_tbl t1 u = Some r' \<and> stale_outcome {u} r r')"
    have "wp (forM us (reconcile_notification C ctx)) (\<lambda>_ t'. t' = t1\<lparr>notifications := notifications t'\<rparr> \<and>
        table_ok L notifications_tbl t' \<and> each_notification (stale_outcome (set us)) t1 t') (\<lambda>_ _. False) t1"
      using Cons.IH [of t1] Cons.prems t1 by simp
    then show "wp (forM us (reconcile_notification C ctx)) (\<lambda>_ t'. t' = t\<lparr>notifications := notifications t'\<rparr> \<and>
        table_ok L notifications_tbl t' \<and> each_notification (stale_outcome (set (u # us))) t t') (\<lambda>_ _. False) t1"
    proof (rule wp_mono)
      fix t'
      assume t': "t' = t1\<lparr>notifications := notifications t'\<rparr> \<and> table_ok L notifications_tbl t' \<and>
         each_notification (stale_outcome (set us)) t1 t'"
      have frame: "t' = t\<lparr>notifications := notifications t'\<rparr>"
        using t' t1 by (cases t; cases t1; cases t') auto
      have "each_notification (stale_outcome (set (u # us))) t t'"
        unfolding each_notification_def
      proof
        fix x
        have key: "n_uuid r = x" if "live notifications_tbl s x = Some r" for s r
          using live_SomeD [OF that] by (simp add: notifications_tbl_def)
        have second: "case live notifications_tbl t1 x of None \<Rightarrow> live notifications_tbl t' x = None
            | Some r \<Rightarrow> \<exists>r'. live notifications_tbl t' x = Some r' \<and> stale_outcome (set us) r r'"
          using t' unfolding each_notification_def by blast
        show "case live notifications_tbl t x of None \<Rightarrow> live notifications_tbl t' x = None
            | Some r \<Rightarrow> \<exists>r'. live notifications_tbl t' x = Some r' \<and> stale_outcome (set (u # us)) r r'"
        proof (cases "x = u")
          case True
          then show ?thesis using t1 second Cons.prems(1) key [of t] key [of t1]
            by (auto simp: stale_outcome_def split: option.splits)
        next
          case False
          then show ?thesis using t1 second key [of t]
            by (auto simp: stale_outcome_def split: option.splits)
        qed
      qed
      with frame t' show "t' = t\<lparr>notifications := notifications t'\<rparr> \<and>
        table_ok L notifications_tbl t' \<and> each_notification (stale_outcome (set (u # us))) t t'" by blast
    qed simp
  qed simp
qed

text \<open>C30. The task for stale recoveries: it sends exactly the running notifications that have a stale record
  back to the retry task, by giving them the status error; every other notification and everything else
  of the engine's state stays as it is. When etcd cannot be listed it does nothing and returns, and the
  only way it raises is a record whose notification is not a string.\<close>

theorem process_stale_spec:
  assumes ctx: "live_ctx ctx" and w: "table_ok L notifications_tbl w" and "staged_enabled C" and "coordination_configured C"
    and list: "list_stale_instance_states S (stale_recovery_timeout C) stale_steps None w = (listed, w1)"
    and run: "process_stale_staged_recoveries C S ctx w = (r, w')"
  shows "case listed of Inl e \<Rightarrow> r = Inr () \<and> w' = w1
    | Inr states \<Rightarrow> (case stale_notifications states of Inl e \<Rightarrow> r = Inl e \<and> w' = w1
      | Inr us \<Rightarrow> r = Inr () \<and> w' = w\<lparr>etcd := etcd w', notifications := notifications w'\<rparr> \<and>
          table_ok L notifications_tbl w' \<and> each_notification (stale_outcome (set us)) w w')"
proof -
  have frame: "w1 = w\<lparr>etcd := etcd w1\<rparr>"
    using presD [OF pres_store_ops(13) [OF off_etcd_frame] list, of w] by simp
  show ?thesis
  proof (cases listed)
    case (Inl e)
    then show ?thesis using run list assms(3)
      by (auto simp: process_stale_staged_recoveries_def bindM_def tryM_def retM_def)
  next
    case (Inr states)
    have rest: "process_stale_staged_recoveries C S ctx w =
        bindM (liftE (stale_notifications states)) (\<lambda>us. forM us (reconcile_notification C ctx)) w1"
      using list Inr assms(3) by (simp add: process_stale_staged_recoveries_def bindM_def tryM_def retM_def)
    show ?thesis
    proof (cases "stale_notifications states")
      case (Inl e)
      then show ?thesis using run rest Inr by (simp add: bindM_def liftE_def raiseM_def)
    next
      case us: (Inr us)
      have "distinct us" using us by (auto simp: stale_notifications_def split: sum.splits)
      moreover have "table_ok L notifications_tbl w1" using w by (subst frame) (simp add: table_ok_def notifications_tbl_def)
      moreover have "live notifications_tbl w1 = live notifications_tbl w"
        by (subst frame) (simp add: live_def notifications_tbl_def)
      ultimately have "wp (forM us (reconcile_notification C ctx)) (\<lambda>_ t'. t' = w1\<lparr>notifications := notifications t'\<rparr> \<and>
          table_ok L notifications_tbl t' \<and> each_notification (stale_outcome (set us)) w t') (\<lambda>_ _. False) w1"
        using wp_reconcile_all [OF ctx assms(4), of us L w1] by (simp add: each_notification_def)
      then have "r = Inr () \<and> w' = w1\<lparr>notifications := notifications w'\<rparr> \<and> table_ok L notifications_tbl w' \<and>
          each_notification (stale_outcome (set us)) w w'"
        using run rest us by (auto simp: bindM_def liftE_def retM_def wp_def split: sum.splits)
      moreover from this have "w' = w\<lparr>etcd := etcd w', notifications := notifications w'\<rparr>"
        using frame by (cases w; cases w1; cases w') auto
      ultimately show ?thesis using Inr us by simp
    qed
  qed
qed

section \<open>A concrete run\<close>

text \<open>A running notification whose instance has been waiting for two hours.\<close>

definition demo_stale_record :: "json dict" where
  "demo_stale_record = [(''notification_uuid'', JStr (n_uuid demo_notification)), (''step'', JStr STEP_STARTING), (''updated_at'', JTime 0)]"

definition demo_stale :: "(nova_state, etcd_state) world" where
  "demo_stale = (demo_world demo_servers (demo_etcd_state [(demo_key, dumps demo_stale_record)] []))\<lparr>clock := 7200\<rparr>"

lemma process_stale_spec_witness:
  "\<exists>w'. process_stale_staged_recoveries (demo_conf\<lparr>staged_enabled := True\<rparr>) (demo_store quiet_etcd) demo_ctx demo_stale = (Inr (), w') \<and>
     (\<exists>r. live notifications_tbl w' (n_uuid demo_notification) = Some r \<and> n_status r = NS_ERROR)"
proof -
  let ?C = "demo_conf\<lparr>staged_enabled := True\<rparr>" and ?S = "demo_store quiet_etcd"
  let ?list = "list_stale_instance_states ?S (stale_recovery_timeout ?C) stale_steps None demo_stale"
  have "(case fst ?list of Inl _ \<Rightarrow> False | Inr states \<Rightarrow> stale_notifications states = Inr [n_uuid demo_notification])" by code_simp
  then obtain states w1 where list: "?list = (Inr states, w1)" and us: "stale_notifications states = Inr [n_uuid demo_notification]"
    by (cases ?list) (auto split: sum.splits)
  obtain r w' where run: "process_stale_staged_recoveries ?C ?S demo_ctx demo_stale = (r, w')" by fastforce
  have ok: "table_ok demo_lib notifications_tbl demo_stale"
    using demo_world_ok [of demo_lib demo_servers "demo_etcd_state [(demo_key, dumps demo_stale_record)] []"]
    by (simp add: db_ok_def demo_stale_def table_ok_def notifications_tbl_def)
  have there: "live notifications_tbl demo_stale (n_uuid demo_notification) = Some demo_notification" "n_status demo_notification = NS_RUNNING"
    by (simp_all add: live_def tbl_defs demo_stale_def demo_defs)
  have "each_notification (stale_outcome {n_uuid demo_notification}) demo_stale w'" "r = Inr ()"
    using process_stale_spec [OF live_demo_ctx ok _ _ list run] us by (simp_all add: demo_conf_def)
  from each_notificationD [OF this(1) there(1)] there(2) this(2) run show ?thesis by (auto simp: stale_outcome_def)
qed

end
