(* ===== verification/Masakari_Redfish.thy ===== *)
theory Masakari_Redfish
  imports Masakari_StagedState Masakari_HostFailure
begin

text \<open>
  \<open>engine/drivers/taskflow/redfish_fencing.py\<close>: the client that switches a failed host off through
  the Redfish interface of its management controller. The HTTP session (the package requests) is a
  parameter: \<open>http_session\<close> acts on the outside state \<open>'n\<close>; a response that is an HTTP error is an
  exception here, because the program calls \<open>raise_for_status\<close> on every response. The YAML file of
  the hosts is a parameter too, as the value \<open>yaml.safe_load\<close> gives.
\<close>

section \<open>Configuration\<close>

record fencing_conf =
  rf_enabled :: bool
  rf_hosts_config_path :: string
  rf_allow_inline_password :: bool
  rf_etcd_prefix :: string
  rf_reset_type :: string
  rf_expected_power_state :: string
  rf_polls_power_off :: nat
  rf_stable_reads :: nat
  rf_max_attempts :: nat
  rf_lock_ttl :: int
  rf_batch_window :: int
  rf_max_hosts :: nat
  rf_min_surviving :: int

definition demo_fencing_conf :: fencing_conf where
  "demo_fencing_conf = \<lparr>rf_enabled = True, rf_hosts_config_path = ''/etc/hosts.yaml'', rf_allow_inline_password = True,
     rf_etcd_prefix = ''/masakari/redfish-fencing/v1'', rf_reset_type = ''ForceOff'', rf_expected_power_state = ''Off'',
     rf_polls_power_off = 36, rf_stable_reads = 2, rf_max_attempts = 3, rf_lock_ttl = 300, rf_batch_window = 30,
     rf_max_hosts = 1, rf_min_surviving = 1\<rparr>"

text \<open>
  The files: whether a path exists, the parsed YAML text of a file, and the text of a file.
\<close>

record files =
  fl_exists :: "string \<Rightarrow> bool"
  fl_yaml :: "string \<Rightarrow> exc + json"
  fl_text :: "string \<Rightarrow> exc + string"

definition fencing_error :: "string \<Rightarrow> exc" where
  "fencing_error m = Exc RedfishFencingException m"

definition or_empty :: "json \<Rightarrow> json" where
  "or_empty v = (if falsy v then JObj [] else v)"

definition load_yaml :: "files \<Rightarrow> string \<Rightarrow> exc + json dict" where
  "load_yaml F path =
     (if path = '''' then Inl (fencing_error ''[redfish_fencing] hosts_config_path is required'')
      else if \<not> fl_exists F path then Inl (Exc ConfigNotFound (''Could not find config at '' @ path))
      else case fl_yaml F path of Inl e \<Rightarrow> Inl e | Inr v \<Rightarrow> loads (or_empty v))"

text \<open>\<open>str\<close> of a scalar of a YAML file.\<close>

definition show_int :: "int \<Rightarrow> string" where
  "show_int i = (if i < 0 then ''-'' @ show_nat (nat (- i)) else show_nat (nat i))"

definition str_of :: "json \<Rightarrow> string" where
  "str_of v = (case v of JStr s \<Rightarrow> s | JInt i \<Rightarrow> show_int i | JBool b \<Rightarrow> if b then ''True'' else ''False'' | _ \<Rightarrow> ''None'')"

definition strip :: "string \<Rightarrow> string" where
  "strip s = rev (dropWhile is_blank (rev (dropWhile is_blank s)))"

definition load_password :: "files \<Rightarrow> fencing_conf \<Rightarrow> string \<Rightarrow> json dict \<Rightarrow> exc + string" where
  "load_password F K hostname values =
     (let has_inline = dget values ''password'' \<noteq> JNull in
      if has_inline \<and> \<not> rf_allow_inline_password K
      then Inl (fencing_error (''Inline Redfish password for host '' @ hostname @
        '' is disabled; use password_file or set [redfish_fencing] allow_insecure_inline_password''))
      else if has_inline then Inr (str_of (dget values ''password''))
      else if \<not> falsy (dget values ''password_file'')
      then (case fl_text F (str_of (dget values ''password_file'')) of Inl e \<Rightarrow> Inl e | Inr t \<Rightarrow> Inr (strip t))
      else if \<not> falsy (dget values ''password_secret_ref'')
      then Inl (fencing_error ''password_secret_ref is not supported by the direct Redfish fencing client; use password_file'')
      else Inl (fencing_error (''Redfish password or password_file is required for host '' @ hostname)))"

definition required :: "json dict \<Rightarrow> string \<Rightarrow> string \<Rightarrow> exc + json" where
  "required values hostname name =
     (let value = dget values name in
      if value = JNull \<or> value = JStr ''''
      then Inl (fencing_error (''Redfish host '' @ hostname @ '' is missing required option '' @ name))
      else Inr value)"

text \<open>\<open>values.get(name, default)\<close>.\<close>

definition dget_or :: "json dict \<Rightarrow> string \<Rightarrow> json \<Rightarrow> json" where
  "dget_or d name v = (case map_of d name of None \<Rightarrow> v | Some x \<Rightarrow> x)"

record redfish_host_config =
  hc_hostname :: string
  hc_address :: json
  hc_systems_uri :: json
  hc_username :: json
  hc_password :: string
  hc_scheme :: json
  hc_port :: int
  hc_base_uri :: json
  hc_auth_type :: json
  hc_tls_verify :: bool
  hc_ca_cert :: json
  hc_expected :: "(string \<times> json) list"

text \<open>What is checked of a system: the option with the expected value and the name Redfish has for it.\<close>

definition identity_checks :: "(string \<times> string) list" where
  "identity_checks = [(''expected_system_uuid'', ''UUID''), (''expected_serial_number'', ''SerialNumber''),
     (''expected_asset_tag'', ''AssetTag''), (''expected_manufacturer'', ''Manufacturer''), (''expected_model'', ''Model'')]"

definition bindE :: "'e + 'a \<Rightarrow> ('a \<Rightarrow> 'e + 'b) \<Rightarrow> 'e + 'b" where
  "bindE r f = (case r of Inl e \<Rightarrow> Inl e | Inr a \<Rightarrow> f a)"

definition load_host_config :: "files \<Rightarrow> fencing_conf \<Rightarrow> string \<Rightarrow> exc + redfish_host_config" where
  "load_host_config F K hostname =
     bindE (load_yaml F (rf_hosts_config_path K)) (\<lambda>mapping.
     bindE (loads (or_empty (dget mapping ''defaults''))) (\<lambda>defaults.
     bindE (loads (or_empty (dget mapping ''hosts''))) (\<lambda>hosts.
     if map_of hosts hostname = None then Inl (fencing_error (''No Redfish host mapping found for '' @ hostname))
     else bindE (loads (or_empty (dget hosts hostname))) (\<lambda>own.
     let values = dict_update defaults own in
     bindE (load_password F K hostname values) (\<lambda>password.
     bindE (required values hostname ''address'') (\<lambda>address.
     bindE (required values hostname ''systems_uri'') (\<lambda>systems_uri.
     bindE (required values hostname ''username'') (\<lambda>username.
     case py_int (dget_or values ''port'' (JInt 443)) of
       None \<Rightarrow> Inl (Exc ValueError ''invalid literal for int() with base 10'')
     | Some port \<Rightarrow> Inr \<lparr>hc_hostname = hostname, hc_address = address, hc_systems_uri = systems_uri, hc_username = username,
         hc_password = password, hc_scheme = dget_or values ''scheme'' (JStr ''https''), hc_port = port,
         hc_base_uri = dget_or values ''base_uri'' (JStr ''/redfish/v1''),
         hc_auth_type = dget_or values ''auth_type'' (JStr ''session''),
         hc_tls_verify = (\<not> falsy (dget_or values ''tls_verify'' (JBool True))), hc_ca_cert = dget values ''ca_cert'',
         hc_expected = map (\<lambda>(option, name). (name, dget values option)) identity_checks\<rparr>))))))))"

section \<open>The session\<close>

record response =
  rs_json :: "exc + json"
  rs_token :: "string option"
  rs_location :: "string option"

record 'n http_session =
  ht_send :: "string \<Rightarrow> string \<Rightarrow> json \<Rightarrow> json option \<Rightarrow> ('n, exc, response) comp"

record redfish_client =
  rc_location :: "string option"
  rc_authenticated :: bool

text \<open>
  What an operation of the client works on: the state of the engine, and the client once there is one.
\<close>

type_synonym ('n, 'k, 'a) bmc = "(('n, 'k) world \<times> redfish_client, exc, 'a) comp"

definition base_url :: "redfish_host_config \<Rightarrow> string" where
  "base_url H = str_of (hc_scheme H) @ ''://'' @ str_of (hc_address H) @ '':'' @ show_int (hc_port H)"

text \<open>
  \<open>urljoin\<close> of a base without a path and a path: a path without a leading slash gets one.
\<close>

definition url :: "redfish_host_config \<Rightarrow> string \<Rightarrow> string" where
  "url H uri = (if prefix ''http://'' uri \<or> prefix ''https://'' uri then uri
     else if prefix ''/'' uri then base_url H @ uri else base_url H @ ''/'' @ uri)"

definition verify :: "redfish_host_config \<Rightarrow> json" where
  "verify H = (if \<not> falsy (hc_ca_cert H) then hc_ca_cert H else JBool (hc_tls_verify H))"

definition request ::
  "'n http_session \<Rightarrow> redfish_host_config \<Rightarrow> string \<Rightarrow> string \<Rightarrow> json option \<Rightarrow> ('n, 'k, response) bmc" where
  "request T H verb uri body =
     zoomM (\<lambda>(w, _). infra w) (\<lambda>n (w, c). (w\<lparr>infra := n\<rparr>, c)) (ht_send T verb (url H uri) (verify H) body)"

definition request_json :: "'n http_session \<Rightarrow> redfish_host_config \<Rightarrow> string \<Rightarrow> string \<Rightarrow> ('n, 'k, json) bmc" where
  "request_json T H verb uri = bindM (request T H verb uri None) (\<lambda>r. liftE (rs_json r))"

definition authenticate :: "'n http_session \<Rightarrow> redfish_host_config \<Rightarrow> ('n, 'k, unit) bmc" where
  "authenticate T H = bindM (getM (\<lambda>(_, c). rc_authenticated c)) (\<lambda>done_before.
     if done_before then retM ()
     else bindM (request T H ''get'' (str_of (hc_base_uri H)) None) (\<lambda>_.
     bindM (if hc_auth_type H = JStr ''session''
       then bindM (request T H ''post'' (rstrip_slash (str_of (hc_base_uri H)) @ ''/SessionService/Sessions'')
              (Some (JObj [(''UserName'', hc_username H), (''Password'', JStr (hc_password H))]))) (\<lambda>r.
            if rs_token r = None \<or> rs_token r = Some ''''
            then raiseM (fencing_error (''Redfish session response did not include X-Auth-Token for host '' @ hc_hostname H))
            else modM (\<lambda>(w, c). (w, c\<lparr>rc_location := rs_location r\<rparr>)))
       else if hc_auth_type H = JStr ''basic'' then retM ()
       else raiseM (fencing_error (''Unsupported Redfish auth_type '' @ str_of (hc_auth_type H) @ '' for host '' @ hc_hostname H))) (\<lambda>_.
     modM (\<lambda>(w, c). (w, c\<lparr>rc_authenticated := True\<rparr>)))))"

definition close :: "'n http_session \<Rightarrow> redfish_host_config \<Rightarrow> ('n, 'k, unit) bmc" where
  "close T H = bindM (getM (\<lambda>(_, c). rc_location c)) (\<lambda>location. case location of
       None \<Rightarrow> retM ()
     | Some l \<Rightarrow> if l = '''' then retM ()
         else bindM (tryM (bindM (request T H ''delete'' l None) (\<lambda>_. retM ())) (\<lambda>_. retM ())) (\<lambda>_.
           modM (\<lambda>(w, c). (w, c\<lparr>rc_location := None\<rparr>))))"

section \<open>Fencing\<close>

text \<open>The loop over the checks raises at the first value that differs.\<close>

fun validate_system_identity :: "redfish_host_config \<Rightarrow> json dict \<Rightarrow> (string \<times> json) list \<Rightarrow> exc + unit" where
  "validate_system_identity H system [] = Inr ()"
| "validate_system_identity H system ((name, expected) # rest) =
     (if expected = JNull then validate_system_identity H system rest
      else if dget system name \<noteq> expected
      then Inl (Exc RedfishIdentityMismatch (''Redfish '' @ name @ '' mismatch for host '' @ hc_hostname H @ '': expected '' @
        str_of expected @ '', got '' @ str_of (dget system name)))
      else validate_system_identity H system rest)"

text \<open>\<open>reset_type not in allowed\<close>, on the values JSON has.\<close>

definition is_in :: "string \<Rightarrow> json \<Rightarrow> exc + bool" where
  "is_in x v = (case v of JList xs \<Rightarrow> Inr (JStr x \<in> set xs) | JObj d \<Rightarrow> Inr (map_of d x \<noteq> None)
     | JStr s \<Rightarrow> Inr (sublist x s) | _ \<Rightarrow> Inl (Exc TypeError ''argument is not iterable''))"

definition reset_action :: "fencing_conf \<Rightarrow> redfish_host_config \<Rightarrow> json dict \<Rightarrow> exc + string" where
  "reset_action K H system =
     bindE (loads (or_empty (dget system ''Actions''))) (\<lambda>actions.
     bindE (loads (or_empty (dget actions ''#ComputerSystem.Reset''))) (\<lambda>action.
     let allowed = dget action ''ResetType@Redfish.AllowableValues'' in
     bindE (if allowed = JNull then Inr True else is_in (rf_reset_type K) allowed) (\<lambda>ok.
     if \<not> ok then Inl (fencing_error (''Redfish host '' @ hc_hostname H @ '' does not allow reset type '' @ rf_reset_type K))
     else Inr (if \<not> falsy (dget action ''target'') then str_of (dget action ''target'')
       else rstrip_slash (str_of (hc_systems_uri H)) @ ''/Actions/ComputerSystem.Reset''))))"

definition read_system :: "'n http_session \<Rightarrow> redfish_host_config \<Rightarrow> ('n, 'k, json dict) bmc" where
  "read_system T H = bindM (request_json T H ''get'' (str_of (hc_systems_uri H))) (\<lambda>v.
     bindM (liftE (loads v)) (\<lambda>system.
     bindM (liftE (validate_system_identity H system (hc_expected H))) (\<lambda>_. retM system)))"

definition post_forceoff :: "'n http_session \<Rightarrow> fencing_conf \<Rightarrow> redfish_host_config \<Rightarrow> string \<Rightarrow> ('n, 'k, unit) bmc" where
  "post_forceoff T K H target =
     bindM (request T H ''post'' target (Some (JObj [(''ResetType'', JStr (rf_reset_type K))]))) (\<lambda>_. retM ())"

text \<open>
  The reads that fit into the time limit, counted down; every read of another power state starts the
  count of stable reads again.
\<close>

primrec wait_for_power_off ::
  "'n http_session \<Rightarrow> fencing_conf \<Rightarrow> redfish_host_config \<Rightarrow> nat \<Rightarrow> nat \<Rightarrow> ('n, 'k, json dict) bmc" where
  "wait_for_power_off T K H stable_reads 0 =
     raiseM (fencing_error (''Timed out waiting for Redfish PowerState='' @ rf_expected_power_state K @ '' on host '' @
       hc_hostname H))"
| "wait_for_power_off T K H stable_reads (Suc reads_left) =
     bindM (read_system T H) (\<lambda>system.
     if dget system ''PowerState'' = JStr (rf_expected_power_state K)
     then (if Suc stable_reads \<ge> rf_stable_reads K
           then retM [(''method'', JStr ''redfish''), (''systems_uri'', hc_systems_uri H),
             (''verified_power_state'', JStr (rf_expected_power_state K)), (''power_state_reads'', JInt (int (Suc stable_reads)))]
           else wait_for_power_off T K H (Suc stable_reads) reads_left)
     else wait_for_power_off T K H 0 reads_left)"

definition fence_once :: "'n http_session \<Rightarrow> fencing_conf \<Rightarrow> redfish_host_config \<Rightarrow> ('n, 'k, json dict) bmc" where
  "fence_once T K H =
     bindM (authenticate T H) (\<lambda>_.
     bindM (read_system T H) (\<lambda>system.
     bindM (liftE (reset_action K H system)) (\<lambda>target.
     bindM (whenM (dget system ''PowerState'' \<noteq> JStr (rf_expected_power_state K)) (post_forceoff T K H target)) (\<lambda>_.
     bindM (wait_for_power_off T K H 0 (rf_polls_power_off K)) (\<lambda>proof_of.
     retM (dict_update proof_of [(''reset_target'', JStr target), (''requested_reset_type'', JStr (rf_reset_type K))]))))))"

text \<open>The attempts that are left; the first call has \<open>max_attempts\<close>.\<close>

primrec fence_attempts :: "'n http_session \<Rightarrow> fencing_conf \<Rightarrow> redfish_host_config \<Rightarrow> nat \<Rightarrow> ('n, 'k, json dict) bmc" where
  "fence_attempts T K H 0 =
     raiseM (fencing_error (''Redfish fencing attempts exhausted for host '' @ hc_hostname H))"
| "fence_attempts T K H (Suc attempts) =
     tryM (fence_once T K H) (\<lambda>e.
       if isinstance e MasakariException then raiseM e
       else if isinstance e RequestException
       then (if attempts = 0 then raiseM (fencing_error (message e)) else fence_attempts T K H attempts)
       else raiseM e)"

definition fence_off :: "'n http_session \<Rightarrow> fencing_conf \<Rightarrow> redfish_host_config \<Rightarrow> ('n, 'k, json dict) bmc" where
  "fence_off T K H = fence_attempts T K H (rf_max_attempts K)"


section \<open>What a proof of fencing is worth\<close>

text \<open>
  What the properties say of the machine behind the management controller: \<open>truthful\<close>, a read of the
  system reports the power state \<open>pow_state\<close> the machine has then; \<open>counts_resets\<close>, no other request
  than the reset changes the number \<open>resets\<close> of times it was reset.
\<close>

definition truthful :: "'n http_session \<Rightarrow> redfish_host_config \<Rightarrow> ('n \<Rightarrow> json) \<Rightarrow> bool" where
  "truthful T H pow_state \<longleftrightarrow> (\<forall>v n r n' d. ht_send T ''get'' (url H (str_of (hc_systems_uri H))) v None n = (Inr r, n') \<longrightarrow>
     rs_json r = Inr (JObj d) \<longrightarrow> dget d ''PowerState'' = pow_state n')"

definition counts_resets :: "'n http_session \<Rightarrow> ('n \<Rightarrow> nat) \<Rightarrow> bool" where
  "counts_resets T resets \<longleftrightarrow> (\<forall>verb uri v body n r n'. ht_send T verb uri v body n = (r, n') \<longrightarrow>
     (\<forall>k. body \<noteq> Some (JObj [(''ResetType'', k)])) \<longrightarrow> resets n' = resets n)"

lemma wp_request:
  "wp (request T H verb uri body) Q E = (\<lambda>(w, c). wp (ht_send T verb (url H uri) (verify H) body)
     (\<lambda>r n. Q r (w\<lparr>infra := n\<rparr>, c)) (\<lambda>e n. E e (w\<lparr>infra := n\<rparr>, c)) (infra w))"
  by (auto simp: request_def wp_zoomM fun_eq_iff)

lemma wp_read_system:
  assumes "\<And>r n d. ht_send T ''get'' (url H (str_of (hc_systems_uri H))) (verify H) None (infra w) = (Inr r, n) \<Longrightarrow>
      rs_json r = Inr (JObj d) \<Longrightarrow> validate_system_identity H d (hc_expected H) = Inr () \<Longrightarrow> Q d (w\<lparr>infra := n\<rparr>, c)"
    and "\<And>e r n. ht_send T ''get'' (url H (str_of (hc_systems_uri H))) (verify H) None (infra w) = (r, n) \<Longrightarrow> E e (w\<lparr>infra := n\<rparr>, c)"
  shows "wp (read_system T H) Q E (w, c)"
proof -
  obtain r n where send: "ht_send T ''get'' (url H (str_of (hc_systems_uri H))) (verify H) None (infra w) = (r, n)" by fastforce
  show ?thesis
  proof (cases r)
    case (Inl e)
    then show ?thesis using send assms(2) [OF send]
      by (simp add: read_system_def request_json_def bindM_assoc wp_bindM wp_request wp_def)
  next
    case (Inr x)
    then show ?thesis using send assms(2) [OF send] assms(1) [OF send [unfolded Inr]]
      by (simp add: read_system_def request_json_def bindM_assoc wp_bindM wp_request wp_liftE wp_retM wp_def [of "ht_send a b c d e" for a b c d e]
        loads_def split: sum.split json.split)
  qed
qed

lemma wp_wait_sound:
  assumes "truthful T H pow_state"
  shows "wp (wait_for_power_off T K H so_far m)
     (\<lambda>d (w, c). pow_state (infra w) = JStr (rf_expected_power_state K) \<and>
        dget d ''verified_power_state'' = JStr (rf_expected_power_state K)) (\<lambda>_ _. True) (w, c)"
proof (induction m arbitrary: so_far w c)
  case 0
  then show ?case by (simp add: wp_raiseM)
next
  case (Suc m)
  let ?Q = "\<lambda>d (w, c). pow_state (infra w) = JStr (rf_expected_power_state K) \<and>
        dget d ''verified_power_state'' = JStr (rf_expected_power_state K)"
  show ?case
    unfolding wait_for_power_off.simps wp_bindM
  proof (rule wp_read_system)
    fix r n d
    assume "ht_send T ''get'' (url H (str_of (hc_systems_uri H))) (verify H) None (infra w) = (Inr r, n)" "rs_json r = Inr (JObj d)"
    with assms have "dget d ''PowerState'' = pow_state n" unfolding truthful_def by blast
    then show "wp (if dget d ''PowerState'' = JStr (rf_expected_power_state K)
     then (if Suc so_far \<ge> rf_stable_reads K
           then retM [(''method'', JStr ''redfish''), (''systems_uri'', hc_systems_uri H),
             (''verified_power_state'', JStr (rf_expected_power_state K)), (''power_state_reads'', JInt (int (Suc so_far)))]
           else wait_for_power_off T K H (Suc so_far) m)
     else wait_for_power_off T K H 0 m) ?Q (\<lambda>_ _. True) (w\<lparr>infra := n\<rparr>, c)"
      using Suc by (simp add: wp_if wp_retM dget_def)
  qed simp
qed

text \<open>What holds of the result of the last wait holds of the result of \<open>fence_off\<close>.\<close>

lemma wp_fence_off:
  fixes Q :: "json dict \<Rightarrow> ('n, 'k) world \<times> redfish_client \<Rightarrow> bool"
  assumes wait: "\<And>m s. wp (wait_for_power_off T K H 0 m) Q (\<lambda>_ _. True) s"
    and more: "\<And>p a b s. Q p s \<Longrightarrow> Q (dict_update p [(''reset_target'', a), (''requested_reset_type'', b)]) s"
  shows "wp (fence_off T K H) Q (\<lambda>_ _. True) s"
proof -
  have last: "wp (bindM (wait_for_power_off T K H 0 m) (\<lambda>p. retM (dict_update p [(''reset_target'', a), (''requested_reset_type'', b)])))
      Q (\<lambda>_ _. True) s" for m a b s
    unfolding wp_bindM by (rule wp_mono [OF wait]) (simp_all add: wp_retM more)
  have once: "wp (fence_once T K H) Q (\<lambda>_ _. True) s" for s
    unfolding fence_once_def
    by (rule wp_bindM_any, rule wp_bindM_any, rule wp_bindM_any, rule wp_bindM_any, rule last)
  have "wp (fence_attempts T K H m) Q (\<lambda>_ _. True) s" for m s
  proof (induction m arbitrary: s)
    case (Suc m)
    show ?case unfolding fence_attempts.simps wp_tryM
      by (rule wp_mono [OF once]) (use Suc in \<open>auto simp: wp_if wp_raiseM\<close>)
  qed (simp add: wp_raiseM)
  then show ?thesis by (simp add: fence_off_def)
qed

lemma distinct_dict_update: "distinct (map fst d) \<Longrightarrow> distinct (map fst (dict_update d p))"
  by (induction p arbitrary: d) (auto simp: dict_update_def distinct_update)

lemma map_of_rev_distinct: "distinct (map fst d) \<Longrightarrow> map_of (rev d) = map_of d"
  by (rule map_of_eqI) (auto simp: rev_map [symmetric] map_of_eq_Some_iff)

definition verified_by :: "fencing_conf \<Rightarrow> json dict \<Rightarrow> bool" where
  "verified_by K d \<longleftrightarrow> dget d ''verified_power_state'' = JStr (rf_expected_power_state K) \<and> distinct (map fst d)"

lemma wp_wait_verified:
  "wp (wait_for_power_off T K H so_far m) (\<lambda>d _. verified_by K d) (\<lambda>_ _. True) s"
proof (induction m arbitrary: so_far s)
  case (Suc m)
  show ?case unfolding wait_for_power_off.simps
    by (rule wp_bindM_any) (use Suc in \<open>simp add: wp_if wp_retM dget_def verified_by_def\<close>)
qed (simp add: wp_raiseM)

lemma wp_fence_off_verified: "wp (fence_off T K H) (\<lambda>d _. verified_by K d) (\<lambda>_ _. True) s"
  by (rule wp_fence_off [OF wp_wait_verified]) (simp add: verified_by_def dget_dict_update_cases distinct_dict_update)

text \<open>The client talks to the controller only: of the engine's own state nothing changes.\<close>

definition off_controller :: "(('n, 'k) world \<times> redfish_client \<Rightarrow> bool) \<Rightarrow> bool" where
  "off_controller I \<longleftrightarrow> (\<forall>w n c c'. I (w\<lparr>infra := n\<rparr>, c') = I (w, c))"

lemma pres_request [pres_intros]: "off_controller I \<Longrightarrow> pres I (request T H verb uri body)"
  by (rule presI) (auto simp: request_def zoomM_def off_controller_def split: prod.splits)

lemma pres_client_state [pres_intros]: "off_controller I \<Longrightarrow> pres I (modM (\<lambda>(w, c). (w, f c)))"
proof (rule presI)
  fix s t :: "('a, 'b) world \<times> redfish_client" and r :: "'c + unit"
  assume I: "off_controller I" "modM (\<lambda>(w, c). (w, f c)) s = (r, t)" "I s"
  obtain w c where s: "s = (w, c)" by fastforce
  with I(2) have "t = (w, f c)" by (simp add: modM_def)
  moreover have "I (w\<lparr>infra := infra w\<rparr>, f c) = I (w, c)" using I(1) unfolding off_controller_def by blast
  ultimately show "I t" using I(3) s by simp
qed

lemma pres_read_system [pres_intros]: "off_controller I \<Longrightarrow> pres I (read_system T H)"
  unfolding read_system_def request_json_def by (intro pres_intros)

lemma pres_authenticate [pres_intros]: "off_controller I \<Longrightarrow> pres I (authenticate T H)"
  unfolding authenticate_def by (intro pres_intros)

lemma pres_close [pres_intros]: "off_controller I \<Longrightarrow> pres I (close T H)"
  unfolding close_def by (intro pres_intros)

lemma pres_fence_off [pres_intros]: "off_controller I \<Longrightarrow> pres I (fence_off T K H)"
proof -
  assume I: "off_controller I"
  have "pres I (wait_for_power_off T K H so_far m)" for so_far m
    by (induction m arbitrary: so_far) (auto intro!: pres_intros I)
  then have once: "pres I (fence_once T K H)"
    unfolding fence_once_def post_forceoff_def by (intro pres_intros I)
  have "pres I (fence_attempts T K H m)" for m
    by (induction m) (auto intro!: pres_intros I once)
  then show ?thesis by (simp add: fence_off_def)
qed

lemma escapes_close [escapes_intros]: "escapes (\<lambda>_. False) (close T H)"
  unfolding close_def by (intro escapes_intros escapes_tryM [OF escapes_top])

text \<open>C26. Fencing is real: when \<open>fence_off\<close> returns a proof, whatever went wrong before, the machine that was
  read last is in the required power state at that moment, and the proof says so.\<close>

theorem fence_proof_sound:
  assumes "truthful T H pow_state" and run: "fence_off T K H (w, c) = (Inr proof_of, (w', c'))"
  shows "pow_state (infra w') = JStr (rf_expected_power_state K) \<and>
    dget proof_of ''verified_power_state'' = JStr (rf_expected_power_state K)"
proof -
  let ?Q = "\<lambda>d (w, c). pow_state (infra w) = JStr (rf_expected_power_state K) \<and>
        dget d ''verified_power_state'' = JStr (rf_expected_power_state K)"
  have "wp (fence_off T K H) ?Q (\<lambda>_ _. True) (w, c)"
  proof (rule wp_fence_off)
    fix m and s :: "('a, 'b) world \<times> redfish_client"
    show "wp (wait_for_power_off T K H 0 m) ?Q (\<lambda>_ _. True) s"
      by (cases s) (simp only: wp_wait_sound [OF assms(1)])
  qed (auto simp: dget_dict_update_cases)
  with run show ?thesis by (simp add: wp_def)
qed

text \<open>C27. The wrong machine is never switched off: when the system behind the configured address does not have
  the identity the configuration expects, \<open>fence_off\<close> raises and has sent no reset.\<close>

theorem fence_wrong_machine:
  assumes "counts_resets T resets"
    and other: "\<forall>v n r n' d. ht_send T ''get'' (url H (str_of (hc_systems_uri H))) v None n = (Inr r, n') \<longrightarrow>
      rs_json r = Inr (JObj d) \<longrightarrow> validate_system_identity H d (hc_expected H) \<noteq> Inr ()"
    and run: "fence_off T K H (w, c) = (r, (w', c'))"
  shows "(\<exists>e. r = Inl e) \<and> resets (infra w') = resets (infra w)"
proof -
  let ?I = "\<lambda>(t, c). resets (infra t) = resets (infra w)"
  have req: "pres ?I (request T H verb uri body)" if "\<forall>k. body \<noteq> Some (JObj [(''ResetType'', k)])" for verb uri body
    using that assms(1) by (intro presI) (auto simp: request_def zoomM_def counts_resets_def split: prod.splits)
  have auth: "pres ?I (authenticate T H)"
    unfolding authenticate_def by (intro pres_intros req) auto
  have read: "wp (read_system T H) (\<lambda>_ _. False) (\<lambda>_. ?I) s" if "?I s" for s
  proof -
    obtain t c where s: "s = (t, c)" by fastforce
    show ?thesis unfolding s
    proof (rule wp_read_system)
      fix e r n assume "ht_send T ''get'' (url H (str_of (hc_systems_uri H))) (verify H) None (infra t) = (r, n)"
      then have "resets n = resets (infra t)" using assms(1) unfolding counts_resets_def by blast
      then show "?I (t\<lparr>infra := n\<rparr>, c)" using that s by simp
    qed (use other in blast)
  qed
  have once: "wp (fence_once T K H) (\<lambda>_ _. False) (\<lambda>_. ?I) s" if "?I s" for s
    unfolding fence_once_def
    by (rule wp_bindM_pres [OF auth that], assumption) (unfold wp_bindM, rule wp_mono [OF read], auto)
  have "wp (fence_attempts T K H m) (\<lambda>_ _. False) (\<lambda>_. ?I) s" if "?I s" for m s
    using that
  proof (induction m arbitrary: s)
    case (Suc m)
    show ?case unfolding fence_attempts.simps wp_tryM
      by (rule wp_mono [OF once [OF Suc.prems]]) (use Suc.IH in \<open>auto simp: wp_if wp_raiseM\<close>)
  qed (simp add: wp_raiseM)
  from this [of "(w, c)" "rf_max_attempts K"] run show ?thesis by (simp add: fence_off_def wp_def split: sum.splits)
qed


section \<open>A concrete controller\<close>

text \<open>A machine with an identity and a power state, and how often it was reset.\<close>

record machine =
  mc_uuid :: string
  mc_power :: string
  mc_resets :: nat

definition machine_system :: "machine \<Rightarrow> json dict" where
  "machine_system m = [(''UUID'', JStr (mc_uuid m)), (''PowerState'', JStr (mc_power m))]"

definition machine_send :: "string \<Rightarrow> string \<Rightarrow> json \<Rightarrow> json option \<Rightarrow> (machine, exc, response) comp" where
  "machine_send verb uri v body m =
     (let answer = \<lparr>rs_json = Inr (JObj (machine_system m)), rs_token = Some ''token'', rs_location = Some ''/sessions/1''\<rparr> in
      case body of Some (JObj [(k, _)]) \<Rightarrow>
          if k = ''ResetType'' then (Inr answer, m\<lparr>mc_power := ''Off'', mc_resets := Suc (mc_resets m)\<rparr>) else (Inr answer, m)
      | _ \<Rightarrow> (Inr answer, m))"

definition demo_http :: "machine http_session" where
  "demo_http = \<lparr>ht_send = machine_send\<rparr>"

definition demo_files :: files where
  "demo_files = \<lparr>fl_exists = (\<lambda>_. True),
     fl_yaml = (\<lambda>_. Inr (JObj [(''defaults'', JObj [(''username'', JStr ''admin''), (''password'', JStr ''pw'')]),
       (''hosts'', JObj [(''compute1'', JObj [(''address'', JStr ''bmc1''), (''systems_uri'', JStr ''/redfish/v1/Systems/1''),
         (''expected_system_uuid'', JStr ''u-1'')])])])),
     fl_text = (\<lambda>_. Inr [])\<rparr>"

definition demo_bmc :: redfish_host_config where
  "demo_bmc = (case load_host_config demo_files demo_fencing_conf ''compute1'' of Inr H \<Rightarrow> H)"

definition demo_rack :: "string \<Rightarrow> (machine, unit) world" where
  "demo_rack i = demo_world \<lparr>mc_uuid = i, mc_power = ''On'', mc_resets = 0\<rparr> ()"

definition demo_client :: redfish_client where
  "demo_client = \<lparr>rc_location = None, rc_authenticated = False\<rparr>"

lemma demo_truthful: "truthful demo_http demo_bmc (\<lambda>m. JStr (mc_power m))"
  by (auto simp: truthful_def demo_http_def machine_send_def machine_system_def dget_def)

lemma demo_counts_resets: "counts_resets demo_http mc_resets"
  by (auto simp: counts_resets_def demo_http_def machine_send_def Let_def split: option.splits json.splits list.splits if_splits)

lemma fence_proof_sound_witness:
  "\<exists>p w' c'. fence_off demo_http demo_fencing_conf demo_bmc (demo_rack ''u-1'', demo_client) = (Inr p, (w', c')) \<and>
     mc_power (infra w') = ''Off''"
proof -
  let ?run = "fence_off demo_http demo_fencing_conf demo_bmc (demo_rack ''u-1'', demo_client)"
  have "\<not> isl (fst ?run)" by code_simp
  then obtain p w' c' where run: "?run = (Inr p, (w', c'))" by (cases ?run; cases "fst ?run") auto
  from fence_proof_sound [OF demo_truthful run] have "mc_power (infra w') = ''Off''" by (simp add: demo_fencing_conf_def)
  with run show ?thesis by blast
qed

lemma demo_expected: "hc_expected demo_bmc = [(''UUID'', JStr ''u-1''), (''SerialNumber'', JNull), (''AssetTag'', JNull),
    (''Manufacturer'', JNull), (''Model'', JNull)]"
  by code_simp

text \<open>A controller that answers for another machine.\<close>

definition wrong_http :: "machine http_session" where
  "wrong_http = \<lparr>ht_send = (\<lambda>verb uri v body m. machine_send verb uri v body (m\<lparr>mc_uuid := ''u-2''\<rparr>))\<rparr>"

lemma fence_wrong_machine_witness:
  "\<exists>e w' c'. fence_off wrong_http demo_fencing_conf demo_bmc (demo_rack ''u-2'', demo_client) = (Inl e, (w', c')) \<and>
     mc_resets (infra w') = 0"
proof -
  obtain r w' c' where run: "fence_off wrong_http demo_fencing_conf demo_bmc (demo_rack ''u-2'', demo_client) = (r, (w', c'))"
    by (metis prod.collapse)
  have "counts_resets wrong_http mc_resets"
    using demo_counts_resets by (simp add: counts_resets_def wrong_http_def demo_http_def)
  moreover have "\<forall>v n r n' d. ht_send wrong_http ''get'' (url demo_bmc (str_of (hc_systems_uri demo_bmc))) v None n = (Inr r, n') \<longrightarrow>
      rs_json r = Inr (JObj d) \<longrightarrow> validate_system_identity demo_bmc d (hc_expected demo_bmc) \<noteq> Inr ()"
    by (auto simp: wrong_http_def machine_send_def machine_system_def demo_expected dget_def)
  ultimately have "(\<exists>e. r = Inl e) \<and> mc_resets (infra w') = mc_resets (infra (demo_rack ''u-2''))"
    by (rule fence_wrong_machine [OF _ _ run])
  with run show ?thesis by (auto simp: demo_rack_def demo_world_def)
qed

end
