(* ===== verification/Masakari_Fencing.thy ===== *)
theory Masakari_Fencing
  imports Masakari_Redfish
begin

text \<open>
  \<open>fencing_state_etcd.py\<close>, the store of the fencing (the failures that were reported, the fencing state
  of every host, and the locks), and \<open>fenced_host_failure.py\<close>, the tasks that collect the hosts to
  fence, disable their compute services, switch them off, and check that they are off before the
  evacuation goes on. The store has the same parts as the one of the staged recovery: a prefix, an owner
  and a client.
\<close>

section \<open>Keys and records\<close>

definition FENCE_REQUIRED :: string where "FENCE_REQUIRED = ''FENCE_REQUIRED''"
definition FENCING :: string where "FENCING = ''FENCING''"
definition FENCED :: string where "FENCED = ''FENCED''"
definition FENCE_FAILED :: string where "FENCE_FAILED = ''FENCE_FAILED''"

lemmas fence_defs = FENCE_REQUIRED_def FENCING_def FENCED_def FENCE_FAILED_def

definition make_fencing_store :: "fencing_conf \<Rightarrow> string \<Rightarrow> 'k etcd_client \<Rightarrow> 'k staged_store" where
  "make_fencing_store K owner client = \<lparr>ss_prefix = rstrip_slash (rf_etcd_prefix K), ss_owner = owner, ss_client = client\<rparr>"

definition failures_prefix :: "'k staged_store \<Rightarrow> string \<Rightarrow> string" where
  "failures_prefix S segment_uuid = ss_prefix S @ ''/failures/'' @ encode_key_part segment_uuid @ ''/''"

definition failure_key :: "'k staged_store \<Rightarrow> string \<Rightarrow> string \<Rightarrow> string \<Rightarrow> string" where
  "failure_key S segment_uuid event_id hostname = ss_prefix S @ ''/failures/'' @ encode_key_part segment_uuid @ ''/'' @
     encode_key_part event_id @ ''/'' @ encode_key_part hostname"

definition host_state_key :: "'k staged_store \<Rightarrow> string \<Rightarrow> string" where
  "host_state_key S hostname = ss_prefix S @ ''/hosts/'' @ encode_key_part hostname"

definition segment_lock_key :: "'k staged_store \<Rightarrow> string \<Rightarrow> string" where
  "segment_lock_key S segment_uuid = ss_prefix S @ ''/locks/segments/'' @ encode_key_part segment_uuid"

definition host_lock_key :: "'k staged_store \<Rightarrow> string \<Rightarrow> string" where
  "host_lock_key S hostname = ss_prefix S @ ''/locks/hosts/'' @ encode_key_part hostname"

definition put_state :: "'k staged_store \<Rightarrow> string \<Rightarrow> json dict \<Rightarrow> ('n, 'k, json dict) prog" where
  "put_state S hostname state =
     bindM (on_etcd (ec_put (ss_client S) (host_state_key S hostname) (dumps state))) (\<lambda>_. retM state)"

definition fencing_base_state :: "'k staged_store \<Rightarrow> int \<Rightarrow> string \<Rightarrow> string \<Rightarrow> string \<Rightarrow> string \<Rightarrow> json dict" where
  "fencing_base_state S now segment_uuid event_id hostname notification_uuid =
     [(''schema_version'', JInt 1), (''segment_uuid'', JStr segment_uuid), (''event_id'', JStr event_id),
      (''hostname'', JStr hostname), (''notification_uuid'', JStr notification_uuid), (''owner'', JStr (ss_owner S)),
      (''state'', JStr FENCE_REQUIRED), (''created_at'', JTime now), (''updated_at'', JTime now), (''last_error'', JNull)]"

definition get_fencing_state :: "'k staged_store \<Rightarrow> string \<Rightarrow> ('n, 'k, json dict option) prog" where
  "get_fencing_state S hostname =
     bindM (get_raw (ss_client S) (host_state_key S hostname)) (\<lambda>raw.
     case raw of None \<Rightarrow> retM None | Some v \<Rightarrow> bindM (liftE (loads v)) (\<lambda>d. retM (Some d)))"

definition register_host_failure :: "'k staged_store \<Rightarrow> string \<Rightarrow> string \<Rightarrow> string \<Rightarrow> string \<Rightarrow> ('n, 'k, json dict) prog" where
  "register_host_failure S segment_uuid event_id hostname notification_uuid =
     bindM utcnow (\<lambda>now.
     let failure = [(''schema_version'', JInt 1), (''segment_uuid'', JStr segment_uuid), (''event_id'', JStr event_id),
       (''hostname'', JStr hostname), (''notification_uuid'', JStr notification_uuid), (''owner'', JStr (ss_owner S)),
       (''created_at'', JTime now)] in
     bindM (on_etcd (ec_put (ss_client S) (failure_key S segment_uuid event_id hostname) (dumps failure))) (\<lambda>_.
     bindM (get_fencing_state S hostname) (\<lambda>state.
     put_state S hostname (case state of
         None \<Rightarrow> fencing_base_state S now segment_uuid event_id hostname notification_uuid
       | Some d \<Rightarrow> if dget d ''state'' = JStr FENCED \<or> dget d ''state'' = JStr FENCE_FAILED
           then fencing_base_state S now segment_uuid event_id hostname notification_uuid
           else dict_update d [(''segment_uuid'', JStr segment_uuid), (''event_id'', JStr event_id),
             (''notification_uuid'', JStr notification_uuid), (''state'', JStr FENCE_REQUIRED), (''owner'', JStr (ss_owner S)),
             (''updated_at'', JTime now), (''last_error'', JNull)]))))"

text \<open>
  The failures of a segment within the window; \<open>str\<close> of the event id that was written is that string.
\<close>

fun recent_failures :: "int \<Rightarrow> int \<Rightarrow> string option \<Rightarrow> json dict list \<Rightarrow> exc + json dict list" where
  "recent_failures now window event_id [] = Inr []"
| "recent_failures now window event_id (failure # rest) =
     (if event_id \<noteq> None \<and> str_of (dget failure ''event_id'') \<noteq> the event_id then recent_failures now window event_id rest
      else if window > 0 \<and> falsy (dget failure ''created_at'') then recent_failures now window event_id rest
      else bindE (if window > 0
          then (case dget failure ''created_at'' of JTime t \<Rightarrow> Inr (now - t \<le> window)
             | JStr s \<Rightarrow> Inl (Exc ValueError ''Invalid isoformat string'')
             | _ \<Rightarrow> Inl (Exc OtherException ''object has no attribute endswith''))
          else Inr True) (\<lambda>keep.
        bindE (recent_failures now window event_id rest) (\<lambda>more. Inr (if keep then failure # more else more))))"

definition list_recent_failures :: "'k staged_store \<Rightarrow> string \<Rightarrow> int \<Rightarrow> string option \<Rightarrow> ('n, 'k, json dict list) prog" where
  "list_recent_failures S segment_uuid window event_id =
     bindM utcnow (\<lambda>now.
     bindM (list_values S (failures_prefix S segment_uuid)) (\<lambda>failures.
     bindM (liftE (recent_failures now window event_id failures)) (\<lambda>recent.
     liftE (sort_records ''hostname'' ''hostname'' recent))))"

definition fencing_transitioned ::
  "'k staged_store \<Rightarrow> string list \<Rightarrow> string \<Rightarrow> json dict \<Rightarrow> int \<Rightarrow> json dict \<Rightarrow> json dict option" where
  "fencing_transitioned S expected_states new_state patch now current =
     (if \<not> list_ex (\<lambda>s. dget current ''state'' = JStr s) expected_states then None
      else Some (stamped_patch S patch now (AList.update ''state'' (JStr new_state) (dict_update current patch))))"

definition transition_fencing_state ::
  "'k staged_store \<Rightarrow> string \<Rightarrow> string list \<Rightarrow> string \<Rightarrow> json dict \<Rightarrow> ('n, 'k, json dict option) prog" where
  "transition_fencing_state S hostname expected_states new_state patch =
     cas_loop (ss_client S) (host_state_key S hostname) (Inr None) (fencing_transitioned S expected_states new_state patch)
       MAX_CAS_RETRIES"

definition update_fencing_state :: "'k staged_store \<Rightarrow> string \<Rightarrow> json dict \<Rightarrow> ('n, 'k, json dict) prog" where
  "update_fencing_state S hostname patch =
     bindM (cas_loop (ss_client S) (host_state_key S hostname)
        (Inl (Exc HostRecoveryFailureException (''Fencing state for host '' @ hostname @ '' was not found'')))
        (updated S patch) MAX_CAS_RETRIES) (\<lambda>new. retM (the new))"

definition mark_fenced :: "'k staged_store \<Rightarrow> string \<Rightarrow> string \<Rightarrow> json dict \<Rightarrow> ('n, 'k, json dict) prog" where
  "mark_fenced S hostname event_id proof_of = update_fencing_state S hostname
     (dict_update proof_of [(''event_id'', JStr event_id), (''state'', JStr FENCED), (''last_error'', JNull)])"

definition mark_fence_failed :: "'k staged_store \<Rightarrow> string \<Rightarrow> string \<Rightarrow> string \<Rightarrow> ('n, 'k, json dict) prog" where
  "mark_fence_failed S hostname event_id error = update_fencing_state S hostname
     [(''event_id'', JStr event_id), (''state'', JStr FENCE_FAILED), (''last_error'', JStr error)]"

text \<open>The two lists that \<open>assert_hosts_fenced\<close> collects: what one host adds to them, and all of it.\<close>

definition fencing_verdict :: "string \<Rightarrow> json dict option \<Rightarrow> string list \<times> string list \<Rightarrow> string list \<times> string list" where
  "fencing_verdict hostname state = (\<lambda>(missing, failed). case state of
       None \<Rightarrow> (hostname # missing, failed)
     | Some d \<Rightarrow>
         if dget d ''state'' \<noteq> JStr FENCED
         then (missing, (hostname @ '':'' @ str_of (dget_or d ''state'' (JStr ''UNKNOWN''))) # failed)
         else if dget d ''verified_power_state'' \<noteq> JStr ''Off''
         then (missing, (hostname @ '':PowerState='' @ str_of (dget d ''verified_power_state'')) # failed)
         else (missing, failed))"

primrec unfenced_hosts :: "'k staged_store \<Rightarrow> string list \<Rightarrow> ('n, 'k, string list \<times> string list) prog" where
  "unfenced_hosts S [] = retM ([], [])"
| "unfenced_hosts S (hostname # rest) =
     bindM (get_fencing_state S hostname) (\<lambda>state.
     bindM (unfenced_hosts S rest) (\<lambda>found. retM (fencing_verdict hostname state found)))"

definition assert_hosts_fenced :: "'k staged_store \<Rightarrow> string list \<Rightarrow> ('n, 'k, unit) prog" where
  "assert_hosts_fenced S hostnames =
     bindM (unfenced_hosts S hostnames) (\<lambda>(missing, failed).
     if missing \<noteq> [] \<or> failed \<noteq> []
     then raiseM (Exc HostRecoveryFailureException (''Redfish fencing proof is missing or invalid; missing='' @
       join '','' missing @ '' failed='' @ join '','' failed))
     else retM ())"

section \<open>Locks\<close>

definition acquire_lock ::
  "'k staged_store \<Rightarrow> string \<Rightarrow> string \<Rightarrow> string \<Rightarrow> string \<Rightarrow> int \<Rightarrow> ('n, 'k, json dict option) prog" where
  "acquire_lock S key lock_type name event_id ttl =
     bindM (on_etcd (ec_lease (ss_client S) ttl)) (\<lambda>lease.
     bindM utcnow (\<lambda>now.
     let record = [(''schema_version'', JInt 1), (''lock_type'', JStr lock_type), (''name'', JStr name),
       (''event_id'', JStr event_id), (''owner'', JStr (ss_owner S)), (''etcd_lease_id'', lease), (''created_at'', JTime now)] in
     bindM (on_etcd (ec_create (ss_client S) key (dumps record) (Some lease))) (\<lambda>created.
     if created then retM (Some record) else bindM (revoke_quietly S lease) (\<lambda>_. retM None))))"

definition acquire_segment_recovery_lock :: "'k staged_store \<Rightarrow> string \<Rightarrow> string \<Rightarrow> int \<Rightarrow> ('n, 'k, json dict option) prog" where
  "acquire_segment_recovery_lock S segment_uuid event_id ttl =
     acquire_lock S (segment_lock_key S segment_uuid) ''segment'' segment_uuid event_id ttl"

definition acquire_host_fencing_lock :: "'k staged_store \<Rightarrow> string \<Rightarrow> string \<Rightarrow> int \<Rightarrow> ('n, 'k, json dict option) prog" where
  "acquire_host_fencing_lock S hostname event_id ttl =
     acquire_lock S (host_lock_key S hostname) ''host'' hostname event_id ttl"

text \<open>The key is deleted whoever holds the lock by now.\<close>

definition release_lock :: "'k staged_store \<Rightarrow> string \<Rightarrow> json dict \<Rightarrow> ('n, 'k, unit) prog" where
  "release_lock S key lock_record =
     (let lease_id = dget lock_record ''etcd_lease_id'' in
      bindM (on_etcd (ec_delete (ss_client S) key)) (\<lambda>_.
      if lease_id = JNull then retM ()
      else bindM (lease_by_id S lease_id) (\<lambda>lease. case lease of None \<Rightarrow> retM () | Some l \<Rightarrow> revoke_quietly S l)))"

definition release_segment_recovery_lock :: "'k staged_store \<Rightarrow> string \<Rightarrow> json dict \<Rightarrow> ('n, 'k, unit) prog" where
  "release_segment_recovery_lock S segment_uuid lock_record = release_lock S (segment_lock_key S segment_uuid) lock_record"

definition release_host_fencing_lock :: "'k staged_store \<Rightarrow> string \<Rightarrow> json dict \<Rightarrow> ('n, 'k, unit) prog" where
  "release_host_fencing_lock S hostname lock_record = release_lock S (host_lock_key S hostname) lock_record"

end
