(* ===== verification/Masakari_FencedTasks.thy ===== *)
theory Masakari_FencedTasks
  imports Masakari_Fencing Masakari_StagedTasks
begin

text \<open>
  \<open>engine/drivers/taskflow/fenced_host_failure.py\<close>: the tasks that collect the hosts to fence, disable
  their compute services, switch them off, and check that they are off before the evacuation goes on.
  \<open>T\<close> is the HTTP session, \<open>F\<close> the files, \<open>K\<close> the options of \<open>[redfish_fencing]\<close>.
\<close>

section \<open>Collecting and disabling\<close>

definition refuse :: "string \<Rightarrow> ('s, exc, 'a) comp" where
  "refuse m = raiseM (Exc HostRecoveryFailureException m)"

definition assert_fencing_enabled :: "fencing_conf \<Rightarrow> 'k staged_store \<Rightarrow> ('n, 'k, unit) prog" where
  "assert_fencing_enabled K S =
     (if \<not> rf_enabled K then refuse ''[redfish_fencing] enabled must be true when fencing tasks are configured''
      else assert_available S)"

definition segment_hosts :: "lib \<Rightarrow> request_context \<Rightarrow> string \<Rightarrow> ('n, 'k, string list) prog" where
  "segment_hosts L ctx segment_uuid =
     bindM (host_get_all_by_filters L ctx
        \<lparr>hf_segment_id = Is segment_uuid, hf_type = Any, hf_on_maintenance = Any, hf_reserved = Is False\<rparr> [] [] None None)
       (\<lambda>hs. retM (map h_name hs))"

text \<open>\<open>sorted({failure['hostname'] for failure in failures})\<close>, with the host of this failure.\<close>

definition failure_set_of :: "string \<Rightarrow> json dict list \<Rightarrow> exc + string list" where
  "failure_set_of host_name failures = bindE (mapE (\<lambda>failure. field failure ''hostname'') failures) (\<lambda>names.
     let failure_set = sort (remdups names) in
     Inr (if host_name \<notin> set failure_set then sort (failure_set @ [host_name]) else failure_set))"

text \<open>The three checks the set has to pass.\<close>

definition checked_failure_set ::
  "lib \<Rightarrow> fencing_conf \<Rightarrow> files \<Rightarrow> request_context \<Rightarrow> string \<Rightarrow> string list \<Rightarrow> ('n, 'k, string list) prog" where
  "checked_failure_set L K F ctx segment_uuid failure_set =
     (if length failure_set > rf_max_hosts K
     then refuse (''Refusing to Redfish-fence '' @ show_nat (length failure_set) @ '' hosts in segment '' @ segment_uuid @
       ''; limit is '' @ show_nat (rf_max_hosts K))
     else bindM (liftE (mapE (load_host_config F K) failure_set)) (\<lambda>_.
     bindM (segment_hosts L ctx segment_uuid) (\<lambda>segment_hosts.
     let surviving = card (set segment_hosts - set failure_set) in
     if int surviving < rf_min_surviving K
     then refuse (''Refusing Redfish fencing for segment '' @ segment_uuid @ ''; only '' @ show_nat surviving @
       '' surviving compute hosts remain'')
     else retM failure_set)))"

definition CollectFailureSetTask ::
  "lib \<Rightarrow> fencing_conf \<Rightarrow> files \<Rightarrow> 'k staged_store \<Rightarrow> request_context \<Rightarrow> string \<Rightarrow> string \<Rightarrow> string \<Rightarrow> string option
   \<Rightarrow> ('n, 'k, string list) prog" where
  "CollectFailureSetTask L K F S ctx segment_uuid event_id host_name notification_uuid =
     bindM (assert_fencing_enabled K S) (\<lambda>_.
     let notification_uuid = (case notification_uuid of None \<Rightarrow> event_id | Some u \<Rightarrow> if u = '''' then event_id else u) in
     bindM (register_host_failure S segment_uuid event_id host_name notification_uuid) (\<lambda>_.
     bindM (list_recent_failures S segment_uuid (rf_batch_window K) (if rf_batch_window K = 0 then Some event_id else None))
       (\<lambda>failures.
     bindM (liftE (failure_set_of host_name failures)) (\<lambda>failure_set.
     checked_failure_set L K F ctx segment_uuid failure_set))))"

definition DisableFailureSetTask :: "conf \<Rightarrow> 'n nova_client \<Rightarrow> string list \<Rightarrow> ('n, 'k, string list) prog" where
  "DisableFailureSetTask C N failure_set =
     bindM (forM failure_set (\<lambda>hostname. enable_disable_service N hostname False (Some (host_disable_reason C))))
       (\<lambda>_. retM failure_set)"

section \<open>Fencing\<close>

text \<open>
  The local variable \<open>client\<close> of \<open>_fence_one\<close>, which its \<open>finally\<close> clause looks at, is a second part of
  the state of that method: \<open>on_world\<close> runs what does not use it, \<open>on_client\<close> a method of the client.
\<close>

type_synonym ('n, 'k, 'a) fencing = "(('n, 'k) world \<times> redfish_client option, exc, 'a) comp"

definition on_world :: "('n, 'k, 'a) prog \<Rightarrow> ('n, 'k, 'a) fencing" where
  "on_world m = zoomM fst (\<lambda>w (_, c). (w, c)) m"

definition on_client :: "('n, 'k, 'a) bmc \<Rightarrow> ('n, 'k, 'a) fencing" where
  "on_client m = zoomM (\<lambda>(w, c). (w, the c)) (\<lambda>(w, c) _. (w, Some c)) m"

definition new_client :: redfish_client where
  "new_client = \<lparr>rc_location = None, rc_authenticated = False\<rparr>"

definition fence_locked ::
  "'n http_session \<Rightarrow> fencing_conf \<Rightarrow> files \<Rightarrow> 'k staged_store \<Rightarrow> string \<Rightarrow> string \<Rightarrow> ('n, 'k, unit) fencing" where
  "fence_locked T K F S hostname event_id =
     bindM (on_world (transition_fencing_state S hostname [FENCE_REQUIRED, FENCING] FENCING [])) (\<lambda>transitioned.
     case transitioned of
       None \<Rightarrow> bindM (on_world (get_fencing_state S hostname)) (\<lambda>current.
         case current of
           None \<Rightarrow> refuse (''Host '' @ hostname @ '' is not ready for Redfish fencing'')
         | Some d \<Rightarrow> if d \<noteq> [] \<and> dget d ''state'' = JStr FENCED then retM ()
             else refuse (''Host '' @ hostname @ '' is not ready for Redfish fencing''))
     | Some _ \<Rightarrow>
         bindM (liftE (load_host_config F K hostname)) (\<lambda>host_config.
         bindM (modM (\<lambda>(w, _). (w, Some new_client))) (\<lambda>_.
         bindM (on_client (fence_off T K host_config)) (\<lambda>proof_of.
         bindM (on_world (mark_fenced S hostname event_id proof_of)) (\<lambda>_. retM ())))))"

text \<open>The configuration of the client that is closed is the one it was made with.\<close>

definition close_client :: "'n http_session \<Rightarrow> fencing_conf \<Rightarrow> files \<Rightarrow> string \<Rightarrow> ('n, 'k, unit) fencing" where
  "close_client T K F hostname = bindM (getM snd) (\<lambda>client. case client of
       None \<Rightarrow> retM ()
     | Some _ \<Rightarrow> (case load_host_config F K hostname of Inl _ \<Rightarrow> retM () | Inr H \<Rightarrow> on_client (close T H)))"

definition fence_one ::
  "'n http_session \<Rightarrow> fencing_conf \<Rightarrow> files \<Rightarrow> 'k staged_store \<Rightarrow> string \<Rightarrow> string \<Rightarrow> ('n, 'k, unit) prog" where
  "fence_one T K F S hostname event_id =
     bindM (acquire_host_fencing_lock S hostname event_id (rf_lock_ttl K)) (\<lambda>host_lock.
     case host_lock of
       None \<Rightarrow> refuse (''Redfish fencing lock is already held for host '' @ hostname)
     | Some l \<Rightarrow> zoomM (\<lambda>w. (w, None)) (\<lambda>(w, _) _. w)
         (finallyM
           (tryM (fence_locked T K F S hostname event_id)
             (\<lambda>exc. bindM (tryM (bindM (on_world (mark_fence_failed S hostname event_id (message exc))) (\<lambda>_. retM ()))
                (\<lambda>_. retM ())) (\<lambda>_. raiseM exc)))
           (bindM (close_client T K F hostname) (\<lambda>_. on_world (release_host_fencing_lock S hostname l)))))"

definition RedfishFenceFailureSetTask ::
  "'n http_session \<Rightarrow> fencing_conf \<Rightarrow> files \<Rightarrow> 'k staged_store \<Rightarrow> string list \<Rightarrow> string \<Rightarrow> string \<Rightarrow> ('n, 'k, string list) prog" where
  "RedfishFenceFailureSetTask T K F S failure_set event_id segment_uuid =
     bindM (assert_fencing_enabled K S) (\<lambda>_.
     bindM (acquire_segment_recovery_lock S segment_uuid event_id (rf_lock_ttl K)) (\<lambda>segment_lock.
     case segment_lock of
       None \<Rightarrow> refuse (''Redfish segment recovery lock is already held for segment '' @ segment_uuid)
     | Some l \<Rightarrow> finallyM
         (bindM (forM failure_set (\<lambda>hostname. fence_one T K F S hostname event_id)) (\<lambda>_.
          bindM (assert_hosts_fenced S failure_set) (\<lambda>_. retM failure_set)))
         (release_segment_recovery_lock S segment_uuid l)))"

definition AssertFailureSetFencedTask :: "fencing_conf \<Rightarrow> 'k staged_store \<Rightarrow> string list \<Rightarrow> ('n, 'k, string list) prog" where
  "AssertFailureSetFencedTask K S failure_set =
     bindM (assert_fencing_enabled K S) (\<lambda>_. bindM (assert_hosts_fenced S failure_set) (\<lambda>_. retM failure_set))"

section \<open>The hosts to fence\<close>

lemma refuse_wp [wp_simps]: "wp (refuse m) Q X = X (Exc HostRecoveryFailureException m)"
  by (simp add: refuse_def wp_raiseM)

lemma pres_fencing_ops [pres_intros]:
  assumes "off_etcd I"
  shows "pres I (assert_fencing_enabled K S)" "pres I (register_host_failure S u e h n)"
    "pres I (list_recent_failures S u window ev)" "pres I (get_fencing_state S h)" "pres I (assert_hosts_fenced S hs)"
    "pres I (acquire_lock S key t name e ttl)" "pres I (release_lock S key r)"
    "pres I (transition_fencing_state S h ex st p)" "pres I (update_fencing_state S h p)"
proof -
  show get: "pres I (get_fencing_state S h)" for h
    unfolding get_fencing_state_def by (intro pres_intros assms)
  have "pres I (unfenced_hosts S hs)"
    by (induction hs) (auto intro!: pres_intros get split: option.split)
  then show "pres I (assert_hosts_fenced S hs)"
    unfolding assert_hosts_fenced_def by (intro pres_intros assms)
  show "pres I (assert_fencing_enabled K S)"
    unfolding assert_fencing_enabled_def refuse_def by (intro pres_intros assms)
  show "pres I (register_host_failure S u e h n)"
    unfolding register_host_failure_def put_state_def Let_def by (intro pres_intros get assms)
qed (unfold list_recent_failures_def acquire_lock_def release_lock_def lease_by_id_def revoke_quietly_def
  transition_fencing_state_def update_fencing_state_def Let_def, (intro pres_intros assms)+)

lemma segment_hosts_run:
  fixes w :: "('n, 'k) world"
  assumes "t = w\<lparr>etcd := k\<rparr>"
  shows "segment_hosts L ctx u t = (fst (segment_hosts L ctx u w), t)"
  by (auto simp: assms segment_hosts_def host_get_all_by_filters_def row_list_def bindM_def getM_def
    liftE_def retM_def raiseM_def hosts_tbl_def split: sum.split)

lemma wp_checked_failure_set:
  fixes w :: "('n, 'k) world"
  assumes I: "t = w\<lparr>etcd := etcd t\<rparr>"
  shows "wp (checked_failure_set L K F ctx u hs) (\<lambda>hs' t'. hs' = hs \<and> t' = t \<and> length hs \<le> rf_max_hosts K \<and>
     (\<forall>h \<in> set hs. \<exists>H. load_host_config F K h = Inr H) \<and>
     (\<exists>members. fst (segment_hosts L ctx u w) = Inr members \<and> int (card (set members - set hs)) \<ge> rf_min_surviving K))
     (\<lambda>_ t'. t' = t) t"
proof (cases "mapE (load_host_config F K) hs")
  case (Inl e)
  then show ?thesis by (simp add: checked_failure_set_def liftE_def wp_if refuse_wp wp_raiseM)
next
  case (Inr Hs)
  then show ?thesis using mapE_all [OF Inr] segment_hosts_run [OF I, of L ctx u]
    by (auto simp: checked_failure_set_def liftE_def wp_if refuse_wp wp_bindM wp_retM
      wp_def [of "segment_hosts L ctx u"] Let_def split: sum.split)
qed

text \<open>C11. The hosts that are to be fenced: when \<open>CollectFailureSetTask\<close> returns, its result is sorted and without
  duplicates, has the failed host in it and no more hosts than may be fenced automatically, each of them
  has a usable Redfish configuration, and as many compute hosts of the segment stay as must survive.
  Nothing but etcd has changed, however it ended.\<close>

theorem collect_failure_set_bounds:
  fixes w :: "('n, 'k) world"
  assumes run: "CollectFailureSetTask L K F S ctx u event_id host_name nu w = (r, w')"
  shows "w' = w\<lparr>etcd := etcd w'\<rparr> \<and> (\<forall>hs. r = Inr hs \<longrightarrow>
     host_name \<in> set hs \<and> sorted hs \<and> distinct hs \<and> length hs \<le> rf_max_hosts K \<and>
     (\<forall>h \<in> set hs. \<exists>H. load_host_config F K h = Inr H) \<and>
     (\<exists>members. fst (segment_hosts L ctx u w) = Inr members \<and> int (card (set members - set hs)) \<ge> rf_min_surviving K))"
proof -
  let ?I = "\<lambda>t :: ('n, 'k) world. t = w\<lparr>etcd := etcd t\<rparr>"
  let ?Q = "\<lambda>hs t. ?I t \<and> host_name \<in> set hs \<and> sorted hs \<and> distinct hs \<and> length hs \<le> rf_max_hosts K \<and>
     (\<forall>h \<in> set hs. \<exists>H. load_host_config F K h = Inr H) \<and>
     (\<exists>members. fst (segment_hosts L ctx u w) = Inr members \<and> int (card (set members - set hs)) \<ge> rf_min_surviving K)"
  have body: "wp (bindM (liftE (failure_set_of host_name failures)) (checked_failure_set L K F ctx u)) ?Q (\<lambda>_. ?I) t"
    if I: "?I t" for failures t
  proof (cases "failure_set_of host_name failures")
    case (Inl e)
    then show ?thesis using I by (simp add: liftE_def wp_raiseM)
  next
    case (Inr hs)
    then have "host_name \<in> set hs \<and> sorted hs \<and> distinct hs"
      by (auto simp: failure_set_of_def bindE_def Let_def split: sum.splits)
    then have "wp (checked_failure_set L K F ctx u hs) ?Q (\<lambda>_. ?I) t"
      by (intro wp_mono [OF wp_checked_failure_set [OF I]]) (use I in auto)
    then show ?thesis using Inr by (simp add: liftE_def)
  qed
  have "wp (CollectFailureSetTask L K F S ctx u event_id host_name nu) ?Q (\<lambda>_. ?I) w"
    unfolding CollectFailureSetTask_def Let_def
    by (rule wp_bindM_pres [where I = ?I], intro pres_intros off_etcd_frame, simp, assumption,
        rule wp_bindM_pres [where I = ?I], intro pres_intros off_etcd_frame, assumption, assumption,
        rule wp_bindM_pres [where I = ?I], intro pres_intros off_etcd_frame, assumption, assumption,
        rule body)
  from this run show ?thesis by (cases r) (auto simp: wp_def)
qed

section \<open>Proofs that a host is off\<close>

text \<open>The record of a host, and when it is a proof.\<close>

definition host_record :: "'k staged_store \<Rightarrow> ('k \<Rightarrow> string \<Rightarrow> json option) \<Rightarrow> string \<Rightarrow> 'k \<Rightarrow> json dict option" where
  "host_record S kv h k = (case kv k (host_state_key S h) of None \<Rightarrow> None
     | Some raw \<Rightarrow> (case loads raw of Inl _ \<Rightarrow> None | Inr d \<Rightarrow> Some d))"

definition proven_off :: "'k staged_store \<Rightarrow> ('k \<Rightarrow> string \<Rightarrow> json option) \<Rightarrow> string \<Rightarrow> 'k \<Rightarrow> bool" where
  "proven_off S kv h k \<longleftrightarrow> (\<exists>d. host_record S kv h k = Some d \<and> dget d ''state'' = JStr FENCED \<and>
     dget d ''verified_power_state'' = JStr ''Off'')"

definition well_formed :: "'k staged_store \<Rightarrow> ('k \<Rightarrow> string \<Rightarrow> json option) \<Rightarrow> string \<Rightarrow> 'k \<Rightarrow> bool" where
  "well_formed S kv h k \<longleftrightarrow> (\<forall>raw. kv k (host_state_key S h) = Some raw \<longrightarrow> (\<exists>d. loads raw = Inr d))"

definition proof_lasts :: "'k staged_store \<Rightarrow> ('k \<Rightarrow> string \<Rightarrow> json option) \<Rightarrow> ('k \<Rightarrow> 'k \<Rightarrow> bool) \<Rightarrow> bool" where
  "proof_lasts S kv env \<longleftrightarrow> (\<forall>h k k'. proven_off S kv h k \<longrightarrow> env k k' \<longrightarrow> proven_off S kv h k')"

lemma host_record_same: "kv k = kv k' \<Longrightarrow> host_record S kv h k = host_record S kv h k'"
  by (simp add: host_record_def)

lemma proven_off_same: "kv k = kv k' \<Longrightarrow> proven_off S kv h k = proven_off S kv h k'"
  using host_record_same [of kv k k'] by (simp add: proven_off_def)

lemma get_fencing_state_quiet:
  assumes quiet: "etcd_quiet (ss_client S) kv env" and "well_formed S kv h (etcd w)"
  obtains k where "get_fencing_state S h w = (Inr (host_record S kv h (etcd w)), w\<lparr>etcd := k\<rparr>)" "kv k = kv (etcd w)"
proof -
  obtain k where "get_raw (ss_client S) (host_state_key S h) w = (Inr (kv (etcd w) (host_state_key S h)), w\<lparr>etcd := k\<rparr>)"
    "kv k = kv (etcd w)" by (rule get_raw_quiet [OF quiet])
  moreover from this assms(2)
  have "get_fencing_state S h w = (Inr (host_record S kv h (etcd w)), w\<lparr>etcd := k\<rparr>)"
    by (auto simp: get_fencing_state_def bindM_def host_record_def well_formed_def retM_def liftE_def split: option.split)
  ultimately show ?thesis using that by blast
qed

lemma wp_get_fencing_state:
  assumes ok: "etcd_ok (ss_client S) kv env"
    and res: "\<And>k. env (etcd w) k \<Longrightarrow> Q (host_record S kv h k) (w\<lparr>etcd := k\<rparr>)"
    and exc: "\<And>e k. env (etcd w) k \<Longrightarrow> X e (w\<lparr>etcd := k\<rparr>)"
  shows "wp (get_fencing_state S h) Q X w"
  unfolding get_fencing_state_def wp_bindM
proof (rule wp_get_raw [OF ok])
  fix k assume k: "env (etcd w) k"
  show "wp (case kv k (host_state_key S h) of None \<Rightarrow> retM None | Some v \<Rightarrow> bindM (liftE (loads v)) (\<lambda>d. retM (Some d))) Q X
      (w\<lparr>etcd := k\<rparr>)"
    using res [OF k] exc [OF k]
    by (auto simp: host_record_def wp_retM wp_bindM wp_liftE split: option.splits sum.splits)
qed (rule exc)

lemma fencing_verdict_empty:
  "fencing_verdict h (host_record S kv h k) found = ([], []) \<longleftrightarrow> proven_off S kv h k \<and> found = ([], [])"
  by (cases found) (auto simp: fencing_verdict_def proven_off_def split: option.splits)

lemma wp_unfenced_hosts:
  fixes w :: "('n, 'k) world"
  assumes ok: "etcd_ok (ss_client S) kv env" and lasts: "proof_lasts S kv env"
    and pre: "\<forall>h \<in> set before. proven_off S kv h (etcd w)"
  shows "wp (unfenced_hosts S hs) (\<lambda>found t. t = w\<lparr>etcd := etcd t\<rparr> \<and>
      (\<forall>h \<in> set before. proven_off S kv h (etcd t)) \<and>
      (found = ([], []) \<longrightarrow> (\<forall>h \<in> set hs. proven_off S kv h (etcd t)))) (\<lambda>_ _. True) w"
  using pre
proof (induction hs arbitrary: w before)
  case (Cons h hs)
  show ?case
    unfolding unfenced_hosts.simps wp_bindM
  proof (rule wp_get_fencing_state [OF ok])
    fix k assume k: "env (etcd w) k"
    let ?now = "(if proven_off S kv h k then [h] else []) @ before"
    have "\<forall>g \<in> set ?now. proven_off S kv g (etcd (w\<lparr>etcd := k\<rparr>))"
      using Cons.prems lasts k unfolding proof_lasts_def by auto
    from Cons.IH [OF this]
    show "wp (unfenced_hosts S hs) (\<lambda>a. wp (retM (fencing_verdict h (host_record S kv h k) a)) (\<lambda>found t. t = w\<lparr>etcd := etcd t\<rparr> \<and>
      (\<forall>h \<in> set before. proven_off S kv h (etcd t)) \<and>
      (found = ([], []) \<longrightarrow> (\<forall>g \<in> set (h # hs). proven_off S kv g (etcd t)))) (\<lambda>_ _. True)) (\<lambda>_ _. True) (w\<lparr>etcd := k\<rparr>)"
      by (rule wp_mono) (auto simp: wp_retM fencing_verdict_empty)
  qed simp
qed (simp add: wp_retM)

lemma wp_assert_hosts_fenced:
  assumes ok: "etcd_ok (ss_client S) kv env" and lasts: "proof_lasts S kv env"
  shows "wp (assert_hosts_fenced S hs) (\<lambda>_ t. \<forall>h \<in> set hs. proven_off S kv h (etcd t)) (\<lambda>_ _. True) w"
  unfolding assert_hosts_fenced_def wp_bindM
  by (rule wp_mono [OF wp_unfenced_hosts [OF ok lasts, of "[]"]]) (auto simp: wp_if wp_retM wp_raiseM split: if_splits)


section \<open>Fencing one host\<close>

text \<open>With nobody else writing, an update of a record that is there succeeds or finds nothing to do.\<close>

lemma cas_known:
  assumes quiet: "etcd_quiet E kv env" and raw: "kv (etcd w) key = Some raw" "loads raw = Inr d"
  shows "wp (cas_loop E key missing change (Suc n)) (\<lambda>r t. t = w\<lparr>etcd := etcd t\<rparr> \<and> r = change (clock w) d \<and>
     kv (etcd t) = (case change (clock w) d of None \<Rightarrow> kv (etcd w) | Some new \<Rightarrow> (kv (etcd w))(key \<mapsto> dumps new))) (\<lambda>_ _. False) w"
proof (cases "change (clock w) d")
  case None
  obtain k where "get_raw E key w = (Inr (Some raw), w\<lparr>etcd := k\<rparr>)" "kv k = kv (etcd w)"
    using get_raw_quiet [OF quiet, of key w] raw(1) by metis
  then show ?thesis using raw None
    by (simp add: wp_def bindM_def liftE_def retM_def utcnow_def getM_def)
next
  case (Some new)
  obtain k where "cas_loop E key missing change (Suc n) w = (Inr (Some new), w\<lparr>etcd := k\<rparr>)"
    "kv k = (kv (etcd w))(key \<mapsto> dumps new)"
    by (rule cas_loop_quiet [where change = change, OF quiet raw Some])
  then show ?thesis using Some by (simp add: wp_def)
qed

text \<open>
  \<open>noted P\<close>: the record of the host is there and satisfies \<open>P\<close>, and the other keys are as they were,
  except for the lock of the host.
\<close>

definition noted ::
  "'k staged_store \<Rightarrow> ('k \<Rightarrow> string \<Rightarrow> json option) \<Rightarrow> string \<Rightarrow> 'k \<Rightarrow> (json dict \<Rightarrow> bool) \<Rightarrow> 'k \<Rightarrow> bool" where
  "noted S kv h k0 P k \<longleftrightarrow> (\<exists>d. host_record S kv h k = Some d \<and> P d) \<and>
     (\<forall>key. key \<noteq> host_state_key S h \<longrightarrow> key \<noteq> host_lock_key S h \<longrightarrow> kv k key = kv k0 key)"

lemma host_record_Some:
  "host_record S kv h k = Some d \<longleftrightarrow> (\<exists>raw. kv k (host_state_key S h) = Some raw \<and> loads raw = Inr d)"
  by (auto simp: host_record_def split: option.splits sum.splits)

lemma noted_written:
  assumes "noted S kv h k0 P k" and "kv k' = (kv k)(host_state_key S h \<mapsto> dumps new)"
    and "\<And>d. (\<And>f. dget d f = sort_keys (dget new f)) \<Longrightarrow> P' d"
  shows "noted S kv h k0 P' k'"
  using assms loads_dumps_dget [of new] by (auto simp: noted_def host_record_Some)

lemma wp_update_fencing:
  assumes quiet: "etcd_quiet (ss_client S) kv env" and now: "noted S kv h k0 P (etcd w)"
    and new: "\<And>d. (\<And>f. f \<notin> {''owner'', ''updated_at''} \<Longrightarrow>
        dget d f = sort_keys (case map_of (rev patch) f of Some v \<Rightarrow> v | None \<Rightarrow> dget d f)) \<Longrightarrow> P' d"
  shows "wp (update_fencing_state S h patch) (\<lambda>_ t. noted S kv h k0 P' (etcd t)) (\<lambda>_ _. False) w"
proof -
  obtain raw d where raw: "kv (etcd w) (host_state_key S h) = Some raw" "loads raw = Inr d"
    using now by (auto simp: noted_def host_record_Some)
  let ?new = "stamped_patch S patch (clock w) (dict_update d patch)"
  have "noted S kv h k0 P' k" if k: "kv k = (kv (etcd w))(host_state_key S h \<mapsto> dumps ?new)" for k
  proof (rule noted_written [OF now k])
    fix d' assume d': "\<And>f. dget d' f = sort_keys (dget ?new f)"
    show "P' d'"
    proof (rule new)
      fix f assume "f \<notin> {''owner'', ''updated_at''}"
      then have "dget d' f = sort_keys (case map_of (rev patch) f of None \<Rightarrow> dget d f | Some v \<Rightarrow> v)"
        by (simp add: d' stamped_patch_def dget_dict_update_cases)
      then show "dget d' f = sort_keys (case map_of (rev patch) f of Some v \<Rightarrow> v | None \<Rightarrow> dget d' f)"
        by (auto split: option.splits)
    qed
  qed
  then show ?thesis
    unfolding update_fencing_state_def wp_bindM MAX_CAS_RETRIES_def
    by (intro wp_mono [OF cas_known [OF quiet raw, of _ _ 7, simplified]]) (auto simp: updated_def wp_retM)
qed

lemma wp_transition_fencing:
  assumes quiet: "etcd_quiet (ss_client S) kv env" and now: "noted S kv h k0 (\<lambda>d. d = d0) (etcd w)"
  shows "wp (transition_fencing_state S h expected st []) (\<lambda>r t. noted S kv h k0 (\<lambda>d. r = None \<longrightarrow> d = d0) (etcd t))
    (\<lambda>_ _. False) w"
proof -
  obtain raw where raw: "kv (etcd w) (host_state_key S h) = Some raw" "loads raw = Inr d0"
    using now by (auto simp: noted_def host_record_Some)
  have "noted S kv h k0 (\<lambda>_. True) k" if "kv k = (kv (etcd w))(host_state_key S h \<mapsto> dumps new)" for k new
    by (rule noted_written [OF now that]) simp
  moreover have "noted S kv h k0 (\<lambda>d. d = d0) k" if "kv k = kv (etcd w)" for k
    using now that host_record_same [OF that] by (simp add: noted_def)
  ultimately show ?thesis
    unfolding transition_fencing_state_def MAX_CAS_RETRIES_def
    by (intro wp_mono [OF cas_known [OF quiet raw, of _ _ 7, simplified]]) (auto split: option.splits)
qed

lemma wp_get_fencing_quiet:
  assumes quiet: "etcd_quiet (ss_client S) kv env" and now: "noted S kv h k0 P (etcd w)"
  shows "wp (get_fencing_state S h) (\<lambda>r t. noted S kv h k0 (\<lambda>d. P d \<and> r = Some d) (etcd t)) (\<lambda>_ _. False) w"
proof -
  have "well_formed S kv h (etcd w)"
    using now by (auto simp: noted_def host_record_Some well_formed_def)
  from get_fencing_state_quiet [OF quiet this] obtain k where
    "get_fencing_state S h w = (Inr (host_record S kv h (etcd w)), w\<lparr>etcd := k\<rparr>)" "kv k = kv (etcd w)" .
  then show ?thesis using now host_record_same [of kv k "etcd w"] by (auto simp: wp_def noted_def)
qed

lemma wp_on_world [wp_simps]: "wp (on_world m) Q E = (\<lambda>(w, c). wp m (\<lambda>a t. Q a (t, c)) (\<lambda>e t. E e (t, c)) w)"
  by (auto simp: on_world_def wp_zoomM fun_eq_iff)

lemma off_controller_etcd: "off_controller (\<lambda>(w, c). P (etcd w))"
  by (simp add: off_controller_def)

lemma wp_on_client:
  assumes "pres (\<lambda>(w, c). P (etcd w)) m" and "wp m (\<lambda>r _. Q r) (\<lambda>_ _. True) (w, the c)" and "P (etcd w)"
  shows "wp (on_client m) (\<lambda>r (w, c). P (etcd w) \<and> Q r) (\<lambda>_ (w, c). P (etcd w)) (w, c)"
proof -
  obtain r w' c' where m: "m (w, the c) = (r, (w', c'))" by (metis prod.collapse)
  have "P (etcd w')" using presD [OF assms(1) m] assms(3) by simp
  then show ?thesis using m assms(2) by (cases r) (simp_all add: on_client_def wp_zoomM wp_def)
qed

lemma wp_mark_fenced:
  assumes quiet: "etcd_quiet (ss_client S) kv env" and now: "noted S kv h k0 P (etcd w)" and v: "verified_by K proof_of"
  shows "wp (mark_fenced S h event_id proof_of) (\<lambda>_ t. noted S kv h k0 (\<lambda>d. dget d ''state'' = JStr FENCED \<and>
     dget d ''verified_power_state'' = JStr (rf_expected_power_state K)) (etcd t)) (\<lambda>_ _. False) w"
  unfolding mark_fenced_def
proof (rule wp_update_fencing [OF quiet now])
  let ?patch = "dict_update proof_of [(''event_id'', JStr event_id), (''state'', JStr FENCED), (''last_error'', JNull)]"
  fix d assume d: "\<And>f. f \<notin> {''owner'', ''updated_at''} \<Longrightarrow>
        dget d f = sort_keys (case map_of (rev ?patch) f of Some v \<Rightarrow> v | None \<Rightarrow> dget d f)"
  have "map_of (rev ?patch) = map_of ?patch"
    using v by (intro map_of_rev_distinct distinct_dict_update) (simp add: verified_by_def)
  moreover have "map_of proof_of ''verified_power_state'' = Some (JStr (rf_expected_power_state K))"
    using v by (auto simp: verified_by_def dget_def split: option.splits)
  ultimately show "dget d ''state'' = JStr FENCED \<and> dget d ''verified_power_state'' = JStr (rf_expected_power_state K)"
    using d [of "''state''"] d [of "''verified_power_state''"] by (simp add: map_of_dict_update)
qed

definition fenced_now :: "fencing_conf \<Rightarrow> json dict \<Rightarrow> json dict \<Rightarrow> bool" where
  "fenced_now K d0 d \<longleftrightarrow> dget d ''state'' = JStr FENCED \<and> (dget d0 ''state'' \<noteq> JStr FENCED \<longrightarrow>
     dget d ''verified_power_state'' = JStr (rf_expected_power_state K))"

lemma noted_mono: "noted S kv h k0 P k \<Longrightarrow> (\<And>d. P d \<Longrightarrow> P' d) \<Longrightarrow> noted S kv h k0 P' k"
  unfolding noted_def by blast

lemma wp_fence_config:
  fixes w :: "('n, 'k) world"
  assumes quiet: "etcd_quiet (ss_client S) kv env" and now: "noted S kv h k0 (\<lambda>_. True) (etcd w)"
  shows "wp (bindM (on_client (fence_off T K H)) (\<lambda>proof_of. bindM (on_world (mark_fenced S h event_id proof_of)) (\<lambda>_. retM ())))
     (\<lambda>_ (t, c). noted S kv h k0 (fenced_now K d0) (etcd t)) (\<lambda>_ (t, c). noted S kv h k0 (\<lambda>_. True) (etcd t)) (w, c)"
  unfolding wp_bindM [of "on_client m" for m]
proof (rule wp_mono [OF wp_on_client [where P = "noted S kv h k0 (\<lambda>_. True)"]])
  show "pres (\<lambda>(t, c). noted S kv h k0 (\<lambda>_. True) (etcd t)) (fence_off T K H)"
    by (intro pres_intros off_controller_etcd)
next
  fix proof_of and s :: "('n, 'k) world \<times> redfish_client option"
  obtain t c where s: "s = (t, c)" by fastforce
  assume "case s of (t, c) \<Rightarrow> noted S kv h k0 (\<lambda>_. True) (etcd t) \<and> verified_by K proof_of"
  then have "wp (mark_fenced S h event_id proof_of) (\<lambda>_ t. noted S kv h k0 (fenced_now K d0) (etcd t)) (\<lambda>_ _. False) t"
    by (intro wp_mono [OF wp_mark_fenced [OF quiet, of h k0 "\<lambda>_. True" t K proof_of]])
      (auto simp: s fenced_now_def elim: noted_mono)
  then show "wp (bindM (on_world (mark_fenced S h event_id proof_of)) (\<lambda>_. retM ()))
      (\<lambda>_ (t, c). noted S kv h k0 (fenced_now K d0) (etcd t)) (\<lambda>_ (t, c). noted S kv h k0 (\<lambda>_. True) (etcd t)) s"
    unfolding s wp_bindM wp_on_world wp_retM by (auto elim: wp_mono)
qed (use now wp_fence_off_verified in auto)

lemma wp_fence_locked:
  fixes w :: "('n, 'k) world"
  assumes quiet: "etcd_quiet (ss_client S) kv env" and now: "noted S kv h k0 (\<lambda>d. d = d0) (etcd w)"
  shows "wp (fence_locked T K F S h event_id) (\<lambda>_ (t, c). noted S kv h k0 (fenced_now K d0) (etcd t))
     (\<lambda>_ (t, c). noted S kv h k0 (\<lambda>_. True) (etcd t)) (w, c)"
  unfolding fence_locked_def wp_bindM [of "on_world m" for m] wp_on_world prod.case
proof (rule wp_mono [OF wp_transition_fencing [OF quiet now]])
  fix r and t :: "('n, 'k) world"
  assume t: "noted S kv h k0 (\<lambda>d. r = None \<longrightarrow> d = d0) (etcd t)"
  show "wp (case r of
       None \<Rightarrow> bindM (on_world (get_fencing_state S h)) (\<lambda>current. case current of
           None \<Rightarrow> refuse (''Host '' @ h @ '' is not ready for Redfish fencing'')
         | Some d \<Rightarrow> if d \<noteq> [] \<and> dget d ''state'' = JStr FENCED then retM ()
             else refuse (''Host '' @ h @ '' is not ready for Redfish fencing''))
     | Some _ \<Rightarrow> bindM (liftE (load_host_config F K h)) (\<lambda>host_config. bindM (modM (\<lambda>(w, _). (w, Some new_client))) (\<lambda>_.
         bindM (on_client (fence_off T K host_config)) (\<lambda>proof_of. bindM (on_world (mark_fenced S h event_id proof_of)) (\<lambda>_. retM ())))))
     (\<lambda>_ (t, c). noted S kv h k0 (fenced_now K d0) (etcd t)) (\<lambda>_ (t, c). noted S kv h k0 (\<lambda>_. True) (etcd t)) (t, c)"
  proof (cases r)
    case None
    then have "noted S kv h k0 (\<lambda>d. d = d0) (etcd t)" using t by simp
    from wp_get_fencing_quiet [OF quiet this] None show ?thesis
      by (simp add: wp_bindM wp_on_world)
        (rule wp_mono, assumption, auto simp: wp_retM refuse_wp noted_def fenced_now_def split: option.split if_splits)
  next
    case (Some new)
    then have "noted S kv h k0 (\<lambda>_. True) (etcd t)" using t by simp
    from wp_fence_config [OF quiet this] Some this show ?thesis
      by (cases "load_host_config F K h") (simp_all add: wp_bindM [of "modM f" for f] wp_modM liftE_def wp_raiseM)
  qed
qed simp

lemma acquire_lock_quiet:
  assumes quiet: "etcd_quiet (ss_client S) kv env" and free: "kv (etcd w) key = None"
  shows "wp (acquire_lock S key t name event_id ttl)
     (\<lambda>r u. u = w\<lparr>etcd := etcd u\<rparr> \<and> (\<exists>record. r = Some record \<and> kv (etcd u) = (kv (etcd w))(key \<mapsto> dumps record))) (\<lambda>_ _. False) w"
proof -
  have ok: "etcd_ok (ss_client S) kv env" and still: "\<And>k k'. env k k' \<Longrightarrow> kv k' = kv k"
    and ans: "\<And>key v l k. \<not> isl (fst (ec_create (ss_client S) key v l k))" "\<And>ttl k. \<not> isl (fst (ec_lease (ss_client S) ttl k))"
    using quiet unfolding etcd_quiet_def by blast+
  obtain l k1 where lease: "ec_lease (ss_client S) ttl (etcd w) = (Inr l, k1)" and k1: "kv k1 = kv (etcd w)"
    by (rule reads_quiet [OF etcd_lease [OF ok] still ans(2)])
  let ?rec = "[(''schema_version'', JInt 1), (''lock_type'', JStr t), (''name'', JStr name),
       (''event_id'', JStr event_id), (''owner'', JStr (ss_owner S)), (''etcd_lease_id'', l), (''created_at'', JTime (clock w))]"
  obtain k2 where "ec_create (ss_client S) key (dumps ?rec) (Some l) k1 = (Inr (kv k1 key = None), k2)"
    "kv k2 = (if kv k1 key = None then (kv k1)(key \<mapsto> dumps ?rec) else kv k1)"
    by (rule writes_quiet [OF etcd_create [OF ok] still ans(1)])
  then have "ec_create (ss_client S) key (dumps ?rec) (Some l) k1 = (Inr True, k2)"
    and k2: "kv k2 = (kv (etcd w))(key \<mapsto> dumps ?rec)"
    using k1 free by simp_all
  then have "acquire_lock S key t name event_id ttl w = (Inr (Some ?rec), w\<lparr>etcd := k2\<rparr>)"
    by (simp add: acquire_lock_def bindM_def on_etcd_run lease utcnow_def getM_def retM_def Let_def)
  then show ?thesis using k2 by (auto simp: wp_def)
qed

lemma release_lock_quiet:
  assumes quiet: "etcd_quiet (ss_client S) kv env"
  shows "\<exists>t. release_lock S key record w = (Inr (), t)"
proof -
  have "\<exists>b k. ec_delete (ss_client S) key (etcd w) = (Inr b, k)"
    using quiet unfolding etcd_quiet_def by (metis prod.collapse sum.collapse(2))
  then obtain b k where del: "ec_delete (ss_client S) key (etcd w) = (Inr b, k)" by blast
  have "\<exists>t. revoke_quietly S l u = (Inr (), t)" for l and u :: "('b, 'a) world"
    by (auto simp: revoke_quietly_def tryM_def on_etcd_run retM_def split: prod.splits sum.splits)
  then have "\<exists>t. (if id = JNull then retM ()
      else bindM (lease_by_id S id) (\<lambda>lease. case lease of None \<Rightarrow> retM () | Some l \<Rightarrow> revoke_quietly S l)) u = (Inr (), t)"
    for id and u :: "('b, 'a) world"
    by (auto simp: lease_by_id_def bindM_def getM_def retM_def)
  then show ?thesis using del
    by (simp add: release_lock_def Let_def bindM_def [of "on_etcd m" for m] on_etcd_run)
qed

lemma wp_close_client:
  assumes "P (etcd w)"
  shows "wp (close_client T K F h) (\<lambda>_ (t, c). P (etcd t)) (\<lambda>_ _. False) (w, c)"
proof -
  have "wp (on_client (close T H)) (\<lambda>_ (t, c). P (etcd t)) (\<lambda>_ _. False) (w, c)" for H
  proof -
    obtain r w' c' where m: "close T H (w, the c) = (r, (w', c'))" by (metis prod.collapse)
    have "P (etcd w')"
      using presD [OF pres_close m, of "\<lambda>(w, c). P (etcd w)"] assms by (simp add: off_controller_etcd)
    moreover have "\<not> isl r" using escapesD [OF escapes_close] m by (metis isl_def)
    ultimately show ?thesis using m by (cases r) (simp_all add: on_client_def wp_zoomM wp_def)
  qed
  then show ?thesis using assms
    by (auto simp: close_client_def wp_bindM wp_getM wp_retM split: option.split sum.split)
qed

definition fence_failed :: "exc \<Rightarrow> json dict \<Rightarrow> bool" where
  "fence_failed e d \<longleftrightarrow> dget d ''state'' = JStr FENCE_FAILED \<and> dget d ''last_error'' = JStr (message e)"

lemma wp_fence_recorded:
  assumes quiet: "etcd_quiet (ss_client S) kv env" and now: "noted S kv h k0 (\<lambda>d. d = d0) (etcd w)"
  shows "wp (tryM (fence_locked T K F S h event_id)
       (\<lambda>exc. bindM (tryM (bindM (on_world (mark_fence_failed S h event_id (message exc))) (\<lambda>_. retM ())) (\<lambda>_. retM ()))
          (\<lambda>_. raiseM exc)))
     (\<lambda>_ (t, c). noted S kv h k0 (fenced_now K d0) (etcd t)) (\<lambda>e (t, c). noted S kv h k0 (fence_failed e) (etcd t)) (w, c)"
proof -
  have "wp (mark_fence_failed S h event_id (message e)) (\<lambda>_ t. noted S kv h k0 (fence_failed e) (etcd t)) X t"
    if t: "noted S kv h k0 (\<lambda>_. True) (etcd t)" for e X and t :: "('b, 'a) world"
    unfolding mark_fence_failed_def
  proof (rule wp_mono [OF wp_update_fencing [OF quiet t, where P' = "fence_failed e"]])
    let ?patch = "[(''event_id'', JStr event_id), (''state'', JStr FENCE_FAILED), (''last_error'', JStr (message e))]"
    fix d assume d: "\<And>f. f \<notin> {''owner'', ''updated_at''} \<Longrightarrow>
        dget d f = sort_keys (case map_of (rev ?patch) f of Some v \<Rightarrow> v | None \<Rightarrow> dget d f)"
    show "fence_failed e d"
      using d [of "''state''"] d [of "''last_error''"] by (simp add: fence_failed_def)
  qed simp_all
  then show ?thesis
    unfolding wp_tryM wp_bindM wp_on_world wp_retM wp_raiseM
    by (intro wp_mono [OF wp_fence_locked [OF quiet now]]) (auto elim: wp_mono)
qed

definition handed_back ::
  "'k staged_store \<Rightarrow> ('k \<Rightarrow> string \<Rightarrow> json option) \<Rightarrow> string \<Rightarrow> 'k \<Rightarrow> (json dict \<Rightarrow> bool) \<Rightarrow> ('n, 'k) world \<Rightarrow> bool" where
  "handed_back S kv h k0 P t \<longleftrightarrow> (\<exists>w1 l. release_host_fencing_lock S h l w1 = (Inr (), t) \<and> noted S kv h k0 P (etcd w1))"


section \<open>A concrete run\<close>

lemma quiet_proof_lasts: "etcd_quiet (ss_client S) kv env \<Longrightarrow> proof_lasts S kv env"
  unfolding proof_lasts_def etcd_quiet_def by (metis proven_off_same)

text \<open>A host with its controller, a second host of the segment, and an empty etcd.\<close>

definition demo_fencing_store :: "etcd_state staged_store" where
  "demo_fencing_store = make_fencing_store demo_fencing_conf ''engine-1'' quiet_etcd"

definition demo_fence_world :: "(machine, etcd_state) world" where
  "demo_fence_world = (demo_world \<lparr>mc_uuid = ''u-1'', mc_power = ''On'', mc_resets = 0\<rparr> (demo_etcd_state [] []))
     \<lparr>hosts := [demo_host, demo_host\<lparr>rid := 2, h_uuid := ''host2'', h_name := ''compute2''\<rparr>]\<rparr>"

lemma demo_fencing_quiet: "etcd_quiet (ss_client demo_fencing_store) es_kv (es_env id)"
  by (simp add: demo_fencing_store_def make_fencing_store_def quiet_etcd_ok)

definition demo_collect :: "(exc + string list) \<times> (machine, etcd_state) world" where
  "demo_collect = CollectFailureSetTask demo_lib demo_fencing_conf demo_files demo_fencing_store demo_ctx ''seg'' ''event''
     ''compute1'' None demo_fence_world"

lemma collect_failure_set_bounds_witness:
  "\<exists>w'. demo_collect = (Inr [''compute1''], w') \<and> sorted [''compute1''] \<and> w' = demo_fence_world\<lparr>etcd := etcd w'\<rparr>"
proof -
  have "fst demo_collect = Inr [''compute1'']" by code_simp
  then obtain w' where run: "demo_collect = (Inr [''compute1''], w')" by (metis prod.collapse)
  with collect_failure_set_bounds [OF run [unfolded demo_collect_def]] show ?thesis by blast
qed

definition demo_fence_run :: "(exc + string list) \<times> (machine, etcd_state) world" where
  "demo_fence_run = RedfishFenceFailureSetTask demo_http demo_fencing_conf demo_files demo_fencing_store [''compute1'']
     ''event'' ''seg'' (snd demo_collect)"



end
