(* ===== verification/Masakari_Context.thy ===== *)
theory Masakari_Context
  imports Masakari_StagedState
begin

text \<open>
  \<open>context.py\<close>, \<open>authorize\<close> and \<open>check_is_admin\<close> of \<open>policy.py\<close>, and the two middlewares of
  \<open>api/auth.py\<close> that build the context of a request from its headers. The base class of the context
  comes from oslo.context, the rules and their evaluation from oslo.policy: what the base class tells
  the policy about a context, and what the enforcer answers, are the fields of a record. The green
  thread the context is stored in, and the parts of the context no code of the program reads, are
  left out.
\<close>

section \<open>Contexts\<close>

record api_context = request_context +
  cx_user_id :: "string option"
  cx_project_id :: "string option"
  cx_is_admin :: "bool option"
  cx_roles :: "string list"
  cx_remote_address :: "string option"
  cx_timestamp :: int
  cx_request_id :: "string option"
  cx_auth_token :: "string option"
  cx_user_name :: "string option"
  cx_project_name :: "string option"
  cx_service_catalog :: "json list"

text \<open>
  \<open>pe_values\<close>: \<open>to_policy_values\<close> of the base class. \<open>pe_authorize\<close>: whether the rule of an action
  holds for a target and credentials, \<open>None\<close> when no rule has that name.
\<close>

record policy_engine =
  pe_values :: "api_context \<Rightarrow> json dict"
  pe_authorize :: "string \<Rightarrow> json dict \<Rightarrow> json dict \<Rightarrow> bool option"

definition json_bool :: "bool option \<Rightarrow> json" where
  "json_bool b = (case b of None \<Rightarrow> JNull | Some x \<Rightarrow> JBool x)"

definition json_text :: "string option \<Rightarrow> json" where
  "json_text s = (case s of None \<Rightarrow> JNull | Some x \<Rightarrow> JStr x)"

definition to_policy_values :: "policy_engine \<Rightarrow> api_context \<Rightarrow> json dict" where
  "to_policy_values P ctx = AList.update ''is_admin'' (json_bool (cx_is_admin ctx)) (pe_values P ctx)"

definition PolicyNotRegistered :: exc where
  "PolicyNotRegistered = Exc OtherException ''Policy has not been registered''"

definition mk_PolicyNotAuthorized :: "string \<Rightarrow> exc" where
  "mk_PolicyNotAuthorized action = Exc PolicyNotAuthorized (''Policy doesn'' @ [CHR 0x27] @ ''t allow '' @ action @ '' to be performed.'')"

definition authorize :: "policy_engine \<Rightarrow> api_context \<Rightarrow> string \<Rightarrow> json dict \<Rightarrow> bool \<Rightarrow> exc + bool" where
  "authorize P ctx action target do_raise =
     (let credentials = to_policy_values P ctx in
      case pe_authorize P action target credentials of
        None \<Rightarrow> Inl PolicyNotRegistered
      | Some result \<Rightarrow> if \<not> result \<and> do_raise then Inl (mk_PolicyNotAuthorized action) else Inr result)"

definition check_is_admin :: "policy_engine \<Rightarrow> api_context \<Rightarrow> exc + bool" where
  "check_is_admin P ctx =
     (let credentials = to_policy_values P ctx in
      case pe_authorize P ''context_is_admin'' credentials credentials of
        None \<Rightarrow> Inl PolicyNotRegistered | Some result \<Rightarrow> Inr result)"

text \<open>
  The keyword arguments of the constructor that the context keeps. \<open>ca_user\<close> and \<open>ca_tenant\<close> are
  the old names of the user and the project. A time stamp is absent, or the time it stands for.
\<close>

record context_args =
  ca_user_id :: "string option"
  ca_project_id :: "string option"
  ca_is_admin :: "bool option"
  ca_read_deleted :: "string option"
  ca_roles :: "string list option"
  ca_remote_address :: "string option"
  ca_timestamp :: "int option"
  ca_request_id :: "string option"
  ca_auth_token :: "string option"
  ca_user_name :: "string option"
  ca_project_name :: "string option"
  ca_service_catalog :: "json list option"
  ca_user :: "string option"
  ca_tenant :: "string option"

definition or_text :: "string option \<Rightarrow> string option \<Rightarrow> string option" where
  "or_text a b = (if a = None \<or> a = Some '''' then b else a)"

definition set_read_deleted :: "string \<Rightarrow> 'c request_context_scheme \<Rightarrow> exc + 'c request_context_scheme" where
  "set_read_deleted v ctx =
     (if v \<notin> {''no'', ''yes'', ''only''}
      then Inl (Exc ValueError (''read_deleted can only be one of '' @ [CHR 0x27] @ ''no'' @ [CHR 0x27] @ '', '' @ [CHR 0x27] @ ''yes'' @
        [CHR 0x27] @ '' or '' @ [CHR 0x27] @ ''only'' @ [CHR 0x27] @ '', not '' @ v))
      else Inr (ctx\<lparr>read_deleted := v\<rparr>))"

text \<open>The parts of the service catalog that are kept; an entry that is not an object has no \<open>get\<close>.\<close>

definition catalog_entry :: "json \<Rightarrow> exc + bool" where
  "catalog_entry s = (case s of
     JObj d \<Rightarrow> Inr (dget d ''type'' = JStr ''compute'' \<or> dget d ''type'' = JStr ''identity'')
   | _ \<Rightarrow> Inl (Exc OtherException ''object has no attribute get''))"

fun required_catalog :: "json list \<Rightarrow> exc + json list" where
  "required_catalog [] = Inr []"
| "required_catalog (s # rest) = (case catalog_entry s of Inl e \<Rightarrow> Inl e
     | Inr kept \<Rightarrow> (case required_catalog rest of Inl e \<Rightarrow> Inl e
       | Inr ss \<Rightarrow> Inr (if kept then s # ss else ss)))"

definition bare_context :: "int \<Rightarrow> context_args \<Rightarrow> api_context" where
  "bare_context now args = \<lparr>read_deleted = ''no'', cx_user_id = or_text (ca_user_id args) (ca_user args),
     cx_project_id = or_text (ca_project_id args) (ca_tenant args), cx_is_admin = ca_is_admin args,
     cx_roles = (case ca_roles args of None \<Rightarrow> [] | Some rs \<Rightarrow> rs),
     cx_remote_address = ca_remote_address args,
     cx_timestamp = (case ca_timestamp args of None \<Rightarrow> now | Some t \<Rightarrow> t),
     cx_request_id = ca_request_id args, cx_auth_token = ca_auth_token args, cx_user_name = ca_user_name args,
     cx_project_name = ca_project_name args, cx_service_catalog = []\<rparr>"

definition RequestContext :: "policy_engine \<Rightarrow> int \<Rightarrow> context_args \<Rightarrow> exc + api_context" where
  "RequestContext P now args =
     (case set_read_deleted (case ca_read_deleted args of None \<Rightarrow> ''no'' | Some v \<Rightarrow> v) (bare_context now args) of
        Inl e \<Rightarrow> Inl e
      | Inr ctx \<Rightarrow> (case required_catalog (case ca_service_catalog args of None \<Rightarrow> [] | Some sc \<Rightarrow> sc) of
          Inl e \<Rightarrow> Inl e
        | Inr sc \<Rightarrow> let ctx = ctx\<lparr>cx_service_catalog := sc\<rparr> in
            if cx_is_admin ctx = None
            then (case check_is_admin P ctx of Inl e \<Rightarrow> Inl e | Inr b \<Rightarrow> Inr (ctx\<lparr>cx_is_admin := Some b\<rparr>))
            else Inr ctx))"

definition no_args :: context_args where
  "no_args = \<lparr>ca_user_id = None, ca_project_id = None, ca_is_admin = None, ca_read_deleted = Some ''no'', ca_roles = None,
     ca_remote_address = None, ca_timestamp = None, ca_request_id = None, ca_auth_token = None, ca_user_name = None,
     ca_project_name = None, ca_service_catalog = None, ca_user = None, ca_tenant = None\<rparr>"

definition get_admin_context :: "policy_engine \<Rightarrow> int \<Rightarrow> string \<Rightarrow> exc + api_context" where
  "get_admin_context P now rd = RequestContext P now (no_args\<lparr>ca_is_admin := Some True, ca_read_deleted := Some rd\<rparr>)"

text \<open>\<open>to_dict\<close>, over the dictionary of the base class.\<close>

definition context_to_dict :: "(api_context \<Rightarrow> json dict) \<Rightarrow> api_context \<Rightarrow> json dict" where
  "context_to_dict base_to_dict ctx = dict_update (base_to_dict ctx)
     [(''user_id'', json_text (cx_user_id ctx)), (''project_id'', json_text (cx_project_id ctx)),
      (''read_deleted'', JStr (read_deleted ctx)), (''remote_address'', json_text (cx_remote_address ctx)),
      (''timestamp'', JTime (cx_timestamp ctx)), (''user_name'', json_text (cx_user_name ctx)),
      (''service_catalog'', JList (cx_service_catalog ctx)), (''project_name'', json_text (cx_project_name ctx))]"

definition elevated :: "string option \<Rightarrow> api_context \<Rightarrow> exc + api_context" where
  "elevated rd ctx =
     (let new = ctx\<lparr>cx_is_admin := Some True,
        cx_roles := (if ''admin'' \<notin> set (cx_roles ctx) then cx_roles ctx @ [''admin''] else cx_roles ctx)\<rparr>
      in case rd of None \<Rightarrow> Inr new | Some v \<Rightarrow> set_read_deleted v new)"

definition own_target :: "api_context \<Rightarrow> json dict" where
  "own_target ctx = [(''project_id'', json_text (cx_project_id ctx)), (''user_id'', json_text (cx_user_id ctx))]"

definition can :: "policy_engine \<Rightarrow> api_context \<Rightarrow> string \<Rightarrow> json dict option \<Rightarrow> bool \<Rightarrow> exc + bool" where
  "can P ctx action target fatal =
     (case authorize P ctx action (case target of None \<Rightarrow> own_target ctx | Some t \<Rightarrow> t) True of
        Inr b \<Rightarrow> Inr b
      | Inl e \<Rightarrow> if isinstance e Forbidden then (if fatal then Inl e else Inr False) else Inl e)"

section \<open>The context of a request\<close>

text \<open>
  \<open>str.split\<close> at a character and \<open>str.strip\<close>. The headers of a request are looked up under the names
  the code uses; parsing a JSON header is an argument, \<open>None\<close> for its \<open>ValueError\<close>.
\<close>

fun split_at :: "char \<Rightarrow> string \<Rightarrow> string list" where
  "split_at c [] = [[]]"
| "split_at c (x # xs) = (case split_at c xs of
     p # ps \<Rightarrow> if x = c then [] # p # ps else (x # p) # ps
   | [] \<Rightarrow> [])"

definition strip :: "string \<Rightarrow> string" where
  "strip s = rev (dropWhile is_blank (rev (dropWhile is_blank s)))"

definition get_roles :: "string dict \<Rightarrow> string list" where
  "get_roles headers = map strip (split_at (CHR '','') (case map_of headers ''X_ROLES'' of None \<Rightarrow> '''' | Some v \<Rightarrow> v))"

record http_request =
  hr_headers :: "string dict"
  hr_remote_addr :: "string option"
  hr_request_id :: "string option"

definition header_or :: "http_request \<Rightarrow> string \<Rightarrow> string option \<Rightarrow> string option" where
  "header_or r name d = (case map_of (hr_headers r) name of None \<Rightarrow> d | Some v \<Rightarrow> Some v)"

definition remote_address_of :: "bool \<Rightarrow> http_request \<Rightarrow> string option" where
  "remote_address_of use_forwarded_for r =
     (if use_forwarded_for then header_or r ''X-Forwarded-For'' (hr_remote_addr r) else hr_remote_addr r)"

definition catalog_of :: "(string \<Rightarrow> json list option) \<Rightarrow> http_request \<Rightarrow> exc + json list option" where
  "catalog_of parse r = (case map_of (hr_headers r) ''X_SERVICE_CATALOG'' of None \<Rightarrow> Inr None
     | Some v \<Rightarrow> (case parse v of None \<Rightarrow> Inl (Exc (HTTPError 500) ''Invalid service catalog json.'')
       | Some sc \<Rightarrow> Inr (Some sc)))"

text \<open>\<open>MasakariKeystoneContext.__call__\<close> and \<open>NoAuthMiddleware.__call__\<close>: the context, or the error.\<close>

definition keystone_context ::
  "policy_engine \<Rightarrow> bool \<Rightarrow> (string \<Rightarrow> json list option) \<Rightarrow> int \<Rightarrow> http_request \<Rightarrow> exc + api_context" where
  "keystone_context P use_forwarded_for parse now r =
     (let user_id = header_or r ''X_USER_ID'' (header_or r ''X_USER'' None) in
      case user_id of None \<Rightarrow> Inl (Exc (HTTPError 401) '''')
      | Some u \<Rightarrow>
          let roles = get_roles (hr_headers r) in
          case (case map_of (hr_headers r) ''X_TENANT_ID'' of Some t \<Rightarrow> Inr t
            | None \<Rightarrow> (case map_of (hr_headers r) ''X_TENANT'' of Some t \<Rightarrow> Inr t
              | None \<Rightarrow> Inl (Exc KeyError ''X_TENANT''))) of Inl e \<Rightarrow> Inl e
          | Inr project_id \<Rightarrow> (case catalog_of parse r of Inl e \<Rightarrow> Inl e
            | Inr service_catalog \<Rightarrow>
                RequestContext P now (no_args\<lparr>ca_user_id := Some u, ca_project_id := Some project_id,
                  ca_user_name := header_or r ''X_USER_NAME'' None, ca_project_name := header_or r ''X_TENANT_NAME'' None,
                  ca_roles := Some roles, ca_auth_token := header_or r ''X_AUTH_TOKEN'' (header_or r ''X_STORAGE_TOKEN'' None),
                  ca_remote_address := remote_address_of use_forwarded_for r,
                  ca_service_catalog := service_catalog, ca_request_id := hr_request_id r\<rparr>)))"

definition noauth_context ::
  "policy_engine \<Rightarrow> bool \<Rightarrow> (string \<Rightarrow> json list option) \<Rightarrow> int \<Rightarrow> http_request \<Rightarrow> exc + api_context" where
  "noauth_context P use_forwarded_for parse now r =
     (let user_id = header_or r ''X_USER_ID'' (header_or r ''X_USER'' (Some ''admin'')) in
      case catalog_of parse r of Inl e \<Rightarrow> Inl e
      | Inr service_catalog \<Rightarrow>
          RequestContext P now (no_args\<lparr>ca_user_id := user_id, ca_user_name := header_or r ''X_USER_NAME'' None,
            ca_project_name := header_or r ''X_TENANT_NAME'' None, ca_remote_address := remote_address_of use_forwarded_for r,
            ca_service_catalog := service_catalog, ca_request_id := hr_request_id r, ca_is_admin := Some True\<rparr>))"

section \<open>Who is an administrator\<close>

lemma set_read_deleted_Inr: "set_read_deleted v c = Inr c' \<Longrightarrow> c' = c\<lparr>read_deleted := v\<rparr> \<and> v \<in> {''no'', ''yes'', ''only''}"
  by (auto simp: set_read_deleted_def split: if_splits)

text \<open>A context that was built has a mode of reading the database, and says whether it is an administrator.\<close>

lemma RequestContext_Inr:
  assumes "RequestContext P now args = Inr ctx"
  shows "read_deleted ctx = (case ca_read_deleted args of None \<Rightarrow> ''no'' | Some v \<Rightarrow> v) \<and>
     read_deleted ctx \<in> {''no'', ''yes'', ''only''} \<and> cx_user_id ctx = or_text (ca_user_id args) (ca_user args) \<and>
     cx_project_id ctx = or_text (ca_project_id args) (ca_tenant args) \<and>
     cx_roles ctx = (case ca_roles args of None \<Rightarrow> [] | Some rs \<Rightarrow> rs) \<and>
     cx_is_admin ctx = (case ca_is_admin args of Some b \<Rightarrow> Some b
       | None \<Rightarrow> (let creds = to_policy_values P (ctx\<lparr>cx_is_admin := None\<rparr>) in pe_authorize P ''context_is_admin'' creds creds)) \<and>
     cx_is_admin ctx \<noteq> None"
proof -
  from assms obtain c sc where c: "set_read_deleted (case ca_read_deleted args of None \<Rightarrow> ''no'' | Some v \<Rightarrow> v) (bare_context now args) = Inr c"
    and ctx: "(let d = c\<lparr>cx_service_catalog := sc\<rparr> in if cx_is_admin d = None
            then (case check_is_admin P d of Inl e \<Rightarrow> Inl e | Inr b \<Rightarrow> Inr (d\<lparr>cx_is_admin := Some b\<rparr>))
            else Inr d) = Inr ctx"
    unfolding RequestContext_def by (auto split: sum.splits)
  define d where "d = c\<lparr>cx_service_catalog := sc\<rparr>"
  have d: "read_deleted d = (case ca_read_deleted args of None \<Rightarrow> ''no'' | Some v \<Rightarrow> v)" "read_deleted d \<in> {''no'', ''yes'', ''only''}"
    "cx_user_id d = or_text (ca_user_id args) (ca_user args)" "cx_project_id d = or_text (ca_project_id args) (ca_tenant args)"
    "cx_roles d = (case ca_roles args of None \<Rightarrow> [] | Some rs \<Rightarrow> rs)" "cx_is_admin d = ca_is_admin args"
    using set_read_deleted_Inr [OF c] by (simp_all add: d_def bare_context_def)
  show ?thesis
  proof (cases "cx_is_admin d")
    case None
    then obtain b where "check_is_admin P d = Inr b" and "ctx = d\<lparr>cx_is_admin := Some b\<rparr>"
      using ctx unfolding d_def Let_def by (auto split: sum.splits)
    moreover have "to_policy_values P (d\<lparr>cx_is_admin := None\<rparr>) = to_policy_values P d"
      using None by (intro arg_cong [where f = "to_policy_values P"]) simp
    ultimately show ?thesis using d None by (simp add: check_is_admin_def Let_def split: option.splits)
  next
    case (Some b)
    then have "ctx = d" using ctx unfolding d_def Let_def by simp
    moreover have "ca_is_admin args = Some b" using Some d(6) by simp
    ultimately show ?thesis using d by simp
  qed
qed

lemma can_fatal:
  "can P ctx action target True = (let t = (case target of None \<Rightarrow> own_target ctx | Some t \<Rightarrow> t) in
     case pe_authorize P action t (to_policy_values P ctx) of
       None \<Rightarrow> Inl PolicyNotRegistered
     | Some True \<Rightarrow> Inr True | Some False \<Rightarrow> Inl (mk_PolicyNotAuthorized action))"
  by (auto simp: can_def authorize_def Let_def split: option.splits bool.splits)

text \<open>C37. A request that the Keystone middleware lets through names its user, and its context is that of an
  administrator exactly when the rule \<open>context_is_admin\<close> holds for the roles the request was given,
  whatever the other headers say; without a user it is answered with 401. A context can then do what the
  policy allows it, and anything else raises \<open>PolicyNotAuthorized\<close>.\<close>

theorem keystone_context_sound:
  assumes "keystone_context P fwd parse now r = Inr ctx"
    and registered: "pe_authorize P action (own_target ctx) (to_policy_values P ctx) \<noteq> None"
  shows "(\<exists>u. header_or r ''X_USER_ID'' (header_or r ''X_USER'' None) = Some u \<and> (u \<noteq> '''' \<longrightarrow> cx_user_id ctx = Some u)) \<and>
     cx_roles ctx = get_roles (hr_headers r) \<and> read_deleted ctx = ''no'' \<and>
     cx_is_admin ctx = (let creds = to_policy_values P (ctx\<lparr>cx_is_admin := None\<rparr>) in
        pe_authorize P ''context_is_admin'' creds creds) \<and>
     can P ctx action None True =
       (if pe_authorize P action (own_target ctx) (to_policy_values P ctx) = Some True then Inr True
        else Inl (mk_PolicyNotAuthorized action))"
proof -
  from assms(1) obtain u t sc where u: "header_or r ''X_USER_ID'' (header_or r ''X_USER'' None) = Some u"
    and ctx: "RequestContext P now (no_args\<lparr>ca_user_id := Some u, ca_project_id := Some t,
        ca_user_name := header_or r ''X_USER_NAME'' None, ca_project_name := header_or r ''X_TENANT_NAME'' None,
        ca_roles := Some (get_roles (hr_headers r)),
        ca_auth_token := header_or r ''X_AUTH_TOKEN'' (header_or r ''X_STORAGE_TOKEN'' None),
        ca_remote_address := remote_address_of fwd r, ca_service_catalog := sc, ca_request_id := hr_request_id r\<rparr>) = Inr ctx"
      (is "RequestContext P now ?args = _")
    unfolding keystone_context_def Let_def by (auto split: option.splits sum.splits)
  have args: "ca_is_admin ?args = None" "ca_roles ?args = Some (get_roles (hr_headers r))" "ca_user_id ?args = Some u"
      "ca_read_deleted ?args = Some ''no''" by (simp_all add: no_args_def)
  have "can P ctx action None True =
       (if pe_authorize P action (own_target ctx) (to_policy_values P ctx) = Some True then Inr True
        else Inl (mk_PolicyNotAuthorized action))"
    using registered by (auto simp: can_fatal Let_def split: option.splits bool.splits)
  then show ?thesis using RequestContext_Inr [OF ctx] u by (simp add: args or_text_def)
qed

lemma keystone_context_unauthenticated:
  "map_of (hr_headers r) ''X_USER_ID'' = None \<Longrightarrow> map_of (hr_headers r) ''X_USER'' = None \<Longrightarrow>
     keystone_context P fwd parse now r = Inl (Exc (HTTPError 401) '''')"
  by (simp add: keystone_context_def header_or_def)

lemma elevated_admin: "elevated rd ctx = Inr c \<Longrightarrow> cx_is_admin c = Some True \<and> ''admin'' \<in> set (cx_roles c) \<and>
    set (cx_roles ctx) \<subseteq> set (cx_roles c) \<and> cx_user_id c = cx_user_id ctx \<and> cx_project_id c = cx_project_id ctx"
  by (auto simp: elevated_def Let_def dest!: set_read_deleted_Inr split: option.splits)

section \<open>A concrete policy\<close>

text \<open>The rules of \<open>policies/base.py\<close>: a role of an administrator, and an administrator.\<close>

definition demo_policy :: policy_engine where
  "demo_policy = \<lparr>pe_values = (\<lambda>ctx. [(''roles'', JList (map JStr (cx_roles ctx))), (''user_id'', json_text (cx_user_id ctx))]),
     pe_authorize = (\<lambda>action target creds. Some (if action = ''context_is_admin''
       then (case dget creds ''roles'' of JList rs \<Rightarrow> JStr ''admin'' \<in> set rs | _ \<Rightarrow> False)
       else dget creds ''is_admin'' = JBool True))\<rparr>"

definition demo_http :: http_request where
  "demo_http = \<lparr>hr_headers = [(''X_USER_ID'', ''u1''), (''X_TENANT_ID'', ''p1''), (''X_ROLES'', ''member, admin'')],
     hr_remote_addr = None, hr_request_id = None\<rparr>"

lemma keystone_context_sound_witness:
  "\<exists>ctx. keystone_context demo_policy False (\<lambda>_. None) 0 demo_http = Inr ctx \<and> cx_user_id ctx = Some ''u1'' \<and>
     cx_is_admin ctx = Some True \<and> can demo_policy ctx ''os_masakari_api:segments:index'' None True = Inr True"
proof -
  obtain ctx where run: "keystone_context demo_policy False (\<lambda>_. None) 0 demo_http = Inr ctx"
    by (cases "keystone_context demo_policy False (\<lambda>_. None) 0 demo_http")
      (auto simp: keystone_context_def demo_http_def header_or_def catalog_of_def RequestContext_def bare_context_def no_args_def
        set_read_deleted_def check_is_admin_def demo_policy_def Let_def)
  have "pe_authorize demo_policy a t c \<noteq> None" for a t c by (simp add: demo_policy_def)
  note facts = keystone_context_sound [OF run this, of "''os_masakari_api:segments:index''"]
  have roles: "get_roles (hr_headers demo_http) = [''member'', ''admin'']" by code_simp
  have "cx_roles ctx = [''member'', ''admin'']" using facts roles by simp
  then have admin: "cx_is_admin ctx = Some True"
    using facts by (simp add: demo_policy_def Let_def to_policy_values_def dget_def)
  moreover have "cx_user_id ctx = Some ''u1''" using facts by (auto simp: header_or_def demo_http_def)
  ultimately show ?thesis using facts run
    by (simp add: demo_policy_def to_policy_values_def json_bool_def dget_def)
qed

end
