(* ===== verification/Masakari_ApiVersion.thy ===== *)
theory Masakari_ApiVersion
  imports Masakari_StagedState "HOL-Library.Product_Lexorder"
begin

text \<open>
  \<open>api/api_version_request.py\<close>, \<open>api/versioned_method.py\<close> and the part of \<open>api/openstack/wsgi.py\<close> that
  chooses the version of the API a request is served with and the method that serves it. A comparison
  with something that is not a version cannot be written here, so its \<open>TypeError\<close> is left out.
\<close>

section \<open>Versions\<close>

record api_version_request =
  ver_major :: nat
  ver_minor :: nat

definition null_version :: api_version_request where
  "null_version = \<lparr>ver_major = 0, ver_minor = 0\<rparr>"

definition is_null :: "api_version_request \<Rightarrow> bool" where
  "is_null v \<longleftrightarrow> ver_major v = 0 \<and> ver_minor v = 0"

definition ver_key :: "api_version_request \<Rightarrow> nat \<times> nat" where
  "ver_key v = (ver_major v, ver_minor v)"

definition ver_lt :: "api_version_request \<Rightarrow> api_version_request \<Rightarrow> bool" where
  "ver_lt v u \<longleftrightarrow> ver_key v < ver_key u"

definition ver_le :: "api_version_request \<Rightarrow> api_version_request \<Rightarrow> bool" where
  "ver_le v u \<longleftrightarrow> ver_lt v u \<or> ver_key v = ver_key u"

text \<open>
  The regular expression \<open>^([1-9]\d*)\.([1-9]\d*|0)$\<close>, whose \<open>$\<close> also matches before a newline at the
  end. A string is read as a sequence of characters below 256, which has no other digits.
\<close>

definition is_digit :: "char \<Rightarrow> bool" where
  "is_digit c \<longleftrightarrow> digit_of c \<noteq> None"

definition number_text :: "string \<Rightarrow> bool" where
  "number_text s \<longleftrightarrow> s \<noteq> [] \<and> hd s \<noteq> CHR ''0'' \<and> list_all is_digit s"

definition number_value :: "string \<Rightarrow> nat" where
  "number_value s = foldl (\<lambda>n c. 10 * n + the (digit_of c)) 0 s"

definition without_newline :: "string \<Rightarrow> string" where
  "without_newline s = (if s \<noteq> [] \<and> last s = CHR 0x0A then butlast s else s)"

definition APIVersionRequest :: "string option \<Rightarrow> exc + api_version_request" where
  "APIVersionRequest version_string = (case version_string of
     None \<Rightarrow> Inr null_version
   | Some s \<Rightarrow>
       let major = takeWhile (\<lambda>c. c \<noteq> CHR ''.'') s; rest = dropWhile (\<lambda>c. c \<noteq> CHR ''.'') s;
           minor = without_newline (tl rest)
       in if number_text major \<and> rest \<noteq> [] \<and> (number_text minor \<or> minor = ''0'')
          then Inr \<lparr>ver_major = number_value major, ver_minor = number_value minor\<rparr>
          else Inl (mk_InvalidAPIVersionString s))"

definition matches :: "api_version_request \<Rightarrow> api_version_request \<Rightarrow> api_version_request \<Rightarrow> exc + bool" where
  "matches v min_version max_version =
     (if is_null v then Inl (Exc ValueError '''')
      else if is_null max_version \<and> is_null min_version then Inr True
      else if is_null max_version then Inr (ver_le min_version v)
      else if is_null min_version then Inr (ver_le v max_version)
      else Inr (ver_le min_version v \<and> ver_le v max_version))"

definition get_string :: "api_version_request \<Rightarrow> exc + string" where
  "get_string v = (if is_null v then Inl (Exc ValueError '''')
     else Inr (show_nat (ver_major v) @ ''.'' @ show_nat (ver_minor v)))"

definition min_api_version :: api_version_request where
  "min_api_version = \<lparr>ver_major = 1, ver_minor = 0\<rparr>"

definition max_api_version :: api_version_request where
  "max_api_version = \<lparr>ver_major = 1, ver_minor = 3\<rparr>"

definition is_supported :: "api_version_request \<Rightarrow> api_version_request \<Rightarrow> api_version_request \<Rightarrow> bool" where
  "is_supported req min_version max_version \<longleftrightarrow> ver_le req max_version \<and> ver_le min_version req"

text \<open>
  \<open>Request.set_api_version_request\<close>. What \<open>microversion_parse.get_version\<close> reads from the headers is
  the argument.
\<close>

definition set_api_version_request :: "string option \<Rightarrow> exc + api_version_request" where
  "set_api_version_request hdr_string = (case hdr_string of
     None \<Rightarrow> APIVersionRequest (Some ''1.0'')
   | Some s \<Rightarrow>
       if s = ''latest'' then Inr max_api_version
       else (case APIVersionRequest (Some s) of Inl e \<Rightarrow> Inl e
         | Inr v \<Rightarrow> (case matches v min_api_version max_api_version of Inl e \<Rightarrow> Inl e
           | Inr ok \<Rightarrow> if ok then Inr v
               else (case get_string v of Inl e \<Rightarrow> Inl e | Inr req_ver \<Rightarrow>
                 Inl (Exc InvalidGlobalAPIVersion (''Version '' @ req_ver @ '' is not supported by the API. Minimum is 1.0 and maximum is 1.3.''))))))"

section \<open>Versioned methods\<close>

record 'f versioned_method =
  vm_start :: api_version_request
  vm_end :: api_version_request
  vm_func :: 'f

text \<open>The pairs are sorted by the version alone, and the sort of Python is stable.\<close>

definition interval_pairs :: "'f versioned_method list \<Rightarrow> (api_version_request \<times> int) list" where
  "interval_pairs func_list = concat (map (\<lambda>f. [(vm_start f, 1), (vm_end f, - 1)]) func_list)"

fun over_one :: "int \<Rightarrow> (api_version_request \<times> int) list \<Rightarrow> bool" where
  "over_one counter [] \<longleftrightarrow> False"
| "over_one counter (p # ps) \<longleftrightarrow> counter + snd p > 1 \<or> over_one (counter + snd p) ps"

definition check_for_versions_intersection :: "'f versioned_method list \<Rightarrow> bool" where
  "check_for_versions_intersection func_list =
     over_one 0 (sort_key (\<lambda>p. ver_key (fst p)) (interval_pairs func_list))"

text \<open>
  The decorator \<open>api_version\<close>: the list of the methods of one name with a new one added, or the error,
  whose message is the format of the class: formatting it raises, and the class then uses it as it is.
  With \<open>reverse=True\<close> the sort keeps the order of equal elements.
\<close>

definition register_version :: "'f versioned_method list \<Rightarrow> 'f versioned_method \<Rightarrow> exc + 'f versioned_method list" where
  "register_version func_list new =
     (if check_for_versions_intersection (func_list @ [new])
      then Inl (Exc ApiVersionsIntersect ''Version of %(name) %(min_ver) %(max_ver) intersects with another versions.'')
      else Inr (rev (sort_key (\<lambda>f. ver_key (vm_start f)) (rev (func_list @ [new])))))"

fun version_select :: "api_version_request \<Rightarrow> 'f versioned_method list \<Rightarrow> exc + 'f" where
  "version_select ver [] = Inl (Exc VersionNotFoundForAPIMethod (''API version API Version Request Major: '' @ show_nat (ver_major ver) @
     '', Minor: '' @ show_nat (ver_minor ver) @ '' is not supported on this method.''))"
| "version_select ver (f # func_list) = (case matches ver (vm_start f) (vm_end f) of Inl e \<Rightarrow> Inl e
     | Inr ok \<Rightarrow> if ok then Inr (vm_func f) else version_select ver func_list)"

section \<open>Reading and writing a version\<close>

lemma digit_of_digit: "n < 10 \<Longrightarrow> digit_of (char_of (48 + n)) = Some n"
  by (simp add: digit_of_def Let_def)

lemma digit_of_chars: "digit_of CHR ''0'' = Some 0" "digit_of CHR ''.'' = None" "digit_of CHR 0x0A = None"
  by (simp_all add: digit_of_def)

lemma digit_char: "digit_of c = Some d \<Longrightarrow> d < 10 \<and> char_of (48 + d) = c"
  by (auto simp: digit_of_def Let_def split: if_splits)

lemma zero_char: "char_of (48 :: nat) = CHR ''0''"
  using digit_char [OF digit_of_chars(1)] by simp

lemma number_value_snoc: "number_value (s @ [c]) = 10 * number_value s + the (digit_of c)"
  by (simp add: number_value_def)

lemma show_nat_number: "number_value (show_nat n) = n \<and> list_all is_digit (show_nat n) \<and> show_nat n \<noteq> [] \<and>
    (n > 0 \<longrightarrow> hd (show_nat n) \<noteq> CHR ''0'')"
proof (induction n rule: show_nat.induct)
  case (1 n)
  show ?case
  proof (cases "n < 10")
    case True
    have "n > 0 \<longrightarrow> char_of (48 + n) \<noteq> CHR ''0''"
      using digit_of_digit [OF True] digit_of_chars(1) by fastforce
    then show ?thesis using True digit_of_digit [OF True]
      by (subst (1 2 3 4) show_nat.simps) (simp add: number_value_def is_digit_def)
  next
    case False
    then show ?thesis using 1 digit_of_digit [of "n mod 10"]
      by (subst (1 2 3 4) show_nat.simps) (simp add: number_value_snoc is_digit_def hd_append list_all_iff)
  qed
qed

lemma show_number_value: "number_text s \<Longrightarrow> show_nat (number_value s) = s \<and> number_value s > 0"
proof (induction s rule: rev_induct)
  case (snoc c s)
  obtain d where d: "digit_of c = Some d" using snoc.prems by (auto simp: number_text_def is_digit_def)
  note char = digit_char [OF d]
  show ?case
  proof (cases "s = []")
    case True
    have "d \<noteq> 0" using snoc.prems True d char zero_char by (cases d) (auto simp: number_text_def)
    then show ?thesis using True char d by (subst show_nat.simps) (simp add: number_value_def)
  next
    case False
    then have s: "show_nat (number_value s) = s \<and> number_value s > 0"
      using snoc by (simp add: number_text_def)
    then show ?thesis using char d by (subst show_nat.simps) (simp add: number_value_snoc)
  qed
qed (simp add: number_text_def)

lemma digits_no_dot: "list_all is_digit s \<Longrightarrow> CHR ''.'' \<notin> set s"
  using digit_of_chars(2) by (auto simp: list_all_iff is_digit_def)

lemma digits_no_newline: "list_all is_digit s \<Longrightarrow> without_newline s = s"
proof -
  assume "list_all is_digit s"
  then have "last s \<noteq> CHR 0x0A" if "s \<noteq> []"
    using last_in_set [OF that] digit_of_chars(3) unfolding list_all_iff is_digit_def by metis
  then show "without_newline s = s" by (auto simp: without_newline_def)
qed

text \<open>Versions round trip: the text of a version with a major number is read back as that version, and
  text that is accepted is, but for a newline at its end, the text of the version it is read as.\<close>

lemma api_version_roundtrip:
  "(ver_major v > 0 \<longrightarrow> (\<exists>s. get_string v = Inr s \<and> APIVersionRequest (Some s) = Inr v)) \<and>
   (APIVersionRequest (Some s) = Inr v \<longrightarrow> get_string v = Inr (without_newline s))"
proof (intro conjI impI)
  assume major: "ver_major v > 0"
  let ?M = "show_nat (ver_major v)" and ?m = "show_nat (ver_minor v)"
  have nm: "number_text ?M" "number_text ?m \<or> ?m = ''0''" "CHR ''.'' \<notin> set ?M" "without_newline ?m = ?m"
    using show_nat_number [of "ver_major v"] show_nat_number [of "ver_minor v"] major
    by (auto simp: number_text_def digits_no_dot digits_no_newline show_nat.simps [of 0])
  then have "takeWhile (\<lambda>c. c \<noteq> CHR ''.'') (?M @ ''.'' @ ?m) = ?M" "dropWhile (\<lambda>c. c \<noteq> CHR ''.'') (?M @ ''.'' @ ?m) = ''.'' @ ?m"
    by (auto simp: takeWhile_append dropWhile_append)
  then have "APIVersionRequest (Some (?M @ ''.'' @ ?m)) = Inr v"
    using nm show_nat_number [of "ver_major v"] show_nat_number [of "ver_minor v"]
    by (simp add: APIVersionRequest_def Let_def)
  moreover have "get_string v = Inr (?M @ ''.'' @ ?m)" using major by (simp add: get_string_def is_null_def)
  ultimately show "\<exists>s. get_string v = Inr s \<and> APIVersionRequest (Some s) = Inr v" by blast
next
  assume "APIVersionRequest (Some s) = Inr v"
  then obtain major rest minor where parts: "major = takeWhile (\<lambda>c. c \<noteq> CHR ''.'') s" "rest = dropWhile (\<lambda>c. c \<noteq> CHR ''.'') s"
      "minor = without_newline (tl rest)" "number_text major" "rest \<noteq> []" "number_text minor \<or> minor = ''0''"
      "v = \<lparr>ver_major = number_value major, ver_minor = number_value minor\<rparr>"
    by (auto simp: APIVersionRequest_def Let_def split: if_splits)
  have s: "s = major @ rest" "rest = CHR ''.'' # tl rest"
    using parts(1,2,5) hd_dropWhile [of "\<lambda>c. c \<noteq> CHR ''.''" s] by (simp, metis list.collapse)
  have "tl rest \<noteq> []" using parts(3,6) by (auto simp: without_newline_def number_text_def split: if_splits)
  moreover have "without_newline (a @ c # b) = a @ c # without_newline b" if "b \<noteq> []" for a b and c :: char
    using that by (simp add: without_newline_def butlast_append)
  ultimately have "without_newline s = major @ ''.'' @ minor"
    using s parts(3) by (metis append_Cons append_Nil)
  moreover have "show_nat (number_value minor) = minor"
    using parts(6) show_number_value [of minor] by (auto simp: number_value_def show_nat.simps [of 0] digit_of_chars zero_char)
  ultimately show "get_string v = Inr (without_newline s)"
    using parts(4,7) show_number_value [of major] by (simp add: get_string_def is_null_def)
qed
section \<open>Overlapping methods\<close>

text \<open>
  The pairs with the position of their method, so that equal pairs of two methods are told apart, and
  the order the sort puts them in: by version, and pairs of the same version as they were.
\<close>

fun tagged_pairs :: "nat \<Rightarrow> 'f versioned_method list \<Rightarrow> ((api_version_request \<times> int) \<times> nat) list" where
  "tagged_pairs n [] = []"
| "tagged_pairs n (f # fs) = ((vm_start f, 1), n) # ((vm_end f, - 1), n) # tagged_pairs (Suc n) fs"

definition pair_before :: "(api_version_request \<times> int) \<times> nat \<Rightarrow> (api_version_request \<times> int) \<times> nat \<Rightarrow> bool" where
  "pair_before x y \<longleftrightarrow> snd x < snd y \<or> snd x = snd y \<and> snd (fst x) > snd (fst y)"

definition sorted_before :: "(api_version_request \<times> int) \<times> nat \<Rightarrow> (api_version_request \<times> int) \<times> nat \<Rightarrow> bool" where
  "sorted_before x y \<longleftrightarrow> ver_key (fst (fst x)) < ver_key (fst (fst y)) \<or>
     ver_key (fst (fst x)) = ver_key (fst (fst y)) \<and> pair_before x y"

lemma sorted_wrt_sort_key:
  fixes f :: "'a \<Rightarrow> 'b :: linorder"
  assumes "sorted_wrt R xs"
  shows "sorted_wrt (\<lambda>x y. f x < f y \<or> f x = f y \<and> R x y) (sort_key f xs)"
proof -
  let ?Q = "\<lambda>x y. f x < f y \<or> f x = f y \<and> R x y"
  have ins: "sorted_wrt ?Q (insort_key f x ys)" if "sorted_wrt ?Q ys" "\<forall>y \<in> set ys. R x y" for x ys
    using that
  proof (induction ys)
    case (Cons y ys)
    then show ?case by (auto simp: set_insort_key)
  qed simp
  show ?thesis using assms
    by (induction xs) (auto intro: ins)
qed

lemma map_fst_tagged: "map fst (tagged_pairs n fs) = interval_pairs fs"
  by (induction fs arbitrary: n) (simp_all add: interval_pairs_def)

lemma sort_key_map_comp: "sort_key f (map g xs) = map g (sort_key (\<lambda>x. f (g x)) xs)"
proof -
  have "insort_key f (g x) (map g ys) = map g (insort_key (\<lambda>x. f (g x)) x ys)" for x ys by (induction ys) auto
  then show ?thesis by (induction xs) auto
qed

lemma over_one_iff: "c \<le> 1 \<Longrightarrow> over_one c ps \<longleftrightarrow> (\<exists>n. c + sum_list (map snd (take n ps)) > 1)"
proof (induction ps arbitrary: c)
  case (Cons q ps)
  show ?case
  proof (cases "c + snd q > 1")
    case True
    then show ?thesis by (auto intro: exI [of _ "Suc 0"])
  next
    case False
    have "(\<exists>n. c + sum_list (map snd (take n (q # ps))) > 1) \<longleftrightarrow> (\<exists>n. c + snd q + sum_list (map snd (take n ps)) > 1)"
      (is "(\<exists>n. ?L n) \<longleftrightarrow> (\<exists>n. ?R n)")
    proof
      assume "\<exists>n. ?L n"
      then obtain n where "?L n" ..
      then have "?R (n - 1)" using Cons.prems by (cases n) (auto simp: add.assoc)
      then show "\<exists>n. ?R n" ..
    next
      assume "\<exists>n. ?R n"
      then obtain n where "?R n" ..
      then have "?L (Suc n)" by (simp add: add.assoc)
      then show "\<exists>n. ?L n" ..
    qed
    then show ?thesis using False Cons.IH [of "c + snd q"] by simp
  qed
qed simp

lemma set_tagged: "x \<in> set (tagged_pairs n fs) \<longleftrightarrow>
    (\<exists>i < length fs. x = ((vm_start (fs ! i), 1), n + i) \<or> x = ((vm_end (fs ! i), - 1), n + i))"
proof (induction fs arbitrary: n)
  case (Cons f fs)
  show ?case by (simp add: Cons Ex_less_Suc2)
qed simp

lemma sorted_tagged: "sorted_wrt pair_before (tagged_pairs n fs)"
proof (induction fs arbitrary: n)
  case (Cons f fs)
  have "snd x > n" if "x \<in> set (tagged_pairs (Suc n) fs)" for x
    using that by (auto simp: set_tagged)
  then show ?case using Cons by (auto simp: pair_before_def)
qed simp

lemma distinct_tagged: "distinct (tagged_pairs n fs)"
proof (induction fs arbitrary: n)
  case (Cons f fs)
  then show ?case by (auto simp: set_tagged)
qed simp

text \<open>The sorted pairs, and the methods whose interval is open after the first \<open>n\<close> of them.\<close>

definition sorted_pairs :: "'f versioned_method list \<Rightarrow> ((api_version_request \<times> int) \<times> nat) list" where
  "sorted_pairs fs = sort_key (\<lambda>x. ver_key (fst (fst x))) (tagged_pairs 0 fs)"

definition starts_at :: "'f versioned_method list \<Rightarrow> nat \<Rightarrow> (api_version_request \<times> int) \<times> nat" where
  "starts_at fs i = ((vm_start (fs ! i), 1), i)"

definition ends_at :: "'f versioned_method list \<Rightarrow> nat \<Rightarrow> (api_version_request \<times> int) \<times> nat" where
  "ends_at fs i = ((vm_end (fs ! i), - 1), i)"

definition ordered :: "'f versioned_method list \<Rightarrow> bool" where
  "ordered fs \<longleftrightarrow> (\<forall>f \<in> set fs. ver_le (vm_start f) (vm_end f))"

lemma check_sorted: "check_for_versions_intersection fs \<longleftrightarrow> (\<exists>n. sum_list (map (snd \<circ> fst) (take n (sorted_pairs fs))) > 1)"
proof -
  have "sort_key (\<lambda>p. ver_key (fst p)) (interval_pairs fs) = map fst (sorted_pairs fs)"
    by (simp add: sorted_pairs_def sort_key_map_comp map_fst_tagged [of 0, symmetric])
  then show ?thesis
    by (simp add: check_for_versions_intersection_def over_one_iff take_map)
qed

lemma before_sorted_pairs: "sorted_wrt sorted_before (sorted_pairs fs)"
  using sorted_wrt_sort_key [OF sorted_tagged [of 0 fs], of "\<lambda>x. ver_key (fst (fst x))"]
  by (simp add: sorted_pairs_def sorted_before_def [abs_def])

lemma set_sorted_pairs: "set (sorted_pairs fs) = starts_at fs ` {..<length fs} \<union> ends_at fs ` {..<length fs}"
  by (auto simp: sorted_pairs_def set_tagged starts_at_def ends_at_def)

lemma before_asym: "sorted_before x y \<Longrightarrow> \<not> sorted_before y x"
  by (auto simp: sorted_before_def pair_before_def)

lemma prefix_closed:
  assumes "x \<in> set (take n (sorted_pairs fs))" and "y \<in> set (sorted_pairs fs)" and "sorted_before y x"
  shows "y \<in> set (take n (sorted_pairs fs))"
proof (rule ccontr)
  assume no: "y \<notin> set (take n (sorted_pairs fs))"
  have "sorted_wrt sorted_before (take n (sorted_pairs fs) @ drop n (sorted_pairs fs))"
    using before_sorted_pairs by simp
  moreover have "y \<in> set (drop n (sorted_pairs fs))"
    using no assms(2) by (metis Un_iff append_take_drop_id set_append)
  ultimately have "sorted_before x y" using assms(1) by (simp only: sorted_wrt_append)
  then show False using assms(3) before_asym by blast
qed

lemma before_prefix:
  assumes "x \<in> set (take n (sorted_pairs fs))" and "y \<in> set (sorted_pairs fs)" and "y \<notin> set (take n (sorted_pairs fs))"
  shows "sorted_before x y"
proof -
  have "sorted_wrt sorted_before (take n (sorted_pairs fs) @ drop n (sorted_pairs fs))"
    using before_sorted_pairs by simp
  moreover have "y \<in> set (drop n (sorted_pairs fs))"
    using assms(2,3) by (metis Un_iff append_take_drop_id set_append)
  ultimately show ?thesis using assms(1) by (simp only: sorted_wrt_append)
qed

definition open_after :: "'f versioned_method list \<Rightarrow> nat \<Rightarrow> nat set" where
  "open_after fs n = {i. i < length fs \<and> starts_at fs i \<in> set (take n (sorted_pairs fs)) \<and> ends_at fs i \<notin> set (take n (sorted_pairs fs))}"

lemma counter_open:
  assumes "ordered fs"
  shows "sum_list (map (snd \<circ> fst) (take n (sorted_pairs fs))) = int (card (open_after fs n))"
proof -
  let ?P = "set (take n (sorted_pairs fs))"
  define A B where A: "A = {i. i < length fs \<and> starts_at fs i \<in> ?P}" and B: "B = {i. i < length fs \<and> ends_at fs i \<in> ?P}"
  have fin: "finite A" "finite B" by (simp_all add: A B)
  have P: "?P = starts_at fs ` A \<union> ends_at fs ` B"
    using set_take_subset [of n "sorted_pairs fs"] unfolding set_sorted_pairs A B by blast
  have inj: "inj_on (starts_at fs) A" "inj_on (ends_at fs) B" by (auto simp: inj_on_def starts_at_def ends_at_def)
  have dist: "distinct (take n (sorted_pairs fs))"
    by (simp add: sorted_pairs_def distinct_tagged distinct_sort)
  have "sum_list (map (snd \<circ> fst) (take n (sorted_pairs fs))) = (\<Sum>x \<in> ?P. snd (fst x))"
    using sum_list_distinct_conv_sum_set [OF dist, of "snd \<circ> fst"] by simp
  also have "\<dots> = (\<Sum>x \<in> starts_at fs ` A. snd (fst x)) + (\<Sum>x \<in> ends_at fs ` B. snd (fst x))"
    unfolding P by (rule sum.union_disjoint) (use fin in \<open>auto simp: starts_at_def ends_at_def\<close>)
  also have "\<dots> = int (card A) - int (card B)"
    using sum.reindex [OF inj(1), of "\<lambda>x. snd (fst x)"] sum.reindex [OF inj(2), of "\<lambda>x. snd (fst x)"]
    by (simp add: starts_at_def ends_at_def)
  also have "\<dots> = int (card (A - B))"
  proof -
    have "B \<subseteq> A"
    proof
      fix i assume i: "i \<in> B"
      then have "ver_le (vm_start (fs ! i)) (vm_end (fs ! i))" using assms by (simp add: ordered_def B)
      then have "sorted_before (starts_at fs i) (ends_at fs i)"
        by (auto simp: sorted_before_def starts_at_def ends_at_def pair_before_def ver_le_def ver_lt_def)
      then show "i \<in> A" using i prefix_closed [of "ends_at fs i" n fs "starts_at fs i"] by (simp add: set_sorted_pairs A B)
    qed
    then show ?thesis using card_Diff_subset [OF fin(2)] card_mono [OF fin(1)] by (simp add: of_nat_diff)
  qed
  also have "A - B = open_after fs n" by (auto simp: open_after_def A B)
  finally show ?thesis .
qed

lemma two_members:
  fixes A :: "nat set"
  shows "finite A \<Longrightarrow> card A > 1 \<longleftrightarrow> (\<exists>i j. i < j \<and> i \<in> A \<and> j \<in> A)"
proof
  assume "finite A" "card A > 1"
  then have "\<not> (\<forall>i \<in> A. \<forall>j \<in> A. i = j)" using card_le_Suc0_iff_eq [of A] by simp
  then obtain i j where "i \<in> A" "j \<in> A" "i \<noteq> j" by blast
  then have "i < j \<or> j < i" by linarith
  with \<open>i \<in> A\<close> \<open>j \<in> A\<close> show "\<exists>i j. i < j \<and> i \<in> A \<and> j \<in> A" by blast
next
  assume fin: "finite A" and "\<exists>i j. i < j \<and> i \<in> A \<and> j \<in> A"
  then obtain i j where "i < j" "i \<in> A" "j \<in> A" by blast
  then have sub: "{i, j} \<subseteq> A" and "card {i, j} = 2" by auto
  with card_mono [OF fin sub] show "card A > 1" by linarith
qed

text \<open>Two methods are open together when each starts, in the sorted list, before the other ends.\<close>

lemma open_together:
  assumes "ordered fs" and ij: "i < length fs" "j < length fs"
  shows "(\<exists>n. i \<in> open_after fs n \<and> j \<in> open_after fs n) \<longleftrightarrow>
     sorted_before (starts_at fs i) (ends_at fs j) \<and> sorted_before (starts_at fs j) (ends_at fs i)"
proof
  assume "\<exists>n. i \<in> open_after fs n \<and> j \<in> open_after fs n"
  then show "sorted_before (starts_at fs i) (ends_at fs j) \<and> sorted_before (starts_at fs j) (ends_at fs i)"
    using ij by (auto simp: open_after_def set_sorted_pairs intro: before_prefix)
next
  assume before: "sorted_before (starts_at fs i) (ends_at fs j) \<and> sorted_before (starts_at fs j) (ends_at fs i)"
  have both: "\<exists>n. i \<in> open_after fs n \<and> j \<in> open_after fs n"
    if ij: "i < length fs" "j < length fs" and last: "i = j \<or> sorted_before (starts_at fs j) (starts_at fs i)"
      and ends: "sorted_before (starts_at fs i) (ends_at fs j)" for i j
  proof -
    have "starts_at fs i \<in> set (sorted_pairs fs)" using ij by (simp add: set_sorted_pairs)
    then obtain as bs where L: "sorted_pairs fs = as @ starts_at fs i # bs" by (auto simp: in_set_conv_decomp)
    let ?n = "Suc (length as)"
    have take: "set (take ?n (sorted_pairs fs)) = insert (starts_at fs i) (set as)" by (simp add: L)
    have upto: "x \<notin> set (take ?n (sorted_pairs fs))" if "sorted_before (starts_at fs i) x" for x
    proof
      assume "x \<in> set (take ?n (sorted_pairs fs))"
      then have "x = starts_at fs i \<or> sorted_before x (starts_at fs i)"
        using before_sorted_pairs [of fs] by (auto simp: take L sorted_wrt_append)
      then show False using that before_asym by blast
    qed
    have own: "sorted_before (starts_at fs i) (ends_at fs i)"
      using \<open>ordered fs\<close> ij(1) by (auto simp: ordered_def sorted_before_def starts_at_def ends_at_def pair_before_def ver_le_def ver_lt_def)
    have "starts_at fs j \<in> set (take ?n (sorted_pairs fs))"
      using last prefix_closed [of "starts_at fs i" ?n fs "starts_at fs j"] ij take by (auto simp: set_sorted_pairs)
    then have "i \<in> open_after fs ?n \<and> j \<in> open_after fs ?n"
      using upto [OF own] upto [OF ends] ij take by (simp add: open_after_def)
    then show ?thesis by blast
  qed
  have "i = j \<or> sorted_before (starts_at fs j) (starts_at fs i) \<or> sorted_before (starts_at fs i) (starts_at fs j)"
    by (auto simp: sorted_before_def pair_before_def starts_at_def)
  then show "\<exists>n. i \<in> open_after fs n \<and> j \<in> open_after fs n"
    using both [OF ij] both [OF ij(2,1)] before by blast
qed

text \<open>\<open>check_for_versions_intersection\<close>, which sorts the ends of the intervals and counts, is equivalent to
  comparing every two methods: for methods whose range is bounded and not empty it finds an intersection
  exactly when an earlier and a later one of the list share a version, not counting a version in which
  the earlier one ends and the later one starts.\<close>

lemma versions_intersection_equiv:
  assumes "\<forall>f \<in> set fs. ver_le (vm_start f) (vm_end f)"
  shows "check_for_versions_intersection fs \<longleftrightarrow> (\<exists>i j. i < j \<and> j < length fs \<and>
     ver_le (vm_start (fs ! i)) (vm_end (fs ! j)) \<and> ver_lt (vm_start (fs ! j)) (vm_end (fs ! i)))"
proof -
  have ord: "ordered fs" using assms by (simp add: ordered_def)
  have "check_for_versions_intersection fs \<longleftrightarrow> (\<exists>n. card (open_after fs n) > 1)"
    by (simp add: check_sorted counter_open [OF ord])
  also have "\<dots> \<longleftrightarrow> (\<exists>i j. i < j \<and> j < length fs \<and> (\<exists>n. i \<in> open_after fs n \<and> j \<in> open_after fs n))"
    by (subst two_members) (auto simp: open_after_def)
  also have "\<dots> \<longleftrightarrow> (\<exists>i j. i < j \<and> j < length fs \<and>
     ver_le (vm_start (fs ! i)) (vm_end (fs ! j)) \<and> ver_lt (vm_start (fs ! j)) (vm_end (fs ! i)))"
  proof -
    have "(\<exists>n. i \<in> open_after fs n \<and> j \<in> open_after fs n) \<longleftrightarrow>
      ver_le (vm_start (fs ! i)) (vm_end (fs ! j)) \<and> ver_lt (vm_start (fs ! j)) (vm_end (fs ! i))" if "i < j" "j < length fs" for i j
      using open_together [OF ord, of i j] that
      by (simp add: sorted_before_def pair_before_def starts_at_def ends_at_def ver_le_def ver_lt_def)
    then show ?thesis by metis
  qed
  finally show ?thesis .
qed

text \<open>A method without an upper bound ends at the null version, which sorts first: two of them are not seen to overlap.\<close>

lemma unbounded_intersection_missed:
  "let f = \<lparr>vm_start = \<lparr>ver_major = 1, ver_minor = 0\<rparr>, vm_end = null_version, vm_func = ()\<rparr>;
       g = \<lparr>vm_start = \<lparr>ver_major = 1, ver_minor = 1\<rparr>, vm_end = null_version, vm_func = ()\<rparr>
   in \<not> check_for_versions_intersection [f, g] \<and> matches max_api_version (vm_start f) (vm_end f) = Inr True \<and>
      matches max_api_version (vm_start g) (vm_end g) = Inr True"
  by code_simp

section \<open>The method a request is served by\<close>

definition serves :: "api_version_request \<Rightarrow> 'f versioned_method \<Rightarrow> bool" where
  "serves ver f \<longleftrightarrow> matches ver (vm_start f) (vm_end f) = Inr True"

definition newest_first :: "'f versioned_method list \<Rightarrow> bool" where
  "newest_first fs \<longleftrightarrow> sorted_wrt (\<lambda>f g. ver_key (vm_start g) \<le> ver_key (vm_start f)) fs"

lemma registered_newest_first: "register_version fs new = Inr fs' \<Longrightarrow> newest_first fs' \<and> set fs' = insert new (set fs)"
proof -
  assume "register_version fs new = Inr fs'"
  then have fs': "fs' = rev (sort_key (\<lambda>f. ver_key (vm_start f)) (rev (fs @ [new])))"
    by (simp add: register_version_def split: if_splits)
  have "sorted (map (\<lambda>f. ver_key (vm_start f)) (rev fs'))" unfolding fs' rev_rev_ident by (rule sorted_sort_key)
  then show ?thesis by (auto simp: newest_first_def fs' sorted_wrt_rev sorted_wrt_map set_insort_key)
qed

lemma matches_serves:
  "matches ver (vm_start f) (vm_end f) = (if is_null ver then Inl (Exc ValueError '''') else Inr (serves ver f))"
  by (auto simp: serves_def matches_def)

lemma version_select_find:
  "version_select ver fs = (if fs \<noteq> [] \<and> is_null ver then Inl (Exc ValueError '''')
     else case find (serves ver) fs of Some f \<Rightarrow> Inr (vm_func f)
       | None \<Rightarrow> Inl (Exc VersionNotFoundForAPIMethod (''API version API Version Request Major: '' @ show_nat (ver_major ver) @
           '', Minor: '' @ show_nat (ver_minor ver) @ '' is not supported on this method.'')))"
  by (induction fs) (simp_all add: matches_serves)

lemma find_newest:
  assumes "newest_first fs" and "find (serves ver) fs = Some f" and g: "g \<in> set fs" "serves ver g"
  shows "ver_le (vm_start g) (vm_start f)"
proof -
  obtain i where i: "i < length fs" "f = fs ! i" "\<forall>j < i. \<not> serves ver (fs ! j)"
    using assms(2) by (auto simp: find_Some_iff)
  obtain k where k: "k < length fs" "g = fs ! k" using g(1) by (auto simp: in_set_conv_nth)
  have "k \<ge> i" using i(3) g(2) k(2) by (metis not_le)
  then have "ver_key (vm_start g) \<le> ver_key (vm_start f)"
    using assms(1) i k sorted_wrt_nth_less [of _ fs i k] by (cases "k = i") (auto simp: newest_first_def)
  then show ?thesis by (auto simp: ver_le_def ver_lt_def)
qed

text \<open>The method that serves a request: in a list the decorator has built, a version that none of the methods
  covers ends in \<open>VersionNotFoundForAPIMethod\<close>, and any other is served by a method that covers it, the one
  with the latest start of those that do. A null version, which no request has, raises \<open>ValueError\<close>.\<close>

lemma version_select_spec:
  assumes built: "register_version fs new = Inr fs'"
  shows "case version_select ver fs' of
     Inl e \<Rightarrow> if is_null ver then cls_of e = ValueError
       else cls_of e = VersionNotFoundForAPIMethod \<and> (\<forall>f \<in> insert new (set fs). \<not> serves ver f)
   | Inr m \<Rightarrow> \<exists>f \<in> insert new (set fs). m = vm_func f \<and> serves ver f \<and>
       (\<forall>g \<in> insert new (set fs). serves ver g \<longrightarrow> ver_le (vm_start g) (vm_start f))"
proof -
  have newest: "newest_first fs'" and set: "set fs' = insert new (set fs)" using registered_newest_first [OF built] by simp_all
  then have "fs' \<noteq> []" by auto
  show ?thesis
  proof (cases "find (serves ver) fs'")
    case None
    moreover have "\<forall>f \<in> insert new (set fs). \<not> serves ver f" using None set by (simp add: find_None)
    ultimately show ?thesis using \<open>fs' \<noteq> []\<close> by (simp add: version_select_find)
  next
    case (Some f)
    then have "f \<in> set fs'" "serves ver f" using find_SomeD [OF Some] by auto
    moreover from this have "\<not> is_null ver" by (simp add: serves_def matches_def split: if_splits)
    ultimately show ?thesis using Some find_newest [OF newest Some] set
      by (simp add: version_select_find) blast
  qed
qed

text \<open>Whatever the header says, a request that is let through has a version the API supports.\<close>

lemma negotiated_version_supported:
  assumes "set_api_version_request hdr = Inr v"
  shows "is_supported v min_api_version max_api_version"
proof -
  have "is_supported v min_api_version max_api_version" if "matches v min_api_version max_api_version = Inr True" for v
    using that by (auto simp: matches_def is_supported_def min_api_version_def max_api_version_def is_null_def split: if_splits)
  moreover have "APIVersionRequest (Some ''1.0'') = Inr min_api_version"
    "is_supported min_api_version min_api_version max_api_version"
    "is_supported max_api_version min_api_version max_api_version" by code_simp+
  ultimately show ?thesis using assms
    by (auto simp: set_api_version_request_def split: option.splits sum.splits if_splits)
qed

section \<open>Concrete versions\<close>

definition demo_methods :: "nat versioned_method list" where
  "demo_methods = [\<lparr>vm_start = \<lparr>ver_major = 1, ver_minor = 0\<rparr>, vm_end = \<lparr>ver_major = 1, ver_minor = 1\<rparr>, vm_func = 10\<rparr>,
     \<lparr>vm_start = \<lparr>ver_major = 1, ver_minor = 1\<rparr>, vm_end = \<lparr>ver_major = 1, ver_minor = 3\<rparr>, vm_func = 13\<rparr>]"

end
