(* ===== verification/Masakari_Wsgi.thy ===== *)
theory Masakari_Wsgi
  imports Masakari_Context Masakari_ApiVersion
begin

text \<open>
  The request path of the REST API: the parameters of a request (\<open>api/openstack/common.py\<close>), the
  decorator \<open>expected_errors\<close> (\<open>api/openstack/extensions.py\<close>), and \<open>Resource\<close>, its exception handler and
  \<open>Fault\<close> (\<open>api/openstack/wsgi.py\<close>), up to \<open>FaultWrapper\<close> (\<open>api/openstack/__init__.py\<close>), the last
  middleware an exception can meet. Which action a URL names is the work of the routes package: a request
  comes with its action. No controller of the program declares an extension or a named action
  (\<open>wsgi.extends\<close>, \<open>wsgi.action\<close>), so the lists of extensions are empty.
\<close>

section \<open>Requests\<close>

text \<open>
  \<open>rq_get\<close>: the query parameters in the order they were sent. \<open>rq_body\<close>: the bytes of the body,
  empty for a content length of 0; \<open>rq_project\<close>: the project in the URL.
\<close>

record request =
  rq_verb :: string
  rq_get :: "(string \<times> string) list"
  rq_context :: api_context
  rq_version_header :: "string option"
  rq_content_type :: "string option"
  rq_body :: string
  rq_project :: "string option"

text \<open>
  What the API uses of other packages and of the configuration: the policy, \<open>str\<close> of a class,
  \<open>strutils.validate_integer\<close> with a minimum of 0 (the value, or the message of its \<open>ValueError\<close>),
  \<open>jsonutils.loads\<close>, and \<open>[DEFAULT] osapi_max_limit\<close>.
\<close>

record api_lib =
  al_policy :: policy_engine
  al_type_text :: "exc_class \<Rightarrow> string"
  al_integer :: "string \<Rightarrow> string \<Rightarrow> string + nat"
  al_loads :: "string \<Rightarrow> json option"
  al_max_limit :: nat
  al_status_text :: "nat \<Rightarrow> string option"

text \<open>\<open>d[k]\<close> on the multi-dictionary of the parameters is the last value, \<open>k in d\<close> whether there is one.\<close>

definition get_param :: "request \<Rightarrow> string \<Rightarrow> string option" where
  "get_param req name = map_of (rev (rq_get req)) name"

definition get_int_param :: "api_lib \<Rightarrow> request \<Rightarrow> string \<Rightarrow> exc + nat option" where
  "get_int_param A req param = (case get_param req param of None \<Rightarrow> Inr None
     | Some v \<Rightarrow> (case al_integer A v param of
         Inl reason \<Rightarrow> Inl (Exc (HTTPError 400) (message (mk_InvalidInput reason)))
       | Inr n \<Rightarrow> Inr (Some n)))"

record pagination =
  pg_limit :: "nat option"
  pg_page_size :: "nat option"
  pg_marker :: "string option"

definition get_pagination_params :: "api_lib \<Rightarrow> request \<Rightarrow> exc + pagination" where
  "get_pagination_params A req = (case get_int_param A req ''limit'' of Inl e \<Rightarrow> Inl e
     | Inr limit \<Rightarrow> (case get_int_param A req ''page_size'' of Inl e \<Rightarrow> Inl e
       | Inr page_size \<Rightarrow> Inr \<lparr>pg_limit = limit, pg_page_size = page_size, pg_marker = get_param req ''marker''\<rparr>))"

definition get_limit_and_marker :: "api_lib \<Rightarrow> request \<Rightarrow> exc + (nat \<times> string option)" where
  "get_limit_and_marker A req = (case get_pagination_params A req of Inl e \<Rightarrow> Inl e
     | Inr params \<Rightarrow>
         let limit = (case pg_limit params of None \<Rightarrow> al_max_limit A | Some n \<Rightarrow> n);
             limit = min (al_max_limit A) limit
         in Inr (limit, pg_marker params))"

definition all_params :: "request \<Rightarrow> string \<Rightarrow> string list" where
  "all_params req name = map snd (filter (\<lambda>p. fst p = name) (rq_get req))"

definition get_sort_params :: "request \<Rightarrow> string list \<times> string list" where
  "get_sort_params req =
     (let sort_keys = map strip (all_params req ''sort_key''); sort_dirs = map strip (all_params req ''sort_dir'')
      in (if sort_keys = [] then [''created_at''] else sort_keys, if sort_dirs = [] then [''desc''] else sort_dirs))"

text \<open>\<open>context.can\<close> as an action calls it.\<close>

definition require :: "api_lib \<Rightarrow> request \<Rightarrow> string \<Rightarrow> ('n, 'k, unit) prog" where
  "require A req action = bindM (liftE (can (al_policy A) (rq_context req) action None True)) (\<lambda>_. retM ())"

text \<open>The names of the policies, and what the database reads of a context.\<close>

definition policy_name :: "string \<Rightarrow> string \<Rightarrow> string" where
  "policy_name resource name = ''os_masakari_api:'' @ resource @ '':'' @ name"

definition db_ctx :: "request \<Rightarrow> request_context" where
  "db_ctx req = request_context.truncate (rq_context req)"

lemma wp_require: "Q () s \<Longrightarrow> (\<And>e. E e s) \<Longrightarrow> wp (require A req action) Q E s"
  by (simp add: require_def wp_simps split: sum.split)

section \<open>The errors of an action\<close>

definition unexpected_error :: "api_lib \<Rightarrow> exc \<Rightarrow> exc" where
  "unexpected_error A e = Exc (HTTPError 500)
     (''Unexpected API Error. Please report this at https://bugs.launchpad.net/masakari/ and attach the Masakari API log if possible.''
      @ [CHR 0x0A] @ al_type_text A (cls_of e))"

definition expected_errors :: "api_lib \<Rightarrow> nat list \<Rightarrow> ('n, 'k, 'a) prog \<Rightarrow> ('n, 'k, 'a) prog" where
  "expected_errors A errors f = tryM f (\<lambda>e. case cls_of e of
     HTTPError code \<Rightarrow> if code \<in> set errors then raiseM e else raiseM (unexpected_error A e)
   | _ \<Rightarrow> if isinstance e Forbidden then raiseM e
       else if isinstance e ValidationError then raiseM e
       else raiseM (unexpected_error A e))"

definition http_error :: "nat \<Rightarrow> string \<Rightarrow> ('n, 'k, 'a) prog" where
  "http_error code explanation = raiseM (Exc (HTTPError code) explanation)"

text \<open>\<open>except C as err: raise HTTPxxx(explanation=err.format_message())\<close>.\<close>

definition except_as :: "exc_class \<Rightarrow> nat \<Rightarrow> ('n, 'k, 'a) prog \<Rightarrow> ('n, 'k, 'a) prog" where
  "except_as c code m = tryM m (\<lambda>e. if isinstance e c then http_error code (message e) else raiseM e)"

text \<open>
  How an action takes the body of a request, an argument that is only there for a POST or PUT: it needs
  one, or has no such argument, or has a default. A call that does not fit raises \<open>TypeError\<close>, in the
  reach of \<open>expected_errors\<close>.
\<close>

definition needs_body :: "(json \<Rightarrow> ('n, 'k, 'a) prog) \<Rightarrow> json option \<Rightarrow> ('n, 'k, 'a) prog" where
  "needs_body f body = (case body of None \<Rightarrow> raiseM (Exc TypeError ''missing 1 required argument: body'') | Some b \<Rightarrow> f b)"

definition without_body :: "('n, 'k, 'a) prog \<Rightarrow> json option \<Rightarrow> ('n, 'k, 'a) prog" where
  "without_body f body = (case body of None \<Rightarrow> f | Some _ \<Rightarrow> raiseM (Exc TypeError ''unexpected keyword argument: body''))"

definition optional_body :: "(json \<Rightarrow> ('n, 'k, 'a) prog) \<Rightarrow> json option \<Rightarrow> ('n, 'k, 'a) prog" where
  "optional_body f body = f (case body of None \<Rightarrow> JNull | Some b \<Rightarrow> b)"

section \<open>Faults\<close>

record fault =
  f_code :: nat
  f_explanation :: string

definition fault_names :: "nat \<Rightarrow> string" where
  "fault_names code = (case map_of [(400, ''badRequest''), (401, ''unauthorized''), (403, ''forbidden''), (404, ''itemNotFound''),
     (405, ''badMethod''), (409, ''conflictingRequest''), (413, ''overLimit''), (415, ''badMediaType''), (501, ''notImplemented''),
     (503, ''serviceUnavailable''), (429, ''overLimit'')] code of None \<Rightarrow> ''masakariFault'' | Some s \<Rightarrow> s)"

definition fault_body :: "fault \<Rightarrow> json" where
  "fault_body f = JObj [(fault_names (f_code f), JObj [(''code'', JInt (int (f_code f))), (''message'', JStr (f_explanation f))])]"

text \<open>\<open>ResourceExceptionHandler\<close>: the fault an exception becomes, or the exception it raises again.\<close>

definition resource_exception :: "exc \<Rightarrow> exc + fault" where
  "resource_exception e =
     (if isinstance e Forbidden then Inr \<lparr>f_code = 403, f_explanation = message e\<rparr>
      else if isinstance e VersionNotFoundForAPIMethod then Inl e
      else if isinstance e Invalid
        then Inr \<lparr>f_code = (case http_code (cls_of e) of None \<Rightarrow> 500 | Some n \<Rightarrow> n), f_explanation = message e\<rparr>
      else if isinstance e TypeError
        then Inr \<lparr>f_code = 400, f_explanation = ''The server could not comply with the request since it is either malformed or otherwise incorrect.''\<rparr>
      else (case cls_of e of HTTPError n \<Rightarrow> Inr \<lparr>f_code = n, f_explanation = message e\<rparr> | _ \<Rightarrow> Inl e))"

section \<open>Answers\<close>

text \<open>
  An answer: the result of the action with its status, or a fault. Both carry the version the request
  was served with, when it has one.
\<close>

datatype 'a answer = Answer nat 'a "string option" | Failure fault "string option"

definition version_header :: "string \<Rightarrow> api_version_request \<Rightarrow> string option" where
  "version_header service v = (case get_string v of Inl _ \<Rightarrow> None | Inr s \<Rightarrow> Some (service @ '' '' @ s))"

primrec status :: "'a answer \<Rightarrow> nat" where
  "status (Answer code a h) = code"
| "status (Failure f h) = f_code f"

definition fault_answer :: "api_version_request \<Rightarrow> nat \<Rightarrow> string \<Rightarrow> 'a answer" where
  "fault_answer v code explanation = Failure \<lparr>f_code = code, f_explanation = explanation\<rparr> (version_header ''instance-ha'' v)"

text \<open>
  An action of a controller: its status code (\<open>wsgi.response\<close>, 200 without one) and its function of the
  request, the version it is served with and the body.
\<close>

record ('n, 'k, 'a) action =
  ac_code :: nat
  ac_run :: "api_version_request \<Rightarrow> request \<Rightarrow> json option \<Rightarrow> ('n, 'k, 'a) prog"

definition not_found_text :: string where
  "not_found_text = ''The resource could not be found.''"

text \<open>\<open>dispatch\<close>: a version no method serves is answered as if there were no such method.\<close>

definition dispatch :: "('n, 'k, 'a) prog \<Rightarrow> ('n, 'k, fault + 'a) prog" where
  "dispatch m = tryM (bindM m (\<lambda>a. retM (Inr a)))
     (\<lambda>e. if isinstance e VersionNotFoundForAPIMethod then retM (Inl \<lparr>f_code = 404, f_explanation = not_found_text\<rparr>) else raiseM e)"

definition should_have_body :: "request \<Rightarrow> bool" where
  "should_have_body req \<longleftrightarrow> rq_verb req = ''POST'' \<or> rq_verb req = ''PUT''"

text \<open>The body that is passed on, \<open>None\<close> for no argument; an error for text that is not JSON.\<close>

definition body_contents :: "api_lib \<Rightarrow> request \<Rightarrow> unit + json option" where
  "body_contents A req =
     (if should_have_body req
      then if rq_body req = '''' then Inr (Some JNull)
        else (case al_loads A (rq_body req) of None \<Rightarrow> Inl () | Some v \<Rightarrow> Inr (Some v))
      else Inr None)"

definition get_content_type :: "request \<Rightarrow> exc + string option" where
  "get_content_type req = (case rq_content_type req of None \<Rightarrow> Inr None
     | Some ct \<Rightarrow> if ct = '''' \<or> ct = ''text/plain'' then Inr None
         else if ct \<notin> {''application/json'', ''application/vnd.openstack.masakari+json''}
           then Inl (Exc InvalidContentType (''Invalid content type '' @ ct @ ''.''))
         else Inr (Some ct))"

text \<open>The name of the action is only shown: the method itself was looked up under it.\<close>

definition not_allowed :: "request \<Rightarrow> string \<Rightarrow> string" where
  "not_allowed req name = ''The request method: '' @ [CHR 0x27] @ rq_verb req @ [CHR 0x27] @ '' with action: '' @ [CHR 0x27] @
     name @ [CHR 0x27] @ '' is not allowed on this resource''"

definition other_project :: "string \<Rightarrow> string option \<Rightarrow> string" where
  "other_project p q = ''Malformed request URL: URL'' @ [CHR 0x27] @ ''s project_id '' @ [CHR 0x27] @ p @ [CHR 0x27] @
     '' doesn'' @ [CHR 0x27] @ ''t match Context'' @ [CHR 0x27] @ ''s project_id '' @ [CHR 0x27] @
     (case q of None \<Rightarrow> ''None'' | Some s \<Rightarrow> s) @ [CHR 0x27]"

definition process_stack ::
  "api_lib \<Rightarrow> string \<Rightarrow> ('n, 'k, 'a) action option \<Rightarrow> api_version_request \<Rightarrow> request \<Rightarrow> ('n, 'k, 'a answer) prog" where
  "process_stack A name act v req = (case act of
     None \<Rightarrow> retM (fault_answer v 405 (not_allowed req name))
   | Some meth \<Rightarrow> (case body_contents A req of
       Inl _ \<Rightarrow> retM (fault_answer v 400 ''Malformed request body'')
     | Inr body \<Rightarrow>
         let project_id = (case rq_project req of None \<Rightarrow> [] | Some p \<Rightarrow> p) in
         if project_id \<noteq> [] \<and> Some project_id \<noteq> cx_project_id (rq_context req)
         then retM (fault_answer v 400 (other_project project_id (cx_project_id (rq_context req))))
         else bindM (tryM (dispatch (ac_run meth v req body))
             (\<lambda>e. case resource_exception e of Inl e' \<Rightarrow> raiseM e' | Inr f \<Rightarrow> retM (Inl f))) (\<lambda>r.
           case r of Inl f \<Rightarrow> retM (fault_answer v (f_code f) (f_explanation f))
           | Inr a \<Rightarrow> retM (Answer (ac_code meth) a (version_header ''masakari'' v)))))"

text \<open>
  \<open>Resource.__call__\<close> for \<open>ResourceV1\<close>. A request keeps the version it asked for also when the
  version is not supported, and none when it cannot be read.
\<close>

definition asked_version :: "request \<Rightarrow> api_version_request" where
  "asked_version req = (case rq_version_header req of None \<Rightarrow> min_api_version
     | Some s \<Rightarrow> if s = ''latest'' then max_api_version
         else (case APIVersionRequest (Some s) of Inl _ \<Rightarrow> null_version | Inr v \<Rightarrow> v))"

definition serve :: "api_lib \<Rightarrow> string \<Rightarrow> ('n, 'k, 'a) action option \<Rightarrow> request \<Rightarrow> ('n, 'k, 'a answer) prog" where
  "serve A name act req = (case set_api_version_request (rq_version_header req) of
     Inl e \<Rightarrow>
       if isinstance e InvalidAPIVersionString then retM (fault_answer (asked_version req) 400 (message e))
       else if isinstance e InvalidGlobalAPIVersion then retM (fault_answer (asked_version req) 406 (message e))
       else raiseM e
   | Inr v \<Rightarrow> (case get_content_type req of
       Inl _ \<Rightarrow> retM (fault_answer v 415 ''Unsupported Content-Type'')
     | Inr _ \<Rightarrow> process_stack A name act v req))"

text \<open>
  \<open>FaultWrapper\<close>: an exception that gets this far is answered with its code, 500 without one.
  \<open>al_status_text\<close> of the library is the explanation of the webob class of a code, if there is one.
\<close>

definition fault_wrapper :: "api_lib \<Rightarrow> request \<Rightarrow> ('n, 'k, 'a answer) prog \<Rightarrow> ('n, 'k, 'a answer) prog" where
  "fault_wrapper A req m = tryM m (\<lambda>e.
     let status = (case http_code (cls_of e) of None \<Rightarrow> 500 | Some n \<Rightarrow> n) in
     retM (case al_status_text A status of
         Some text \<Rightarrow> fault_answer (asked_version req) status text
       | None \<Rightarrow> fault_answer (asked_version req) 500 (case al_status_text A 500 of None \<Rightarrow> [] | Some text \<Rightarrow> text)))"

section \<open>What a request is answered with\<close>

text \<open>The errors that leave an action.\<close>

definition declared :: "nat list \<Rightarrow> exc \<Rightarrow> bool" where
  "declared errors e \<longleftrightarrow> (case cls_of e of HTTPError n \<Rightarrow> n \<in> set errors \<or> n = 500
     | _ \<Rightarrow> isinstance e Forbidden \<or> isinstance e ValidationError)"

lemma declared_unexpected: "declared errors (unexpected_error A e)"
  by (simp add: declared_def unexpected_error_def)

lemma escapes_expected_errors [escapes_intros]: "escapes (declared errors) (expected_errors A errors f)"
  unfolding expected_errors_def
proof (rule escapes_tryM [OF escapes_top])
  fix e
  show "escapes (declared errors) (case cls_of e of
     HTTPError code \<Rightarrow> if code \<in> set errors then raiseM e else raiseM (unexpected_error A e)
   | _ \<Rightarrow> if isinstance e Forbidden then raiseM e else if isinstance e ValidationError then raiseM e
       else raiseM (unexpected_error A e))"
  proof (cases "cls_of e")
    case (HTTPError n)
    then show ?thesis by (auto intro!: escapes_intros declared_unexpected simp: declared_def)
  qed (auto intro!: escapes_intros declared_unexpected simp: declared_def)
qed

lemma declared_fault:
  assumes "declared errors e"
  obtains f where "resource_exception e = Inr f" and "f_code f \<in> set errors \<union> {400, 403, 500}" and "\<not> isinstance e VersionNotFoundForAPIMethod"
proof (cases "cls_of e")
  case (HTTPError n)
  with assms that show ?thesis
    by (auto simp: declared_def resource_exception_def isinstance_simps)
qed (use assms that in \<open>auto simp: declared_def resource_exception_def isinstance_simps http_code_def\<close>)

lemma parsed_not_null: "APIVersionRequest (Some s) = Inr v \<Longrightarrow> \<not> is_null v"
  using show_number_value by (auto simp: APIVersionRequest_def Let_def is_null_def split: if_splits)

lemma set_api_version_request_errors:
  assumes "set_api_version_request hdr = Inl e"
  shows "isinstance e InvalidAPIVersionString \<or> isinstance e InvalidGlobalAPIVersion"
proof -
  have parse: "isinstance e InvalidAPIVersionString" if "APIVersionRequest (Some s) = Inl e" for s e
    using that by (auto simp: APIVersionRequest_def Let_def mk_InvalidAPIVersionString_def isinstance_def split: if_splits)
  show ?thesis
  proof (cases hdr)
    case None
    then show ?thesis using assms parse by (simp add: set_api_version_request_def)
  next
    case (Some s)
    show ?thesis
    proof (cases "APIVersionRequest (Some s)")
      case (Inl e')
      then show ?thesis using assms parse Some by (auto simp: set_api_version_request_def split: if_splits)
    next
      case (Inr v)
      then show ?thesis using assms Some parsed_not_null [OF Inr]
        by (auto simp: set_api_version_request_def matches_def get_string_def isinstance_def split: if_splits)
    qed
  qed
qed

lemma wp_answered:
  assumes "escapes (declared errors) m"
    and "\<And>f h t. f_code f \<in> set errors \<union> {400, 403, 500} \<Longrightarrow> Q (Failure f h) t" and "\<And>a h t. Q (Answer code a h) t"
  shows "wp (bindM (tryM (dispatch m) (\<lambda>e. case resource_exception e of Inl e' \<Rightarrow> raiseM e' | Inr f \<Rightarrow> retM (Inl f))) (\<lambda>r.
           case r of Inl f \<Rightarrow> retM (fault_answer v (f_code f) (f_explanation f))
           | Inr a \<Rightarrow> retM (Answer code a h))) Q E w"
proof (cases "m w")
  case (Pair r t)
  show ?thesis
  proof (cases r)
    case (Inl e)
    then have "declared errors e" using escapesD [OF assms(1)] Pair by blast
    from declared_fault [OF this] obtain f where "resource_exception e = Inr f" "f_code f \<in> set errors \<union> {400, 403, 500}"
      "\<not> isinstance e VersionNotFoundForAPIMethod" by blast
    then show ?thesis using Pair Inl assms(2) by (simp add: wp_def dispatch_def comp_defs fault_answer_def)
  next
    case (Inr a)
    then show ?thesis using Pair assms(3) by (simp add: wp_def dispatch_def comp_defs)
  qed
qed

text \<open>Whatever an action does, a request is answered: with its result, or with a fault it declares, one of the
  codes of the request path, 403 or 500. No exception leaves the resource.\<close>

lemma serve_answered:
  assumes "\<And>meth v r b. act = Some meth \<Longrightarrow> \<exists>f. ac_run meth v r b = expected_errors A errors f"
  shows "wp (serve A name act req)
     (\<lambda>ans _. case ans of Answer code a h \<Rightarrow> \<exists>meth. act = Some meth \<and> code = ac_code meth
        | Failure f h \<Rightarrow> f_code f \<in> set errors \<union> {400, 403, 405, 406, 415, 500})
     (\<lambda>_ _. False) w" (is "wp _ ?Q _ w")
proof -
  have stack: "wp (process_stack A name act v req) ?Q (\<lambda>_ _. False) w" for v
  proof (cases act)
    case None
    then show ?thesis by (simp add: process_stack_def wp_simps fault_answer_def)
  next
    case (Some meth)
    have "escapes (declared errors) (ac_run meth v req b)" for b
      using assms [OF Some, of v req b] escapes_expected_errors by force
    from wp_answered [OF this, where Q = ?Q and code = "ac_code meth" and E = "\<lambda>_ _. False" and w = w] Some
    show ?thesis unfolding process_stack_def Let_def
      by (auto simp: wp_retM fault_answer_def split: sum.split option.split)
  qed
  show ?thesis
  proof (cases "set_api_version_request (rq_version_header req)")
    case (Inl e)
    then show ?thesis using set_api_version_request_errors [OF Inl]
      by (auto simp: serve_def wp_retM fault_answer_def)
  next
    case (Inr v)
    then show ?thesis using stack by (auto simp: serve_def wp_retM fault_answer_def split: sum.split)
  qed
qed

section \<open>A concrete request\<close>

definition demo_api_context :: api_context where
  "demo_api_context = \<lparr>read_deleted = ''no'', cx_user_id = Some ''u1'', cx_project_id = Some ''p1'', cx_is_admin = Some True,
     cx_roles = [''admin''], cx_remote_address = None, cx_timestamp = 0, cx_request_id = None, cx_auth_token = None,
     cx_user_name = None, cx_project_name = None, cx_service_catalog = []\<rparr>"

definition demo_api :: api_lib where
  "demo_api = \<lparr>al_policy = demo_policy, al_type_text = (\<lambda>_. ''class''), al_integer = (\<lambda>s name. case unsigned s of
       None \<Rightarrow> Inl (name @ '' must be an integer'') | Some n \<Rightarrow> Inr n), al_loads = (\<lambda>_. Some (JObj [])), al_max_limit = 1000,
     al_status_text = (\<lambda>_. None)\<rparr>"

definition demo_get :: "(string \<times> string) list \<Rightarrow> request" where
  "demo_get params = \<lparr>rq_verb = ''GET'', rq_get = params, rq_context = demo_api_context, rq_version_header = Some ''1.2'',
     rq_content_type = None, rq_body = [], rq_project = Some ''p1''\<rparr>"

section \<open>Requests that reach their action\<close>

text \<open>
  The request asks for a version the API serves, has a content type it reads and no project in the URL
  but that of its context.
\<close>

definition accepted :: "request \<Rightarrow> api_version_request \<Rightarrow> bool" where
  "accepted req v \<longleftrightarrow> set_api_version_request (rq_version_header req) = Inr v \<and> (\<exists>ct. get_content_type req = Inr ct) \<and>
     (case rq_project req of None \<Rightarrow> True | Some p \<Rightarrow> p = [] \<or> Some p = cx_project_id (rq_context req))"

definition permitted :: "api_lib \<Rightarrow> request \<Rightarrow> string \<Rightarrow> bool" where
  "permitted A req policy \<longleftrightarrow> (\<exists>b. can (al_policy A) (rq_context req) policy None True = Inr b)"

lemma require_permitted: "permitted A req policy \<Longrightarrow> bindM (require A req policy) f = f ()"
  by (auto simp: permitted_def require_def comp_defs liftE_def)

lemma serve_accepted:
  assumes "accepted req v" and "body_contents A req = Inr b"
  shows "serve A name (Some meth) req = bindM (tryM (dispatch (ac_run meth v req b))
      (\<lambda>e. case resource_exception e of Inl e' \<Rightarrow> raiseM e' | Inr f \<Rightarrow> retM (Inl f)))
      (\<lambda>r. case r of Inl f \<Rightarrow> retM (fault_answer v (f_code f) (f_explanation f))
         | Inr a \<Rightarrow> retM (Answer (ac_code meth) a (version_header ''masakari'' v)))"
  using assms by (auto simp: accepted_def serve_def process_stack_def Let_def split: option.splits)

lemma serve_result:
  assumes "accepted req v" and "body_contents A req = Inr b" and "ac_run meth v req b w = (Inr a, w')"
  shows "serve A name (Some meth) req w = (Inr (Answer (ac_code meth) a (version_header ''masakari'' v)), w')"
  using assms(3) by (simp add: serve_accepted [OF assms(1,2)] dispatch_def comp_defs)

lemma serve_http_error:
  assumes "accepted req v" and "body_contents A req = Inr b" and "ac_run meth v req b w = (Inl (Exc (HTTPError n) m), w')"
  shows "serve A name (Some meth) req w = (Inr (fault_answer v n m), w')"
  using assms(3) by (simp add: serve_accepted [OF assms(1,2)] dispatch_def comp_defs resource_exception_def isinstance_simps)

lemma wp_expected_any: "wp f Q (\<lambda>_. E) s \<Longrightarrow> wp (expected_errors A errors f) Q (\<lambda>_. E) s"
  unfolding expected_errors_def wp_tryM
  by (erule wp_mono) (auto simp: wp_raiseM split: exc_class.split)

lemma expected_errors_result: "f w = (Inr a, w') \<Longrightarrow> expected_errors A errors f w = (Inr a, w')"
  by (simp add: expected_errors_def tryM_def)

lemma expected_errors_declared:
  "f w = (Inl (Exc (HTTPError n) m), w') \<Longrightarrow> n \<in> set errors \<Longrightarrow> expected_errors A errors f w = (Inl (Exc (HTTPError n) m), w')"
  by (simp add: expected_errors_def tryM_def comp_defs)

lemma version_bounds [simp]:
  "\<not> is_null min_api_version" "\<not> is_null max_api_version" "ver_le min_api_version min_api_version"
  "ver_le max_api_version max_api_version" "ver_le min_api_version max_api_version"
  "APIVersionRequest (Some ''1.0'') = Inr min_api_version"
  by code_simp+

lemma accepted_version:
  assumes "accepted req v"
  shows "\<not> is_null v" and "ver_le min_api_version v" and "ver_le v max_api_version"
proof -
  have set: "set_api_version_request (rq_version_header req) = Inr v" using assms by (simp add: accepted_def)
  have "\<not> is_null v \<and> ver_le min_api_version v \<and> ver_le v max_api_version"
  proof (cases "rq_version_header req")
    case None
    with set have "v = min_api_version" by (simp add: set_api_version_request_def)
    then show ?thesis by simp
  next
    case (Some s)
    show ?thesis
    proof (cases "s = ''latest''")
      case True
      with Some set have "v = max_api_version" by (simp add: set_api_version_request_def)
      then show ?thesis by simp
    next
      case False
      with Some set show ?thesis
        by (auto simp: set_api_version_request_def matches_def split: sum.splits if_splits)
    qed
  qed
  then show "\<not> is_null v" and "ver_le min_api_version v" and "ver_le v max_api_version" by simp_all
qed

end
