(* ===== verification/Masakari_AdminConfig.thy ===== *)
theory Masakari_AdminConfig
  imports Masakari_Wsgi
begin

text \<open>
  \<open>api/openstack/ha/admin_config.py\<close>: the administrator's view of the options of staged recovery, drafts
  of changes to them, and the application of a draft, which writes the one option that can change at run
  time into etcd. The options are those of \<open>conf/staged_recovery.py\<close>. A JSON column holds the value that
  was dumped, with the keys of its objects sorted (\<open>sort_keys\<close>).
\<close>

section \<open>Options\<close>

datatype opt_kind = BoolOpt | StrOpt | IntOpt

record opt =
  op_kind :: opt_kind
  op_name :: string
  op_default :: json
  op_choices :: "string list"
  op_min :: "int option"
  op_help :: string

definition staged_recovery_opts :: "opt list" where
  "staged_recovery_opts =
    [\<lparr>op_kind = BoolOpt, op_name = ''enabled'', op_default = JBool False, op_choices = [], op_min = None,
       op_help = ''Enable staged VM start workflow for host failure recovery.''\<rparr>,
     \<lparr>op_kind = StrOpt, op_name = ''state_backend'', op_default = JStr ''etcd'', op_choices = [''etcd''], op_min = None,
       op_help = ''Persistent state backend for staged recovery.''\<rparr>,
     \<lparr>op_kind = StrOpt, op_name = ''etcd_backend_url'', op_default = JNull, op_choices = [], op_min = None,
       op_help = ''etcd3 gateway URL for staged recovery state. If empty, reuse [coordination] backend_url when it uses etcd3+http(s).''\<rparr>,
     \<lparr>op_kind = StrOpt, op_name = ''etcd_prefix'', op_default = JStr ''/masakari/staged-recovery/v1'', op_choices = [], op_min = None,
       op_help = ''Key prefix for staged recovery state in etcd.''\<rparr>,
     \<lparr>op_kind = IntOpt, op_name = ''etcd_timeout'', op_default = JInt 5, op_choices = [], op_min = Some 1,
       op_help = ''Timeout in seconds for etcd KV requests.''\<rparr>,
     \<lparr>op_kind = StrOpt, op_name = ''etcd_ca_cert'', op_default = JNull, op_choices = [], op_min = None,
       op_help = ''CA certificate for direct etcd KV client.''\<rparr>,
     \<lparr>op_kind = StrOpt, op_name = ''etcd_cert_file'', op_default = JNull, op_choices = [], op_min = None,
       op_help = ''Client certificate for direct etcd KV client.''\<rparr>,
     \<lparr>op_kind = StrOpt, op_name = ''etcd_key_file'', op_default = JNull, op_choices = [], op_min = None,
       op_help = ''Client private key for direct etcd KV client.''\<rparr>,
     \<lparr>op_kind = IntOpt, op_name = ''max_parallel_starts_per_host'', op_default = JInt 2, op_choices = [], op_min = Some 1,
       op_help = ''Maximum number of simultaneously starting VMs per destination host.''\<rparr>,
     \<lparr>op_kind = IntOpt, op_name = ''start_timeout'', op_default = JInt 900, op_choices = [], op_min = Some 60,
       op_help = ''Maximum time to wait until instance becomes ACTIVE.''\<rparr>,
     \<lparr>op_kind = IntOpt, op_name = ''batch_delay'', op_default = JInt 30, op_choices = [], op_min = Some 0,
       op_help = ''Additional delay after VM becomes ACTIVE before releasing slot.''\<rparr>,
     \<lparr>op_kind = IntOpt, op_name = ''slot_lease_ttl'', op_default = JInt 990, op_choices = [], op_min = Some 60,
       op_help = ''TTL for per-host start slot lease. It should cover start_timeout plus batch_delay and a safety margin.''\<rparr>,
     \<lparr>op_kind = IntOpt, op_name = ''slot_retry_interval'', op_default = JInt 5, op_choices = [], op_min = Some 1,
       op_help = ''Delay between attempts to acquire a start slot.''\<rparr>,
     \<lparr>op_kind = StrOpt, op_name = ''nova_evacuate_microversion'', op_default = JStr ''2.95'', op_choices = [], op_min = None,
       op_help = ''Nova microversion used for evacuate-to-stopped.''\<rparr>,
     \<lparr>op_kind = BoolOpt, op_name = ''start_only_originally_active'', op_default = JBool True, op_choices = [], op_min = None,
       op_help = ''Only start instances whose original vm_state was active.''\<rparr>,
     \<lparr>op_kind = IntOpt, op_name = ''reconcile_interval'', op_default = JInt 60, op_choices = [], op_min = Some 10,
       op_help = ''Periodic interval for stale staged recovery reconciliation.''\<rparr>,
     \<lparr>op_kind = IntOpt, op_name = ''stale_recovery_timeout'', op_default = JInt 300, op_choices = [], op_min = Some 60,
       op_help = ''Recovery is stale if updated_at is older than this timeout.''\<rparr>]"

text \<open>
  What the extension uses of other code: the libraries of the database and of the API, the values of the
  group in the configuration, and the store of run time options, or the error its construction raises.
  \<open>ce_min\<close> and \<open>ce_choices\<close>: the attributes \<open>min\<close> and \<open>choices\<close> an option object of oslo.config shows,
  which need not be the arguments it was made with.
\<close>

record 'k config_env =
  ce_lib :: lib
  ce_api :: api_lib
  ce_value :: "string \<Rightarrow> json option"
  ce_min :: "opt \<Rightarrow> int option"
  ce_choices :: "opt \<Rightarrow> string list"
  ce_store :: "exc + 'k staged_store"

definition option_type :: "opt \<Rightarrow> string" where
  "option_type o' = (case op_kind o' of BoolOpt \<Rightarrow> ''bool'' | IntOpt \<Rightarrow> ''int'' | StrOpt \<Rightarrow> ''string'')"

definition contains :: "string \<Rightarrow> string \<Rightarrow> bool" where
  "contains part s \<longleftrightarrow> list_ex (\<lambda>n. take (length part) (drop n s) = part) [0..<Suc (length s)]"

definition is_secret_name :: "string \<Rightarrow> bool" where
  "is_secret_name name \<longleftrightarrow> list_ex (\<lambda>part. contains part name) [''password'', ''secret'', ''token'', ''key'']"

definition masked :: "json \<Rightarrow> json" where
  "masked value = JObj [(''masked'', JBool True), (''configured'', JBool (value \<noteq> JNull \<and> value \<noteq> JStr []))]"

definition runtime_mutable :: "string list" where
  "runtime_mutable = [''max_parallel_starts_per_host'']"

definition find_opt :: "string \<Rightarrow> opt option" where
  "find_opt name = find (\<lambda>o'. op_name o' = name) staged_recovery_opts"

definition jdumps :: "json \<Rightarrow> json" where
  "jdumps v = sort_keys v"

text \<open>\<open>value or default\<close>, and \<open>(body or {}).get(name) or {}\<close>, which has to be an object.\<close>

definition or_else :: "json \<Rightarrow> json \<Rightarrow> json" where
  "or_else v d = (if falsy v then d else v)"

definition section_of_body :: "string \<Rightarrow> string \<Rightarrow> json \<Rightarrow> exc + json dict" where
  "section_of_body name msg body = (case or_else body (JObj []) of
     JObj d \<Rightarrow> (case or_else (dget d name) (JObj []) of
         JObj s \<Rightarrow> Inr s | _ \<Rightarrow> Inl (Exc (HTTPError 400) msg))
   | _ \<Rightarrow> Inl (Exc OtherException ''object has no attribute get''))"

definition draft_from_body :: "json \<Rightarrow> exc + json dict" where
  "draft_from_body body = section_of_body ''draft'' ''Draft must be an object.'' body"

definition apply_from_body :: "json \<Rightarrow> exc + json dict" where
  "apply_from_body body = section_of_body ''apply'' ''Apply must be an object.'' body"

definition changes_of :: "json dict \<Rightarrow> json" where
  "changes_of d = (case map_of d ''changes'' of Some v \<Rightarrow> v
     | None \<Rightarrow> (case map_of d ''values'' of Some v \<Rightarrow> v | None \<Rightarrow> JObj []))"

section \<open>Changes\<close>

text \<open>
  One item of \<open>_iter_change_items\<close>: an error, or a change of an option. \<open>Change f g n v\<close> has the file,
  \<open>JNull\<close> without one, the group, the option and the value.
\<close>

datatype change_item = Malformed json | Change json json json json

definition malformed_at :: "nat \<Rightarrow> string \<Rightarrow> change_item" where
  "malformed_at i msg = Malformed (JObj [(''code'', JStr ''invalid_change''), (''index'', JInt (int i)), (''message'', JStr msg)])"

definition group_items :: "string \<times> json \<Rightarrow> change_item list" where
  "group_items p = (case snd p of
     JObj d \<Rightarrow> map (\<lambda>(name, value). Change JNull (JStr (fst p)) (JStr name) value) d
   | _ \<Rightarrow> [Malformed (JObj [(''code'', JStr ''invalid_group_value''), (''group'', JStr (fst p)),
       (''message'', JStr ''Group changes must be an object.'')])])"

definition list_item :: "nat \<times> json \<Rightarrow> change_item" where
  "list_item p = (case snd p of
     JObj d \<Rightarrow>
       if falsy (dget d ''group'') \<or> falsy (dget d ''option'')
       then malformed_at (fst p) ''Change must include group and option.''
       else Change (dget d ''file'') (dget d ''group'') (dget d ''option'') (dget d ''value'')
   | _ \<Rightarrow> malformed_at (fst p) ''Change must be an object.'')"

definition iter_change_items :: "json \<Rightarrow> change_item list" where
  "iter_change_items changes = (case changes of
     JObj d \<Rightarrow> concat (map group_items d)
   | JList xs \<Rightarrow> map list_item (enumerate 0 xs)
   | _ \<Rightarrow> [Malformed (JObj [(''code'', JStr ''invalid_changes''),
       (''message'', JStr ''Draft changes must be an object or a list.'')])])"

text \<open>Looking a value up in a set or dictionary needs a hash, which lists and objects do not have.\<close>

definition in_strings :: "json \<Rightarrow> string list \<Rightarrow> exc + bool" where
  "in_strings v names = (case v of
     JList _ \<Rightarrow> Inl (Exc TypeError ''unhashable type: list'')
   | JObj _ \<Rightarrow> Inl (Exc TypeError ''unhashable type: dict'')
   | JStr s \<Rightarrow> Inr (s \<in> set names)
   | _ \<Rightarrow> Inr False)"

definition opt_of :: "json \<Rightarrow> exc + opt option" where
  "opt_of v = (case v of
     JList _ \<Rightarrow> Inl (Exc TypeError ''unhashable type: list'')
   | JObj _ \<Rightarrow> Inl (Exc TypeError ''unhashable type: dict'')
   | JStr s \<Rightarrow> Inr (find_opt s)
   | _ \<Rightarrow> Inr None)"

definition about :: "string \<Rightarrow> json \<Rightarrow> json \<Rightarrow> string \<Rightarrow> json" where
  "about code grp option msg = JObj [(''code'', JStr code), (''group'', grp), (''option'', option), (''message'', JStr msg)]"

definition show_int :: "int \<Rightarrow> string" where
  "show_int i = (if i < 0 then ''-'' @ show_nat (nat (- i)) else show_nat (nat i))"

definition show_choices :: "string list \<Rightarrow> string" where
  "show_choices cs = ''['' @ concat (map (\<lambda>p. (if fst p = 0 then [] else '', '') @ [CHR 0x27] @ snd p @ [CHR 0x27]) (enumerate 0 cs)) @ '']''"

text \<open>The checks of one value, in the order of the code; a value that is no string is in no list of choices.\<close>

definition validate_option_value :: "'k config_env \<Rightarrow> json \<Rightarrow> opt \<Rightarrow> json \<Rightarrow> json option" where
  "validate_option_value V grp o' value =
     (let bad = (\<lambda>code msg. Some (about code grp (JStr (op_name o')) msg)) in
      if op_kind o' = BoolOpt \<and> (case value of JBool _ \<Rightarrow> False | _ \<Rightarrow> True) then bad ''invalid_type'' ''Value must be a boolean.''
      else if op_kind o' = IntOpt \<and> (case value of JInt i \<Rightarrow> False | _ \<Rightarrow> True) then bad ''invalid_type'' ''Value must be an integer.''
      else if op_kind o' = IntOpt \<and> (case (value, ce_min V o') of (JInt i, Some m) \<Rightarrow> i < m | _ \<Rightarrow> False)
        then bad ''below_minimum'' (''Value must be greater than or equal to '' @ show_int (the (ce_min V o')) @ ''.'')
      else if op_kind o' = StrOpt \<and> (case value of JStr s \<Rightarrow> False | JNull \<Rightarrow> False | _ \<Rightarrow> True)
        then bad ''invalid_type'' ''Value must be a string.''
      else if ce_choices V o' \<noteq> [] \<and> (case value of JStr s \<Rightarrow> s \<notin> set (ce_choices V o') | _ \<Rightarrow> True)
        then bad ''invalid_choice'' (''Value must be one of '' @ show_choices (ce_choices V o') @ ''.'')
      else None)"

section \<open>Validation, differences and plans\<close>

datatype verdict = Rejected json | Warned json | Fine

fun check_change :: "'k config_env \<Rightarrow> change_item \<Rightarrow> exc + verdict" where
  "check_change V (Malformed e) = Inr (Rejected e)"
| "check_change V (Change f grp option value) = (case in_strings grp [''staged_recovery''] of Inl e \<Rightarrow> Inl e
     | Inr known \<Rightarrow>
         if \<not> known
         then Inr (Rejected (JObj [(''code'', JStr ''unknown_group''), (''group'', grp), (''message'', JStr ''Unsupported config group.'')]))
         else (case opt_of option of Inl e \<Rightarrow> Inl e
           | Inr None \<Rightarrow> Inr (Rejected (about ''unknown_option'' grp option ''Unsupported config option.''))
           | Inr (Some o') \<Rightarrow> (case validate_option_value V grp o' value of
               Some error \<Rightarrow> Inr (Rejected error)
             | None \<Rightarrow> if op_name o' \<notin> set runtime_mutable
                 then Inr (Warned (about ''reconfigure_required'' grp option ''Changing this option requires deploy backend reconfiguration.''))
                 else Inr Fine)))"

record validation =
  va_errors :: "json list"
  va_warnings :: "json list"

definition va_status :: "validation \<Rightarrow> string" where
  "va_status v = (if va_errors v \<noteq> [] then ''invalid'' else ''valid'')"

definition validation_json :: "validation \<Rightarrow> json" where
  "validation_json v = JObj [(''status'', JStr (va_status v)), (''errors'', JList (va_errors v)), (''warnings'', JList (va_warnings v))]"

definition validate_changes :: "'k config_env \<Rightarrow> json \<Rightarrow> exc + validation" where
  "validate_changes V changes = (case mapE (check_change V) (iter_change_items changes) of Inl e \<Rightarrow> Inl e
     | Inr vs \<Rightarrow> Inr \<lparr>va_errors = concat (map (\<lambda>v. case v of Rejected e \<Rightarrow> [e] | _ \<Rightarrow> []) vs),
         va_warnings = concat (map (\<lambda>v. case v of Warned x \<Rightarrow> [x] | _ \<Rightarrow> []) vs)\<rparr>)"

definition effective_value :: "'k config_env \<Rightarrow> string \<Rightarrow> json" where
  "effective_value V name = (case ce_value V name of None \<Rightarrow> JNull | Some v \<Rightarrow> v)"

definition public_value :: "string \<Rightarrow> json \<Rightarrow> json" where
  "public_value name value = (if is_secret_name name then masked value else value)"

text \<open>Values of the configuration are compared with \<open>==\<close>, for which \<open>True\<close> is 1 and \<open>False\<close> is 0.\<close>

definition py_number :: "json \<Rightarrow> int option" where
  "py_number v = (case v of JInt i \<Rightarrow> Some i | JBool b \<Rightarrow> Some (of_bool b) | _ \<Rightarrow> None)"

definition scalar_eq :: "json \<Rightarrow> json \<Rightarrow> bool" where
  "scalar_eq a b = (case (py_number a, py_number b) of (Some i, Some j) \<Rightarrow> i = j | (None, None) \<Rightarrow> a = b | _ \<Rightarrow> False)"

definition with_file :: "json \<Rightarrow> json dict \<Rightarrow> json" where
  "with_file f d = JObj (if falsy f then d else d @ [(''file'', f)])"

definition unsupported :: "string \<Rightarrow> json \<Rightarrow> json \<Rightarrow> json" where
  "unsupported code grp option = JObj [(''group'', grp), (''option'', option), (''valid'', JBool False),
     (''error'', JObj [(''code'', JStr code), (''message'', JStr ''Unsupported config change.'')])]"

fun diff_item :: "'k config_env \<Rightarrow> change_item \<Rightarrow> exc + json" where
  "diff_item V (Malformed e) = Inr (JObj [(''valid'', JBool False), (''error'', e)])"
| "diff_item V (Change f grp option proposed) = (case in_strings grp [''staged_recovery''] of Inl e \<Rightarrow> Inl e
     | Inr known \<Rightarrow>
         if \<not> known then Inr (unsupported ''unknown_group'' grp option)
         else (case opt_of option of Inl e \<Rightarrow> Inl e
           | Inr None \<Rightarrow> Inr (unsupported ''unknown_option'' grp option)
           | Inr (Some o') \<Rightarrow>
               let current = effective_value V (op_name o') in
               Inr (with_file f [(''group'', grp), (''option'', option), (''current'', public_value (op_name o') current),
                 (''proposed'', public_value (op_name o') proposed), (''changed'', JBool (\<not> scalar_eq current proposed)),
                 (''valid'', JBool True)])))"

definition build_diff :: "'k config_env \<Rightarrow> json \<Rightarrow> exc + json" where
  "build_diff V changes = (case mapE (diff_item V) (iter_change_items changes) of Inl e \<Rightarrow> Inl e
     | Inr diff \<Rightarrow> Inr (JObj [(''changes'', JList diff)]))"

record step =
  st_group :: json
  st_option :: json
  st_action :: string
  st_file :: json

record plan =
  pl_status :: string
  pl_steps :: "step list"
  pl_errors :: "json list option"
  pl_apply_supported :: bool

definition step_json :: "step \<Rightarrow> json" where
  "step_json s = with_file (st_file s) [(''group'', st_group s), (''option'', st_option s), (''action'', JStr (st_action s))]"

definition plan_json :: "plan \<Rightarrow> json" where
  "plan_json p = JObj ([(''status'', JStr (pl_status p)), (''steps'', JList (map step_json (pl_steps p)))] @
     (case pl_errors p of None \<Rightarrow> [] | Some es \<Rightarrow> [(''errors'', JList es)]) @ [(''apply_supported'', JBool (pl_apply_supported p))])"

text \<open>A step of a plan is only built for changes that passed the validation, so each is a \<open>Change\<close>.\<close>

definition runtime_option :: "json \<Rightarrow> json \<Rightarrow> bool" where
  "runtime_option grp option \<longleftrightarrow> grp = JStr ''staged_recovery'' \<and> (case option of JStr s \<Rightarrow> s \<in> set runtime_mutable | _ \<Rightarrow> False)"

fun plan_step :: "change_item \<Rightarrow> exc + step" where
  "plan_step (Malformed e) = Inl (Exc KeyError ''group'')"
| "plan_step (Change f grp option value) = Inr \<lparr>st_group = grp, st_option = option,
     st_action = (if runtime_option grp option then ''runtime_update'' else ''reconfigure_required''), st_file = f\<rparr>"

definition build_plan :: "'k config_env \<Rightarrow> json \<Rightarrow> exc + plan" where
  "build_plan V changes = (case validate_changes V changes of Inl e \<Rightarrow> Inl e
     | Inr validation \<Rightarrow>
         if va_errors validation \<noteq> []
         then Inr \<lparr>pl_status = ''invalid'', pl_steps = [], pl_errors = Some (va_errors validation), pl_apply_supported = False\<rparr>
         else (case mapE plan_step (iter_change_items changes) of Inl e \<Rightarrow> Inl e
           | Inr steps \<Rightarrow>
               let runtime_only = steps \<noteq> [] \<and> list_all (\<lambda>s. st_action s = ''runtime_update'') steps in
               Inr \<lparr>pl_status = ''planned'', pl_steps = steps, pl_errors = None, pl_apply_supported = runtime_only\<rparr>))"

definition runtime_apply_supported :: "plan \<Rightarrow> bool" where
  "runtime_apply_supported p \<longleftrightarrow> pl_status p = ''planned'' \<and> pl_steps p \<noteq> [] \<and>
     list_all (\<lambda>s. st_action s = ''runtime_update'') (pl_steps p)"

section \<open>Showing options\<close>

definition schema_item :: "'k config_env \<Rightarrow> opt \<Rightarrow> json" where
  "schema_item V o' =
     (let mutable = op_name o' \<in> set runtime_mutable in
      JObj ([(''name'', JStr (op_name o')), (''type'', JStr (option_type o')), (''default'', op_default o'),
        (''mutable'', JBool mutable), (''deploy_stage'', JStr (if mutable then ''runtime'' else ''reconfigure'')),
        (''secret'', JBool (is_secret_name (op_name o'))), (''help'', JStr (op_help o'))] @
        (if ce_choices V o' \<noteq> [] then [(''choices'', JList (map JStr (ce_choices V o')))] else []) @
        (case ce_min V o' of None \<Rightarrow> [] | Some m \<Rightarrow> [(''minimum'', JInt m)])))"

definition staged_recovery_schema :: "'k config_env \<Rightarrow> json" where
  "staged_recovery_schema V = JObj [(''name'', JStr ''staged_recovery''), (''options'', JList (map (schema_item V) staged_recovery_opts))]"

text \<open>The limit comes from etcd, or from the configuration when etcd has no value or cannot be asked.\<close>

definition effective_limit :: "'k config_env \<Rightarrow> json \<Rightarrow> ('n, 'k, json) prog" where
  "effective_limit V value = bindM
     (tryM (bindM (liftE (ce_store V)) (\<lambda>S. bindM (get_max_parallel_starts_per_host_with_source S value)
         (\<lambda>(limit, source). retM (JInt limit, source))))
       (\<lambda>e. if isinstance e MasakariException then retM (value, ''config'') else raiseM e))
     (\<lambda>(limit, source). retM (JObj [(''value'', limit), (''source'', JStr source)]))"

primrec effective_items :: "'k config_env \<Rightarrow> opt list \<Rightarrow> ('n, 'k, json dict) prog" where
  "effective_items V [] = retM []"
| "effective_items V (o' # os) =
     (let value = effective_value V (op_name o') in
      bindM (if op_name o' = ''max_parallel_starts_per_host'' then effective_limit V value
             else retM (public_value (op_name o') value)) (\<lambda>v.
      bindM (effective_items V os) (\<lambda>rest. retM ((op_name o', v) # rest))))"

definition staged_recovery_effective :: "'k config_env \<Rightarrow> ('n, 'k, json) prog" where
  "staged_recovery_effective V = bindM (effective_items V staged_recovery_opts) (\<lambda>d. retM (JObj d))"

definition not_found :: "exc" where
  "not_found = Exc (HTTPError 404) not_found_text"

definition config_show :: "'k config_env \<Rightarrow> string \<Rightarrow> request \<Rightarrow> ('n, 'k, json) prog" where
  "config_show V i req = expected_errors (ce_api V) [403, 404]
     (if i = ''schema''
      then bindM (require (ce_api V) req (policy_name ''admin-config'' ''schema'')) (\<lambda>_.
        retM (JObj [(''schema'', JObj [(''groups'', JList [staged_recovery_schema V])])]))
      else if i = ''effective''
      then bindM (require (ce_api V) req (policy_name ''admin-config'' ''effective'')) (\<lambda>_.
        let grp = (case get_param req ''group'' of None \<Rightarrow> [] | Some g \<Rightarrow> g) in
        if grp \<noteq> [] \<and> grp \<noteq> ''staged_recovery'' then raiseM not_found
        else bindM (staged_recovery_effective V) (\<lambda>v. retM (JObj [(''config'', JObj [(''staged_recovery'', v)])])))
      else raiseM not_found)"

section \<open>Drafts\<close>

definition stored_json :: "string \<Rightarrow> json option \<Rightarrow> json dict" where
  "stored_json name v = (case v of None \<Rightarrow> [] | Some x \<Rightarrow> if x = JNull then [] else [(name, x)])"

definition draft_changes :: "draft \<Rightarrow> json" where
  "draft_changes d = or_else (d_values d) (JObj [])"

definition draft_view :: "draft \<Rightarrow> json" where
  "draft_view d = JObj ([(''uuid'', JStr (d_uuid d)), (''name'', d_name d), (''status'', JStr (d_status d)),
     (''changes'', draft_changes d), (''comment'', d_comment d)] @
     stored_json ''validation'' (d_validation d) @ stored_json ''plan'' (d_plan d))"

definition get_draft :: "request \<Rightarrow> string \<Rightarrow> ('n, 'k, draft) prog" where
  "get_draft req i = except_as ConfigDraftNotFound 404 (admin_config_draft_get_by_uuid (db_ctx req) i)"

definition config_drafts_index :: "'k config_env \<Rightarrow> request \<Rightarrow> ('n, 'k, json) prog" where
  "config_drafts_index V req = expected_errors (ce_api V) [403, 400]
     (bindM (require (ce_api V) req (policy_name ''admin-config-drafts'' ''index'')) (\<lambda>_.
      bindM (admin_config_draft_get_all (ce_lib V) (db_ctx req) Any [''id''] [''desc''] None None) (\<lambda>ds.
      retM (JObj [(''drafts'', JList (map draft_view ds))]))))"

definition config_drafts_show :: "'k config_env \<Rightarrow> string \<Rightarrow> request \<Rightarrow> ('n, 'k, json) prog" where
  "config_drafts_show V i req = expected_errors (ce_api V) [403, 404]
     (bindM (require (ce_api V) req (policy_name ''admin-config-drafts'' ''detail'')) (\<lambda>_.
      bindM (get_draft req i) (\<lambda>d. retM (JObj [(''draft'', draft_view d)]))))"

definition config_drafts_create :: "'k config_env \<Rightarrow> request \<Rightarrow> json \<Rightarrow> ('n, 'k, json) prog" where
  "config_drafts_create V req body = expected_errors (ce_api V) [403, 400]
     (bindM (require (ce_api V) req (policy_name ''admin-config-drafts'' ''create'')) (\<lambda>_.
      bindM (liftE (draft_from_body body)) (\<lambda>draft_body.
      bindM (generate_uuid (ce_lib V)) (\<lambda>u.
      bindM (admin_config_draft_create (db_ctx req) \<lparr>rid = 0, created_at = None, updated_at = None, deleted_at = None, deleted = 0,
          d_uuid = u, d_name = dget draft_body ''name'', d_status = ''draft'', d_values = jdumps (changes_of draft_body),
          d_comment = dget draft_body ''comment'', d_validation = None, d_plan = None\<rparr>) (\<lambda>d.
      retM (JObj [(''draft'', draft_view d)]))))))"

definition draft_update_values :: "json dict \<Rightarrow> draft_values" where
  "draft_update_values b =
     (let changed = map_of b ''changes'' \<noteq> None \<or> map_of b ''values'' \<noteq> None in
      \<lparr>du_name = map_of b ''name'', du_status = (if changed then Some ''draft'' else None),
       du_values = (if changed then Some (jdumps (changes_of b)) else None), du_comment = map_of b ''comment'',
       du_validation = (if changed then Some None else None), du_plan = (if changed then Some None else None)\<rparr>)"

definition config_drafts_update :: "'k config_env \<Rightarrow> string \<Rightarrow> request \<Rightarrow> json option \<Rightarrow> ('n, 'k, json) prog" where
  "config_drafts_update V i req contents = expected_errors (ce_api V) [403, 404, 400] (needs_body (\<lambda>body.
     bindM (require (ce_api V) req (policy_name ''admin-config-drafts'' ''update'')) (\<lambda>_.
     bindM (get_draft req i) (\<lambda>_.
     bindM (liftE (draft_from_body body)) (\<lambda>draft_body.
     bindM (admin_config_draft_update (db_ctx req) i (draft_update_values draft_body)) (\<lambda>d.
     retM (JObj [(''draft'', draft_view d)])))))) contents)"

definition config_drafts_delete :: "'k config_env \<Rightarrow> string \<Rightarrow> request \<Rightarrow> ('n, 'k, unit) prog" where
  "config_drafts_delete V i req = expected_errors (ce_api V) [403, 404]
     (bindM (require (ce_api V) req (policy_name ''admin-config-drafts'' ''delete'')) (\<lambda>_.
      except_as ConfigDraftNotFound 404 (admin_config_draft_delete (ce_lib V) (db_ctx req) i)))"

definition config_drafts_validate :: "'k config_env \<Rightarrow> string \<Rightarrow> request \<Rightarrow> ('n, 'k, json) prog" where
  "config_drafts_validate V i req = expected_errors (ce_api V) [403, 404]
     (bindM (require (ce_api V) req (policy_name ''admin-config-drafts'' ''validate'')) (\<lambda>_.
      bindM (get_draft req i) (\<lambda>d.
      bindM (liftE (validate_changes V (draft_changes d))) (\<lambda>validation.
      bindM (admin_config_draft_update (db_ctx req) i (no_draft_values\<lparr>du_status := Some (va_status validation),
          du_validation := Some (Some (jdumps (validation_json validation)))\<rparr>)) (\<lambda>updated.
      retM (JObj [(''draft'', draft_view updated), (''validation'', validation_json validation)]))))))"

definition config_drafts_diff :: "'k config_env \<Rightarrow> string \<Rightarrow> request \<Rightarrow> ('n, 'k, json) prog" where
  "config_drafts_diff V i req = expected_errors (ce_api V) [403, 404]
     (bindM (require (ce_api V) req (policy_name ''admin-config-drafts'' ''diff'')) (\<lambda>_.
      bindM (get_draft req i) (\<lambda>d.
      bindM (liftE (build_diff V (draft_changes d))) (\<lambda>diff. retM (JObj [(''diff'', diff)])))))"

definition config_drafts_plan :: "'k config_env \<Rightarrow> string \<Rightarrow> request \<Rightarrow> ('n, 'k, json) prog" where
  "config_drafts_plan V i req = expected_errors (ce_api V) [403, 404]
     (bindM (require (ce_api V) req (policy_name ''admin-config-drafts'' ''plan'')) (\<lambda>_.
      bindM (get_draft req i) (\<lambda>d.
      bindM (liftE (build_plan V (draft_changes d))) (\<lambda>p.
      bindM (admin_config_draft_update (db_ctx req) i (no_draft_values\<lparr>du_plan := Some (Some (jdumps (plan_json p)))\<rparr>)) (\<lambda>_.
      retM (JObj [(''plan'', plan_json p)]))))))"

section \<open>Applying a draft\<close>

definition IMMUTABLE_CONFIG_APPLY_MESSAGE :: string where
  "IMMUTABLE_CONFIG_APPLY_MESSAGE = ''Draft contains immutable Masakari configuration changes. Only runtime configuration changes are supported by Masakari API apply.''"

primrec apply_items :: "'k staged_store \<Rightarrow> change_item list \<Rightarrow> ('n, 'k, json list) prog" where
  "apply_items S [] = retM []"
| "apply_items S (item # rest) = (case item of
     Malformed e \<Rightarrow> apply_items S rest
   | Change f grp option value \<Rightarrow>
       if grp = JStr ''staged_recovery'' \<and> option = JStr ''max_parallel_starts_per_host''
       then bindM (set_max_parallel_starts_per_host S value) (\<lambda>v. bindM (apply_items S rest) (\<lambda>updates.
         retM (JObj [(''group'', grp), (''option'', option), (''value'', JInt v), (''source'', JStr ''runtime'')] # updates)))
       else apply_items S rest)"

definition apply_runtime_changes :: "'k config_env \<Rightarrow> json \<Rightarrow> ('n, 'k, json list) prog" where
  "apply_runtime_changes V changes = bindM (liftE (ce_store V)) (\<lambda>S. apply_items S (iter_change_items changes))"

definition apply_result :: "'k config_env \<Rightarrow> json \<Rightarrow> plan \<Rightarrow> ('n, 'k, json) prog" where
  "apply_result V changes p =
     (if runtime_apply_supported p
      then bindM (apply_runtime_changes V changes) (\<lambda>updates.
        retM (JObj [(''status'', JStr ''succeeded''), (''backend'', JStr ''runtime_etcd''), (''changed'', JBool (updates \<noteq> [])),
          (''runtime_updates'', JList updates), (''message'', JStr ''Runtime configuration was applied to etcd.'')]))
      else raiseM (mk_InvalidInput IMMUTABLE_CONFIG_APPLY_MESSAGE))"

definition record_apply_failure :: "request \<Rightarrow> string \<Rightarrow> string \<Rightarrow> ('n, 'k, unit) prog" where
  "record_apply_failure req job_uuid msg = bindM (admin_config_apply_job_update (db_ctx req) job_uuid
     (no_apply_job_values\<lparr>ju_status := Some ''failed'',
        ju_result := Some (Some (jdumps (JObj [(''status'', JStr ''failed''), (''backend'', JStr ''runtime_etcd''),
          (''changed'', JBool False), (''message'', JStr msg)]))),
        ju_errors := Some (Some (jdumps (JList [JObj [(''code'', JStr ''runtime_apply_failed''), (''message'', JStr msg)]])))\<rparr>))
     (\<lambda>_. retM ())"

definition job_time :: "int option \<Rightarrow> json" where
  "job_time t = (case t of None \<Rightarrow> JNull | Some x \<Rightarrow> JTime x)"

definition job_view :: "apply_job \<Rightarrow> json" where
  "job_view j = JObj ([(''id'', JStr (j_uuid j)), (''draft_id'', JStr (j_draft_uuid j)), (''status'', JStr (j_status j)),
     (''strategy'', JStr (j_strategy j)), (''canary'', JBool (j_canary j)), (''comment'', j_comment j),
     (''created_at'', job_time (created_at j)), (''updated_at'', job_time (updated_at j)),
     (''errors'', or_else (case j_errors j of None \<Rightarrow> JNull | Some v \<Rightarrow> v) (JList []))] @
     stored_json ''plan'' (j_plan j) @ stored_json ''result'' (j_result j))"

text \<open>The strategy and the canary flag of the request.\<close>

definition check_apply_options :: "json dict \<Rightarrow> exc + unit" where
  "check_apply_options b =
     (let strategy = dget b ''strategy''; canary = dget b ''canary'' in
      if (case strategy of JNull \<Rightarrow> False | JStr s \<Rightarrow> False | _ \<Rightarrow> True) then Inl (Exc (HTTPError 400) ''Apply strategy must be a string.'')
      else if strategy \<noteq> JNull \<and> strategy \<noteq> JStr ''runtime'' then Inl (Exc (HTTPError 400) ''Apply strategy is fixed to runtime.'')
      else if (case canary of JNull \<Rightarrow> False | JBool b \<Rightarrow> False | _ \<Rightarrow> True) then Inl (Exc (HTTPError 400) ''Apply canary must be a boolean.'')
      else if canary = JBool True then Inl (Exc (HTTPError 400) ''Canary apply is not supported for runtime configuration.'')
      else Inr ())"

text \<open>The job of an application, from its creation to its end.\<close>

definition run_apply_job ::
  "'k config_env \<Rightarrow> request \<Rightarrow> string \<Rightarrow> draft \<Rightarrow> json \<Rightarrow> json dict \<Rightarrow> validation \<Rightarrow> plan \<Rightarrow> ('n, 'k, json) prog" where
  "run_apply_job V req i d changes apply_body validation p =
     bindM (generate_uuid (ce_lib V)) (\<lambda>u.
     bindM (admin_config_apply_job_create (db_ctx req) \<lparr>rid = 0, created_at = None, updated_at = None, deleted_at = None, deleted = 0,
         j_uuid = u, j_draft_uuid = d_uuid d, j_status = ''queued'', j_strategy = ''runtime'', j_canary = False,
         j_comment = dget apply_body ''comment'', j_plan = Some (jdumps (plan_json p)), j_result = None, j_errors = None\<rparr>) (\<lambda>job.
     bindM (tryM (apply_result V changes p) (\<lambda>e.
         bindM (record_apply_failure req (j_uuid job) (message e)) (\<lambda>_.
         if isinstance e MasakariException then http_error 400 (message e) else raiseM e))) (\<lambda>result.
     bindM (admin_config_apply_job_update (db_ctx req) (j_uuid job) (no_apply_job_values\<lparr>ju_status := Some ''succeeded'',
         ju_result := Some (Some (jdumps result)), ju_errors := Some (Some (JList []))\<rparr>)) (\<lambda>job.
     bindM (admin_config_draft_update (db_ctx req) i (no_draft_values\<lparr>du_status := Some ''applied'',
         du_validation := Some (Some (jdumps (validation_json validation))), du_plan := Some (Some (jdumps (plan_json p)))\<rparr>)) (\<lambda>_.
     retM (JObj [(''apply_job'', job_view job)]))))))"

definition apply_draft :: "'k config_env \<Rightarrow> request \<Rightarrow> string \<Rightarrow> draft \<Rightarrow> json \<Rightarrow> ('n, 'k, json) prog" where
  "apply_draft V req i d body =
     (if d_status d = ''applying'' \<or> d_status d = ''applied'' then http_error 409 ''Draft is already applying or applied.''
      else
        let changes = draft_changes d in
        bindM (liftE (validate_changes V changes)) (\<lambda>validation.
        if va_errors validation \<noteq> []
        then bindM (admin_config_draft_update (db_ctx req) i (no_draft_values\<lparr>du_status := Some (va_status validation),
            du_validation := Some (Some (jdumps (validation_json validation)))\<rparr>)) (\<lambda>_.
          http_error 400 ''Draft validation failed.'')
        else
          bindM (liftE (apply_from_body body)) (\<lambda>apply_body.
          bindM (liftE (check_apply_options apply_body)) (\<lambda>_.
          bindM (liftE (build_plan V changes)) (\<lambda>p.
          if \<not> runtime_apply_supported p
          then bindM (admin_config_draft_update (db_ctx req) i (no_draft_values\<lparr>
              du_validation := Some (Some (jdumps (validation_json validation))), du_plan := Some (Some (jdumps (plan_json p)))\<rparr>)) (\<lambda>_.
            http_error 409 IMMUTABLE_CONFIG_APPLY_MESSAGE)
          else run_apply_job V req i d changes apply_body validation p)))))"

definition config_drafts_apply :: "'k config_env \<Rightarrow> string \<Rightarrow> request \<Rightarrow> json \<Rightarrow> ('n, 'k, json) prog" where
  "config_drafts_apply V i req body = expected_errors (ce_api V) [403, 404, 400, 409]
     (bindM (require (ce_api V) req (policy_name ''admin-config-drafts'' ''apply'')) (\<lambda>_.
      bindM (get_draft req i) (\<lambda>d. apply_draft V req i d body)))"

section \<open>Jobs\<close>

definition text_filter :: "request \<Rightarrow> string \<Rightarrow> string sel" where
  "text_filter req name = (case get_param req name of None \<Rightarrow> Any | Some v \<Rightarrow> Is v)"

definition jobs_index :: "'k config_env \<Rightarrow> request \<Rightarrow> ('n, 'k, json) prog" where
  "jobs_index V req = expected_errors (ce_api V) [403, 400]
     (bindM (require (ce_api V) req (policy_name ''admin-config-apply-jobs'' ''index'')) (\<lambda>_.
      bindM (admin_config_apply_job_get_all (ce_lib V) (db_ctx req) (text_filter req ''status'') (text_filter req ''draft_id'')
        [''id''] [''desc''] None None) (\<lambda>jobs.
      retM (JObj [(''apply_jobs'', JList (map job_view jobs))]))))"

definition jobs_show :: "'k config_env \<Rightarrow> string \<Rightarrow> request \<Rightarrow> ('n, 'k, json) prog" where
  "jobs_show V i req = expected_errors (ce_api V) [403, 404]
     (bindM (require (ce_api V) req (policy_name ''admin-config-apply-jobs'' ''detail'')) (\<lambda>_.
      bindM (except_as ConfigApplyJobNotFound 404 (admin_config_apply_job_get_by_uuid (db_ctx req) i)) (\<lambda>j.
      retM (JObj [(''apply_job'', job_view j)]))))"

section \<open>What a plan promises\<close>

text \<open>The abstract condition: there is a change, and each one sets the run time option to a value that is valid.\<close>

definition runtime_only :: "'k config_env \<Rightarrow> json \<Rightarrow> bool" where
  "runtime_only V changes \<longleftrightarrow> iter_change_items changes \<noteq> [] \<and>
     (\<forall>c \<in> set (iter_change_items changes). check_change V c = Inr Fine)"

lemma find_opt_name: "find_opt s = Some o' \<Longrightarrow> op_name o' = s \<and> o' \<in> set staged_recovery_opts"
  unfolding find_opt_def by (auto dest: find_SomeD)

lemma runtime_opt_int: "o' \<in> set staged_recovery_opts \<Longrightarrow> op_name o' \<in> set runtime_mutable \<Longrightarrow> op_kind o' = IntOpt"
  by (auto simp: staged_recovery_opts_def runtime_mutable_def)

lemma in_strings_group: "in_strings grp [g] = Inr b \<Longrightarrow> b \<longleftrightarrow> grp = JStr g"
  by (auto simp: in_strings_def split: json.splits)

lemma opt_of_Some: "opt_of v = Inr (Some o') \<Longrightarrow> v = JStr (op_name o') \<and> o' \<in> set staged_recovery_opts"
  by (auto simp: opt_of_def dest: find_opt_name split: json.splits)

lemma accepted_change:
  assumes "check_change V c = Inr v" and "\<forall>e. v \<noteq> Rejected e"
  obtains f o' x where "c = Change f (JStr ''staged_recovery'') (JStr (op_name o')) x" and "o' \<in> set staged_recovery_opts"
    and "validate_option_value V (JStr ''staged_recovery'') o' x = None" and "v = Fine \<longleftrightarrow> op_name o' \<in> set runtime_mutable"
proof (cases c)
  case (Malformed e)
  with assms(1) have "v = Rejected e" by simp
  with assms(2) show ?thesis by blast
next
  case (Change f grp option x)
  with assms obtain o' where "in_strings grp [''staged_recovery''] = Inr True" "opt_of option = Inr (Some o')"
    "validate_option_value V grp o' x = None" "v = Fine \<longleftrightarrow> op_name o' \<in> set runtime_mutable"
    by (auto split: sum.splits option.splits if_splits)
  with in_strings_group [of grp "''staged_recovery''" True] opt_of_Some [of option o'] Change that show ?thesis by simp
qed

lemma fine_change:
  assumes "check_change V c = Inr Fine"
  obtains f n where "c = Change f (JStr ''staged_recovery'') (JStr ''max_parallel_starts_per_host'') (JInt n)"
proof -
  obtain f o' x where c: "c = Change f (JStr ''staged_recovery'') (JStr (op_name o')) x" and o': "o' \<in> set staged_recovery_opts"
    "validate_option_value V (JStr ''staged_recovery'') o' x = None" "op_name o' \<in> set runtime_mutable"
    by (rule accepted_change [OF assms]) auto
  then have "\<exists>n. x = JInt n" using runtime_opt_int [of o']
    by (auto simp: validate_option_value_def Let_def split: json.splits if_splits)
  then show ?thesis using c o'(3) that by (auto simp: runtime_mutable_def)
qed

lemma accepted_step:
  assumes "check_change V c = Inr v" and "\<forall>e. v \<noteq> Rejected e"
  shows "\<exists>s. plan_step c = Inr s \<and> (st_action s = ''runtime_update'' \<longleftrightarrow> v = Fine)"
  by (rule accepted_change [OF assms]) (auto simp: runtime_option_def)

lemma plan_supported:
  assumes "build_plan V changes = Inr p"
  shows "(pl_apply_supported p \<longleftrightarrow> runtime_only V changes) \<and> (runtime_apply_supported p \<longleftrightarrow> runtime_only V changes) \<and>
    (pl_status p = ''invalid'' \<longleftrightarrow> (\<exists>c \<in> set (iter_change_items changes). \<exists>e. check_change V c = Inr (Rejected e)))"
proof -
  let ?items = "iter_change_items changes"
  obtain va where va: "validate_changes V changes = Inr va" using assms by (auto simp: build_plan_def split: sum.splits)
  then obtain vs where vs: "list_all2 (\<lambda>x y. check_change V x = Inr y) ?items vs"
    and errs: "va_errors va = concat (map (\<lambda>v. case v of Rejected e \<Rightarrow> [e] | _ \<Rightarrow> []) vs)"
    by (auto simp: validate_changes_def mapE_list_all2 split: sum.splits)
  have ok: "va_errors va = [] \<longleftrightarrow> (\<forall>v \<in> set vs. \<forall>e. v \<noteq> Rejected e)" unfolding errs by (auto split: verdict.splits)
  have rejected: "va_errors va \<noteq> [] \<longleftrightarrow> (\<exists>c \<in> set ?items. \<exists>e. check_change V c = Inr (Rejected e))"
    using vs unfolding ok by (force simp: list_all2_conv_all_nth in_set_conv_nth Ball_def)
  show ?thesis
  proof (cases "va_errors va = []")
    case False
    then have "\<not> runtime_only V changes" using rejected by (auto simp: runtime_only_def)
    then show ?thesis using assms va False rejected by (auto simp: build_plan_def runtime_apply_supported_def)
  next
    case True
    then obtain steps where steps: "list_all2 (\<lambda>x y. plan_step x = Inr y) ?items steps"
      and p: "p = \<lparr>pl_status = ''planned'', pl_steps = steps, pl_errors = None,
        pl_apply_supported = (steps \<noteq> [] \<and> list_all (\<lambda>s. st_action s = ''runtime_update'') steps)\<rparr>"
      using assms va by (auto simp: build_plan_def mapE_list_all2 Let_def split: sum.splits)
    have "(st_action (steps ! j) = ''runtime_update'') = (check_change V (?items ! j) = Inr Fine)" if "j < length steps" for j
    proof -
      have l: "length ?items = length steps" "length vs = length steps"
        using list_all2_lengthD [OF steps] list_all2_lengthD [OF vs] by simp_all
      then have "check_change V (?items ! j) = Inr (vs ! j)" "plan_step (?items ! j) = Inr (steps ! j)"
        using that vs steps by (auto simp: list_all2_conv_all_nth)
      moreover have "\<forall>e. vs ! j \<noteq> Rejected e" using True ok that l by simp
      ultimately show ?thesis using accepted_step by fastforce
    qed
    then have "(steps \<noteq> [] \<and> list_all (\<lambda>s. st_action s = ''runtime_update'') steps) = runtime_only V changes"
      using list_all2_lengthD [OF steps] by (auto simp: runtime_only_def list_all_length all_set_conv_all_nth)
    then show ?thesis using p True rejected by (auto simp: runtime_apply_supported_def)
  qed
qed


section \<open>What applying a draft does\<close>

text \<open>Rows that are created and updated, as conditions on the states around them.\<close>

context table_store
begin

lemma wp_row_create:
  assumes "live_ctx ctx" and "table_ok L T w" and "\<And>e. E e w"
    and "\<And>r w'. row_create T ctx dup nf v w = (Inr r, w') \<Longrightarrow> r = stamped T v w \<Longrightarrow>
      w' = t_put T (t_get T w @ [r]) w \<Longrightarrow> live T w' = (live T w)(t_key T v \<mapsto> r) \<Longrightarrow> table_ok L T w' \<Longrightarrow> Q r w'"
  shows "wp (row_create T ctx dup nf v) Q E w"
proof (cases "row_create T ctx dup nf v w")
  case (Pair x w')
  show ?thesis
  proof (cases x)
    case (Inl e)
    then show ?thesis using create_raises [OF assms(1,2), of dup nf v e w'] Pair assms(3) by (simp add: wp_def)
  next
    case (Inr r)
    then have run: "row_create T ctx dup nf v w = (Inr r, w')" using Pair by simp
    note C = create_live [OF assms(1,2) run]
    have "Q r w'" by (rule assms(4) [OF run]) (use C in blast)+
    then show ?thesis using run by (simp add: wp_def)
  qed
qed

end

context keyed_store
begin

lemma wp_row_update:
  assumes "live_ctx ctx" and "table_ok L T w"
    and f: "\<And>q. rid (f q) = rid q" "\<And>q. deleted (f q) = deleted q" "\<And>q. deleted_at (f q) = deleted_at q"
      "\<And>q. t_key T (f q) = t_key T q"
    and r: "live T w key = Some r"
    and "\<And>r' rows. r' = (if f r = r then r else (f r)\<lparr>updated_at := Some (clock w)\<rparr>) \<Longrightarrow>
      live T (t_put T rows w) = (live T w)(key \<mapsto> r') \<Longrightarrow> table_ok L T (t_put T rows w) \<Longrightarrow> Q r' (t_put T rows w)"
  shows "wp (row_update T ctx dup nf key f) Q E w"
proof -
  obtain r' rows where "row_update T ctx dup nf key f w = (Inr r', t_put T rows w)"
    "live T (t_put T rows w) = (live T w)(key \<mapsto> r')" "table_ok L T (t_put T rows w)"
    "r' = (if f r = r then r else (f r)\<lparr>updated_at := Some (clock w)\<rparr>)"
    using update_total [OF assms(1,2) f r] by blast
  then show ?thesis using assms(8) by (simp add: wp_def)
qed

end

lemma wp_set_limit:
  assumes ok: "etcd_ok (ss_client S) kv env"
  shows "wp (set_max_parallel_starts_per_host S (JInt n))
    (\<lambda>j t. t = w\<lparr>etcd := etcd t\<rparr> \<and> (\<forall>fallback. limit_in_force S kv (etcd t) fallback = Inr n)) (\<lambda>_ t. t = w\<lparr>etcd := etcd t\<rparr>) w"
proof (cases "validate_positive_int (JInt n) CONFIG_MAX_PARALLEL_STARTS_PER_HOST")
  case (Inl e)
  then show ?thesis by (simp add: set_max_parallel_starts_per_host_def wp_simps)
next
  case (Inr i)
  then have i: "i = n" "n \<ge> 1" by (auto simp: validate_positive_int_def py_int_def split: if_splits)
  let ?rec = "[(''schema_version'', JInt 1), (''name'', JStr CONFIG_MAX_PARALLEL_STARTS_PER_HOST), (''value'', JInt n),
     (''owner'', JStr (ss_owner S)), (''updated_at'', JTime (clock w))]"
  obtain d where d: "loads (dumps ?rec) = Inr d" "\<forall>f. dget d f = sort_keys (dget ?rec f)"
    using loads_dumps_dget by blast
  then have "dget d ''value'' = JInt n" by (simp add: dget_def)
  then have force: "limit_in_force S kv k fallback = Inr n"
    if "kv k (runtime_config_key S CONFIG_MAX_PARALLEL_STARTS_PER_HOST) = Some (dumps ?rec)" for k fallback
    using that d(1) i by (simp add: limit_in_force_def validate_positive_int_def py_int_def)
  show ?thesis
    unfolding set_max_parallel_starts_per_host_def set_runtime_config_def wp_bindM Inr wp_liftE wp_utcnow Let_def wp_on_etcd
    by (simp add: wp_retM i, rule wp_writes [OF etcd_put [OF ok]]) (use force in auto)
qed

lemma etcd_frame_trans:
  fixes u t w :: "('n, 'k) world"
  shows "u = t\<lparr>etcd := etcd u\<rparr> \<Longrightarrow> t = w\<lparr>etcd := etcd t\<rparr> \<Longrightarrow> u = w\<lparr>etcd := etcd u\<rparr>"
  by (cases u; cases t; cases w) simp

lemma wp_apply_items:
  fixes w :: "('n, 'k) world"
  assumes ok: "etcd_ok (ss_client S) kv env"
    and "\<forall>c \<in> set items. check_change V c = Inr Fine"
  shows "wp (apply_items S items)
    (\<lambda>us t. t = w\<lparr>etcd := etcd t\<rparr> \<and> (items = [] \<or> (\<exists>f g m n. last items = Change f g m (JInt n) \<and>
       (\<forall>fallback. limit_in_force S kv (etcd t) fallback = Inr n))))
    (\<lambda>_ t. t = w\<lparr>etcd := etcd t\<rparr>) w"
  using assms(2)
proof (induction items arbitrary: w)
  case Nil
  then show ?case by (simp add: wp_retM)
next
  case (Cons item items)
  obtain f n where item: "item = Change f (JStr ''staged_recovery'') (JStr ''max_parallel_starts_per_host'') (JInt n)"
    by (rule fine_change [of V item]) (use Cons.prems in auto)
  show ?case unfolding apply_items.simps item change_item.case wp_bindM
  proof (simp only: simp_thms if_True wp_bindM, rule wp_mono [OF wp_set_limit [OF ok]])
    fix a and t :: "('n, 'k) world"
    assume t: "t = w\<lparr>etcd := etcd t\<rparr> \<and> (\<forall>fallback. limit_in_force S kv (etcd t) fallback = Inr n)"
    show "wp (apply_items S items) (\<lambda>us. wp (retM (JObj [(''group'', JStr ''staged_recovery''),
        (''option'', JStr ''max_parallel_starts_per_host''), (''value'', JInt a), (''source'', JStr ''runtime'')] # us))
       (\<lambda>us t. t = w\<lparr>etcd := etcd t\<rparr> \<and> (Change f (JStr ''staged_recovery'') (JStr ''max_parallel_starts_per_host'') (JInt n) # items = [] \<or>
          (\<exists>f' g m n'. last (Change f (JStr ''staged_recovery'') (JStr ''max_parallel_starts_per_host'') (JInt n) # items) = Change f' g m (JInt n') \<and>
           (\<forall>fallback. limit_in_force S kv (etcd t) fallback = Inr n'))))
       (\<lambda>_ t. t = w\<lparr>etcd := etcd t\<rparr>)) (\<lambda>_ t. t = w\<lparr>etcd := etcd t\<rparr>) t"
    proof (cases "items = []")
      case True
      then show ?thesis using t by (simp add: wp_retM)
    next
      case False
      note trans = etcd_frame_trans [OF _ conjunct1 [OF t]]
      show ?thesis
      proof (rule wp_mono [OF Cons.IH])
        fix us and u :: "('n, 'k) world"
        assume u: "u = t\<lparr>etcd := etcd u\<rparr> \<and> (items = [] \<or> (\<exists>f g m n. last items = Change f g m (JInt n) \<and>
          (\<forall>fallback. limit_in_force S kv (etcd u) fallback = Inr n)))"
        show "wp (retM (JObj [(''group'', JStr ''staged_recovery''), (''option'', JStr ''max_parallel_starts_per_host''),
            (''value'', JInt a), (''source'', JStr ''runtime'')] # us))
         (\<lambda>us t. t = w\<lparr>etcd := etcd t\<rparr> \<and> (Change f (JStr ''staged_recovery'') (JStr ''max_parallel_starts_per_host'') (JInt n) # items = [] \<or>
          (\<exists>f' g m n'. last (Change f (JStr ''staged_recovery'') (JStr ''max_parallel_starts_per_host'') (JInt n) # items) = Change f' g m (JInt n') \<and>
           (\<forall>fallback. limit_in_force S kv (etcd t) fallback = Inr n')))) (\<lambda>_ t. t = w\<lparr>etcd := etcd t\<rparr>) u"
          unfolding wp_retM using trans [OF conjunct1 [OF u]] conjunct2 [OF u] False by simp
      next
        fix e and u :: "('n, 'k) world"
        assume "u = t\<lparr>etcd := etcd u\<rparr>"
        then show "u = w\<lparr>etcd := etcd u\<rparr>" by (rule trans)
      qed (use Cons.prems in simp)
    qed
  qed simp
qed

lemma config_frames [simp]:
  fixes w :: "('n, 'k) world"
  shows "live drafts_tbl (w\<lparr>etcd := k\<rparr>) = live drafts_tbl w" "live drafts_tbl (w\<lparr>uuid_seq := n\<rparr>) = live drafts_tbl w"
    "live drafts_tbl (w\<lparr>apply_jobs := js\<rparr>) = live drafts_tbl w" "live apply_jobs_tbl (w\<lparr>etcd := k\<rparr>) = live apply_jobs_tbl w"
    "live apply_jobs_tbl (w\<lparr>uuid_seq := n\<rparr>) = live apply_jobs_tbl w" "live apply_jobs_tbl (w\<lparr>drafts := ds\<rparr>) = live apply_jobs_tbl w"
    "table_ok L drafts_tbl (w\<lparr>etcd := k\<rparr>) = table_ok L drafts_tbl w" "table_ok L drafts_tbl (w\<lparr>uuid_seq := n\<rparr>) = table_ok L drafts_tbl w"
    "table_ok L drafts_tbl (w\<lparr>apply_jobs := js\<rparr>) = table_ok L drafts_tbl w"
    "table_ok L apply_jobs_tbl (w\<lparr>etcd := k\<rparr>) = table_ok L apply_jobs_tbl w"
    "table_ok L apply_jobs_tbl (w\<lparr>uuid_seq := n\<rparr>) = table_ok L apply_jobs_tbl w"
    "table_ok L apply_jobs_tbl (w\<lparr>drafts := ds\<rparr>) = table_ok L apply_jobs_tbl w"
  by (intro live_frame table_ok_cong, simp)+

lemma if_touched: "r = (if y = x then x else y\<lparr>updated_at := t\<rparr>) \<Longrightarrow> (\<And>z. g (z\<lparr>updated_at := t\<rparr>) = g z) \<Longrightarrow> g r = g y"
  by simp

lemma wp_job_update:
  assumes "live_ctx (db_ctx req)" and "table_ok L apply_jobs_tbl w" and "live apply_jobs_tbl w u = Some j"
    and "\<And>j' js. j_uuid j' = j_uuid j \<Longrightarrow> j_draft_uuid j' = j_draft_uuid j \<Longrightarrow> j_status j' = upd (ju_status v) (j_status j) \<Longrightarrow>
      live apply_jobs_tbl (w\<lparr>apply_jobs := js\<rparr>) = (live apply_jobs_tbl w)(u \<mapsto> j') \<Longrightarrow>
      table_ok L apply_jobs_tbl (w\<lparr>apply_jobs := js\<rparr>) \<Longrightarrow> Q j' (w\<lparr>apply_jobs := js\<rparr>)"
  shows "wp (admin_config_apply_job_update (db_ctx req) u v) Q E w"
  unfolding admin_config_apply_job_update_def
proof (rule apply_jobs_store.wp_row_update [OF assms(1,2) _ _ _ _ assms(3)])
  fix j' js
  assume j': "j' = (if set_apply_job v j = j then j else (set_apply_job v j)\<lparr>updated_at := Some (clock w)\<rparr>)"
    and "live apply_jobs_tbl (t_put apply_jobs_tbl js w) = (live apply_jobs_tbl w)(u \<mapsto> j')"
    and "table_ok L apply_jobs_tbl (t_put apply_jobs_tbl js w)"
  moreover have "j_uuid j' = j_uuid j" "j_draft_uuid j' = j_draft_uuid j" "j_status j' = upd (ju_status v) (j_status j)"
    using if_touched [OF j', of j_uuid] if_touched [OF j', of j_draft_uuid] if_touched [OF j', of j_status]
    by (simp_all add: set_apply_job_def)
  ultimately show "Q j' (t_put apply_jobs_tbl js w)" using assms(4) by simp
qed simp_all

lemma wp_draft_update:
  assumes "live_ctx (db_ctx req)" and "table_ok L drafts_tbl w" and "live drafts_tbl w u = Some d"
    and "\<And>d' ds. d_status d' = upd (du_status v) (d_status d) \<Longrightarrow>
      live drafts_tbl (w\<lparr>drafts := ds\<rparr>) = (live drafts_tbl w)(u \<mapsto> d') \<Longrightarrow> Q d' (w\<lparr>drafts := ds\<rparr>)"
  shows "wp (admin_config_draft_update (db_ctx req) u v) Q E w"
  unfolding admin_config_draft_update_def
proof (rule drafts_store.wp_row_update [OF assms(1,2) _ _ _ _ assms(3)])
  fix d' ds
  assume d': "d' = (if set_draft v d = d then d else (set_draft v d)\<lparr>updated_at := Some (clock w)\<rparr>)"
    and "live drafts_tbl (t_put drafts_tbl ds w) = (live drafts_tbl w)(u \<mapsto> d')"
  moreover have "d_status d' = upd (du_status v) (d_status d)"
    using if_touched [OF d', of d_status] by (simp add: set_draft_def)
  ultimately show "Q d' (t_put drafts_tbl ds w)" using assms(4) by simp
qed simp_all

lemma wp_apply_result:
  assumes "etcd_ok (ss_client S) kv env" and store: "ce_store V = Inr S" and only: "runtime_only V changes"
    and "\<And>r k f g m n. last (iter_change_items changes) = Change f g m (JInt n) \<Longrightarrow>
      \<forall>fallback. limit_in_force S kv k fallback = Inr n \<Longrightarrow> Q r (w\<lparr>etcd := k\<rparr>)"
    and "\<And>e k. E e (w\<lparr>etcd := k\<rparr>)"
  shows "wp (apply_result V changes p) Q E w"
proof (cases "runtime_apply_supported p")
  case True
  have "wp (apply_items S (iter_change_items changes)) (\<lambda>us t. \<forall>r. Q r t) E w"
  proof (rule wp_mono [OF wp_apply_items [OF assms(1), where V = V]])
    show "\<forall>c\<in>set (iter_change_items changes). check_change V c = Inr Fine" using only by (simp add: runtime_only_def)
  next
    fix us and t :: "('b, 'a) world"
    assume "t = w\<lparr>etcd := etcd t\<rparr> \<and> (iter_change_items changes = [] \<or>
      (\<exists>f g m n. last (iter_change_items changes) = Change f g m (JInt n) \<and> (\<forall>fallback. limit_in_force S kv (etcd t) fallback = Inr n)))"
    then show "\<forall>r. Q r t" using assms(4) only unfolding runtime_only_def by metis
  next
    fix e and t :: "('b, 'a) world"
    assume "t = w\<lparr>etcd := etcd t\<rparr>"
    then show "E e t" using assms(5) by metis
  qed
  then show ?thesis using True store by (simp add: apply_result_def apply_runtime_changes_def wp_simps) (auto elim: wp_mono)
next
  case False
  have "E e w" for e using assms(5) [of e "etcd w"] by simp
  then show ?thesis using False by (simp add: apply_result_def wp_simps)
qed

text \<open>
  \<open>applied\<close>: what a state looks like after a successful application of the draft \<open>d\<close>, stored under \<open>i\<close>,
  by the job \<open>u\<close>: the limit in force is the one of its last change, the draft is applied and the job
  says so. \<open>job_failed\<close>: the job says that it failed. No application touches the other drafts and jobs.
\<close>

definition applied ::
  "'k staged_store \<Rightarrow> ('k \<Rightarrow> string \<Rightarrow> json option) \<Rightarrow> string \<Rightarrow> string \<Rightarrow> json \<Rightarrow> ('n, 'k) world \<Rightarrow> ('n, 'k) world \<Rightarrow> bool" where
  "applied S kv i u changes w t \<longleftrightarrow>
     (\<exists>d j f g m n. live drafts_tbl t = (live drafts_tbl w)(i \<mapsto> d) \<and> d_status d = ''applied'' \<and>
        live apply_jobs_tbl t = (live apply_jobs_tbl w)(u \<mapsto> j) \<and> j_status j = ''succeeded'' \<and> j_draft_uuid j = i \<and>
        last (iter_change_items changes) = Change f g m (JInt n) \<and> (\<forall>fallback. limit_in_force S kv (etcd t) fallback = Inr n))"

definition job_failed :: "string \<Rightarrow> string \<Rightarrow> ('n, 'k) world \<Rightarrow> ('n, 'k) world \<Rightarrow> bool" where
  "job_failed i u w t \<longleftrightarrow> live drafts_tbl t = live drafts_tbl w \<and>
     (\<exists>j. live apply_jobs_tbl t = (live apply_jobs_tbl w)(u \<mapsto> j) \<and> j_status j = ''failed'' \<and> j_draft_uuid j = i)"

lemma wp_run_apply_job:
  fixes w :: "('n, 'k) world"
  assumes ctx: "live_ctx (db_ctx req)" and drafts: "table_ok L drafts_tbl w" and jobs: "table_ok L apply_jobs_tbl w"
    and d: "live drafts_tbl w i = Some d" and store: "ce_store V = Inr S" "etcd_ok (ss_client S) kv env" and only: "runtime_only V changes"
  shows "wp (run_apply_job V req i d changes b va p)
    (\<lambda>_ t. applied S kv i (gen_uuid (ce_lib V) (uuid_seq w)) changes w t)
    (\<lambda>_ t. t = w\<lparr>uuid_seq := uuid_seq t\<rparr> \<or> job_failed i (gen_uuid (ce_lib V) (uuid_seq w)) w t) w" (is "wp _ ?Q ?E w")
proof -
  let ?u = "gen_uuid (ce_lib V) (uuid_seq w)"
  have i: "d_uuid d = i" using d live_Some [OF drafts_store.ok_keys [OF drafts]] by simp
  show ?thesis
    unfolding run_apply_job_def wp_bindM wp_generate_uuid admin_config_apply_job_create_def
  proof (rule apply_jobs_store.wp_row_create [OF ctx, where L = L], goal_cases)
    case 1
    then show ?case using jobs by simp
  next
    case (2 e)
    then show ?case by simp
  next
    case (3 j w')
    have j: "j_uuid j = ?u" "j_draft_uuid j = i" using i by (simp_all add: 3(2) stamped_def)
    have ok: "table_ok L apply_jobs_tbl w'" by (rule 3(5))
    have live: "live apply_jobs_tbl w' = (live apply_jobs_tbl w)(?u \<mapsto> j)" using 3(4) by simp
    have ds: "live drafts_tbl w' = live drafts_tbl w" "table_ok L drafts_tbl w'" using drafts by (simp_all add: 3(3))
    show ?case
      unfolding wp_tryM wp_bindM j
    proof (rule wp_apply_result [OF store(2,1) only], goal_cases)
      case (1 r k f g m n)
      show ?case
        by (rule wp_job_update [OF ctx, where L = L and j = j], simp add: ok, simp add: live, rule wp_draft_update [OF ctx, where L = L and d = d])
          (use 1 d live ds j in \<open>auto simp: wp_retM applied_def\<close>)
    next
      case (2 e k)
      show ?case unfolding record_apply_failure_def wp_bindM
        by (rule wp_job_update [OF ctx, where L = L and j = j], simp add: ok, simp add: live)
          (use live ds j in \<open>auto simp: wp_simps http_error_def job_failed_def\<close>)
    qed
  qed
qed

lemma wp_get_draft:
  assumes "live_ctx (db_ctx req)" and "\<And>d. live drafts_tbl w i = Some d \<Longrightarrow> Q d w" and "\<And>e. E e w"
  shows "wp (get_draft req i) Q E w"
proof -
  have "admin_config_draft_get_by_uuid (db_ctx req) i w =
      (case live drafts_tbl w i of None \<Rightarrow> (Inl (mk_ConfigDraftNotFound i), w) | Some r \<Rightarrow> (Inr r, w))"
    using row_get_live [OF assms(1), of drafts_tbl i "mk_ConfigDraftNotFound i" w]
    by (simp add: admin_config_draft_get_by_uuid_def)
  then show ?thesis using assms(2,3)
    by (simp add: get_draft_def except_as_def wp_tryM wp_def http_error_def comp_defs split: option.split)
qed

text \<open>The errors of a validation that found some: then the changes are not those of the run time option.\<close>

lemma runtime_only_valid:
  assumes "validate_changes V changes = Inr va" and "runtime_only V changes"
  shows "va_errors va = []"
proof -
  obtain vs where vs: "list_all2 (\<lambda>x y. check_change V x = Inr y) (iter_change_items changes) vs"
    and errs: "va_errors va = concat (map (\<lambda>v. case v of Rejected e \<Rightarrow> [e] | _ \<Rightarrow> []) vs)"
    using assms(1) by (auto simp: validate_changes_def mapE_list_all2 split: sum.splits)
  have fine: "v = Fine" if "v \<in> set vs" for v
  proof -
    obtain j where j: "j < length vs" "v = vs ! j" using \<open>v \<in> set vs\<close> by (auto simp: in_set_conv_nth)
    then have "iter_change_items changes ! j \<in> set (iter_change_items changes)" "check_change V (iter_change_items changes ! j) = Inr v"
      using vs by (auto simp: list_all2_conv_all_nth)
    then show ?thesis using assms(2) by (simp add: runtime_only_def)
  qed
  then show ?thesis unfolding errs by (auto split: verdict.split dest: fine)
qed

text \<open>The ways an application ends: refused, checked and refused, or run.\<close>

lemma wp_apply_draft:
  assumes E: "\<And>e. E e w"
    and update: "\<And>v. du_status v \<in> {None, Some ''invalid''} \<Longrightarrow> \<not> runtime_only V (draft_changes d) \<Longrightarrow>
      wp (admin_config_draft_update (db_ctx req) i v) (\<lambda>_ t. \<forall>e. E e t) E w"
    and run: "\<And>b va p. d_status d \<notin> {''applying'', ''applied''} \<Longrightarrow> runtime_only V (draft_changes d) \<Longrightarrow>
      wp (run_apply_job V req i d (draft_changes d) b va p) Q E w"
  shows "wp (apply_draft V req i d body) Q E w"
proof (cases "validate_changes V (draft_changes d)")
  case (Inl e)
  then show ?thesis using E by (simp add: apply_draft_def Let_def wp_simps http_error_def)
next
  case (Inr va)
  have stop: "wp (bindM (admin_config_draft_update (db_ctx req) i v) (\<lambda>_. http_error n msg)) Q E w"
    if "du_status v \<in> {None, Some ''invalid''}" "\<not> runtime_only V (draft_changes d)" for v n msg
    unfolding wp_bindM http_error_def wp_raiseM by (rule wp_mono [OF update [OF that]]) simp_all
  show ?thesis
  proof (cases "va_errors va = []")
    case False
    then have "\<not> runtime_only V (draft_changes d)" using runtime_only_valid [OF Inr] by blast
    then show ?thesis using False Inr E
      by (simp add: apply_draft_def Let_def wp_simps http_error_def stop [unfolded wp_bindM http_error_def wp_raiseM] va_status_def)
  next
    case True
    have plan: "wp (run_apply_job V req i d (draft_changes d) b va p) Q E w"
      if "build_plan V (draft_changes d) = Inr p" "d_status d \<noteq> ''applying''" "d_status d \<noteq> ''applied''" "runtime_apply_supported p" for p b
      using run that plan_supported [OF that(1)] by simp
    have stopped: "wp (admin_config_draft_update (db_ctx req) i v) (\<lambda>_. E (Exc (HTTPError 409) IMMUTABLE_CONFIG_APPLY_MESSAGE)) E w"
      if "build_plan V (draft_changes d) = Inr p" "\<not> runtime_apply_supported p" "du_status v = None" for p v
      using stop [unfolded wp_bindM http_error_def wp_raiseM] that plan_supported [OF that(1)] by simp
    show ?thesis using True Inr E plan stopped
      by (simp add: apply_draft_def Let_def wp_bindM wp_liftE http_error_def wp_raiseM split: sum.split)
  qed
qed

text \<open>C8. Applying a draft: it succeeds only for a stored draft that was neither applied nor being applied and
  whose every change gives the run time option a valid value; then the limit in force is the one of its
  last change, the draft is applied and a job that says so is stored. Otherwise the request fails, and
  one of three things holds: nothing has changed (but for the counter of uuids); the draft cannot be
  applied at run time, and at most its record of the check and a status invalid were stored, with no
  job and nothing written to etcd; or the job was stored and says that it failed, and the draft is
  as it was.\<close>

theorem apply_draft_outcome:
  fixes w :: "('n, 'k) world"
  assumes ctx: "live_ctx (db_ctx req)" and db: "db_ok (ce_lib V) w"
    and store: "ce_store V = Inr S" and ok: "etcd_ok (ss_client S) kv env"
  shows "wp (config_drafts_apply V i req body)
    (\<lambda>_ t. \<exists>d. live drafts_tbl w i = Some d \<and> d_status d \<notin> {''applying'', ''applied''} \<and> runtime_only V (draft_changes d) \<and>
       applied S kv i (gen_uuid (ce_lib V) (uuid_seq w)) (draft_changes d) w t)
    (\<lambda>_ t. t = w\<lparr>uuid_seq := uuid_seq t\<rparr> \<or>
       (\<exists>d d'. live drafts_tbl w i = Some d \<and> \<not> runtime_only V (draft_changes d) \<and> t = w\<lparr>drafts := drafts t\<rparr> \<and>
          live drafts_tbl t = (live drafts_tbl w)(i \<mapsto> d') \<and> d_status d' \<in> {d_status d, ''invalid''}) \<or>
       (\<exists>d. live drafts_tbl w i = Some d \<and> runtime_only V (draft_changes d) \<and>
          job_failed i (gen_uuid (ce_lib V) (uuid_seq w)) w t)) w"
proof -
  have drafts: "table_ok (ce_lib V) drafts_tbl w" and jobs: "table_ok (ce_lib V) apply_jobs_tbl w"
    using db by (simp_all add: db_ok_def)
  show ?thesis
    unfolding config_drafts_apply_def
  proof (rule wp_expected_any, unfold wp_bindM, rule wp_require, rule wp_get_draft [OF ctx], goal_cases)
    case (1 d)
    show ?case
    proof (rule wp_apply_draft, simp, goal_cases)
      case (1 v)
      then show ?case using \<open>live drafts_tbl w i = Some d\<close>
        by (intro wp_draft_update [OF ctx drafts \<open>live drafts_tbl w i = Some d\<close>]) auto
    next
      case (2 b va p)
      show ?case
        by (rule wp_mono [OF wp_run_apply_job [OF ctx drafts jobs \<open>live drafts_tbl w i = Some d\<close> store ok 2(2)]])
          (use \<open>live drafts_tbl w i = Some d\<close> 2 in auto)
    qed
  qed simp_all
qed

section \<open>Concrete drafts\<close>

text \<open>
  An environment whose options show neither \<open>min\<close> nor \<open>choices\<close>, a draft that sets the limit of parallel
  starts, and one in the form of a list that names a group by a list.
\<close>

definition demo_config :: "etcd_state config_env" where
  "demo_config = \<lparr>ce_lib = demo_lib, ce_api = demo_api,
     ce_value = (\<lambda>n. map_option op_default (find_opt n)), ce_min = (\<lambda>_. None), ce_choices = (\<lambda>_. []),
     ce_store = Inr (demo_store quiet_etcd)\<rparr>"

definition limit_change :: json where
  "limit_change = JObj [(''staged_recovery'', JObj [(''max_parallel_starts_per_host'', JInt 4)])]"

definition demo_draft :: draft where
  "demo_draft = \<lparr>rid = 1, created_at = Some 0, updated_at = None, deleted_at = None, deleted = 0, d_uuid = ''d1'',
     d_name = JStr ''limit'', d_status = ''draft'', d_values = limit_change, d_comment = JNull, d_validation = None, d_plan = None\<rparr>"

definition demo_drafts :: "(nova_state, etcd_state) world" where
  "demo_drafts = (demo_staged [])\<lparr>drafts := [demo_draft]\<rparr>"

lemma demo_drafts_ok: "db_ok demo_lib demo_drafts" "live drafts_tbl demo_drafts ''d1'' = Some demo_draft"
  by (simp_all add: db_ok_def table_ok_def tbl_defs demo_defs ids_ok_def uniq_segments_def uniq_hosts_def live_def
    uniq_notifications_def uniq_vmoves_def uniq_drafts_def uniq_apply_jobs_def demo_drafts_def demo_staged_def demo_draft_def)


lemma apply_draft_outcome_witness:
  "\<exists>r t. config_drafts_apply demo_config ''d1'' (demo_get []) JNull demo_drafts = (Inr r, t) \<and>
     limit_in_force (demo_store quiet_etcd) es_kv (etcd t) (JInt 2) = Inr 4"
proof -
  have "\<not> isl (fst (config_drafts_apply demo_config ''d1'' (demo_get []) JNull demo_drafts))" by code_simp
  then obtain r t where run: "config_drafts_apply demo_config ''d1'' (demo_get []) JNull demo_drafts = (Inr r, t)"
    by (cases "config_drafts_apply demo_config ''d1'' (demo_get []) JNull demo_drafts", rename_tac x t, case_tac x) auto
  have "wp (config_drafts_apply demo_config ''d1'' (demo_get []) JNull) (\<lambda>_ t. \<exists>d. live drafts_tbl demo_drafts ''d1'' = Some d \<and>
      applied (demo_store quiet_etcd) es_kv ''d1'' (gen_uuid (ce_lib demo_config) (uuid_seq demo_drafts)) (draft_changes d) demo_drafts t)
      (\<lambda>_ _. True) demo_drafts"
    by (rule wp_mono [OF apply_draft_outcome [where S = "demo_store quiet_etcd" and kv = es_kv and env = "es_env id"]])
      (use demo_drafts_ok demo_quiet in \<open>auto simp: demo_config_def live_ctx_def db_ctx_def demo_get_def demo_api_context_def
        request_context.truncate_def etcd_quiet_def\<close>)
  then obtain d where "live drafts_tbl demo_drafts ''d1'' = Some d"
    "applied (demo_store quiet_etcd) es_kv ''d1'' (gen_uuid (ce_lib demo_config) (uuid_seq demo_drafts)) (draft_changes d) demo_drafts t"
    using run by (auto simp: wp_def)
  then obtain f g m n where "last (iter_change_items (draft_changes demo_draft)) = Change f g m (JInt n)"
    and force: "limit_in_force (demo_store quiet_etcd) es_kv (etcd t) (JInt 2) = Inr n"
    using demo_drafts_ok(2) unfolding applied_def by auto
  moreover have "last (iter_change_items (draft_changes demo_draft)) = Change JNull (JStr ''staged_recovery'') (JStr ''max_parallel_starts_per_host'') (JInt 4)"
    by code_simp
  ultimately show ?thesis using run by auto
qed

text \<open>A group that is no string is accepted in a draft, and checking that draft then raises \<open>TypeError\<close>.\<close>

lemma unhashable_group:
  "validate_changes demo_config (JList [JObj [(''group'', JList [JStr ''staged_recovery'']), (''option'', JStr ''enabled'')]]) =
     Inl (Exc TypeError ''unhashable type: list'')"
  by code_simp

text \<open>Where the option objects show no \<open>min\<close>, a limit below the minimum of the option is valid and planned.\<close>

lemma minimum_not_checked:
  "runtime_only demo_config (JObj [(''staged_recovery'', JObj [(''max_parallel_starts_per_host'', JInt (- 3))])])"
  by code_simp

text \<open>A request with PATCH brings no body to the action, so an update by PATCH always ends in an error 500.\<close>

lemma patch_never_updates:
  assumes "rq_verb req = ''PATCH''"
  shows "\<exists>b. body_contents A req = Inr b \<and> config_drafts_update V i req b w =
    (Inl (unexpected_error (ce_api V) (Exc TypeError ''missing 1 required argument: body'')), w)"
  using assms by (simp add: body_contents_def should_have_body_def config_drafts_update_def needs_body_def expected_errors_def
      tryM_def raiseM_def isinstance_simps)

end
