(* ===== verification/Masakari_Validation.thy ===== *)
theory Masakari_Validation
  imports Masakari_Wsgi
begin

text \<open>
  The check of request bodies: the parameter types (\<open>api/validation/parameter_types.py\<close>), the format
  checkers and the validator (\<open>api/validation/validators.py\<close>), the decorator \<open>schema\<close>
  (\<open>api/validation/__init__.py\<close>) and the schemas of the extensions (\<open>api/openstack/ha/schemas\<close>). The
  validation of a value against a schema is the work of jsonschema, a parameter; what it answers for the
  keywords the schemas use is its documented behaviour, stated by \<open>schema_ok\<close>.
\<close>

section \<open>Character classes\<close>

text \<open>
  The text between the brackets of a character class, its escapes read: a character, or an unescaped
  minus sign, which makes a range between two characters.
\<close>

datatype class_token = Ch nat | Dash

fun in_class :: "class_token list \<Rightarrow> nat \<Rightarrow> bool" where
  "in_class [] x = False"
| "in_class (Ch a # Dash # Ch b # ts) x = (a \<le> x \<and> x \<le> b \<or> in_class ts x)"
| "in_class (Ch a # ts) x = (x = a \<or> in_class ts x)"
| "in_class (Dash # ts) x = (x = 45 \<or> in_class ts x)"

text \<open>\<open>unicodedata.category\<close> is the argument \<open>category\<close>.\<close>

type_synonym category = "nat \<Rightarrow> string"

definition is_printable :: "category \<Rightarrow> nat \<Rightarrow> bool" where
  "is_printable category c \<longleftrightarrow> take 1 (category c) \<noteq> ''C'' \<and> (take 1 (category c) \<noteq> ''Z'' \<or> category c = ''Zs'')"

definition get_all_chars :: "nat list" where
  "get_all_chars = [0..<65535]"

definition valid_char :: "category \<Rightarrow> bool \<Rightarrow> bool \<Rightarrow> nat list \<Rightarrow> nat \<Rightarrow> bool" where
  "valid_char category ws inverted exclude c =
     (let result = (if c \<in> set exclude then False
        else if ws then is_printable category c
        else is_printable category c \<and> category c \<noteq> ''Zs'')
      in if inverted then \<not> result else result)"

text \<open>The variables of the loop: the text so far, and where the current range began.\<close>

record range_state =
  rs_regex :: "class_token list"
  rs_in_range :: bool
  rs_last :: "nat option"
  rs_last_added :: "nat option"

definition dash_to :: "nat option \<Rightarrow> class_token list" where
  "dash_to c = (case c of None \<Rightarrow> [] | Some x \<Rightarrow> [Dash, Ch x])"

definition range_step :: "(nat \<Rightarrow> bool) \<Rightarrow> nat \<Rightarrow> range_state \<Rightarrow> range_state" where
  "range_step valid c s =
     (if valid c
      then s\<lparr>rs_regex := (if rs_in_range s then rs_regex s else rs_regex s @ [Ch c]),
             rs_last_added := (if rs_in_range s then rs_last_added s else Some c),
             rs_in_range := True, rs_last := Some c\<rparr>
      else s\<lparr>rs_regex := (if rs_in_range s \<and> rs_last s \<noteq> rs_last_added s then rs_regex s @ dash_to (rs_last s) else rs_regex s),
             rs_in_range := False, rs_last := Some c\<rparr>)"

definition regex_range_over :: "(nat \<Rightarrow> bool) \<Rightarrow> nat list \<Rightarrow> class_token list" where
  "regex_range_over valid chars =
     (let s = fold (range_step valid) chars \<lparr>rs_regex = [], rs_in_range = False, rs_last = None, rs_last_added = None\<rparr>
      in if rs_in_range s then rs_regex s @ dash_to (rs_last s) else rs_regex s)"

definition build_regex_range :: "category \<Rightarrow> bool \<Rightarrow> bool \<Rightarrow> nat list \<Rightarrow> class_token list" where
  "build_regex_range category ws inverted exclude = regex_range_over (valid_char category ws inverted exclude) get_all_chars"

section \<open>Patterns\<close>

text \<open>
  The expressions of the schemas have the form of a class repeated between \<open>^\<close> and \<open>$\<close>, and \<open>$\<close> matches
  at the end and before a newline at the end.
\<close>

definition at_end :: "(string \<Rightarrow> bool) \<Rightarrow> string \<Rightarrow> bool" where
  "at_end P s \<longleftrightarrow> P s \<or> (s \<noteq> [] \<and> last s = CHR 0x0A \<and> P (butlast s))"

definition all_in :: "class_token list \<Rightarrow> string \<Rightarrow> bool" where
  "all_in cls s = list_all (\<lambda>c. in_class cls (of_char c)) s"

datatype pattern = Whole "class_token list" nat "nat option"

primrec pattern_matches :: "pattern \<Rightarrow> string \<Rightarrow> bool" where
  "pattern_matches (Whole cls lo hi) s = at_end (\<lambda>t. all_in cls t \<and> lo \<le> length t \<and>
     (case hi of None \<Rightarrow> True | Some n \<Rightarrow> length t \<le> n)) s"

definition valid_description_regex :: "category \<Rightarrow> pattern" where
  "valid_description_regex category = Whole (Ch 10 # build_regex_range category True False []) 0 None"

text \<open>\<open>^(?![..])[..]*(?<![..])$\<close>: the first and the last character are looked at again.\<close>

definition valid_name_regex :: "category \<Rightarrow> string \<Rightarrow> bool" where
  "valid_name_regex category s =
     (let outside = build_regex_range category False True []; inside = build_regex_range category True False [] in
      at_end (\<lambda>t. (case s of [] \<Rightarrow> True | c # _ \<Rightarrow> \<not> in_class outside (of_char c)) \<and> all_in inside t \<and>
        (t = [] \<or> \<not> in_class outside (of_char (last t)))) s)"

definition alphanumeric :: "class_token list" where
  "alphanumeric = [Ch 97, Dash, Ch 122, Ch 65, Dash, Ch 90, Ch 48, Dash, Ch 57]"

section \<open>Schemas\<close>

datatype keyword =
    K_type "string list" | K_enum "json list" | K_minLength nat | K_maxLength nat | K_pattern pattern
  | K_format string | K_properties "(string \<times> keyword list) list"
  | K_patternProperties "(pattern \<times> keyword list) list" | K_additionalProperties bool
  | K_required "string list" | K_anyOf "string list list"

type_synonym schema = "keyword list"

text \<open>Every alternative of an \<open>anyOf\<close> of the schemas is a \<open>required\<close>; \<open>K_anyOf\<close> has their lists.\<close>

definition name_type :: schema where
  "name_type = [K_type [''string''], K_minLength 1, K_maxLength 255, K_format ''name'']"

definition description_type :: "category \<Rightarrow> schema" where
  "description_type category = [K_type [''string'', ''null''], K_minLength 0, K_pattern (valid_description_regex category)]"

definition type_type :: schema where
  "type_type = [K_type [''string'', ''null''], K_minLength 0, K_maxLength 255, K_pattern (Whole alphanumeric 0 None)]"

definition boolean_type :: schema where
  "boolean_type = [K_type [''boolean'', ''string''], K_enum
     ([JBool True] @ map JStr [''True'', ''TRUE'', ''true'', ''1'', ''ON'', ''On'', ''on'', ''YES'', ''Yes'', ''yes''] @
      [JBool False] @ map JStr [''False'', ''FALSE'', ''false'', ''0'', ''OFF'', ''Off'', ''off'', ''NO'', ''No'', ''no''])]"

definition hostname_type :: schema where
  "hostname_type = [K_type [''string''], K_minLength 1, K_maxLength 255,
     K_pattern (Whole (alphanumeric @ [Ch 45, Ch 46, Ch 95]) 0 None)]"

definition payload_type :: schema where
  "payload_type = [K_type [''object''],
     K_patternProperties [(Whole (alphanumeric @ [Ch 45, Ch 95, Ch 58, Ch 46, Ch 32]) 1 (Some 255),
        [K_type [''string''], K_maxLength 255])],
     K_additionalProperties False]"

definition object_type :: "(string \<times> schema) list \<Rightarrow> keyword list \<Rightarrow> schema" where
  "object_type ps constraints = [K_type [''object''], K_properties ps, K_additionalProperties False] @ constraints"

definition enum_type :: "string list \<Rightarrow> schema" where
  "enum_type members = [K_type [''string''], K_enum (map JStr members)]"

text \<open>The body of a request is an object with one property.\<close>

definition body_type :: "string \<Rightarrow> schema \<Rightarrow> schema" where
  "body_type name s = object_type [(name, s)] [K_required [name]]"

definition segment_properties :: "category \<Rightarrow> (string \<times> schema) list" where
  "segment_properties category = [(''name'', name_type), (''description'', description_type category),
     (''recovery_method'', enum_type [''auto'', ''reserved_host'', ''auto_priority'', ''rh_priority'']),
     (''service_type'', name_type)]"

definition enabled_property :: "(string \<times> schema) list" where
  "enabled_property = [(''enabled'', boolean_type)]"

definition segments_create_schema :: "category \<Rightarrow> schema" where
  "segments_create_schema category = body_type ''segment'' (object_type (segment_properties category)
     [K_required [''name'', ''recovery_method'', ''service_type'']])"

definition segments_create_v12 :: "category \<Rightarrow> schema" where
  "segments_create_v12 category = body_type ''segment'' (object_type (segment_properties category @ enabled_property)
     [K_required [''name'', ''recovery_method'', ''service_type'']])"

definition segments_update_schema :: "category \<Rightarrow> schema" where
  "segments_update_schema category = body_type ''segment'' (object_type (segment_properties category)
     [K_anyOf [[''name''], [''description''], [''recovery_method''], [''service_type'']]])"

definition segments_update_v12 :: "category \<Rightarrow> schema" where
  "segments_update_v12 category = body_type ''segment'' (object_type (segment_properties category @ enabled_property)
     [K_anyOf [[''name''], [''description''], [''recovery_method''], [''service_type''], [''enabled'']]])"

definition host_properties :: "category \<Rightarrow> (string \<times> schema) list" where
  "host_properties category = [(''name'', name_type), (''type'', type_type), (''control_attributes'', description_type category),
     (''reserved'', boolean_type), (''on_maintenance'', boolean_type)]"

definition hosts_create_schema :: "category \<Rightarrow> schema" where
  "hosts_create_schema category = body_type ''host'' (object_type (host_properties category)
     [K_required [''name'', ''type'', ''control_attributes'']])"

definition hosts_update_schema :: "category \<Rightarrow> schema" where
  "hosts_update_schema category = body_type ''host'' (object_type (host_properties category)
     [K_anyOf [[''name''], [''type''], [''control_attributes''], [''reserved''], [''on_maintenance'']]])"

definition notifications_create_schema :: schema where
  "notifications_create_schema = body_type ''notification'' (object_type
     [(''type'', enum_type [''COMPUTE_HOST'', ''VM'', ''PROCESS'']), (''hostname'', hostname_type),
      (''generated_time'', [K_type [''string''], K_format ''date-time'']), (''payload'', payload_type)]
     [K_required [''type'', ''hostname'', ''generated_time'', ''payload'']])"

definition text_of_length :: "nat \<Rightarrow> schema" where
  "text_of_length n = [K_type [''string''], K_minLength 1, K_maxLength n]"

definition create_compute_host_payload :: schema where
  "create_compute_host_payload = object_type
     [(''host_status'', enum_type [''NORMAL'', ''UNKNOWN'']), (''cluster_status'', enum_type [''ONLINE'', ''OFFLINE'']),
      (''event'', enum_type [''STARTED'', ''STOPPED''])] [K_required [''event'']]"

definition create_process_payload :: schema where
  "create_process_payload = object_type
     [(''process_name'', text_of_length 4096), (''event'', enum_type [''STARTED'', ''STOPPED''])]
     [K_required [''process_name'', ''event'']]"

definition create_vm_payload :: schema where
  "create_vm_payload = object_type
     [(''instance_uuid'', [K_type [''string''], K_format ''uuid'']), (''vir_domain_event'', text_of_length 255),
      (''event'', text_of_length 255)] [K_required [''instance_uuid'', ''vir_domain_event'', ''event'']]"

definition update_start_limit_schema :: schema where
  "update_start_limit_schema = body_type ''start_limit''
     (object_type [(''max_parallel_starts_per_host'', [K_type [''integer'']])] [K_required [''max_parallel_starts_per_host'']])"

section \<open>Formats\<close>

text \<open>What the checks use: \<open>unicodedata.category\<close>, \<open>timeutils.parse_isotime\<close> and \<open>is_uuid_like\<close>.\<close>

record text_lib =
  tx_category :: category
  tx_isotime :: "string \<Rightarrow> int option"
  tx_uuid :: "string \<Rightarrow> bool"

definition mk_InvalidName :: exc where
  "mk_InvalidName = Exc InvalidName (''An invalid '' @ [CHR 0x27] @ ''name'' @ [CHR 0x27] @
     '' value was provided. The name must be: printable characters. Can not start or end with whitespace.'')"

definition validate_name :: "text_lib \<Rightarrow> json \<Rightarrow> exc + bool" where
  "validate_name T instance = (case instance of
     JStr s \<Rightarrow> if valid_name_regex (tx_category T) s then Inr True else Inl mk_InvalidName
   | _ \<Rightarrow> Inl mk_InvalidName)"

text \<open>
  The verdict of \<open>FormatChecker.check\<close>: conforming, or the cause of the \<open>FormatError\<close>. A format without
  a checker is not checked; parsing something that is no text raises \<open>TypeError\<close>, the cause given here.
\<close>

definition check_format :: "text_lib \<Rightarrow> string \<Rightarrow> json \<Rightarrow> exc option + unit" where
  "check_format T fmt instance =
     (if fmt = ''name'' then (case validate_name T instance of Inl e \<Rightarrow> Inl (Some e) | Inr b \<Rightarrow> if b then Inr () else Inl None)
      else if fmt = ''uuid'' then (case instance of JStr s \<Rightarrow> if tx_uuid T s then Inr () else Inl None | _ \<Rightarrow> Inl None)
      else if fmt = ''date-time'' then (case instance of
          JStr s \<Rightarrow> if tx_isotime T s \<noteq> None then Inr () else Inl None
        | _ \<Rightarrow> Inl (Some (Exc TypeError ''expected string'')))
      else Inr ())"

section \<open>Validation\<close>

primrec has_type :: "string \<Rightarrow> json \<Rightarrow> bool" where
  "has_type t JNull = (t = ''null'')"
| "has_type t (JBool b) = (t = ''boolean'')"
| "has_type t (JInt i) = (t = ''integer'' \<or> t = ''number'')"
| "has_type t (JStr s) = (t = ''string'')"
| "has_type t (JTime x) = False"
| "has_type t (JList xs) = (t = ''array'')"
| "has_type t (JObj d) = (t = ''object'')"

primrec properties_of :: "keyword \<Rightarrow> string list" where
  "properties_of (K_properties ps) = map fst ps"
| "properties_of (K_type ts) = []" | "properties_of (K_enum vs) = []" | "properties_of (K_minLength n) = []"
| "properties_of (K_maxLength n) = []" | "properties_of (K_pattern p) = []" | "properties_of (K_format f) = []"
| "properties_of (K_patternProperties ps) = []" | "properties_of (K_additionalProperties b) = []"
| "properties_of (K_required ns) = []" | "properties_of (K_anyOf nss) = []"

primrec patterns_of :: "keyword \<Rightarrow> pattern list" where
  "patterns_of (K_patternProperties ps) = map fst ps"
| "patterns_of (K_type ts) = []" | "patterns_of (K_enum vs) = []" | "patterns_of (K_minLength n) = []"
| "patterns_of (K_maxLength n) = []" | "patterns_of (K_pattern p) = []" | "patterns_of (K_format f) = []"
| "patterns_of (K_properties ps) = []" | "patterns_of (K_additionalProperties b) = []"
| "patterns_of (K_required ns) = []" | "patterns_of (K_anyOf nss) = []"

text \<open>
  The meaning of a keyword of a schema, the documented behaviour of a Draft 4 validator on it: a keyword
  says nothing of a value of another type than its own, and \<open>additionalProperties\<close> looks at the
  properties its schema \<open>s\<close> names.
\<close>

fun keyword_ok :: "text_lib \<Rightarrow> schema \<Rightarrow> keyword \<Rightarrow> json \<Rightarrow> bool" where
  "keyword_ok T s (K_type ts) j = list_ex (\<lambda>t. has_type t j) ts"
| "keyword_ok T s (K_enum vs) j = (j \<in> set vs)"
| "keyword_ok T s (K_minLength n) j = (case j of JStr x \<Rightarrow> n \<le> length x | _ \<Rightarrow> True)"
| "keyword_ok T s (K_maxLength n) j = (case j of JStr x \<Rightarrow> length x \<le> n | _ \<Rightarrow> True)"
| "keyword_ok T s (K_pattern p) j = (case j of JStr x \<Rightarrow> pattern_matches p x | _ \<Rightarrow> True)"
| "keyword_ok T s (K_format f) j = (check_format T f j = Inr ())"
| "keyword_ok T s (K_properties ps) j = (case j of
     JObj d \<Rightarrow> (\<forall>p \<in> set ps. case map_of d (fst p) of None \<Rightarrow> True | Some v \<Rightarrow> (\<forall>k \<in> set (snd p). keyword_ok T (snd p) k v))
   | _ \<Rightarrow> True)"
| "keyword_ok T s (K_patternProperties ps) j = (case j of
     JObj d \<Rightarrow> (\<forall>p \<in> set ps. \<forall>v \<in> set d. pattern_matches (fst p) (fst v) \<longrightarrow> (\<forall>k \<in> set (snd p). keyword_ok T (snd p) k (snd v)))
   | _ \<Rightarrow> True)"
| "keyword_ok T s (K_additionalProperties b) j = (case j of
     JObj d \<Rightarrow> b \<or> list_all (\<lambda>v. fst v \<in> set (concat (map properties_of s)) \<or>
       list_ex (\<lambda>p. pattern_matches p (fst v)) (concat (map patterns_of s))) d
   | _ \<Rightarrow> True)"
| "keyword_ok T s (K_required ns) j = (case j of JObj d \<Rightarrow> list_all (\<lambda>n. map_of d n \<noteq> None) ns | _ \<Rightarrow> True)"
| "keyword_ok T s (K_anyOf nss) j = (case j of JObj d \<Rightarrow> list_ex (list_all (\<lambda>n. map_of d n \<noteq> None)) nss | _ \<Rightarrow> True)"

definition schema_ok :: "text_lib \<Rightarrow> schema \<Rightarrow> json \<Rightarrow> bool" where
  "schema_ok T s j = list_all (\<lambda>k. keyword_ok T s k j) s"

text \<open>
  An error of jsonschema, as \<open>_SchemaValidator.validate\<close> reads it: the cause, the path, the value and
  the message; or the \<open>TypeError\<close> of a check.
\<close>

record schema_error =
  se_cause :: "exc option"
  se_path :: "string list"
  se_value :: string
  se_message :: string

datatype checked = Conforms | SchemaFault schema_error | SchemaTypeError string

type_synonym validator = "schema \<Rightarrow> json \<Rightarrow> checked"

definition mk_ValidationError :: "string \<Rightarrow> exc" where
  "mk_ValidationError detail = Exc ValidationError detail"

definition error_detail :: "schema_error \<Rightarrow> string" where
  "error_detail ex =
     (let detail = (if se_path ex \<noteq> []
        then ''Invalid input for field/attribute '' @ last (se_path ex) @ ''. Value: '' @ se_value ex @ ''. '' @ se_message ex
        else se_message ex)
      in case se_cause ex of None \<Rightarrow> detail | Some e \<Rightarrow> if isinstance e InvalidName then message e else detail)"

definition validate :: "validator \<Rightarrow> schema \<Rightarrow> json \<Rightarrow> exc + unit" where
  "validate V s body = (case V s body of
     Conforms \<Rightarrow> Inr ()
   | SchemaFault ex \<Rightarrow> Inl (mk_ValidationError (error_detail ex))
   | SchemaTypeError detail \<Rightarrow> Inl (mk_ValidationError detail))"

text \<open>The decorator: the body is only checked when the version of the request is within the bounds.\<close>

definition with_schema ::
  "validator \<Rightarrow> schema \<Rightarrow> string option \<Rightarrow> string option \<Rightarrow> (api_version_request \<Rightarrow> json \<Rightarrow> ('n, 'k, 'a) prog)
   \<Rightarrow> api_version_request \<Rightarrow> json \<Rightarrow> ('n, 'k, 'a) prog" where
  "with_schema V s min_version max_version f v body =
     bindM (liftE (APIVersionRequest min_version)) (\<lambda>min_ver.
     bindM (liftE (APIVersionRequest max_version)) (\<lambda>max_ver.
     bindM (liftE (matches v min_ver max_ver)) (\<lambda>within.
     bindM (if within then liftE (validate V s body) else retM ()) (\<lambda>_. f v body))))"

text \<open>What the program relies on: jsonschema accepts a value exactly when it conforms to the schema.\<close>

definition validator_ok :: "text_lib \<Rightarrow> validator \<Rightarrow> bool" where
  "validator_ok T V \<longleftrightarrow> (\<forall>s j. V s j = Conforms \<longleftrightarrow> schema_ok T s j)"

lemma validate_ok: "validator_ok T V \<Longrightarrow> validate V s j = Inr () \<longleftrightarrow> schema_ok T s j"
proof -
  assume "validator_ok T V"
  then have "V s j = Conforms \<longleftrightarrow> schema_ok T s j" by (simp add: validator_ok_def)
  then show ?thesis by (cases "V s j") (simp_all add: validate_def)
qed

lemma validate_error: "validate V s j = Inl e \<Longrightarrow> cls_of e = ValidationError"
  by (auto simp: validate_def mk_ValidationError_def split: checked.splits)

section \<open>The built classes\<close>

text \<open>\<open>ts\<close> is a complete piece of a class, for the characters in \<open>P\<close>, before anything but a minus sign.\<close>

definition covers :: "class_token list \<Rightarrow> (nat \<Rightarrow> bool) \<Rightarrow> bool" where
  "covers ts P \<longleftrightarrow> (\<forall>rest x. (rest = [] \<or> hd rest \<noteq> Dash) \<longrightarrow> in_class (ts @ rest) x = (P x \<or> in_class rest x))"

lemma in_class_Ch: "rest = [] \<or> hd rest \<noteq> Dash \<Longrightarrow> in_class (Ch a # rest) x \<longleftrightarrow> x = a \<or> in_class rest x"
  by (cases rest; cases "hd rest") auto

lemma covers_Nil [simp]: "covers [] P \<longleftrightarrow> (\<forall>x. \<not> P x)"
  unfolding covers_def by (auto dest: spec [of _ "[]"])

lemma covers_single: "covers ts P \<Longrightarrow> covers (ts @ [Ch a]) (\<lambda>x. P x \<or> x = a)"
  by (auto simp: covers_def in_class_Ch)

lemma covers_range: "covers ts P \<Longrightarrow> covers (ts @ [Ch a, Dash, Ch b]) (\<lambda>x. P x \<or> a \<le> x \<and> x \<le> b)"
  by (auto simp: covers_def)

lemma covers_class: "covers ts P \<Longrightarrow> in_class ts x = P x"
  unfolding covers_def by (auto dest: spec [of _ "[]"])

lemma covers_cong: "covers ts P \<Longrightarrow> (\<And>x. P x = Q x) \<Longrightarrow> covers ts Q"
  by (simp add: covers_def)

definition range_inv :: "(nat \<Rightarrow> bool) \<Rightarrow> nat \<Rightarrow> range_state \<Rightarrow> bool" where
  "range_inv valid m s \<longleftrightarrow> rs_last s = (if m = 0 then None else Some (m - 1)) \<and>
     (if rs_in_range s
      then \<exists>ts a. rs_regex s = ts @ [Ch a] \<and> rs_last_added s = Some a \<and> a < m \<and> (\<forall>y. a \<le> y \<and> y < m \<longrightarrow> valid y) \<and>
        covers ts (\<lambda>x. x < a \<and> valid x)
      else covers (rs_regex s) (\<lambda>x. x < m \<and> valid x))"

lemma range_inv_step: "range_inv valid m s \<Longrightarrow> range_inv valid (Suc m) (range_step valid m s)"
proof (cases "valid m")
  case True
  assume inv: "range_inv valid m s"
  show ?thesis
  proof (cases "rs_in_range s")
    case True
    with \<open>valid m\<close> inv show ?thesis
      by (auto simp: range_inv_def range_step_def less_Suc_eq)
  next
    case False
    with \<open>valid m\<close> inv show ?thesis
      by (auto simp: range_inv_def range_step_def le_less_Suc_eq)
  qed
next
  case False
  assume inv: "range_inv valid m s"
  show ?thesis
  proof (cases "rs_in_range s")
    case True
    with inv obtain ts a where ts: "rs_regex s = ts @ [Ch a]" "rs_last_added s = Some a" "a < m" "rs_last s = Some (m - 1)"
      "\<forall>y. a \<le> y \<and> y < m \<longrightarrow> valid y" "covers ts (\<lambda>x. x < a \<and> valid x)" by (auto simp: range_inv_def)
    show ?thesis
    proof (cases "m - 1 = a")
      case True
      have "covers (ts @ [Ch a]) (\<lambda>x. x < Suc m \<and> valid x)"
        by (rule covers_cong [OF covers_single [OF ts(6)]]) (use ts True False in \<open>auto simp: less_Suc_eq\<close>)
      then show ?thesis using ts True False \<open>rs_in_range s\<close> by (simp add: range_inv_def range_step_def)
    next
      case no: False
      have "covers (ts @ [Ch a, Dash, Ch (m - 1)]) (\<lambda>x. x < Suc m \<and> valid x)"
        by (rule covers_cong [OF covers_range [OF ts(6)]]) (use ts no False in \<open>auto simp: less_Suc_eq\<close>)
      then show ?thesis using ts no False \<open>rs_in_range s\<close> by (simp add: range_inv_def range_step_def dash_to_def)
    qed
  next
    case no: False
    then have "covers (rs_regex s) (\<lambda>x. x < Suc m \<and> valid x)"
      using inv False by (auto simp: range_inv_def less_Suc_eq intro: covers_cong)
    then show ?thesis using no False by (simp add: range_inv_def range_step_def)
  qed
qed

lemma regex_range_over_spec: "in_class (regex_range_over valid [0..<m]) x \<longleftrightarrow> x < m \<and> valid x"
proof -
  define s where "s = fold (range_step valid) [0..<m] \<lparr>rs_regex = [], rs_in_range = False, rs_last = None, rs_last_added = None\<rparr>"
  have inv: "range_inv valid m s"
    unfolding s_def by (induction m) (simp_all add: range_inv_def [of _ 0] range_inv_step)
  show ?thesis
  proof (cases "rs_in_range s")
    case False
    then have "covers (rs_regex s) (\<lambda>x. x < m \<and> valid x)" using inv by (simp add: range_inv_def)
    from covers_class [OF this] False show ?thesis by (simp add: regex_range_over_def flip: s_def)
  next
    case True
    with inv obtain ts a where ts: "rs_regex s = ts @ [Ch a]" "a < m" "rs_last s = Some (m - 1)"
      "\<forall>y. a \<le> y \<and> y < m \<longrightarrow> valid y" "covers ts (\<lambda>x. x < a \<and> valid x)" by (auto simp: range_inv_def split: if_splits)
    then have "in_class (ts @ [Ch a, Dash, Ch (m - 1)]) x \<longleftrightarrow> x < a \<and> valid x \<or> a \<le> x \<and> x \<le> m - 1"
      by (intro covers_class covers_range)
    then show ?thesis using ts True by (auto simp: regex_range_over_def dash_to_def simp flip: s_def)
  qed
qed

text \<open>C39. The character classes of the schemas are built right: a class contains exactly the characters below
  0xFFFF that the function \<open>valid_char\<close> accepts, with or without white space, inverted or not.\<close>

theorem build_regex_range_spec:
  "in_class (build_regex_range category ws inverted exclude) x \<longleftrightarrow> x < 65535 \<and> valid_char category ws inverted exclude x"
  unfolding build_regex_range_def get_all_chars_def by (rule regex_range_over_spec)

text \<open>The same for the characters of a text, which are all below that bound.\<close>

lemma char_small: "of_char c < (65535 :: nat)"
proof -
  have "of_char c < (256 :: nat)" by (rule nat_of_char_less_256)
  then show ?thesis by (rule less_trans) simp
qed

lemma in_built_class [simp]:
  "in_class (build_regex_range category ws inverted exclude) (of_char c) \<longleftrightarrow> valid_char category ws inverted exclude (of_char c)"
  unfolding build_regex_range_def get_all_chars_def regex_range_over_spec using char_small by blast

section \<open>Names\<close>

definition printable :: "category \<Rightarrow> char \<Rightarrow> bool" where
  "printable category c = is_printable category (of_char c)"

definition space :: "category \<Rightarrow> char \<Rightarrow> bool" where
  "space category c \<longleftrightarrow> category (of_char c) = ''Zs''"

definition good_name :: "category \<Rightarrow> string \<Rightarrow> bool" where
  "good_name category t \<longleftrightarrow> t \<noteq> [] \<and> list_all (printable category) t \<and> \<not> space category (hd t) \<and> \<not> space category (last t)"

text \<open>What is between \<open>^\<close> and \<open>$\<close> of the expression for a name that begins with \<open>c\<close>.\<close>

definition name_part :: "category \<Rightarrow> char \<Rightarrow> string \<Rightarrow> bool" where
  "name_part category c t \<longleftrightarrow> printable category c \<and> \<not> space category c \<and> list_all (printable category) t \<and>
     (t = [] \<or> printable category (last t) \<and> \<not> space category (last t))"

lemma valid_name_regex_Cons: "valid_name_regex category (c # s) \<longleftrightarrow> at_end (name_part category c) (c # s)"
proof -
  have "(\<lambda>t. (case c # s of [] \<Rightarrow> True | c # _ \<Rightarrow> \<not> in_class (build_regex_range category False True []) (of_char c)) \<and>
      all_in (build_regex_range category True False []) t \<and>
      (t = [] \<or> \<not> in_class (build_regex_range category False True []) (of_char (last t)))) = name_part category c"
    by (rule ext) (simp add: all_in_def valid_char_def printable_def space_def name_part_def list_all_iff)
  then show ?thesis by (simp add: valid_name_regex_def Let_def)
qed

lemma name_part_good: "t \<noteq> [] \<Longrightarrow> hd t = c \<Longrightarrow> name_part category c t \<longleftrightarrow> good_name category t"
  by (cases t) (auto simp: name_part_def good_name_def list_all_iff)

lemma valid_name_regex_iff:
  assumes "s \<noteq> []"
  shows "valid_name_regex category s \<longleftrightarrow> (\<exists>t. (s = t \<or> s = t @ [CHR 0x0A]) \<and> good_name category t)"
proof -
  obtain c cs where s: "s = c # cs" using assms by (cases s) auto
  have whole: "name_part category c s \<longleftrightarrow> good_name category s" using s by (simp add: name_part_good)
  have front: "name_part category c (butlast s) \<longleftrightarrow> good_name category (butlast s)" if "butlast s \<noteq> []"
    using that s by (cases cs) (simp_all add: name_part_good)
  have single: "name_part category c [] \<Longrightarrow> butlast s = [] \<Longrightarrow> good_name category s"
    using s by (cases cs) (simp_all add: name_part_def good_name_def)
  have newline: "s = t @ [CHR 0x0A] \<longleftrightarrow> last s = CHR 0x0A \<and> butlast s = t" for t
    using assms append_butlast_last_id [of s] by (metis butlast_snoc last_snoc)
  have "\<not> good_name category []" by (simp add: good_name_def)
  then show ?thesis
    using whole front single unfolding s [symmetric] valid_name_regex_Cons [of category c cs, folded s] at_end_def newline
    by (metis assms)
qed


end
