(* ===== verification/Masakari_Controllers.thy ===== *)
theory Masakari_Controllers
  imports Masakari_Validation Masakari_HaApi
begin

text \<open>
  The controllers of the REST API on segments, hosts, notifications and VM moves
  (\<open>api/openstack/ha/segments.py\<close>, \<open>hosts.py\<close>, \<open>notifications.py\<close>, \<open>vmoves.py\<close>, \<open>views/hosts.py\<close>): an
  action takes the version of the request, the request and its body, and answers with a JSON value. The
  objects of the database are shown as their serialisation gives them, a dictionary of their fields.
\<close>

section \<open>Environment\<close>

text \<open>
  The libraries; the Nova client; the RPC cast of a notification to the engine and the RPC call for the
  details of its workflow; and how the database reads a text it is given for a Boolean column (an error
  for most) and for a row id.
\<close>

record 'n web_env =
  we_lib :: lib
  we_api :: api_lib
  we_text :: text_lib
  we_valid :: validator
  we_nova :: "'n nova_client"
  we_conf :: conf
  we_cast :: "notification \<Rightarrow> exc option"
  we_details :: "notification \<Rightarrow> exc + json"
  we_bool_column :: "string \<Rightarrow> bool option"
  we_row_id :: "string \<Rightarrow> nat"

section \<open>Views\<close>

definition json_time :: "int option \<Rightarrow> json" where
  "json_time t = (case t of None \<Rightarrow> JNull | Some x \<Rightarrow> JTime x)"

definition base_fields :: "'a row_scheme \<Rightarrow> json dict" where
  "base_fields r = [(''created_at'', json_time (created_at r)), (''updated_at'', json_time (updated_at r)),
     (''deleted_at'', json_time (deleted_at r)), (''deleted'', JBool (deleted r \<noteq> 0))]"

definition segment_json :: "segment \<Rightarrow> json" where
  "segment_json s = JObj (base_fields s @ [(''id'', JInt (int (rid s))), (''uuid'', JStr (sg_uuid s)), (''name'', JStr (sg_name s)),
     (''service_type'', JStr (sg_service_type s)), (''enabled'', JBool (sg_enabled s)), (''description'', json_text (sg_description s)),
     (''recovery_method'', JStr (recovery_method_value (sg_recovery_method s)))])"

definition notification_json :: "notification \<Rightarrow> json" where
  "notification_json n = JObj (base_fields n @ [(''id'', JInt (int (rid n))), (''notification_uuid'', JStr (n_uuid n)),
     (''generated_time'', JTime (n_generated_time n)), (''source_host_uuid'', JStr (n_source_host_uuid n)),
     (''type'', JStr (notification_type_value (n_type n))), (''payload'', JObj (map (\<lambda>(k, v). (k, JStr v)) (n_payload n))),
     (''status'', JStr (notification_status_value (n_status n)))])"

definition vmove_json :: "vmove \<Rightarrow> json" where
  "vmove_json v = JObj (base_fields v @ [(''id'', JInt (int (rid v))), (''uuid'', JStr (vm_uuid v)),
     (''notification_uuid'', JStr (vm_notification_uuid v)), (''instance_uuid'', JStr (vm_instance_uuid v)),
     (''instance_name'', JStr (vm_instance_name v)), (''source_host'', json_text (vm_source_host v)),
     (''dest_host'', json_text (vm_dest_host v)), (''start_time'', json_time (vm_start_time v)), (''end_time'', json_time (vm_end_time v)),
     (''type'', json_text (map_option vmove_type_value (vm_type v))),
     (''status'', json_text (map_option vmove_status_value (vm_status v))), (''message'', json_text (vm_message v))])"

text \<open>\<open>ViewBuilder._host_details\<close> of a host with its segment.\<close>

definition host_details :: "host \<times> segment \<Rightarrow> json" where
  "host_details p = (case p of (h, sg) \<Rightarrow> JObj
     [(''id'', JInt (int (rid h))), (''uuid'', JStr (h_uuid h)), (''name'', JStr (h_name h)),
      (''failover_segment_id'', JStr (sg_uuid sg)), (''failover_segment'', segment_json sg), (''type'', JStr (h_type h)),
      (''reserved'', JBool (h_reserved h)), (''control_attributes'', JStr (h_control_attributes h)),
      (''on_maintenance'', JBool (h_on_maintenance h)), (''created_at'', json_time (created_at h)),
      (''updated_at'', json_time (updated_at h)), (''deleted_at'', json_time (deleted_at h)), (''deleted'', JBool (deleted h \<noteq> 0))])"

definition build_host :: "host \<times> segment \<Rightarrow> json" where
  "build_host p = host_details p"

definition build_hosts :: "(host \<times> segment) list \<Rightarrow> json" where
  "build_hosts ps = JObj [(''hosts'', JList (map host_details ps))]"

section \<open>Bodies\<close>

text \<open>
  The body as a keyword argument, which the decorator \<open>schema\<close> looks up, and \<open>body[name]\<close>. The fields of
  an object take a text where the schemas admit a text; a value of another kind does not get past them
  (\<open>admitted_segment\<close> and the lemmas after it), and is an error here.
\<close>

definition body_argument :: "(json \<Rightarrow> ('n, 'k, 'a) prog) \<Rightarrow> json option \<Rightarrow> ('n, 'k, 'a) prog" where
  "body_argument f body = (case body of None \<Rightarrow> raiseM (Exc KeyError ''body'') | Some b \<Rightarrow> f b)"

definition body_section :: "string \<Rightarrow> json \<Rightarrow> exc + json dict" where
  "body_section name body = (case body of
     JObj b \<Rightarrow> (case map_of b name of None \<Rightarrow> Inl (Exc KeyError name)
       | Some v \<Rightarrow> (case v of JObj d \<Rightarrow> Inr d | _ \<Rightarrow> Inl (Exc OtherException ''object has no attribute get'')))
   | _ \<Rightarrow> Inl (Exc TypeError ''indices must be integers''))"

definition bad_field :: "string \<Rightarrow> exc" where
  "bad_field name = Exc ValueError (''Field `'' @ name @ [CHR 0x27])"

definition text_field :: "json dict \<Rightarrow> string \<Rightarrow> exc + string" where
  "text_field d name = (case map_of d name of Some (JStr s) \<Rightarrow> Inr s | _ \<Rightarrow> Inl (bad_field name))"

definition null_or_text :: "string \<Rightarrow> json \<Rightarrow> exc + string option" where
  "null_or_text name v = (case v of JStr s \<Rightarrow> Inr (Some s) | JNull \<Rightarrow> Inr None | _ \<Rightarrow> Inl (bad_field name))"

definition enum_of :: "('v \<Rightarrow> string) \<Rightarrow> 'v list \<Rightarrow> string \<Rightarrow> 'v option" where
  "enum_of value members s = find (\<lambda>x. value x = s) members"

definition enum_field :: "('v \<Rightarrow> string) \<Rightarrow> 'v list \<Rightarrow> json dict \<Rightarrow> string \<Rightarrow> exc + 'v" where
  "enum_field value members d name = (case text_field d name of Inl e \<Rightarrow> Inl e
     | Inr s \<Rightarrow> (case enum_of value members s of None \<Rightarrow> Inl (bad_field name) | Some x \<Rightarrow> Inr x))"

text \<open>A field of an update that may be missing.\<close>

definition if_given :: "json dict \<Rightarrow> string \<Rightarrow> (json dict \<Rightarrow> string \<Rightarrow> exc + 'v) \<Rightarrow> exc + 'v option" where
  "if_given d name f = (if map_of d name = None then Inr None else map_sum id Some (f d name))"

definition null_or_text_field :: "json dict \<Rightarrow> string \<Rightarrow> exc + string option" where
  "null_or_text_field d name = null_or_text name (case map_of d name of None \<Rightarrow> JNull | Some v \<Rightarrow> v)"

definition segment_data_of :: "json dict \<Rightarrow> exc + segment_data" where
  "segment_data_of d =
     (case text_field d ''name'' of Inl e \<Rightarrow> Inl e | Inr name \<Rightarrow>
     (case null_or_text_field d ''description'' of Inl e \<Rightarrow> Inl e | Inr description \<Rightarrow>
     (case enum_field recovery_method_value recovery_method_ALL d ''recovery_method'' of Inl e \<Rightarrow> Inl e | Inr m \<Rightarrow>
     (case text_field d ''service_type'' of Inl e \<Rightarrow> Inl e | Inr service_type \<Rightarrow>
       Inr \<lparr>sd_name = name, sd_description = description, sd_recovery_method = m, sd_service_type = service_type,
            sd_enabled = map_of d ''enabled''\<rparr>))))"

definition segment_update_of :: "json dict \<Rightarrow> exc + segment_update" where
  "segment_update_of d =
     (case if_given d ''name'' text_field of Inl e \<Rightarrow> Inl e | Inr name \<Rightarrow>
     (case if_given d ''description'' null_or_text_field of Inl e \<Rightarrow> Inl e | Inr description \<Rightarrow>
     (case if_given d ''recovery_method'' (enum_field recovery_method_value recovery_method_ALL) of Inl e \<Rightarrow> Inl e | Inr m \<Rightarrow>
     (case if_given d ''service_type'' text_field of Inl e \<Rightarrow> Inl e | Inr service_type \<Rightarrow>
       Inr \<lparr>sq_name = name, sq_description = description, sq_recovery_method = m, sq_service_type = service_type,
            sq_enabled = map_of d ''enabled''\<rparr>))))"

definition host_data_of :: "json dict \<Rightarrow> exc + host_data" where
  "host_data_of d =
     (case text_field d ''name'' of Inl e \<Rightarrow> Inl e | Inr name \<Rightarrow>
     (case null_or_text_field d ''type'' of Inl e \<Rightarrow> Inl e | Inr host_type \<Rightarrow>
     (case null_or_text_field d ''control_attributes'' of Inl e \<Rightarrow> Inl e | Inr control_attributes \<Rightarrow>
       Inr \<lparr>hd_name = name, hd_type = host_type, hd_control_attributes = control_attributes,
            hd_on_maintenance = map_of d ''on_maintenance'', hd_reserved = map_of d ''reserved''\<rparr>)))"

definition host_update_of :: "json dict \<Rightarrow> exc + host_update_data" where
  "host_update_of d =
     (case if_given d ''name'' text_field of Inl e \<Rightarrow> Inl e | Inr name \<Rightarrow>
     (case if_given d ''type'' null_or_text_field of Inl e \<Rightarrow> Inl e | Inr host_type \<Rightarrow>
     (case if_given d ''control_attributes'' null_or_text_field of Inl e \<Rightarrow> Inl e | Inr control_attributes \<Rightarrow>
       Inr \<lparr>hq_name = name, hq_type = host_type, hq_control_attributes = control_attributes,
            hq_on_maintenance = map_of d ''on_maintenance'', hq_reserved = map_of d ''reserved''\<rparr>)))"

primrec payload_of :: "json dict \<Rightarrow> exc + string dict" where
  "payload_of [] = Inr []"
| "payload_of (p # ps) = (case snd p of
     JStr s \<Rightarrow> map_sum id ((#) (fst p, s)) (payload_of ps) | _ \<Rightarrow> Inl (bad_field ''payload''))"

definition notification_data_of :: "text_lib \<Rightarrow> json dict \<Rightarrow> exc + notification_data" where
  "notification_data_of T d =
     (case text_field d ''hostname'' of Inl e \<Rightarrow> Inl e | Inr hostname \<Rightarrow>
     (case enum_field notification_type_value notification_type_ALL d ''type'' of Inl e \<Rightarrow> Inl e | Inr t \<Rightarrow>
     (case text_field d ''generated_time'' of Inl e \<Rightarrow> Inl e | Inr s \<Rightarrow>
     (case tx_isotime T s of None \<Rightarrow> Inl (bad_field ''generated_time'') | Some generated_time \<Rightarrow>
     (case body_section ''payload'' (JObj d) of Inl e \<Rightarrow> Inl e | Inr payload \<Rightarrow>
     (case payload_of payload of Inl e \<Rightarrow> Inl e | Inr texts \<Rightarrow>
       Inr \<lparr>nd_hostname = hostname, nd_type = t, nd_generated_time = generated_time, nd_payload = texts\<rparr>))))))"

section \<open>Lists\<close>

text \<open>
  \<open>except C as e: raise HTTPxxx(explanation=e.format_message())\<close>, one clause after the other.
\<close>

definition except_clauses :: "(exc_class list \<times> nat) list \<Rightarrow> ('n, 'k, 'a) prog \<Rightarrow> ('n, 'k, 'a) prog" where
  "except_clauses clauses m = tryM m (\<lambda>e. case find (\<lambda>c. isinstance_any e (fst c)) clauses of
     None \<Rightarrow> raiseM e | Some c \<Rightarrow> http_error (snd c) (message e))"

text \<open>A text of the query on a column of an enumeration: text that is no member is equal to no value.\<close>

definition text_sel :: "request \<Rightarrow> string \<Rightarrow> string sel" where
  "text_sel req name = (case get_param req name of None \<Rightarrow> Any | Some s \<Rightarrow> Is s)"

definition enum_sel :: "('v \<Rightarrow> string) \<Rightarrow> 'v list \<Rightarrow> request \<Rightarrow> string \<Rightarrow> 'v sel" where
  "enum_sel value members req name = (case get_param req name of None \<Rightarrow> Any
     | Some s \<Rightarrow> (case enum_of value members s of None \<Rightarrow> In [] | Some x \<Rightarrow> Is x))"

definition some_sel :: "'v sel \<Rightarrow> 'v option sel" where
  "some_sel x = (case x of Any \<Rightarrow> Any | Is v \<Rightarrow> Is (Some v) | In vs \<Rightarrow> In (map Some vs))"

text \<open>A list with its page: the marker is compared with the ids, and shown as it was sent.\<close>

definition paged :: "'n web_env \<Rightarrow> request
   \<Rightarrow> (string list \<Rightarrow> string list \<Rightarrow> nat option \<Rightarrow> nat option \<Rightarrow> ('n, 'k, 'a) prog) \<Rightarrow> nat \<times> string option \<Rightarrow> ('n, 'k, 'a) prog" where
  "paged W req list_rows page = (case get_sort_params req of (keys, dirs) \<Rightarrow>
     tryM (list_rows keys dirs (Some (fst page)) (map_option (we_row_id W) (snd page)))
       (\<lambda>e. raiseM (if cls_of e = MarkerNotFound
          then mk_MarkerNotFound (case snd page of None \<Rightarrow> ''None'' | Some s \<Rightarrow> s) else e)))"

section \<open>Segments\<close>

text \<open>
  A filter on \<open>enabled\<close> is compared with a Boolean column: text the database layer does not read as a
  Boolean makes the statement fail, once it is executed.
\<close>

definition segments_listed :: "'n web_env \<Rightarrow> request \<Rightarrow> string list \<Rightarrow> string list \<Rightarrow> nat option \<Rightarrow> nat option \<Rightarrow> ('n, 'k, segment list) prog" where
  "segments_listed W req keys dirs limit marker =
     (let get_all = (\<lambda>enabled. get_all_segments (we_lib W) (db_ctx req)
        \<lparr>sf_recovery_method = enum_sel recovery_method_value recovery_method_ALL req ''recovery_method'',
         sf_service_type = text_sel req ''service_type'', sf_enabled = enabled\<rparr> keys dirs limit marker)
      in case get_param req ''enabled'' of None \<Rightarrow> get_all Any
         | Some s \<Rightarrow> (case we_bool_column W s of Some b \<Rightarrow> get_all (Is b)
             | None \<Rightarrow> bindM (get_all Any) (\<lambda>_. if limit = Some 0 then retM []
                 else raiseM (Exc OtherException ''Not a boolean value''))))"

definition segments_index :: "'n web_env \<Rightarrow> request \<Rightarrow> ('n, 'k, json) prog" where
  "segments_index W req = expected_errors (we_api W) [400, 403]
     (bindM (require (we_api W) req (policy_name ''segments'' ''index'')) (\<lambda>_.
      bindM (except_clauses [([MarkerNotFound], 400), ([Invalid], 400)]
        (bindM (liftE (get_limit_and_marker (we_api W) req)) (\<lambda>page. paged W req (segments_listed W req) page))) (\<lambda>sgs.
      retM (JObj [(''segments'', JList (map segment_json sgs))]))))"

definition segments_show :: "'n web_env \<Rightarrow> string \<Rightarrow> request \<Rightarrow> ('n, 'k, json) prog" where
  "segments_show W i req = expected_errors (we_api W) [403, 404]
     (bindM (require (we_api W) req (policy_name ''segments'' ''detail'')) (\<lambda>_.
      bindM (except_as FailoverSegmentNotFound 404 (get_segment (we_lib W) (db_ctx req) i)) (\<lambda>sg.
      retM (JObj [(''segment'', segment_json sg)]))))"

definition segments_create :: "'n web_env \<Rightarrow> api_version_request \<Rightarrow> request \<Rightarrow> json option \<Rightarrow> ('n, 'k, json) prog" where
  "segments_create W v req = (\<lambda>contents. expected_errors (we_api W) [403, 409] (body_argument
     (with_schema (we_valid W) (segments_create_schema (tx_category (we_text W))) (Some ''1.0'') (Some ''1.1'')
     (with_schema (we_valid W) (segments_create_v12 (tx_category (we_text W))) (Some ''1.2'') None (\<lambda>_ body.
       bindM (require (we_api W) req (policy_name ''segments'' ''create'')) (\<lambda>_.
       bindM (liftE (body_section ''segment'' body)) (\<lambda>d.
       bindM (except_as FailoverSegmentExists 409
         (bindM (liftE (segment_data_of d)) (\<lambda>data. create_segment (we_lib W) (db_ctx req) data))) (\<lambda>sg.
       retM (JObj [(''segment'', segment_json sg)])))))) v) contents))"

definition segments_update :: "'n web_env \<Rightarrow> string \<Rightarrow> api_version_request \<Rightarrow> request \<Rightarrow> json option \<Rightarrow> ('n, 'k, json) prog" where
  "segments_update W i v req = (\<lambda>contents. expected_errors (we_api W) [403, 404, 409] (body_argument
     (with_schema (we_valid W) (segments_update_schema (tx_category (we_text W))) (Some ''1.0'') (Some ''1.1'')
     (with_schema (we_valid W) (segments_update_v12 (tx_category (we_text W))) (Some ''1.2'') None (\<lambda>_ body.
       bindM (require (we_api W) req (policy_name ''segments'' ''update'')) (\<lambda>_.
       bindM (liftE (body_section ''segment'' body)) (\<lambda>d.
       bindM (liftE (segment_update_of d)) (\<lambda>data.
       bindM (except_clauses [([FailoverSegmentNotFound], 404), ([FailoverSegmentExists, Conflict], 409)]
         (update_segment (db_ctx req) i data)) (\<lambda>sg.
       retM (JObj [(''segment'', segment_json sg)]))))))) v) contents))"

definition segments_delete :: "'n web_env \<Rightarrow> string \<Rightarrow> request \<Rightarrow> ('n, 'k, json) prog" where
  "segments_delete W i req = expected_errors (we_api W) [403, 404, 409]
     (bindM (require (we_api W) req (policy_name ''segments'' ''delete'')) (\<lambda>_.
      bindM (except_clauses [([FailoverSegmentNotFound], 404), ([Conflict], 409)] (delete_segment (we_lib W) (db_ctx req) i)) (\<lambda>_.
      retM JNull)))"

section \<open>Hosts\<close>

definition bool_param :: "lib \<Rightarrow> request \<Rightarrow> string \<Rightarrow> exc + bool sel" where
  "bool_param L req name = (case get_param req name of None \<Rightarrow> Inr Any
     | Some s \<Rightarrow> (case strict_bool L (JStr s) of Inr b \<Rightarrow> Inr (Is b)
         | Inl e \<Rightarrow> Inl (Exc (HTTPError 400) (''Invalid value for '' @ name @ '': '' @ message e))))"

text \<open>The list of host objects, each with its segment.\<close>

primrec with_segments :: "host list \<Rightarrow> ('n, 'k, (host \<times> segment) list) prog" where
  "with_segments [] = retM []"
| "with_segments (h # hs) = bindM (with_segment h) (\<lambda>p. bindM (with_segments hs) (\<lambda>ps. retM (p # ps)))"

text \<open>The filters \<open>name\<close> and \<open>control_attributes\<close> are set, and the database function does not read them.\<close>

definition hosts_index :: "'n web_env \<Rightarrow> string \<Rightarrow> request \<Rightarrow> ('n, 'k, json) prog" where
  "hosts_index W segment_id req = expected_errors (we_api W) [400, 403, 404]
     (bindM (require (we_api W) req (policy_name ''os-hosts'' ''index'')) (\<lambda>_.
      bindM (except_clauses [([MarkerNotFound], 400), ([Invalid], 400), ([FailoverSegmentNotFound], 404)]
        (bindM (liftE (get_limit_and_marker (we_api W) req)) (\<lambda>page.
         bindM (FailoverSegment_get_by_uuid (db_ctx req) segment_id) (\<lambda>sg.
         bindM (liftE (bool_param (we_lib W) req ''on_maintenance'')) (\<lambda>on_maintenance.
         bindM (liftE (bool_param (we_lib W) req ''reserved'')) (\<lambda>reserved.
         bindM (paged W req (get_all_hosts (we_lib W) (db_ctx req)
           \<lparr>hf_segment_id = Is (sg_uuid sg), hf_type = text_sel req ''type'', hf_on_maintenance = on_maintenance,
            hf_reserved = reserved\<rparr>) page) with_segments))))))
      (\<lambda>ps. retM (build_hosts ps))))"

definition hosts_create :: "'n web_env \<Rightarrow> string \<Rightarrow> api_version_request \<Rightarrow> request \<Rightarrow> json option \<Rightarrow> ('n, 'k, json) prog" where
  "hosts_create W segment_id v req = (\<lambda>contents. expected_errors (we_api W) [400, 403, 404, 409] (body_argument
     (with_schema (we_valid W) (hosts_create_schema (tx_category (we_text W))) None None (\<lambda>_ body.
       bindM (require (we_api W) req (policy_name ''os-hosts'' ''create'')) (\<lambda>_.
       bindM (liftE (body_section ''host'' body)) (\<lambda>d.
       bindM (liftE (host_data_of d)) (\<lambda>data.
       bindM (except_clauses [([ComputeNotFoundByName], 400), ([FailoverSegmentNotFound], 404), ([HostExists], 409)]
         (create_host (we_lib W) (we_nova W) (db_ctx req) segment_id data)) (\<lambda>p.
       retM (JObj [(''host'', build_host p)])))))) v) contents))"

definition hosts_show :: "'n web_env \<Rightarrow> string \<Rightarrow> string \<Rightarrow> request \<Rightarrow> ('n, 'k, json) prog" where
  "hosts_show W segment_id i req = expected_errors (we_api W) [403, 404]
     (bindM (require (we_api W) req (policy_name ''os-hosts'' ''detail'')) (\<lambda>_.
      bindM (except_clauses [([HostNotFound], 404), ([FailoverSegmentNotFound], 404)]
        (get_host (we_lib W) (db_ctx req) segment_id i)) (\<lambda>p.
      retM (JObj [(''host'', build_host p)]))))"

definition hosts_update :: "'n web_env \<Rightarrow> string \<Rightarrow> string \<Rightarrow> api_version_request \<Rightarrow> request \<Rightarrow> json option \<Rightarrow> ('n, 'k, json) prog" where
  "hosts_update W segment_id i v req = (\<lambda>contents. expected_errors (we_api W) [400, 403, 404, 409] (body_argument
     (with_schema (we_valid W) (hosts_update_schema (tx_category (we_text W))) None None (\<lambda>_ body.
       bindM (require (we_api W) req (policy_name ''os-hosts'' ''update'')) (\<lambda>_.
       bindM (liftE (body_section ''host'' body)) (\<lambda>d.
       bindM (liftE (host_update_of d)) (\<lambda>data.
       bindM (except_clauses [([ComputeNotFoundByName], 400), ([HostNotFound], 404), ([FailoverSegmentNotFound], 404),
           ([HostExists, Conflict], 409)]
         (update_host (we_lib W) (we_nova W) (db_ctx req) segment_id i data)) (\<lambda>p.
       retM (JObj [(''host'', build_host p)])))))) v) contents))"

definition hosts_delete :: "'n web_env \<Rightarrow> string \<Rightarrow> string \<Rightarrow> request \<Rightarrow> ('n, 'k, json) prog" where
  "hosts_delete W segment_id i req = expected_errors (we_api W) [403, 404, 409]
     (bindM (require (we_api W) req (policy_name ''os-hosts'' ''delete'')) (\<lambda>_.
      bindM (except_clauses [([FailoverSegmentNotFound], 404), ([HostNotFound], 404), ([Conflict], 409)]
        (delete_host (we_lib W) (db_ctx req) segment_id i)) (\<lambda>_. retM JNull)))"

section \<open>Notifications\<close>

definition payload_schema :: "notification_type \<Rightarrow> schema" where
  "payload_schema t = (case t of PROCESS \<Rightarrow> create_process_payload | VM \<Rightarrow> create_vm_payload
     | COMPUTE_HOST \<Rightarrow> create_compute_host_payload)"

text \<open>\<open>_validate_process_payload\<close> and the two like it, by the type of the notification; a type of none of them is not validated.\<close>

definition validate_payload :: "'n web_env \<Rightarrow> api_version_request \<Rightarrow> json dict \<Rightarrow> ('n, 'k, unit) prog" where
  "validate_payload W v d = (case enum_field notification_type_value notification_type_ALL d ''type'' of
     Inl _ \<Rightarrow> retM ()
   | Inr t \<Rightarrow> with_schema (we_valid W) (payload_schema t) None None (\<lambda>_ _. retM ()) v
       (case map_of d ''payload'' of None \<Rightarrow> JNull | Some p \<Rightarrow> p))"

definition notifications_create :: "'n web_env \<Rightarrow> api_version_request \<Rightarrow> request \<Rightarrow> json option \<Rightarrow> ('n, 'k, json) prog" where
  "notifications_create W v req = (\<lambda>contents. expected_errors (we_api W) [400, 403, 409] (body_argument
     (with_schema (we_valid W) notifications_create_schema None None (\<lambda>_ body.
       bindM (require (we_api W) req (policy_name ''notifications'' ''create'')) (\<lambda>_.
       bindM (liftE (body_section ''notification'' body)) (\<lambda>d.
       bindM (validate_payload W v d) (\<lambda>_.
       bindM (liftE (notification_data_of (we_text W) d)) (\<lambda>data.
       bindM (except_clauses [([HostNotFoundByName], 400), ([DuplicateNotification, HostOnMaintenanceError], 409)]
         (create_notification (we_lib W) (we_conf W) (we_cast W) (db_ctx req) data)) (\<lambda>n.
       retM (JObj [(''notification'', notification_json n)]))))))) v) contents))"

definition generated_since :: "text_lib \<Rightarrow> request \<Rightarrow> exc + int option" where
  "generated_since T req = (case get_param req ''generated-since'' of None \<Rightarrow> Inr None
     | Some s \<Rightarrow> (case tx_isotime T s of None \<Rightarrow> Inl (Exc (HTTPError 400) ''Invalid generated-since value'') | Some t \<Rightarrow> Inr (Some t)))"

definition notifications_index :: "'n web_env \<Rightarrow> request \<Rightarrow> ('n, 'k, json) prog" where
  "notifications_index W req = expected_errors (we_api W) [400, 403]
     (bindM (require (we_api W) req (policy_name ''notifications'' ''index'')) (\<lambda>_.
      bindM (except_clauses [([MarkerNotFound], 400), ([Invalid], 400)]
        (bindM (liftE (get_limit_and_marker (we_api W) req)) (\<lambda>page.
         bindM (liftE (generated_since (we_text W) req)) (\<lambda>since.
         paged W req (get_all_notifications (we_lib W) (db_ctx req)
           \<lparr>nf_source_host_uuid = text_sel req ''source_host_uuid'',
            nf_type = enum_sel notification_type_value notification_type_ALL req ''type'',
            nf_status = enum_sel notification_status_value notification_status_ALL req ''status'',
            nf_generated_since = since\<rparr>) page)))) (\<lambda>ns.
      retM (JObj [(''notifications'', JList (map notification_json ns))]))))"

definition get_notification_recovery_workflow_details :: "'n web_env \<Rightarrow> request_context \<Rightarrow> string \<Rightarrow> ('n, 'k, json) prog" where
  "get_notification_recovery_workflow_details W ctx u =
     bindM (get_notification (we_lib W) ctx u) (\<lambda>n. liftE (we_details W n))"

definition notifications_show :: "'n web_env \<Rightarrow> string \<Rightarrow> api_version_request \<Rightarrow> request \<Rightarrow> ('n, 'k, json) prog" where
  "notifications_show W i v req = expected_errors (we_api W) [403, 404]
     (bindM (require (we_api W) req (policy_name ''notifications'' ''detail'')) (\<lambda>_.
      bindM (except_as NotificationNotFound 404
        (if is_supported v \<lparr>ver_major = 1, ver_minor = 1\<rparr> max_api_version
         then get_notification_recovery_workflow_details W (db_ctx req) i
         else bindM (get_notification (we_lib W) (db_ctx req) i) (\<lambda>n. retM (notification_json n)))) (\<lambda>r.
      retM (JObj [(''notification'', r)]))))"

section \<open>VM moves\<close>

definition vmoves_index :: "'n web_env \<Rightarrow> string \<Rightarrow> request \<Rightarrow> ('n, 'k, json) prog" where
  "vmoves_index W notification_id req = expected_errors (we_api W) [400, 403, 404]
     (bindM (require (we_api W) req (policy_name ''vmoves'' ''index'')) (\<lambda>_.
      bindM (except_clauses [([MarkerNotFound], 400), ([Invalid], 400), ([NotificationWithoutVMoves], 400), ([NotificationNotFound], 404)]
        (bindM (liftE (get_limit_and_marker (we_api W) req)) (\<lambda>page.
         paged W req (get_all_vmoves_of (we_lib W) (db_ctx req) notification_id
           \<lparr>vf_notification_uuid = Any, vf_type = some_sel (enum_sel vmove_type_value vmove_type_ALL req ''type''),
            vf_status = some_sel (enum_sel vmove_status_value vmove_status_ALL req ''status'')\<rparr>) page))) (\<lambda>vs.
      retM (JObj [(''vmoves'', JList (map vmove_json vs))]))))"

definition vmoves_show :: "'n web_env \<Rightarrow> string \<Rightarrow> string \<Rightarrow> request \<Rightarrow> ('n, 'k, json) prog" where
  "vmoves_show W notification_id i req = expected_errors (we_api W) [400, 403, 404]
     (bindM (require (we_api W) req (policy_name ''vmoves'' ''detail'')) (\<lambda>_.
      bindM (except_clauses [([NotificationWithoutVMoves], 400), ([VMoveNotFound], 404)]
        (get_vmove (we_lib W) (db_ctx req) notification_id i)) (\<lambda>v.
      retM (JObj [(''vmove'', vmove_json v)]))))"

section \<open>Routes\<close>

text \<open>
  The resources the extensions declare, with the method the routes package gives each verb: on a
  collection GET is \<open>index\<close> and POST \<open>create\<close>, on a member GET is \<open>show\<close>, PUT \<open>update\<close> and DELETE
  \<open>delete\<close>. A resource answers with an action even where its controller has no method for it.
\<close>

datatype route =
    R_segments | R_segment string | R_hosts string | R_host string string
  | R_notifications | R_notification string | R_vmoves string | R_vmove string string

definition method_of :: "bool \<Rightarrow> string \<Rightarrow> string option" where
  "method_of member verb =
     (if \<not> member then (if verb = ''GET'' then Some ''index'' else if verb = ''POST'' then Some ''create'' else None)
      else if verb = ''GET'' then Some ''show'' else if verb = ''PUT'' then Some ''update''
      else if verb = ''DELETE'' then Some ''delete'' else None)"

primrec is_member :: "route \<Rightarrow> bool" where
  "is_member R_segments = False" | "is_member (R_segment i) = True"
| "is_member (R_hosts s) = False" | "is_member (R_host s i) = True"
| "is_member R_notifications = False" | "is_member (R_notification i) = True"
| "is_member (R_vmoves n) = False" | "is_member (R_vmove n i) = True"

definition action :: "nat \<Rightarrow> (api_version_request \<Rightarrow> request \<Rightarrow> json option \<Rightarrow> ('n, 'k, json) prog) \<Rightarrow> ('n, 'k, json) action option" where
  "action code f = Some \<lparr>ac_code = code, ac_run = f\<rparr>"

primrec web_action :: "'n web_env \<Rightarrow> string \<Rightarrow> route \<Rightarrow> ('n, 'k, json) action option" where
  "web_action W m R_segments =
     (if m = ''index'' then action 200 (\<lambda>v req b. segments_index W req)
      else if m = ''create'' then action 201 (segments_create W) else None)"
| "web_action W m (R_segment i) =
     (if m = ''show'' then action 200 (\<lambda>v req b. segments_show W i req)
      else if m = ''update'' then action 200 (segments_update W i)
      else if m = ''delete'' then action 204 (\<lambda>v req b. segments_delete W i req) else None)"
| "web_action W m (R_hosts s) =
     (if m = ''index'' then action 200 (\<lambda>v req b. hosts_index W s req)
      else if m = ''create'' then action 201 (hosts_create W s) else None)"
| "web_action W m (R_host s i) =
     (if m = ''show'' then action 200 (\<lambda>v req b. hosts_show W s i req)
      else if m = ''update'' then action 200 (hosts_update W s i)
      else if m = ''delete'' then action 204 (\<lambda>v req b. hosts_delete W s i req) else None)"
| "web_action W m R_notifications =
     (if m = ''index'' then action 200 (\<lambda>v req b. notifications_index W req)
      else if m = ''create'' then action 202 (notifications_create W) else None)"
| "web_action W m (R_notification i) =
     (if m = ''show'' then action 200 (\<lambda>v req b. notifications_show W i v req) else None)"
| "web_action W m (R_vmoves n) = (if m = ''index'' then action 200 (\<lambda>v req b. vmoves_index W n req) else None)"
| "web_action W m (R_vmove n i) = (if m = ''show'' then action 200 (\<lambda>v req b. vmoves_show W n i req) else None)"

text \<open>A request to a route: a verb without a route is answered by the router.\<close>

definition handle :: "'n web_env \<Rightarrow> route \<Rightarrow> request \<Rightarrow> ('n, 'k, json answer) prog" where
  "handle W r req = (case method_of (is_member r) (rq_verb req) of
     None \<Rightarrow> retM (Failure \<lparr>f_code = 404, f_explanation = not_found_text\<rparr> None)
   | Some m \<Rightarrow> serve (we_api W) m (web_action W m r) req)"

section \<open>Every request is answered\<close>

lemmas action_defs = segments_index_def segments_show_def segments_create_def segments_update_def segments_delete_def
  hosts_index_def hosts_create_def hosts_show_def hosts_update_def hosts_delete_def notifications_create_def
  notifications_index_def notifications_show_def vmoves_index_def vmoves_show_def

text \<open>The errors an action lets through are declared, and are among these four.\<close>

definition declares :: "api_lib \<Rightarrow> (api_version_request \<Rightarrow> request \<Rightarrow> json option \<Rightarrow> ('n, 'k, 'a) prog) \<Rightarrow> bool" where
  "declares A run \<longleftrightarrow> (\<exists>errors. set errors \<subseteq> {400, 403, 404, 409} \<and>
     (\<forall>v req b. \<exists>f. run v req b = expected_errors A errors f))"

lemma declaresI:
  "(\<And>v req b. run v req b = expected_errors A errors (f v req b)) \<Longrightarrow> set errors \<subseteq> {400, 403, 404, 409} \<Longrightarrow> declares A run"
  unfolding declares_def by blast

lemma declares_actions [simp]:
  "declares (we_api W) (\<lambda>v req b. segments_index W req)" "declares (we_api W) (\<lambda>v req b. segments_show W i req)"
  "declares (we_api W) (segments_create W)" "declares (we_api W) (segments_update W i)" "declares (we_api W) (\<lambda>v req b. segments_delete W i req)"
  "declares (we_api W) (\<lambda>v req b. hosts_index W s req)" "declares (we_api W) (\<lambda>v req b. hosts_show W s i req)"
  "declares (we_api W) (hosts_create W s)" "declares (we_api W) (hosts_update W s i)" "declares (we_api W) (\<lambda>v req b. hosts_delete W s i req)"
  "declares (we_api W) (notifications_create W)" "declares (we_api W) (\<lambda>v req b. notifications_index W req)"
  "declares (we_api W) (\<lambda>v req b. notifications_show W i v req)" "declares (we_api W) (\<lambda>v req b. vmoves_index W n req)"
  "declares (we_api W) (\<lambda>v req b. vmoves_show W n i req)"
  unfolding action_defs by (rule declaresI, rule refl, simp)+

lemma web_action_declared:
  "web_action W m r = Some act \<Longrightarrow> ac_code act \<in> {200, 201, 202, 204} \<and> declares (we_api W) (ac_run act)"
  by (cases r) (auto simp: action_def split: if_splits)

text \<open>The answers there are, and what is sent for a route whose actions declare their errors.\<close>

primrec answer_ok :: "'a answer \<Rightarrow> bool" where
  "answer_ok (Answer code a h) = (code \<in> {200, 201, 202, 204})"
| "answer_ok (Failure f h) = (f_code f \<in> {400, 403, 404, 405, 406, 409, 415, 500})"

lemma wp_routed:
  fixes w :: "('n, 'k) world"
  assumes "\<And>act. found = Some act \<Longrightarrow> ac_code act \<in> {200, 201, 202, 204} \<and> declares A (ac_run act)"
  shows "wp (serve A m found req) (\<lambda>ans _. answer_ok ans) (\<lambda>_ _. False) w"
proof -
  obtain errors where errors: "set errors \<subseteq> {400, 403, 404, 409}"
    and ok: "\<And>act v req b. found = Some act \<Longrightarrow>
      ac_code act \<in> {200, 201, 202, 204} \<and> (\<exists>f. ac_run act v req b = expected_errors A errors f)"
  proof (cases found)
    case None
    then show ?thesis by (intro that [of "[]"]) simp_all
  next
    case act: (Some act)
    from assms [OF act] obtain errors where "set errors \<subseteq> {400, 403, 404, 409}"
      and "ac_code act \<in> {200, 201, 202, 204}" "\<forall>v req b. \<exists>f. ac_run act v req b = expected_errors A errors f"
      unfolding declares_def by blast
    with act show ?thesis by (intro that [of errors]) simp_all
  qed
  have "wp (serve A m found req) (\<lambda>ans _. case ans of
      Answer code a h \<Rightarrow> \<exists>act. found = Some act \<and> code = ac_code act
    | Failure f h \<Rightarrow> f_code f \<in> set errors \<union> {400, 403, 405, 406, 415, 500}) (\<lambda>_ _. False) w"
    by (rule serve_answered) (use ok in blast)
  then show ?thesis
  proof (rule wp_mono)
    fix ans :: "'b answer" and t :: "('n, 'k) world"
    have "found = Some act \<Longrightarrow> ac_code act \<in> {200, 201, 202, 204}" for act using ok by blast
    then show "case ans of Answer code a h \<Rightarrow> \<exists>act. found = Some act \<and> code = ac_code act
        | Failure f h \<Rightarrow> f_code f \<in> set errors \<union> {400, 403, 405, 406, 415, 500} \<Longrightarrow> answer_ok ans"
      using errors by (auto split: answer.splits)
  qed
qed

text \<open>Whatever a client sends to one of these resources, it gets an answer: success with the status of the
  method, or a fault with one of eight codes. No exception leaves the application.\<close>

lemma web_answers: "wp (handle W r req) (\<lambda>ans _. answer_ok ans) (\<lambda>_ _. False) w"
proof (cases "method_of (is_member r) (rq_verb req)")
  case None
  then show ?thesis by (simp add: handle_def wp_retM)
next
  case (Some m)
  show ?thesis unfolding handle_def Some option.case by (rule wp_routed) (erule web_action_declared)
qed

section \<open>What the schemas admit\<close>

lemma object_type_ok:
  assumes "schema_ok T (object_type ps cs) j"
  obtains d where "j = JObj d" and "\<forall>n s v. (n, s) \<in> set ps \<longrightarrow> map_of d n = Some v \<longrightarrow> schema_ok T s v"
    and "\<forall>k \<in> set cs. keyword_ok T (object_type ps cs) k (JObj d)"
proof -
  have all: "keyword_ok T (object_type ps cs) k j" if "k \<in> set (object_type ps cs)" for k
    using assms that by (simp add: schema_ok_def list_all_iff)
  from all [of "K_type [''object'']"] obtain d where d: "j = JObj d" by (cases j) (simp_all add: object_type_def)
  have "schema_ok T s v" if "(n, s) \<in> set ps" "map_of d n = Some v" for n s v
    using all [of "K_properties ps"] that unfolding d
    by (fastforce simp: object_type_def schema_ok_def list_all_iff)
  moreover have "keyword_ok T (object_type ps cs) k (JObj d)" if "k \<in> set cs" for k
    using all [of k] that d by (simp add: object_type_def)
  ultimately show ?thesis using d that by blast
qed

lemma body_type_ok:
  assumes "schema_ok T (body_type name (object_type ps cs)) j"
  obtains d where "body_section name j = Inr d" and "schema_ok T (object_type ps cs) (JObj d)"
proof -
  from assms obtain b where b: "j = JObj b"
    "\<forall>n s v. (n, s) \<in> set [(name, object_type ps cs)] \<longrightarrow> map_of b n = Some v \<longrightarrow> schema_ok T s v"
    "\<forall>k \<in> set [K_required [name]]. keyword_ok T (object_type [(name, object_type ps cs)] [K_required [name]]) k (JObj b)"
    unfolding body_type_def by (rule object_type_ok) blast
  from b(3) obtain v where v: "map_of b name = Some v" by auto
  then have ok: "schema_ok T (object_type ps cs) v" using b(2) by simp
  then obtain d where "v = JObj d" by (rule object_type_ok)
  with v b(1) ok that show ?thesis by (simp add: body_section_def)
qed

lemma text_admitted: "has_type ''string'' v \<Longrightarrow> \<exists>s. v = JStr s"
  by (cases v) simp_all

lemma leaf_types:
  "schema_ok T name_type v \<Longrightarrow> \<exists>s. v = JStr s"
  "schema_ok T hostname_type v \<Longrightarrow> \<exists>s. v = JStr s"
  "schema_ok T (text_of_length n) v \<Longrightarrow> \<exists>s. v = JStr s"
  "schema_ok T (description_type category) v \<Longrightarrow> v = JNull \<or> (\<exists>s. v = JStr s)"
  "schema_ok T type_type v \<Longrightarrow> v = JNull \<or> (\<exists>s. v = JStr s)"
  "schema_ok T (enum_type members) v \<Longrightarrow> \<exists>s \<in> set members. v = JStr s"
  "schema_ok T [K_type [''string''], K_format ''date-time''] v \<Longrightarrow> \<exists>s t. v = JStr s \<and> tx_isotime T s = Some t"
  by (cases v; auto simp: schema_ok_def name_type_def hostname_type_def text_of_length_def description_type_def type_type_def
    enum_type_def check_format_def split: if_splits)+

text \<open>The texts of \<open>bool_from_string\<close> the schemas admit, with their documented meaning.\<close>

definition flags_ok :: "lib \<Rightarrow> bool" where
  "flags_ok L \<longleftrightarrow>
     (\<forall>s \<in> set [''True'', ''TRUE'', ''true'', ''1'', ''ON'', ''On'', ''on'', ''YES'', ''Yes'', ''yes'']. bool_from_string L s = Some True) \<and>
     (\<forall>s \<in> set [''False'', ''FALSE'', ''false'', ''0'', ''OFF'', ''Off'', ''off'', ''NO'', ''No'', ''no'']. bool_from_string L s = Some False)"

lemma flag_admitted: "flags_ok L \<Longrightarrow> schema_ok T boolean_type v \<Longrightarrow> \<exists>b. strict_bool L v = Inr b"
  by (auto simp: flags_ok_def schema_ok_def boolean_type_def strict_bool_def)

lemma flag_read:
  assumes "flags_ok L" and "\<And>v. map_of d n = Some v \<Longrightarrow> schema_ok T boolean_type v"
  shows "\<exists>b. strict_bool_or L b' (map_of d n) = Inr b" and "\<exists>b. optional_bool L (map_of d n) = Inr b"
  using flag_admitted [OF assms(1)] assms(2)
  by (cases "map_of d n"; fastforce simp: strict_bool_or_def optional_bool_def)+

lemma required_given: "keyword_ok T s (K_required ns) (JObj d) \<Longrightarrow> n \<in> set ns \<Longrightarrow> \<exists>v. map_of d n = Some v"
  by (auto simp: list_all_iff)

lemma text_field_read:
  "map_of d n = Some v \<Longrightarrow> \<exists>s. v = JStr s \<Longrightarrow> \<exists>s. text_field d n = Inr s"
  by (auto simp: text_field_def)

lemma null_or_text_field_read:
  "(\<And>v. map_of d n = Some v \<Longrightarrow> v = JNull \<or> (\<exists>s. v = JStr s)) \<Longrightarrow> \<exists>s. null_or_text_field d n = Inr s"
  by (cases "map_of d n") (auto simp: null_or_text_field_def null_or_text_def)

lemma if_given_read: "(\<And>v. map_of d n = Some v \<Longrightarrow> \<exists>x. f d n = Inr x) \<Longrightarrow> \<exists>x. if_given d n f = Inr x"
  by (cases "map_of d n") (auto simp: if_given_def)

lemma enum_field_read:
  assumes "map_of d n = Some v" and "\<exists>s \<in> set members. v = JStr s" and "set members \<subseteq> value ` set all_members"
  shows "\<exists>x. enum_field value all_members d n = Inr x"
proof -
  from assms obtain s where s: "v = JStr s" "s \<in> value ` set all_members" by blast
  then have "enum_of value all_members s \<noteq> None" by (auto simp: enum_of_def find_None_iff)
  then show ?thesis using assms(1) s by (auto simp: enum_field_def text_field_def)
qed

lemma object_type_names:
  assumes "schema_ok T (object_type ps cs) (JObj d)" and "\<forall>k \<in> set cs. properties_of k = [] \<and> patterns_of k = []"
    and "n \<notin> fst ` set ps"
  shows "map_of d n = None"
proof -
  have empty: "concat (map properties_of cs) = []" "concat (map patterns_of cs) = []" using assms(2) by auto
  have "keyword_ok T (object_type ps cs) (K_additionalProperties False) (JObj d)"
    using assms(1) by (simp add: schema_ok_def object_type_def)
  then have "list_all (\<lambda>v. fst v \<in> fst ` set ps) d"
    using empty by (simp add: object_type_def list_all_iff)
  with assms(3) show ?thesis by (auto simp: map_of_eq_None_iff list_all_iff)
qed

text \<open>The fields of an object whose properties have the types of a list.\<close>

definition typed :: "text_lib \<Rightarrow> (string \<times> schema) list \<Rightarrow> json dict \<Rightarrow> bool" where
  "typed T ps d \<longleftrightarrow> (\<forall>n s v. (n, s) \<in> set ps \<longrightarrow> map_of d n = Some v \<longrightarrow> schema_ok T s v)"

lemma typedD: "typed T ps d \<Longrightarrow> (n, s) \<in> set ps \<Longrightarrow> map_of d n = Some v \<Longrightarrow> schema_ok T s v"
  unfolding typed_def by blast

lemma admitted_object:
  assumes "schema_ok T (body_type name (object_type ps cs)) j"
  obtains d where "body_section name j = Inr d" and "typed T ps d" and "\<forall>k \<in> set cs. keyword_ok T (object_type ps cs) k (JObj d)"
    and "schema_ok T (object_type ps cs) (JObj d)"
proof -
  from assms obtain d where d: "body_section name j = Inr d" "schema_ok T (object_type ps cs) (JObj d)" by (rule body_type_ok)
  from d(2) show ?thesis
    by (rule object_type_ok) (use d that in \<open>auto simp: typed_def\<close>)
qed

lemma field_read:
  assumes "typed T ps d"
  shows "(n, name_type) \<in> set ps \<Longrightarrow> map_of d n \<noteq> None \<Longrightarrow> \<exists>s. text_field d n = Inr s"
    and "(n, hostname_type) \<in> set ps \<Longrightarrow> map_of d n \<noteq> None \<Longrightarrow> \<exists>s. text_field d n = Inr s"
    and "(n, description_type category) \<in> set ps \<Longrightarrow> \<exists>s. null_or_text_field d n = Inr s"
    and "(n, type_type) \<in> set ps \<Longrightarrow> \<exists>s. null_or_text_field d n = Inr s"
    and "(n, enum_type (map value all_members)) \<in> set ps \<Longrightarrow> map_of d n \<noteq> None \<Longrightarrow> \<exists>x. enum_field value all_members d n = Inr x"
proof -
  note leaf = leaf_types [where T = T]
  show "(n, name_type) \<in> set ps \<Longrightarrow> map_of d n \<noteq> None \<Longrightarrow> \<exists>s. text_field d n = Inr s"
    by (metis typedD [OF assms] leaf(1) text_field_read not_None_eq)
  show "(n, hostname_type) \<in> set ps \<Longrightarrow> map_of d n \<noteq> None \<Longrightarrow> \<exists>s. text_field d n = Inr s"
    by (metis typedD [OF assms] leaf(2) text_field_read not_None_eq)
  show "(n, description_type category) \<in> set ps \<Longrightarrow> \<exists>s. null_or_text_field d n = Inr s"
    by (rule null_or_text_field_read) (metis typedD [OF assms] leaf(4))
  show "(n, type_type) \<in> set ps \<Longrightarrow> \<exists>s. null_or_text_field d n = Inr s"
    by (rule null_or_text_field_read) (metis typedD [OF assms] leaf(5))
  show "\<exists>x. enum_field value all_members d n = Inr x"
    if n: "(n, enum_type (map value all_members)) \<in> set ps" "map_of d n \<noteq> None"
  proof -
    from n(2) obtain v where v: "map_of d n = Some v" by blast
    have "\<exists>s \<in> set (map value all_members). v = JStr s" by (rule leaf(6)) (rule typedD [OF assms n(1) v])
    then show ?thesis by (rule enum_field_read [OF v]) simp
  qed
qed

lemma enum_members:
  "[''auto'', ''reserved_host'', ''auto_priority'', ''rh_priority''] = map recovery_method_value recovery_method_ALL"
  "[''COMPUTE_HOST'', ''VM'', ''PROCESS''] = map notification_type_value notification_type_ALL"
  by (simp_all add: recovery_method_ALL_def notification_type_ALL_def)

lemma segment_fields:
  assumes "typed T ps d" and "set (segment_properties category) \<subseteq> set ps"
  shows "map_of d ''name'' \<noteq> None \<Longrightarrow> \<exists>s. text_field d ''name'' = Inr s"
    and "map_of d ''service_type'' \<noteq> None \<Longrightarrow> \<exists>s. text_field d ''service_type'' = Inr s"
    and "\<exists>s. null_or_text_field d ''description'' = Inr s"
    and "map_of d ''recovery_method'' \<noteq> None \<Longrightarrow> \<exists>m. enum_field recovery_method_value recovery_method_ALL d ''recovery_method'' = Inr m"
proof -
  have ps: "(''name'', name_type) \<in> set ps" "(''service_type'', name_type) \<in> set ps"
    "(''description'', description_type category) \<in> set ps"
    "(''recovery_method'', enum_type (map recovery_method_value recovery_method_ALL)) \<in> set ps"
    using assms(2) by (auto simp: segment_properties_def enum_members)
  show "map_of d ''name'' \<noteq> None \<Longrightarrow> \<exists>s. text_field d ''name'' = Inr s" by (rule field_read(1) [OF assms(1) ps(1)])
  show "map_of d ''service_type'' \<noteq> None \<Longrightarrow> \<exists>s. text_field d ''service_type'' = Inr s" by (rule field_read(1) [OF assms(1) ps(2)])
  show "\<exists>s. null_or_text_field d ''description'' = Inr s" by (rule field_read(3) [OF assms(1) ps(3)])
  show "map_of d ''recovery_method'' \<noteq> None \<Longrightarrow> \<exists>m. enum_field recovery_method_value recovery_method_ALL d ''recovery_method'' = Inr m"
    by (rule field_read(5) [OF assms(1) ps(4)])
qed

lemma segment_data_read:
  assumes "typed T ps d" and "set (segment_properties category) \<subseteq> set ps"
    and "map_of d ''name'' \<noteq> None" "map_of d ''recovery_method'' \<noteq> None" "map_of d ''service_type'' \<noteq> None"
  shows "\<exists>data. segment_data_of d = Inr data \<and> sd_enabled data = map_of d ''enabled''"
  using segment_fields [OF assms(1,2)] assms(3-5) unfolding segment_data_of_def by fastforce

lemma segment_update_read:
  assumes "typed T ps d" and "set (segment_properties category) \<subseteq> set ps"
  shows "\<exists>data. segment_update_of d = Inr data"
proof -
  note f = segment_fields [OF assms]
  have "\<exists>x. if_given d ''name'' text_field = Inr x" "\<exists>x. if_given d ''service_type'' text_field = Inr x"
    "\<exists>x. if_given d ''description'' null_or_text_field = Inr x"
    "\<exists>x. if_given d ''recovery_method'' (enum_field recovery_method_value recovery_method_ALL) = Inr x"
    by (rule if_given_read, use f in simp)+
  then show ?thesis unfolding segment_update_of_def by fastforce
qed

lemma host_fields:
  assumes "typed T (host_properties category) d"
  shows "map_of d ''name'' \<noteq> None \<Longrightarrow> \<exists>s. text_field d ''name'' = Inr s"
    and "\<exists>s. null_or_text_field d ''type'' = Inr s" and "\<exists>s. null_or_text_field d ''control_attributes'' = Inr s"
proof -
  have ps: "(''name'', name_type) \<in> set (host_properties category)" "(''type'', type_type) \<in> set (host_properties category)"
    "(''control_attributes'', description_type category) \<in> set (host_properties category)"
    by (simp_all add: host_properties_def)
  show "map_of d ''name'' \<noteq> None \<Longrightarrow> \<exists>s. text_field d ''name'' = Inr s" by (rule field_read(1) [OF assms ps(1)])
  show "\<exists>s. null_or_text_field d ''type'' = Inr s" by (rule field_read(4) [OF assms ps(2)])
  show "\<exists>s. null_or_text_field d ''control_attributes'' = Inr s" by (rule field_read(3) [OF assms ps(3)])
qed

lemma host_data_read:
  assumes "typed T (host_properties category) d" and "map_of d ''name'' \<noteq> None"
  shows "\<exists>data. host_data_of d = Inr data"
  using host_fields [OF assms(1)] assms(2) unfolding host_data_of_def by fastforce

lemma host_update_read:
  assumes "typed T (host_properties category) d"
  shows "\<exists>data. host_update_of d = Inr data"
proof -
  note f = host_fields [OF assms]
  have "\<exists>x. if_given d ''name'' text_field = Inr x" "\<exists>x. if_given d ''type'' null_or_text_field = Inr x"
    "\<exists>x. if_given d ''control_attributes'' null_or_text_field = Inr x"
    by (rule if_given_read, use f in simp)+
  then show ?thesis unfolding host_update_of_def by fastforce
qed

lemma payload_read:
  assumes "\<forall>p \<in> set d. \<exists>s. snd p = JStr s"
  shows "\<exists>texts. payload_of d = Inr texts"
  using assms by (induction d) auto

lemma payload_type_read:
  assumes "schema_ok T payload_type v"
  shows "\<exists>d texts. v = JObj d \<and> payload_of d = Inr texts"
proof -
  define p where "p = Whole (alphanumeric @ [Ch 45, Ch 95, Ch 58, Ch 46, Ch 32]) 1 (Some 255)"
  have type: "payload_type = [K_type [''object''], K_patternProperties [(p, [K_type [''string''], K_maxLength 255])],
      K_additionalProperties False]" by (simp add: payload_type_def p_def)
  from assms obtain d where d: "v = JObj d" by (cases v) (simp_all add: schema_ok_def payload_type_def)
  have "\<exists>s. snd q = JStr s" if q: "q \<in> set d" for q
  proof -
    have "pattern_matches p (fst q)" using assms q by (auto simp: schema_ok_def type d list_all_iff)
    then have "has_type ''string'' (snd q)" using assms q by (fastforce simp: schema_ok_def type d)
    then show ?thesis by (rule text_admitted)
  qed
  then show ?thesis using d payload_read by blast
qed

lemma notification_data_read:
  assumes "schema_ok T notifications_create_schema j"
  shows "\<exists>d data. body_section ''notification'' j = Inr d \<and> notification_data_of T d = Inr data"
proof -
  define ps where "ps = [(''type'', enum_type [''COMPUTE_HOST'', ''VM'', ''PROCESS'']), (''hostname'', hostname_type),
      (''generated_time'', [K_type [''string''], K_format ''date-time'']), (''payload'', payload_type)]"
  define cs where "cs = [K_required [''type'', ''hostname'', ''generated_time'', ''payload'']]"
  from assms obtain d where d: "body_section ''notification'' j = Inr d" "typed T ps d"
    and given: "\<forall>k \<in> set cs. keyword_ok T (object_type ps cs) k (JObj d)"
    unfolding notifications_create_schema_def ps_def cs_def by (rule admitted_object) blast
  from given have g: "map_of d ''type'' \<noteq> None" "map_of d ''hostname'' \<noteq> None" "map_of d ''generated_time'' \<noteq> None"
    "map_of d ''payload'' \<noteq> None" by (simp_all add: cs_def)
  have "\<exists>x. enum_field notification_type_value notification_type_ALL d ''type'' = Inr x"
    by (rule field_read(5) [OF d(2) _ g(1)]) (simp add: ps_def enum_members)
  moreover have "\<exists>s. text_field d ''hostname'' = Inr s" by (rule field_read(2) [OF d(2) _ g(2)]) (simp add: ps_def)
  moreover have "\<exists>s t. text_field d ''generated_time'' = Inr s \<and> tx_isotime T s = Some t"
  proof -
    from g(3) obtain v where v: "map_of d ''generated_time'' = Some v" by blast
    have "\<exists>s t. v = JStr s \<and> tx_isotime T s = Some t"
      by (rule leaf_types(7)) (rule typedD [OF d(2) _ v], simp add: ps_def)
    with v show ?thesis by (auto simp: text_field_def)
  qed
  moreover have "\<exists>p texts. body_section ''payload'' (JObj d) = Inr p \<and> payload_of p = Inr texts"
  proof -
    from g(4) obtain v where v: "map_of d ''payload'' = Some v" by blast
    have "\<exists>p texts. v = JObj p \<and> payload_of p = Inr texts"
      by (rule payload_type_read) (rule typedD [OF d(2) _ v], simp add: ps_def)
    with v show ?thesis by (auto simp: body_section_def)
  qed
  ultimately show ?thesis using d(1) by (auto simp: notification_data_of_def)
qed

lemma admitted_segment:
  assumes "schema_ok T (segments_create_schema category) j \<or> schema_ok T (segments_create_v12 category) j" and "flags_ok L"
  shows "\<exists>d data b. body_section ''segment'' j = Inr d \<and> segment_data_of d = Inr data \<and> strict_bool_or L True (sd_enabled data) = Inr b"
proof -
  define cs where "cs = [K_required [''name'', ''recovery_method'', ''service_type'']]"
  have "\<exists>ps. schema_ok T (body_type ''segment'' (object_type ps cs)) j \<and> set (segment_properties category) \<subseteq> set ps \<and>
      (ps = segment_properties category \<or> ps = segment_properties category @ enabled_property)"
    using assms(1) by (auto simp: segments_create_schema_def segments_create_v12_def cs_def)
  then obtain ps where j: "schema_ok T (body_type ''segment'' (object_type ps cs)) j" and sub: "set (segment_properties category) \<subseteq> set ps"
    and ps: "ps = segment_properties category \<or> ps = segment_properties category @ enabled_property" by blast
  from j obtain d where d: "body_section ''segment'' j = Inr d" "typed T ps d"
    and given: "\<forall>k \<in> set cs. keyword_ok T (object_type ps cs) k (JObj d)" and ok: "schema_ok T (object_type ps cs) (JObj d)"
    by (rule admitted_object) blast
  from given have "map_of d ''name'' \<noteq> None" "map_of d ''recovery_method'' \<noteq> None" "map_of d ''service_type'' \<noteq> None"
    by (simp_all add: cs_def)
  from segment_data_read [OF d(2) sub this] obtain data where data: "segment_data_of d = Inr data" "sd_enabled data = map_of d ''enabled''"
    by blast
  have flag: "schema_ok T boolean_type v" if "map_of d ''enabled'' = Some v" for v
  proof (cases "ps = segment_properties category")
    case True
    have "map_of d ''enabled'' = None"
      by (rule object_type_names [OF ok]) (simp_all add: cs_def True segment_properties_def)
    with that show ?thesis by simp
  next
    case False
    with ps have "(''enabled'', boolean_type) \<in> set ps" by (simp add: enabled_property_def)
    from typedD [OF d(2) this that] show ?thesis .
  qed
  show ?thesis using d(1) data flag_read(1) [OF assms(2) flag] by metis
qed

lemma admitted_segment_update:
  assumes "schema_ok T (segments_update_schema category) j \<or> schema_ok T (segments_update_v12 category) j"
  shows "\<exists>d data. body_section ''segment'' j = Inr d \<and> segment_update_of d = Inr data"
  using assms
proof
  assume "schema_ok T (segments_update_schema category) j"
  then obtain d where "body_section ''segment'' j = Inr d" "typed T (segment_properties category) d"
    unfolding segments_update_schema_def by (rule admitted_object) blast
  then show ?thesis using segment_update_read by blast
next
  assume "schema_ok T (segments_update_v12 category) j"
  then obtain d where d: "body_section ''segment'' j = Inr d" "typed T (segment_properties category @ enabled_property) d"
    unfolding segments_update_v12_def by (rule admitted_object) blast
  from segment_update_read [OF d(2), of category] obtain data where "segment_update_of d = Inr data" by auto
  with d(1) show ?thesis by blast
qed

lemma host_flags:
  assumes "typed T (host_properties category) d" and "n = ''on_maintenance'' \<or> n = ''reserved''" and "map_of d n = Some v"
  shows "schema_ok T boolean_type v"
  by (rule typedD [OF assms(1) _ assms(3)]) (use assms(2) in \<open>auto simp: host_properties_def\<close>)

lemma admitted_host:
  assumes "schema_ok T (hosts_create_schema category) j" and "flags_ok L"
  shows "\<exists>d data b c. body_section ''host'' j = Inr d \<and> host_data_of d = Inr data \<and>
    strict_bool_or L False (hd_on_maintenance data) = Inr b \<and> strict_bool_or L False (hd_reserved data) = Inr c"
proof -
  from assms(1) obtain d where d: "body_section ''host'' j = Inr d" "typed T (host_properties category) d" "map_of d ''name'' \<noteq> None"
    unfolding hosts_create_schema_def by (rule admitted_object) auto
  have flags: "map_of d ''on_maintenance'' = Some v \<Longrightarrow> schema_ok T boolean_type v"
    "map_of d ''reserved'' = Some v \<Longrightarrow> schema_ok T boolean_type v" for v
    by (erule host_flags [OF d(2), rotated], simp)+
  obtain data where data: "host_data_of d = Inr data" using host_data_read [OF d(2,3)] by blast
  then have "hd_on_maintenance data = map_of d ''on_maintenance''" "hd_reserved data = map_of d ''reserved''"
    by (auto simp: host_data_of_def split: sum.splits)
  moreover obtain b where "strict_bool_or L False (map_of d ''on_maintenance'') = Inr b"
    by (rule exE [OF flag_read(1) [OF assms(2) flags(1)]])
  moreover obtain c where "strict_bool_or L False (map_of d ''reserved'') = Inr c"
    by (rule exE [OF flag_read(1) [OF assms(2) flags(2)]])
  ultimately show ?thesis using d(1) data
    by (intro exI [of _ d] exI [of _ data] exI [of _ b] exI [of _ c]) simp
qed

lemma admitted_host_update:
  assumes "schema_ok T (hosts_update_schema category) j" and "flags_ok L"
  shows "\<exists>d data b c. body_section ''host'' j = Inr d \<and> host_update_of d = Inr data \<and>
    optional_bool L (hq_on_maintenance data) = Inr b \<and> optional_bool L (hq_reserved data) = Inr c"
proof -
  from assms(1) obtain d where d: "body_section ''host'' j = Inr d" "typed T (host_properties category) d"
    unfolding hosts_update_schema_def by (rule admitted_object) blast
  have flags: "map_of d ''on_maintenance'' = Some v \<Longrightarrow> schema_ok T boolean_type v"
    "map_of d ''reserved'' = Some v \<Longrightarrow> schema_ok T boolean_type v" for v
    by (erule host_flags [OF d(2), rotated], simp)+
  obtain data where data: "host_update_of d = Inr data" using host_update_read [OF d(2)] by blast
  then have "hq_on_maintenance data = map_of d ''on_maintenance''" "hq_reserved data = map_of d ''reserved''"
    by (auto simp: host_update_of_def split: sum.splits)
  moreover obtain b where "optional_bool L (map_of d ''on_maintenance'') = Inr b"
    by (rule exE [OF flag_read(2) [OF assms(2) flags(1)]])
  moreover obtain c where "optional_bool L (map_of d ''reserved'') = Inr c"
    by (rule exE [OF flag_read(2) [OF assms(2) flags(2)]])
  ultimately show ?thesis using d(1) data
    by (intro exI [of _ d] exI [of _ data] exI [of _ b] exI [of _ c]) simp
qed


lemma serve_error:
  assumes "accepted req v" and "body_contents A req = Inr b" and "ac_run meth v req b w = (Inl e, t)"
  shows "\<exists>r. serve A name (Some meth) req w = (r, t) \<and> (\<forall>a. r = Inr a \<longrightarrow> (\<exists>f h. a = Failure f h))"
  using assms(3) by (auto simp: serve_accepted [OF assms(1,2)] dispatch_def comp_defs fault_answer_def split: sum.split)

section \<open>Creating a segment and reading it\<close>

lemma with_schema_passes:
  assumes "validator_ok T V" and "\<not> is_null v" and "APIVersionRequest lo = Inr a" and "APIVersionRequest hi = Inr b"
    and "matches v a b = Inr True \<Longrightarrow> schema_ok T s body"
  shows "with_schema V s lo hi f v body = f v body"
proof -
  have "\<exists>m. matches v a b = Inr m" using assms(2) by (auto simp: matches_def)
  then obtain m where m: "matches v a b = Inr m" by blast
  then have "m \<Longrightarrow> validate V s body = Inr ()" using assms(5) validate_ok [OF assms(1)] by simp
  then show ?thesis using assms(3,4) m by (cases m) (simp_all add: with_schema_def comp_defs liftE_def)
qed

definition version :: "nat \<Rightarrow> api_version_request" where
  "version minor = \<lparr>ver_major = 1, ver_minor = minor\<rparr>"

lemma versions_read: "APIVersionRequest None = Inr null_version" "APIVersionRequest (Some ''1.1'') = Inr (version 1)"
  "APIVersionRequest (Some ''1.2'') = Inr (version 2)" "is_null null_version" "\<not> is_null (version 1)" "\<not> is_null (version 2)"
  by code_simp+

lemma not_both: "ver_le (version 2) v \<Longrightarrow> \<not> ver_le v (version 1)"
  by (auto simp: version_def ver_le_def ver_lt_def ver_key_def)

lemma segments_create_checked:
  assumes "validator_ok (we_text W) (we_valid W)" and "\<not> is_null v" and "ver_le (version 2) v"
    and "schema_ok (we_text W) (segments_create_v12 (tx_category (we_text W))) body"
    and "permitted (we_api W) req (policy_name ''segments'' ''create'')"
    and "body_section ''segment'' body = Inr d" and "segment_data_of d = Inr data"
  shows "segments_create W v req (Some body) = expected_errors (we_api W) [403, 409]
    (bindM (except_as FailoverSegmentExists 409 (create_segment (we_lib W) (db_ctx req) data))
       (\<lambda>sg. retM (JObj [(''segment'', segment_json sg)])))"
proof -
  have old: "with_schema (we_valid W) s (Some ''1.0'') (Some ''1.1'') f v body = f v body" for s f
    by (rule with_schema_passes [OF assms(1,2) version_bounds(6) versions_read(2)])
      (use assms(2) versions_read(5) not_both [OF assms(3)] in \<open>auto simp: matches_def\<close>)
  have new: "with_schema (we_valid W) (segments_create_v12 (tx_category (we_text W))) (Some ''1.2'') None f v body = f v body" for f
    by (rule with_schema_passes [OF assms(1,2) versions_read(3,1)]) (rule assms(4))
  show ?thesis
    unfolding segments_create_def body_argument_def option.case old new require_permitted [OF assms(5)]
    by (simp add: assms(6,7) liftE_def comp_defs cong: if_cong)
qed

lemma segments_show_live:
  assumes "permitted (we_api W) req (policy_name ''segments'' ''detail'')" and "live_ctx (db_ctx req)" and "db_ok L w"
    and "sg \<in> set (segments w)" and "deleted sg = 0" and "is_uuid_like (we_lib W) (sg_uuid sg)"
  shows "segments_show W (sg_uuid sg) req w = (Inr (JObj [(''segment'', segment_json sg)]), w)"
  unfolding segments_show_def require_permitted [OF assms(1)]
  using segment_by_uuid [OF assms(2-5)] assms(6)
  by (simp add: expected_errors_def except_as_def get_segment_def comp_defs)

text \<open>What the action makes of the name: the fields of the new segment, or the conflict.\<close>

definition stored_from :: "segment_data \<Rightarrow> bool \<Rightarrow> string \<Rightarrow> segment \<Rightarrow> bool" where
  "stored_from data enabled u sg \<longleftrightarrow> deleted sg = 0 \<and> sg_uuid sg = u \<and> sg_name sg = sd_name data \<and> sg_enabled sg = enabled \<and>
     sg_description sg = sd_description data \<and> sg_recovery_method sg = sd_recovery_method data \<and>
     sg_service_type sg = sd_service_type data"

lemma segments_create_run:
  fixes w :: "('n, 'k) world"
  assumes "(segments_create W v req (Some body) :: ('n, 'k, json) prog) = expected_errors (we_api W) [403, 409]
      (bindM (except_as FailoverSegmentExists 409 (create_segment (we_lib W) (db_ctx req) data))
         (\<lambda>sg. retM (JObj [(''segment'', segment_json sg)])))"
    and "live_ctx (db_ctx req)" and "db_ok (we_lib W) w" and "strict_bool_or (we_lib W) True (sd_enabled data) = Inr enabled"
    and "gen_uuid (we_lib W) (uuid_seq w) \<notin> sg_uuid ` set (segments w)"
  shows "if \<exists>r \<in> set (segments w). deleted r = 0 \<and> sg_name r = sd_name data
    then \<exists>m w'. segments_create W v req (Some body) w = (Inl (Exc (HTTPError 409) m), w') \<and> segments w' = segments w
    else \<exists>sg w'. segments_create W v req (Some body) w = (Inr (JObj [(''segment'', segment_json sg)]), w') \<and>
      segments w' = segments w @ [sg] \<and> db_ok (we_lib W) w' \<and> stored_from data enabled (gen_uuid (we_lib W) (uuid_seq w)) sg"
proof (cases "\<exists>r \<in> set (segments w). deleted r = 0 \<and> sg_name r = sd_name data")
  case True
  with create_segment_run [OF assms(2-5)] obtain w' where w':
    "create_segment (we_lib W) (db_ctx req) data w = (Inl (mk_FailoverSegmentExists (sd_name data)), w')" "segments w' = segments w" by auto
  define m where "m = message (mk_FailoverSegmentExists (sd_name data))"
  have "segments_create W v req (Some body) w = (Inl (Exc (HTTPError 409) m), w')"
    unfolding assms(1) by (rule expected_errors_declared)
      (simp_all add: w' except_as_def http_error_def m_def comp_defs isinstance_simps mk_FailoverSegmentExists_def)
  with True w'(2) show ?thesis by auto
next
  case False
  with create_segment_run [OF assms(2-5)] obtain sg w' where
    sg: "create_segment (we_lib W) (db_ctx req) data w = (Inr sg, w')" "segments w' = segments w @ [sg]" "db_ok (we_lib W) w'"
    "stored_from data enabled (gen_uuid (we_lib W) (uuid_seq w)) sg" unfolding stored_from_def by auto
  have "segments_create W v req (Some body) w = (Inr (JObj [(''segment'', segment_json sg)]), w')"
    unfolding assms(1) by (rule expected_errors_result) (simp add: sg except_as_def comp_defs)
  with False sg(2-4) show ?thesis by auto
qed

lemma handle_post: "rq_verb req = ''POST'' \<Longrightarrow>
    handle W R_segments req = serve (we_api W) ''create'' (Some \<lparr>ac_code = 201, ac_run = segments_create W\<rparr>) req"
  by (simp add: handle_def method_of_def action_def)

lemma handle_get: "rq_verb req = ''GET'' \<Longrightarrow>
    handle W (R_segment i) req = serve (we_api W) ''show'' (Some \<lparr>ac_code = 200, ac_run = \<lambda>v req b. segments_show W i req\<rparr>) req"
  by (simp add: handle_def method_of_def action_def)

text \<open>C20. A client that may create and read segments posts a body that conforms to the schema. When a live
  segment has the name, the answer is 409 and the table is as it was. Otherwise the answer is 201 with the
  new segment, which is stored last, live, with the fields of the body, and a GET of its uuid is answered
  with 200 and the same JSON.\<close>

theorem segment_post_get:
  assumes lib: "validator_ok (we_text W) (we_valid W)" "flags_ok (we_lib W)"
    and post: "rq_verb post = ''POST''" "rq_body post \<noteq> ''''" "al_loads (we_api W) (rq_body post) = Some body"
      "accepted post v" "ver_le (version 2) v" "permitted (we_api W) post (policy_name ''segments'' ''create'')" "live_ctx (db_ctx post)"
    and get: "rq_verb get = ''GET''" "accepted get v'" "permitted (we_api W) get (policy_name ''segments'' ''detail'')" "live_ctx (db_ctx get)"
    and body: "schema_ok (we_text W) (segments_create_v12 (tx_category (we_text W))) body"
    and db: "db_ok (we_lib W) w" "gen_uuid (we_lib W) (uuid_seq w) \<notin> sg_uuid ` set (segments w)"
      "is_uuid_like (we_lib W) (gen_uuid (we_lib W) (uuid_seq w))"
  shows "\<exists>d data. body_section ''segment'' body = Inr d \<and> segment_data_of d = Inr data \<and>
    (if \<exists>r \<in> set (segments w). deleted r = 0 \<and> sg_name r = sd_name data
     then \<exists>m w'. handle W R_segments post w = (Inr (fault_answer v 409 m), w') \<and> segments w' = segments w
     else \<exists>sg w'. handle W R_segments post w =
           (Inr (Answer 201 (JObj [(''segment'', segment_json sg)]) (version_header ''masakari'' v)), w') \<and>
         segments w' = segments w @ [sg] \<and> deleted sg = 0 \<and> sg_name sg = sd_name data \<and>
         sg_recovery_method sg = sd_recovery_method data \<and> sg_service_type sg = sd_service_type data \<and>
         sg_description sg = sd_description data \<and> strict_bool_or (we_lib W) True (sd_enabled data) = Inr (sg_enabled sg) \<and>
         handle W (R_segment (sg_uuid sg)) get w' =
           (Inr (Answer 200 (JObj [(''segment'', segment_json sg)]) (version_header ''masakari'' v')), w'))"
proof -
  obtain d data enabled where read: "body_section ''segment'' body = Inr d" "segment_data_of d = Inr data"
    "strict_bool_or (we_lib W) True (sd_enabled data) = Inr enabled"
    using admitted_segment [OF _ lib(2)] body by blast
  note run = segments_create_run [OF segments_create_checked [OF lib(1) accepted_version(1) [OF post(4)] post(5) body post(6) read(1,2)]
      post(7) db(1) read(3) db(2)]
  have contents: "body_contents (we_api W) post = Inr (Some body)" "body_contents (we_api W) get = Inr None"
    using post get by (simp_all add: body_contents_def should_have_body_def)
  note posted = handle_post [OF post(1)] and got = handle_get [OF get(1)]
  show ?thesis
  proof (cases "\<exists>r \<in> set (segments w). deleted r = 0 \<and> sg_name r = sd_name data")
    case True
    with run obtain m w' where m: "segments_create W v post (Some body) w = (Inl (Exc (HTTPError 409) m), w')" "segments w' = segments w" by auto
    have "handle W R_segments post w = (Inr (fault_answer v 409 m), w')"
      unfolding posted by (rule serve_http_error [OF post(4) contents(1)]) (simp add: m)
    with True read(1,2) m(2) show ?thesis by (intro exI [of _ d] exI [of _ data]) auto
  next
    case False
    with run obtain sg w' where sg: "segments_create W v post (Some body) w = (Inr (JObj [(''segment'', segment_json sg)]), w')"
      "segments w' = segments w @ [sg]" "db_ok (we_lib W) w'" "stored_from data enabled (gen_uuid (we_lib W) (uuid_seq w)) sg" by auto
    have "segments_show W (sg_uuid sg) get w' = (Inr (JObj [(''segment'', segment_json sg)]), w')"
      by (rule segments_show_live [OF get(3,4) sg(3)]) (use sg db in \<open>simp_all add: stored_from_def\<close>)
    then have "handle W (R_segment (sg_uuid sg)) get w' =
        (Inr (Answer 200 (JObj [(''segment'', segment_json sg)]) (version_header ''masakari'' v')), w')"
      unfolding got by (intro serve_result [OF get(2) contents(2), THEN trans]) simp_all
    moreover have "handle W R_segments post w =
        (Inr (Answer 201 (JObj [(''segment'', segment_json sg)]) (version_header ''masakari'' v)), w')"
      unfolding posted using sg(1) by (intro serve_result [OF post(4) contents(1), THEN trans]) simp_all
    ultimately show ?thesis using False read sg(2,4) unfolding stored_from_def
      by (intro exI [of _ d] exI [of _ data], unfold if_not_P [OF False])
        (intro conjI exI [of _ sg] exI [of _ w']; simp)
  qed
qed

section \<open>A concrete client\<close>

definition demo_text :: text_lib where
  "demo_text = \<lparr>tx_category = (\<lambda>c. if c < 32 then ''Cc'' else if c = 32 then ''Zs'' else ''Ll''),
     tx_isotime = (\<lambda>s. if s = [] then None else Some (int (length s))), tx_uuid = (\<lambda>s. s \<noteq> [])\<rparr>"

definition demo_valid :: validator where
  "demo_valid s j = (if schema_ok demo_text s j then Conforms
     else SchemaFault \<lparr>se_cause = None, se_path = [], se_value = [], se_message = ''invalid''\<rparr>)"

lemma demo_valid_ok: "validator_ok demo_text demo_valid"
  by (simp add: validator_ok_def demo_valid_def)

definition demo_body :: json where
  "demo_body = JObj [(''segment'', JObj [(''name'', JStr ''segment2''), (''recovery_method'', JStr ''auto''),
     (''service_type'', JStr ''compute''), (''enabled'', JStr ''On'')])]"

definition demo_web :: "json \<Rightarrow> nova_state web_env" where
  "demo_web body = \<lparr>we_lib = demo_lib, we_api = demo_api\<lparr>al_loads := \<lambda>_. Some body\<rparr>, we_text = demo_text, we_valid = demo_valid,
     we_nova = demo_nova, we_conf = demo_conf, we_cast = (\<lambda>_. None), we_details = (\<lambda>n. Inr (notification_json n)),
     we_bool_column = (\<lambda>_. None), we_row_id = length\<rparr>"

definition demo_post :: request where
  "demo_post = (demo_get [])\<lparr>rq_verb := ''POST'', rq_body := ''text''\<rparr>"

lemma demo_flags_ok: "flags_ok demo_lib"
  unfolding flags_ok_def by code_simp

lemma demo_name:
  assumes "t \<noteq> []" and "list_all (\<lambda>c. (of_char c :: nat) > 32) t" and "length t \<le> 255"
  shows "schema_ok demo_text name_type (JStr t)"
proof -
  have "(of_char c :: nat) \<noteq> 32 \<and> \<not> (of_char c :: nat) < 32" if "c \<in> set t" for c
    using assms(2) that by (fastforce simp: list_all_iff)
  from this this [OF hd_in_set [OF assms(1)]] this [OF last_in_set [OF assms(1)]]
  have "good_name (tx_category demo_text) t"
    using assms(1) by (simp add: good_name_def list_all_iff printable_def is_printable_def space_def demo_text_def)
  then have "valid_name_regex (tx_category demo_text) t" unfolding valid_name_regex_iff [OF assms(1)] by blast
  then show ?thesis using assms(1,3) by (simp add: schema_ok_def name_type_def check_format_def validate_name_def Suc_le_eq)
qed

lemma demo_body_ok: "schema_ok demo_text (segments_create_v12 (tx_category demo_text)) demo_body"
proof -
  have "schema_ok demo_text name_type (JStr ''segment2'')" "schema_ok demo_text name_type (JStr ''compute'')"
    by (rule demo_name; simp)+
  then have "\<forall>k \<in> set name_type. keyword_ok demo_text name_type k (JStr ''segment2'')"
    "\<forall>k \<in> set name_type. keyword_ok demo_text name_type k (JStr ''compute'')" by (simp_all add: schema_ok_def list_all_iff)
  then show ?thesis
    by (simp add: segments_create_v12_def schema_ok_def body_type_def object_type_def segment_properties_def enabled_property_def
      enum_type_def boolean_type_def demo_body_def)
qed

lemma demo_accepted: "accepted demo_post (version 2)" "accepted (demo_get []) (version 2)"
  by (simp_all add: accepted_def demo_post_def demo_get_def set_api_version_request_def get_content_type_def demo_api_context_def
    versions_read) code_simp+

lemma demo_permitted:
  "permitted (we_api (demo_web body)) demo_post policy" "permitted (we_api (demo_web body)) (demo_get []) policy"
  "live_ctx (db_ctx demo_post)" "live_ctx (db_ctx (demo_get []))"
  by (simp_all add: permitted_def can_def authorize_def demo_web_def demo_api_def demo_policy_def demo_post_def demo_get_def
    demo_api_context_def live_ctx_def db_ctx_def request_context.truncate_def to_policy_values_def dget_def json_bool_def Let_def)

lemma segment_post_get_witness:
  "\<exists>sg w' h h'. handle (demo_web demo_body) R_segments demo_post ((demo_world demo_servers ())\<lparr>uuid_seq := 3\<rparr>) =
      (Inr (Answer 201 (JObj [(''segment'', segment_json sg)]) h), w') \<and> sg_name sg = ''segment2'' \<and> sg_enabled sg \<and>
    handle (demo_web demo_body) (R_segment (sg_uuid sg)) (demo_get []) w' =
      (Inr (Answer 200 (JObj [(''segment'', segment_json sg)]) h'), w')"
proof -
  let ?w = "(demo_world demo_servers ())\<lparr>uuid_seq := 3\<rparr>"
  have w: "db_ok (we_lib (demo_web demo_body)) ?w" using demo_world_ok [of demo_lib demo_servers "()"]
    by (simp add: demo_web_def db_ok_def table_ok_def)
  have env: "we_text (demo_web demo_body) = demo_text" "we_valid (demo_web demo_body) = demo_valid" "we_lib (demo_web demo_body) = demo_lib"
    by (simp_all add: demo_web_def)
  have "ver_le (version 2) (version 2)" by code_simp
  note le = this
  have "case body_section ''segment'' demo_body of Inr d \<Rightarrow> (case segment_data_of d of
      Inr data \<Rightarrow> sd_name data = ''segment2'' \<and> strict_bool_or demo_lib True (sd_enabled data) = Inr True | Inl _ \<Rightarrow> False)
    | Inl _ \<Rightarrow> False" by code_simp
  then obtain d data where read: "body_section ''segment'' demo_body = Inr d" "segment_data_of d = Inr data"
    "sd_name data = ''segment2''" "strict_bool_or demo_lib True (sd_enabled data) = Inr True" by (auto split: sum.splits)
  have free: "\<not> (\<exists>r \<in> set (segments ?w). deleted r = 0 \<and> sg_name r = sd_name data)" using read(3) by (simp add: demo_defs)
  have p: "rq_verb demo_post = ''POST''" "rq_body demo_post \<noteq> []" "rq_verb (demo_get []) = ''GET''"
    "al_loads (we_api (demo_web demo_body)) (rq_body demo_post) = Some demo_body"
    "gen_uuid demo_lib (uuid_seq ?w) \<notin> sg_uuid ` set (segments ?w)" "is_uuid_like demo_lib (gen_uuid demo_lib (uuid_seq ?w))"
    by (simp_all add: demo_post_def demo_get_def demo_web_def demo_defs demo_lib_def count_uuid_def eval_nat_numeral)
  note run = segment_post_get [of "demo_web demo_body" demo_post demo_body "version 2" "demo_get []" "version 2" ?w, unfolded env,
      OF demo_valid_ok demo_flags_ok p(1,2,4) demo_accepted(1) le demo_permitted(1,3) p(3) demo_accepted(2) demo_permitted(2,4)
        demo_body_ok w [unfolded env] p(5,6)]
  from run show ?thesis
    by (simp only: read(1,2,4) sum.inject simp_thms ex_simps if_not_P [OF free])
      (elim exE conjE, intro exI conjI, assumption, simp_all add: read(3))
qed


end
