(* ===== verification/Masakari_AdminApi.thy ===== *)
theory Masakari_AdminApi
  imports Masakari_AdminConfig Masakari_Controllers Masakari_StagedTasks
begin

text \<open>
  The other controllers for administrators (\<open>api/openstack/ha/staged_recovery.py\<close>, \<open>recovery_workflows.py\<close>,
  \<open>diagnostics.py\<close>, \<open>admin_overview.py\<close>, \<open>audit.py\<close>): the run time state of staged recovery with its limit
  of parallel starts, the description of the workflows, and the overview, health, diagnostics and audit
  resources. The jobs of the diagnostics are a dictionary of the process, passed from request to request.
  A time is shown as the moment it stands for.
\<close>

section \<open>Environment\<close>

text \<open>The environment of the admin configuration, the validator of bodies, and the store with owner \<open>api\<close>.\<close>

record 'k admin_env =
  ad_config :: "'k config_env"
  ad_valid :: validator
  ad_store :: "exc + 'k staged_store"

definition ad_api :: "'k admin_env \<Rightarrow> api_lib" where
  "ad_api D = ce_api (ad_config D)"

definition ad_value :: "'k admin_env \<Rightarrow> string \<Rightarrow> json" where
  "ad_value D name = effective_value (ad_config D) name"

section \<open>Staged recovery\<close>

definition DEFAULT_LIST_LIMIT :: nat where "DEFAULT_LIST_LIMIT = 100"
definition MAX_LIST_LIMIT :: nat where "MAX_LIST_LIMIT = 1000"

definition INSTANCE_FILTERS :: "string list" where
  "INSTANCE_FILTERS = [''notification_uuid'', ''instance_uuid'', ''source_host'', ''dest_host'', ''step'']"

definition LEASE_FILTERS :: "string list" where
  "LEASE_FILTERS = [''notification_uuid'', ''instance_uuid'', ''dest_host'']"

definition start_limit_view :: "int \<Rightarrow> string \<Rightarrow> json" where
  "start_limit_view value source = JObj [(''start_limit'',
     JObj [(''max_parallel_starts_per_host'', JInt value), (''source'', JStr source)])]"

definition parse_limit :: "request \<Rightarrow> exc + nat" where
  "parse_limit req = (case get_param req ''limit'' of None \<Rightarrow> Inr DEFAULT_LIST_LIMIT
     | Some raw_limit \<Rightarrow> (case int_of_string raw_limit of None \<Rightarrow> Inl (Exc (HTTPError 400) ''Invalid limit value'')
         | Some limit \<Rightarrow> if limit < 1 \<or> limit > int MAX_LIST_LIMIT then Inl (Exc (HTTPError 400) ''Invalid limit value'')
             else Inr (nat limit)))"

definition filters_of :: "request \<Rightarrow> string list \<Rightarrow> json dict" where
  "filters_of req allowed = concat (map (\<lambda>name. case get_param req name of None \<Rightarrow> []
     | Some v \<Rightarrow> if v = [] then [] else [(name, JStr v)]) allowed)"

definition staged_recovery_show :: "'k admin_env \<Rightarrow> string \<Rightarrow> request \<Rightarrow> ('n, 'k, json) prog" where
  "staged_recovery_show D i req = expected_errors (ad_api D) [400, 403, 404]
     (if i = ''start-limit''
      then bindM (require (ad_api D) req (policy_name ''staged-recovery'' ''start_limit:show'')) (\<lambda>_.
        bindM (liftE (ad_store D)) (\<lambda>S.
        bindM (get_max_parallel_starts_per_host_with_source S (ad_value D ''max_parallel_starts_per_host'')) (\<lambda>(limit, source).
        retM (start_limit_view limit source))))
      else if i = ''instances''
      then bindM (require (ad_api D) req (policy_name ''staged-recovery'' ''instances:index'')) (\<lambda>_.
        bindM (liftE (parse_limit req)) (\<lambda>limit.
        bindM (liftE (ad_store D)) (\<lambda>S.
        bindM (list_all_instance_states S (filters_of req INSTANCE_FILTERS) (Some limit)) (\<lambda>rs.
        retM (JObj [(''instances'', JList (map JObj rs))])))))
      else if i = ''leases''
      then bindM (require (ad_api D) req (policy_name ''staged-recovery'' ''leases:index'')) (\<lambda>_.
        bindM (liftE (parse_limit req)) (\<lambda>limit.
        bindM (liftE (ad_store D)) (\<lambda>S.
        bindM (list_all_start_leases S (filters_of req LEASE_FILTERS) (Some limit)) (\<lambda>rs.
        retM (JObj [(''leases'', JList (map JObj rs))])))))
      else raiseM not_found)"

definition staged_recovery_update ::
  "'k admin_env \<Rightarrow> string \<Rightarrow> api_version_request \<Rightarrow> request \<Rightarrow> json option \<Rightarrow> ('n, 'k, json) prog" where
  "staged_recovery_update D i v req = (\<lambda>contents. expected_errors (ad_api D) [400, 403, 404] (body_argument
     (with_schema (ad_valid D) update_start_limit_schema None None (\<lambda>_ body.
       if i \<noteq> ''start-limit'' then raiseM not_found
       else bindM (require (ad_api D) req (policy_name ''staged-recovery'' ''start_limit:update'')) (\<lambda>_.
         bindM (liftE (body_section ''start_limit'' body)) (\<lambda>d.
         bindM (case map_of d ''max_parallel_starts_per_host'' of None \<Rightarrow> raiseM (Exc KeyError ''max_parallel_starts_per_host'')
           | Some value \<Rightarrow> except_as InvalidInput 400 (bindM (liftE (ad_store D)) (\<lambda>S. set_max_parallel_starts_per_host S value))) (\<lambda>value.
         retM (start_limit_view value ''runtime''))))) v) contents))"

definition staged_recovery_delete :: "'k admin_env \<Rightarrow> string \<Rightarrow> request \<Rightarrow> ('n, 'k, json) prog" where
  "staged_recovery_delete D i req = expected_errors (ad_api D) [403, 404]
     (if i \<noteq> ''start-limit'' then raiseM not_found
      else bindM (require (ad_api D) req (policy_name ''staged-recovery'' ''start_limit:delete'')) (\<lambda>_.
        bindM (liftE (ad_store D)) (\<lambda>S.
        bindM (clear_max_parallel_starts_per_host S) (\<lambda>_. retM JNull))))"

section \<open>Recovery workflows\<close>

definition workflow_task :: "string \<Rightarrow> string \<Rightarrow> json" where
  "workflow_task name entry_point = JObj [(''name'', JStr name), (''entry_point'', JStr (''masakari.engine.drivers.taskflow.'' @ entry_point)),
     (''builtin'', JBool True), (''allowed'', JBool True)]"

definition STAGED_TASKS :: "(string \<times> string) list" where
  "STAGED_TASKS =
    [(''reconcile_staged_recovery_task'', ''staged_host_failure:ReconcileStagedRecoveryTask''),
     (''evacuate_to_stopped_task'', ''staged_host_failure:EvacuateToStoppedTask''),
     (''batched_start_instances_task'', ''staged_host_failure:BatchedStartInstancesTask'')]"

definition STANDARD_TASKS :: "(string \<times> string) list" where
  "STANDARD_TASKS =
    [(''disable_compute_service_task'', ''host_failure:DisableComputeServiceTask''),
     (''prepare_HA_enabled_instances_task'', ''host_failure:PrepareHAEnabledInstancesTask''),
     (''evacuate_instances_task'', ''host_failure:EvacuateInstancesTask'')]"

definition TEMPLATES :: json where
  "TEMPLATES = JList
    [JObj [(''name'', JStr ''standard''), (''description'', JStr ''Default Masakari host failure workflow''),
       (''tasks'', JList (map (JStr \<circ> fst) STANDARD_TASKS))],
     JObj [(''name'', JStr ''staged_recovery_etcd''), (''description'', JStr ''Evacuate to stopped, then start instances in batches''),
       (''tasks'', JList (map (JStr \<circ> fst) STAGED_TASKS))]]"

definition recovery_workflows_show :: "'k admin_env \<Rightarrow> string \<Rightarrow> request \<Rightarrow> ('n, 'k, json) prog" where
  "recovery_workflows_show D i req = expected_errors (ad_api D) [403, 404]
     (if i = ''schema''
      then bindM (require (ad_api D) req (policy_name ''admin-recovery-workflows'' ''schema'')) (\<lambda>_.
        retM (JObj [(''schema'', JObj [(''available_tasks'', JList (map (\<lambda>(n, e). workflow_task n e) (STANDARD_TASKS @ STAGED_TASKS))),
          (''templates'', TEMPLATES)])]))
      else if i = ''effective''
      then bindM (require (ad_api D) req (policy_name ''admin-recovery-workflows'' ''effective'')) (\<lambda>_.
        retM (JObj [(''workflow'', JObj [(''staged_recovery_enabled'', ad_value D ''enabled''), (''templates'', TEMPLATES)])]))
      else raiseM not_found)"

section \<open>Overview and audit\<close>

definition staged_recovery_summary :: "'k admin_env \<Rightarrow> json" where
  "staged_recovery_summary D = JObj [(''enabled'', ad_value D ''enabled''),
     (''max_parallel_starts_per_host'', ad_value D ''max_parallel_starts_per_host'')]"

definition admin_overview_index :: "'k admin_env \<Rightarrow> request \<Rightarrow> ('n, 'k, json) prog" where
  "admin_overview_index D req = expected_errors (ad_api D) [403]
     (bindM (require (ad_api D) req (policy_name ''admin-overview'' ''index'')) (\<lambda>_.
      bindM utcnow (\<lambda>now.
      retM (JObj [(''overview'', JObj [(''generated_at'', JTime now),
        (''masakari_api'', JObj [(''status'', JStr ''ok''), (''version'', JStr ''1.0'')]),
        (''staged_recovery'', staged_recovery_summary D)])]))))"

definition check_status :: "string \<Rightarrow> string \<Rightarrow> json" where
  "check_status name s = JObj [(''name'', JStr name), (''status'', JStr s)]"

definition admin_overview_show :: "'k admin_env \<Rightarrow> string \<Rightarrow> request \<Rightarrow> ('n, 'k, json) prog" where
  "admin_overview_show D i req = expected_errors (ad_api D) [403, 404]
     (if i \<noteq> ''health'' then raiseM not_found
      else bindM (require (ad_api D) req (policy_name ''admin-overview'' ''health'')) (\<lambda>_.
        let staged_status = (if falsy (ad_value D ''enabled'') then ''disabled'' else ''ok'') in
        bindM utcnow (\<lambda>now.
        retM (JObj [(''health'', JObj [(''generated_at'', JTime now), (''status'', JStr ''ok''),
          (''checks'', JList [check_status ''masakari_api'' ''ok'', check_status ''staged_recovery_config'' staged_status])])]))))"

definition audit_show :: "'k admin_env \<Rightarrow> string \<Rightarrow> request \<Rightarrow> ('n, 'k, json) prog" where
  "audit_show D i req = expected_errors (ad_api D) [403, 404]
     (if i \<noteq> ''events'' then raiseM not_found
      else bindM (require (ad_api D) req (policy_name ''audit'' ''index'')) (\<lambda>_. retM (JObj [(''events'', JList [])])))"

section \<open>Diagnostics\<close>

definition diagnostics_checks :: "(string \<times> string) list" where
  "diagnostics_checks =
    [(''masakari_api'', ''Check that the Masakari API worker responds.''),
     (''staged_recovery_config'', ''Check staged recovery configuration values.'')]"

definition check_json :: "string \<times> string \<Rightarrow> json" where
  "check_json c = JObj [(''name'', JStr (fst c)), (''description'', JStr (snd c)), (''enabled'', JBool True)]"

definition diagnostics_show :: "'k admin_env \<Rightarrow> string \<Rightarrow> request \<Rightarrow> ('n, 'k, json) prog" where
  "diagnostics_show D i req = expected_errors (ad_api D) [403, 404]
     (if i = ''checks''
      then bindM (require (ad_api D) req (policy_name ''diagnostics'' ''index'')) (\<lambda>_.
        retM (JObj [(''checks'', JList (map check_json diagnostics_checks))]))
      else raiseM not_found)"

definition diagnostics_show_job :: "'k admin_env \<Rightarrow> json dict \<Rightarrow> string \<Rightarrow> request \<Rightarrow> ('n, 'k, json) prog" where
  "diagnostics_show_job D jobs job_id req = expected_errors (ad_api D) [403, 404]
     (bindM (require (ad_api D) req (policy_name ''diagnostics'' ''detail'')) (\<lambda>_.
      case map_of jobs job_id of None \<Rightarrow> raiseM not_found | Some job \<Rightarrow> retM (JObj [(''job'', job)])))"

text \<open>
  \<open>body.get('diagnostics', {}).get('checks')\<close> of a body that is there, and the iteration over what it
  gives: the items of a list, the letters of a text, the keys of an object.
\<close>

definition requested_checks :: "json \<Rightarrow> exc + json" where
  "requested_checks body = (if falsy body then Inr JNull else (case body of
     JObj b \<Rightarrow> (case map_of b ''diagnostics'' of None \<Rightarrow> Inr JNull
       | Some (JObj d) \<Rightarrow> Inr (dget d ''checks'') | Some _ \<Rightarrow> Inl (Exc OtherException ''object has no attribute get''))
   | _ \<Rightarrow> Inl (Exc OtherException ''object has no attribute get'')))"

definition iterated :: "json \<Rightarrow> exc + json list" where
  "iterated v = (case v of JList xs \<Rightarrow> Inr xs | JStr s \<Rightarrow> Inr (map (\<lambda>c. JStr [c]) s) | JObj d \<Rightarrow> Inr (map (JStr \<circ> fst) d)
     | _ \<Rightarrow> Inl (Exc TypeError ''object is not iterable''))"

definition diagnostics_job :: "string \<Rightarrow> json \<Rightarrow> int \<Rightarrow> json list \<Rightarrow> json" where
  "diagnostics_job job_id checks now names = JObj [(''id'', JStr job_id), (''status'', JStr ''completed''), (''requested_checks'', checks),
     (''generated_at'', JTime now), (''results'', JList (map (\<lambda>name. JObj [(''name'', name), (''status'', JStr ''ok'')]) names))]"

definition diagnostics_run :: "'k admin_env \<Rightarrow> json dict \<Rightarrow> request \<Rightarrow> json \<Rightarrow> ('n, 'k, json \<times> json dict) prog" where
  "diagnostics_run D jobs req body = expected_errors (ad_api D) [403]
     (bindM (require (ad_api D) req (policy_name ''diagnostics'' ''run'')) (\<lambda>_.
      bindM (liftE (requested_checks body)) (\<lambda>requested.
      let checks = or_else requested (JList (map (JStr \<circ> fst) diagnostics_checks)) in
      bindM (generate_uuid (ce_lib (ad_config D))) (\<lambda>job_id.
      bindM utcnow (\<lambda>now.
      bindM (liftE (iterated checks)) (\<lambda>names.
      let job = diagnostics_job job_id checks now names in
      retM (JObj [(''job'', job)], AList.update job_id job jobs)))))))"

section \<open>Routes\<close>

text \<open>
  The resources of the extensions and their own routes: a draft has PATCH, and \<open>validate\<close>, \<open>diff\<close>, \<open>plan\<close> and
  \<open>apply\<close> below it; the diagnostics have \<open>run\<close> and their jobs. \<open>A_run\<close> is the path with POST: with another
  verb it is the member \<open>run\<close>.
\<close>

datatype admin_route =
    A_config | A_config_item string | A_drafts | A_draft string
  | A_draft_validate string | A_draft_diff string | A_draft_plan string | A_draft_apply string
  | A_jobs | A_job string | A_staged | A_staged_item string | A_workflows | A_workflow string
  | A_overview | A_overview_item string | A_audits | A_audit string
  | A_diagnostics | A_diagnostic string | A_run | A_diagnostics_job string

primrec admin_method_of :: "admin_route \<Rightarrow> string \<Rightarrow> string option" where
  "admin_method_of A_config verb = method_of False verb"
| "admin_method_of (A_config_item i) verb = method_of True verb"
| "admin_method_of A_drafts verb = method_of False verb"
| "admin_method_of (A_draft i) verb = (if verb = ''PATCH'' then Some ''update'' else method_of True verb)"
| "admin_method_of (A_draft_validate i) verb = (if verb = ''POST'' then Some ''validate'' else None)"
| "admin_method_of (A_draft_diff i) verb = (if verb = ''GET'' then Some ''diff'' else None)"
| "admin_method_of (A_draft_plan i) verb = (if verb = ''POST'' then Some ''plan'' else None)"
| "admin_method_of (A_draft_apply i) verb = (if verb = ''POST'' then Some ''apply'' else None)"
| "admin_method_of A_jobs verb = method_of False verb"
| "admin_method_of (A_job i) verb = method_of True verb"
| "admin_method_of A_staged verb = method_of False verb"
| "admin_method_of (A_staged_item i) verb = method_of True verb"
| "admin_method_of A_workflows verb = method_of False verb"
| "admin_method_of (A_workflow i) verb = method_of True verb"
| "admin_method_of A_overview verb = method_of False verb"
| "admin_method_of (A_overview_item i) verb = method_of True verb"
| "admin_method_of A_audits verb = method_of False verb"
| "admin_method_of (A_audit i) verb = method_of True verb"
| "admin_method_of A_diagnostics verb = method_of False verb"
| "admin_method_of (A_diagnostic i) verb = method_of True verb"
| "admin_method_of A_run verb = (if verb = ''POST'' then Some ''run'' else method_of True verb)"
| "admin_method_of (A_diagnostics_job i) verb = (if verb = ''GET'' then Some ''show_job'' else None)"

text \<open>An action that leaves the jobs of the diagnostics alone, under a method name.\<close>

definition with_jobs :: "json dict \<Rightarrow> ('n, 'k, json) prog \<Rightarrow> ('n, 'k, json \<times> json dict) prog" where
  "with_jobs jobs f = bindM f (\<lambda>a. retM (a, jobs))"

definition on :: "string \<Rightarrow> string \<Rightarrow> nat \<Rightarrow> (api_version_request \<Rightarrow> request \<Rightarrow> json option \<Rightarrow> ('n, 'k, 'a) prog)
    \<Rightarrow> ('n, 'k, 'a) action option \<Rightarrow> ('n, 'k, 'a) action option" where
  "on m name code f rest = (if m = name then Some \<lparr>ac_code = code, ac_run = f\<rparr> else rest)"

primrec admin_action :: "'k admin_env \<Rightarrow> json dict \<Rightarrow> string \<Rightarrow> admin_route \<Rightarrow> ('n, 'k, json \<times> json dict) action option" where
  "admin_action D js m A_config = None"
| "admin_action D js m (A_config_item i) = on m ''show'' 200 (\<lambda>v req b. with_jobs js (config_show (ad_config D) i req)) None"
| "admin_action D js m A_drafts =
     on m ''index'' 200 (\<lambda>v req b. with_jobs js (config_drafts_index (ad_config D) req))
     (on m ''create'' 201 (\<lambda>v req b. with_jobs js (optional_body (config_drafts_create (ad_config D) req) b)) None)"
| "admin_action D js m (A_draft i) =
     on m ''show'' 200 (\<lambda>v req b. with_jobs js (config_drafts_show (ad_config D) i req))
     (on m ''update'' 200 (\<lambda>v req b. with_jobs js (config_drafts_update (ad_config D) i req b))
     (on m ''delete'' 204 (\<lambda>v req b. with_jobs js (bindM (config_drafts_delete (ad_config D) i req) (\<lambda>_. retM JNull))) None))"
| "admin_action D js m (A_draft_validate i) = on m ''validate'' 200 (\<lambda>v req b. with_jobs js (config_drafts_validate (ad_config D) i req)) None"
| "admin_action D js m (A_draft_diff i) = on m ''diff'' 200 (\<lambda>v req b. with_jobs js (config_drafts_diff (ad_config D) i req)) None"
| "admin_action D js m (A_draft_plan i) = on m ''plan'' 200 (\<lambda>v req b. with_jobs js (config_drafts_plan (ad_config D) i req)) None"
| "admin_action D js m (A_draft_apply i) =
     on m ''apply'' 202 (\<lambda>v req b. with_jobs js (optional_body (config_drafts_apply (ad_config D) i req) b)) None"
| "admin_action D js m A_jobs = on m ''index'' 200 (\<lambda>v req b. with_jobs js (jobs_index (ad_config D) req)) None"
| "admin_action D js m (A_job i) = on m ''show'' 200 (\<lambda>v req b. with_jobs js (jobs_show (ad_config D) i req)) None"
| "admin_action D js m A_staged = None"
| "admin_action D js m (A_staged_item i) =
     on m ''show'' 200 (\<lambda>v req b. with_jobs js (staged_recovery_show D i req))
     (on m ''update'' 200 (\<lambda>v req b. with_jobs js (staged_recovery_update D i v req b))
     (on m ''delete'' 204 (\<lambda>v req b. with_jobs js (staged_recovery_delete D i req)) None))"
| "admin_action D js m A_workflows = None"
| "admin_action D js m (A_workflow i) = on m ''show'' 200 (\<lambda>v req b. with_jobs js (recovery_workflows_show D i req)) None"
| "admin_action D js m A_overview = on m ''index'' 200 (\<lambda>v req b. with_jobs js (admin_overview_index D req)) None"
| "admin_action D js m (A_overview_item i) = on m ''show'' 200 (\<lambda>v req b. with_jobs js (admin_overview_show D i req)) None"
| "admin_action D js m A_audits = None"
| "admin_action D js m (A_audit i) = on m ''show'' 200 (\<lambda>v req b. with_jobs js (audit_show D i req)) None"
| "admin_action D js m A_diagnostics = None"
| "admin_action D js m (A_diagnostic i) = on m ''show'' 200 (\<lambda>v req b. with_jobs js (diagnostics_show D i req)) None"
| "admin_action D js m A_run =
     on m ''run'' 202 (\<lambda>v req b. optional_body (diagnostics_run D js req) b)
     (on m ''show'' 200 (\<lambda>v req b. with_jobs js (diagnostics_show D ''run'' req)) None)"
| "admin_action D js m (A_diagnostics_job i) = on m ''show_job'' 200 (\<lambda>v req b. with_jobs js (diagnostics_show_job D js i req)) None"

definition admin_handle :: "'k admin_env \<Rightarrow> json dict \<Rightarrow> admin_route \<Rightarrow> request \<Rightarrow> ('n, 'k, (json \<times> json dict) answer) prog" where
  "admin_handle D js r req = (case admin_method_of r (rq_verb req) of
     None \<Rightarrow> retM (Failure \<lparr>f_code = 404, f_explanation = not_found_text\<rparr> None)
   | Some m \<Rightarrow> serve (ad_api D) m (admin_action D js m r) req)"

section \<open>Every request is answered\<close>

lemma expected_errors_bind:
  "bindM (expected_errors A errors f) (\<lambda>a. retM (g a)) = expected_errors A errors (bindM f (\<lambda>a. retM (g a)))"
proof
  fix w
  show "bindM (expected_errors A errors f) (\<lambda>a. retM (g a)) w = expected_errors A errors (bindM f (\<lambda>a. retM (g a))) w"
    by (cases "f w", rename_tac r t, case_tac r)
      (auto simp: expected_errors_def comp_defs split: exc_class.split)
qed

lemmas admin_action_defs = config_show_def config_drafts_index_def config_drafts_show_def config_drafts_create_def
  config_drafts_update_def config_drafts_delete_def config_drafts_validate_def config_drafts_diff_def config_drafts_plan_def
  config_drafts_apply_def jobs_index_def jobs_show_def staged_recovery_show_def staged_recovery_update_def staged_recovery_delete_def
  recovery_workflows_show_def admin_overview_index_def admin_overview_show_def audit_show_def diagnostics_show_def
  diagnostics_show_job_def diagnostics_run_def

lemma declares_expected:
  "set errors \<subseteq> {400, 403, 404, 409} \<Longrightarrow> declares A (\<lambda>v req b. expected_errors A errors (f v req b))"
  by (rule declaresI) simp_all

lemma admin_action_declared:
  "admin_action D js m r = Some act \<Longrightarrow> ac_code act \<in> {200, 201, 202, 204} \<and> declares (ad_api D) (ac_run act)"
  by (cases r) (auto simp: on_def with_jobs_def optional_body_def ad_api_def admin_action_defs expected_errors_bind
    intro!: declares_expected split: if_splits)

lemma admin_answers: "wp (admin_handle D js r req) (\<lambda>ans _. answer_ok ans) (\<lambda>_ _. False) w"
  unfolding admin_handle_def
  by (cases "admin_method_of r (rq_verb req)") (auto simp: wp_retM intro!: wp_routed dest: admin_action_declared)


section \<open>The limit of parallel starts through the API\<close>

text \<open>The limit and its source that are shown, of the content of etcd.\<close>

definition shown_limit ::
  "'k staged_store \<Rightarrow> ('k \<Rightarrow> string \<Rightarrow> json option) \<Rightarrow> 'k \<Rightarrow> json \<Rightarrow> exc + (int \<times> string)" where
  "shown_limit S kv k fallback = map_sum id (\<lambda>i. (i, if kv k (runtime_config_key S CONFIG_MAX_PARALLEL_STARTS_PER_HOST) = None
     then ''config'' else ''runtime'')) (limit_in_force S kv k fallback)"

lemma shown_limit_cong: "kv k = kv k' \<Longrightarrow> shown_limit S kv k = shown_limit S kv k'"
  by (simp add: shown_limit_def limit_in_force_def fun_eq_iff)

lemma get_limit_quiet:
  assumes "etcd_quiet (ss_client S) kv env"
  obtains k where "get_max_parallel_starts_per_host_with_source S fallback w = (shown_limit S kv (etcd w) fallback, w\<lparr>etcd := k\<rparr>)"
    "kv k = kv (etcd w)"
proof -
  obtain k where "get_raw (ss_client S) (runtime_config_key S CONFIG_MAX_PARALLEL_STARTS_PER_HOST) w =
      (Inr (kv (etcd w) (runtime_config_key S CONFIG_MAX_PARALLEL_STARTS_PER_HOST)), w\<lparr>etcd := k\<rparr>)"
    and k: "kv k = kv (etcd w)" by (rule get_raw_quiet [OF assms])
  then have "get_max_parallel_starts_per_host_with_source S fallback w = (shown_limit S kv (etcd w) fallback, w\<lparr>etcd := k\<rparr>)"
    by (auto simp: get_max_parallel_starts_per_host_with_source_def get_runtime_config_def shown_limit_def limit_in_force_def
      comp_defs liftE_def split: option.split sum.split)
  with k that show ?thesis by blast
qed

text \<open>A limit that was set is shown as one of run time, whatever is configured.\<close>

lemma shown_runtime:
  assumes "\<forall>fallback. limit_in_force S kv k fallback = Inr n"
  shows "shown_limit S kv k fallback = Inr (n, ''runtime'')"
proof -
  have "kv k (runtime_config_key S CONFIG_MAX_PARALLEL_STARTS_PER_HOST) \<noteq> None"
    using spec [OF assms, of JNull] by (auto simp: limit_in_force_def validate_positive_int_def py_int_def split: option.splits)
  then show ?thesis using assms by (simp add: shown_limit_def)
qed

lemma clear_limit_quiet:
  assumes "etcd_quiet (ss_client S) kv env" and "validate_positive_int fallback CONFIG_MAX_PARALLEL_STARTS_PER_HOST = Inr c"
  obtains b k where "clear_max_parallel_starts_per_host S w = (Inr b, w\<lparr>etcd := k\<rparr>)" "shown_limit S kv k fallback = Inr (c, ''config'')"
proof -
  let ?key = "runtime_config_key S CONFIG_MAX_PARALLEL_STARTS_PER_HOST"
  have "etcd_ok (ss_client S) kv env" "\<And>k k'. env k k' \<Longrightarrow> kv k' = kv k" "\<not> isl (fst (ec_delete (ss_client S) ?key (etcd w)))"
    using assms(1) unfolding etcd_quiet_def by blast+
  from writes_quiet [OF etcd_delete [OF this(1)] this(2,3)] obtain k
    where k: "ec_delete (ss_client S) ?key (etcd w) = (Inr (kv (etcd w) ?key \<noteq> None), k)"
      "kv k = (if kv (etcd w) ?key \<noteq> None then (kv (etcd w))(?key := None) else kv (etcd w))" by blast
  have "clear_max_parallel_starts_per_host S w = (Inr (kv (etcd w) ?key \<noteq> None), w\<lparr>etcd := k\<rparr>)"
    by (simp add: clear_max_parallel_starts_per_host_def clear_runtime_config_def on_etcd_run k(1))
  moreover have "kv k ?key = None" using k(2) by (auto split: if_splits)
  then have "shown_limit S kv k fallback = Inr (c, ''config'')"
    using assms(2) by (simp add: shown_limit_def limit_in_force_def)
  ultimately show ?thesis using that by blast
qed

text \<open>What a member of the resource answers, from what its action does.\<close>

lemma admin_item:
  assumes "method_of True (rq_verb req) = Some m"
    and "admin_action D js m (A_staged_item i) = Some \<lparr>ac_code = c, ac_run = \<lambda>v req b. with_jobs js (run v req b)\<rparr>"
    and "accepted req v" and "body_contents (ad_api D) req = Inr b" and "run v req b w = (r, t)"
  shows "r = Inr a \<Longrightarrow> admin_handle D js (A_staged_item i) req w = (Inr (Answer c (a, js) (version_header ''masakari'' v)), t)"
    and "r = Inl (Exc (HTTPError n) msg) \<Longrightarrow> admin_handle D js (A_staged_item i) req w = (Inr (fault_answer v n msg), t)"
proof -
  have run: "admin_handle D js (A_staged_item i) req =
      serve (ad_api D) m (Some \<lparr>ac_code = c, ac_run = \<lambda>v req b. with_jobs js (run v req b)\<rparr>) req"
    using assms(1,2) by (simp add: admin_handle_def)
  show "admin_handle D js (A_staged_item i) req w = (Inr (Answer c (a, js) (version_header ''masakari'' v)), t)" if "r = Inr a"
    unfolding run using assms(5) that by (simp add: serve_result [OF assms(3,4)] with_jobs_def bindM_def retM_def)
  show "admin_handle D js (A_staged_item i) req w = (Inr (fault_answer v n msg), t)" if "r = Inl (Exc (HTTPError n) msg)"
    unfolding run by (rule serve_http_error [OF assms(3,4)]) (use assms(5) that in \<open>simp add: with_jobs_def bindM_def\<close>)
qed

lemma start_limit_get:
  assumes quiet: "etcd_quiet (ss_client S) kv env" and store: "ad_store D = Inr S"
    and get: "rq_verb get = ''GET''" "accepted get v" "permitted (ad_api D) get (policy_name ''staged-recovery'' ''start_limit:show'')"
    and limit: "shown_limit S kv (etcd w) (ad_value D ''max_parallel_starts_per_host'') = Inr (n, source)"
  shows "\<exists>t. admin_handle D js (A_staged_item ''start-limit'') get w =
      (Inr (Answer 200 (start_limit_view n source, js) (version_header ''masakari'' v)), t)"
proof -
  obtain k where k: "get_max_parallel_starts_per_host_with_source S (ad_value D ''max_parallel_starts_per_host'') w =
      (Inr (n, source), w\<lparr>etcd := k\<rparr>)"
    using get_limit_quiet [OF quiet, of "ad_value D ''max_parallel_starts_per_host''" w] limit by metis
  have run: "staged_recovery_show D ''start-limit'' get w = (Inr (start_limit_view n source), w\<lparr>etcd := k\<rparr>)"
    unfolding staged_recovery_show_def require_permitted [OF get(3)]
    by (rule expected_errors_result) (simp add: store k comp_defs liftE_def)
  have "admin_handle D js (A_staged_item ''start-limit'') get w =
      (Inr (Answer 200 (start_limit_view n source, js) (version_header ''masakari'' v)), w\<lparr>etcd := k\<rparr>)"
    by (rule admin_item(1) [where m = "''show''" and run = "\<lambda>v req b. staged_recovery_show D ''start-limit'' req", OF _ _ get(2) _ run])
      (simp_all add: get(1) method_of_def on_def body_contents_def should_have_body_def)
  then show ?thesis by blast
qed

lemma start_limit_delete:
  assumes quiet: "etcd_quiet (ss_client S) kv env" and store: "ad_store D = Inr S"
    and del: "rq_verb del = ''DELETE''" "accepted del v" "permitted (ad_api D) del (policy_name ''staged-recovery'' ''start_limit:delete'')"
    and fallback: "validate_positive_int fallback CONFIG_MAX_PARALLEL_STARTS_PER_HOST = Inr c"
  shows "\<exists>t. admin_handle D js (A_staged_item ''start-limit'') del w = (Inr (Answer 204 (JNull, js) (version_header ''masakari'' v)), t) \<and>
      shown_limit S kv (etcd t) fallback = Inr (c, ''config'')"
proof -
  obtain b k where k: "clear_max_parallel_starts_per_host S w = (Inr b, w\<lparr>etcd := k\<rparr>)" "shown_limit S kv k fallback = Inr (c, ''config'')"
    by (rule clear_limit_quiet [OF quiet fallback])
  have run: "staged_recovery_delete D ''start-limit'' del w = (Inr JNull, w\<lparr>etcd := k\<rparr>)"
    unfolding staged_recovery_delete_def require_permitted [OF del(3)]
    by (rule expected_errors_result) (simp add: store k(1) comp_defs liftE_def)
  have "admin_handle D js (A_staged_item ''start-limit'') del w =
      (Inr (Answer 204 (JNull, js) (version_header ''masakari'' v)), w\<lparr>etcd := k\<rparr>)"
    by (rule admin_item(1) [where m = "''delete''" and run = "\<lambda>v req b. staged_recovery_delete D ''start-limit'' req", OF _ _ del(2) _ run])
      (simp_all add: del(1) method_of_def on_def body_contents_def should_have_body_def)
  with k(2) show ?thesis by (intro exI [of _ "w\<lparr>etcd := k\<rparr>"]) simp
qed

text \<open>The limit a body asks for.\<close>

definition asked_limit :: "json \<Rightarrow> int \<Rightarrow> bool" where
  "asked_limit body n \<longleftrightarrow> (\<exists>d. body_section ''start_limit'' body = Inr d \<and> map_of d ''max_parallel_starts_per_host'' = Some (JInt n))"

lemma admitted_limit:
  assumes "schema_ok T update_start_limit_schema body"
  shows "\<exists>n. asked_limit body n"
proof -
  obtain d where d: "body_section ''start_limit'' body = Inr d"
    "schema_ok T (object_type [(''max_parallel_starts_per_host'', [K_type [''integer'']])] [K_required [''max_parallel_starts_per_host'']]) (JObj d)"
    using body_type_ok [OF assms [unfolded update_start_limit_schema_def]] by blast
  obtain v where v: "map_of d ''max_parallel_starts_per_host'' = Some v"
    using object_type_ok [OF d(2)] by fastforce
  from d(2) have "schema_ok T [K_type [''integer'']] v" by (rule object_type_ok) (use v in auto)
  then obtain n where "v = JInt n" by (cases v) (simp_all add: schema_ok_def)
  with d(1) v show ?thesis unfolding asked_limit_def by blast
qed

lemma staged_recovery_update_checked:
  assumes "validator_ok T (ad_valid D)" and "\<not> is_null v" and "schema_ok T update_start_limit_schema body"
    and "permitted (ad_api D) req (policy_name ''staged-recovery'' ''start_limit:update'')" and "asked_limit body n" and "ad_store D = Inr S"
  shows "staged_recovery_update D ''start-limit'' v req (Some body) = expected_errors (ad_api D) [400, 403, 404]
    (bindM (except_as InvalidInput 400 (set_max_parallel_starts_per_host S (JInt n))) (\<lambda>value. retM (start_limit_view value ''runtime'')))"
proof -
  have pass: "with_schema (ad_valid D) update_start_limit_schema None None f v body = f v body" for f
    by (rule with_schema_passes [OF assms(1,2) versions_read(1,1)]) (rule assms(3))
  obtain d where "body_section ''start_limit'' body = Inr d" "map_of d ''max_parallel_starts_per_host'' = Some (JInt n)"
    using assms(5) unfolding asked_limit_def by blast
  then show ?thesis
    unfolding staged_recovery_update_def body_argument_def option.case pass require_permitted [OF assms(4)]
    by (simp add: assms(6) liftE_def comp_defs cong: if_cong)
qed

lemma validation_code: "http_code ValidationError = Some 400"
  by code_simp

text \<open>A PUT of a body that does not conform is refused before anything is done.\<close>

lemma start_limit_refused:
  assumes "validator_ok T (ad_valid D)" and "\<not> is_null v" and "\<not> schema_ok T update_start_limit_schema body"
  shows "\<exists>e. staged_recovery_update D i v req (Some body) w = (Inl e, w) \<and> cls_of e = ValidationError"
proof -
  obtain e where e: "validate (ad_valid D) update_start_limit_schema body = Inl e"
    using validate_ok [OF assms(1)] assms(3) by (cases "validate (ad_valid D) update_start_limit_schema body") auto
  have "matches v null_version null_version = Inr True" using assms(2) versions_read(4) by (simp add: matches_def)
  then show ?thesis using e validate_error [OF e]
    by (simp add: staged_recovery_update_def body_argument_def with_schema_def versions_read liftE_def comp_defs expected_errors_def isinstance_simps)
qed

text \<open>What a PUT of an admitted limit does to etcd and answers.\<close>

lemma start_limit_put_run:
  fixes w :: "('n, 'k) world"
  assumes "etcd_ok (ss_client S) kv env"
  shows "wp (expected_errors A [400, 403, 404]
      (bindM (except_as InvalidInput 400 (set_max_parallel_starts_per_host S (JInt n))) (\<lambda>value. retM (start_limit_view value ''runtime''))))
    (\<lambda>a t. n \<ge> 1 \<and> a = start_limit_view n ''runtime'' \<and> (\<forall>fallback. limit_in_force S kv (etcd t) fallback = Inr n))
    (\<lambda>e t. n \<ge> 1 \<or> t = w \<and> (\<exists>m. e = Exc (HTTPError 400) m)) w"
proof (cases "n \<ge> 1")
  case True
  then have "validate_positive_int (JInt n) CONFIG_MAX_PARALLEL_STARTS_PER_HOST = Inr n"
    by (simp add: validate_positive_int_def py_int_def)
  then have "wp (set_max_parallel_starts_per_host S (JInt n)) (\<lambda>j t. j = n) (\<lambda>_ _. True) w"
    by (simp add: set_max_parallel_starts_per_host_def wp_simps wp_def split: prod.split sum.split)
  with wp_set_limit [OF assms, of n w]
  have "wp (set_max_parallel_starts_per_host S (JInt n)) (\<lambda>j t. j = n \<and> (\<forall>fallback. limit_in_force S kv (etcd t) fallback = Inr n)) (\<lambda>_ _. True) w"
    by (auto simp: wp_result split: sum.splits)
  then have "wp (expected_errors A [400, 403, 404]
      (bindM (except_as InvalidInput 400 (set_max_parallel_starts_per_host S (JInt n))) (\<lambda>value. retM (start_limit_view value ''runtime''))))
    (\<lambda>a t. a = start_limit_view n ''runtime'' \<and> (\<forall>fallback. limit_in_force S kv (etcd t) fallback = Inr n)) (\<lambda>_ _. True) w"
    unfolding except_as_def by (intro wp_expected_any) (auto simp: wp_simps http_error_def elim: wp_mono)
  then show ?thesis by (rule wp_mono) (use True in auto)
next
  case False
  then have "set_max_parallel_starts_per_host S (JInt n) w = (Inl (mk_InvalidInput (CONFIG_MAX_PARALLEL_STARTS_PER_HOST @ '' must be >= 1'')), w)"
    by (simp add: set_max_parallel_starts_per_host_def validate_positive_int_def py_int_def liftE_def comp_defs)
  then show ?thesis using False
    by (simp add: wp_def expected_errors_def except_as_def http_error_def comp_defs isinstance_simps mk_InvalidInput_def)
qed

definition start_limit :: admin_route where
  "start_limit = A_staged_item ''start-limit''"

text \<open>A request that is answered with a limit and its source.\<close>

definition shows_limit :: "'k admin_env \<Rightarrow> json dict \<Rightarrow> request \<Rightarrow> api_version_request \<Rightarrow> ('n, 'k) world \<Rightarrow> int \<Rightarrow> string \<Rightarrow> bool" where
  "shows_limit D js req v w n source \<longleftrightarrow> (\<exists>t. admin_handle D js start_limit req w =
     (Inr (Answer 200 (start_limit_view n source, js) (version_header ''masakari'' v)), t))"

text \<open>C21. An administrator sets the limit of parallel starts, and reads and clears it. A body that does not
  conform to the schema, and a limit below 1, are answered with 400 and nothing is done. Otherwise the PUT
  fails, or it is answered with the limit as one of run time; then every GET shows it, whatever is configured,
  until a DELETE, after which a GET shows the configured limit.\<close>

theorem start_limit_put_get:
  fixes w :: "('n, 'k) world"
  assumes quiet: "etcd_quiet (ss_client S) kv env" and store: "ad_store D = Inr S" and valid: "validator_ok T (ad_valid D)"
    and put: "rq_verb put = ''PUT''" "rq_body put \<noteq> ''''" "al_loads (ad_api D) (rq_body put) = Some body" "accepted put v"
      "permitted (ad_api D) put (policy_name ''staged-recovery'' ''start_limit:update'')"
    and get: "rq_verb get = ''GET''" "accepted get v'" "permitted (ad_api D) get (policy_name ''staged-recovery'' ''start_limit:show'')"
    and del: "rq_verb del = ''DELETE''" "accepted del v''" "permitted (ad_api D) del (policy_name ''staged-recovery'' ''start_limit:delete'')"
    and fallback: "validate_positive_int (ad_value D ''max_parallel_starts_per_host'') CONFIG_MAX_PARALLEL_STARTS_PER_HOST = Inr c"
  shows "wp (admin_handle D js start_limit put) (\<lambda>ans t.
      if \<not> schema_ok T update_start_limit_schema body \<or> (\<exists>n < 1. asked_limit body n)
      then (\<exists>m. ans = fault_answer v 400 m) \<and> t = w
      else (\<exists>f h. ans = Failure f h) \<or>
        (\<exists>n. asked_limit body n \<and> ans = Answer 200 (start_limit_view n ''runtime'', js) (version_header ''masakari'' v) \<and>
           shows_limit D js get v' t n ''runtime'' \<and>
           (\<exists>t'. admin_handle D js start_limit del t = (Inr (Answer 204 (JNull, js) (version_header ''masakari'' v'')), t') \<and>
              shows_limit D js get v' t' c ''config''))) (\<lambda>_ _. False) w"
proof -
  have ok: "etcd_ok (ss_client S) kv env" using quiet unfolding etcd_quiet_def by blast
  have null: "\<not> is_null v" by (rule accepted_version(1) [OF put(4)])
  have contents: "body_contents (ad_api D) put = Inr (Some body)"
    using put(1-3) by (simp add: body_contents_def should_have_body_def)
  let ?act = "\<lparr>ac_code = 200, ac_run = \<lambda>v req b. with_jobs js (staged_recovery_update D ''start-limit'' v req b)\<rparr>"
  have served: "admin_handle D js start_limit put = serve (ad_api D) ''update'' (Some ?act) put"
    by (simp add: admin_handle_def start_limit_def put(1) method_of_def on_def)
  obtain r t where run: "staged_recovery_update D ''start-limit'' v put (Some body) w = (r, t)" by fastforce
  note item = admin_item [where m = "''update''" and run = "staged_recovery_update D ''start-limit''" and js = js and D = D and c = 200
    and i = "''start-limit''", OF _ _ put(4) contents run, folded start_limit_def]
  have act: "method_of True (rq_verb put) = Some ''update''"
    "admin_action D js ''update'' start_limit = Some ?act" by (simp_all add: put(1) method_of_def on_def start_limit_def)
  show ?thesis
  proof (cases "schema_ok T update_start_limit_schema body")
    case False
    then obtain e where e: "r = Inl e" "t = w" "cls_of e = ValidationError"
      using start_limit_refused [OF valid null, of body "''start-limit''" put w] run by auto
    have "admin_handle D js start_limit put w = (Inr (fault_answer v 400 (message e)), w)"
      unfolding served using run e
      by (cases e) (simp add: serve_accepted [OF put(4) contents] dispatch_def comp_defs with_jobs_def resource_exception_def isinstance_simps
        validation_code)
    then show ?thesis using False by (auto simp: wp_def)
  next
    case True
    then obtain n where n: "asked_limit body n" using admitted_limit by blast
    then have uniq: "asked_limit body n' \<longleftrightarrow> n' = n" for n' by (auto simp: asked_limit_def)
    have "wp (staged_recovery_update D ''start-limit'' v put (Some body))
      (\<lambda>a t. n \<ge> 1 \<and> a = start_limit_view n ''runtime'' \<and> (\<forall>fallback. limit_in_force S kv (etcd t) fallback = Inr n))
      (\<lambda>e t. n \<ge> 1 \<or> t = w \<and> (\<exists>m. e = Exc (HTTPError 400) m)) w"
      unfolding staged_recovery_update_checked [OF valid null True put(5) n store] by (rule start_limit_put_run [OF ok])
    then consider m where "n < 1" "t = w" "r = Inl (Exc (HTTPError 400) m)" | e where "n \<ge> 1" "r = Inl e"
      | "n \<ge> 1" "r = Inr (start_limit_view n ''runtime'')" "\<forall>fallback. limit_in_force S kv (etcd t) fallback = Inr n"
      unfolding wp_def run by (cases r) force+
    then show ?thesis
    proof cases
      case 1
      then show ?thesis using True item(2) [OF act 1(3)] by (auto simp: uniq wp_def)
    next
      case (2 e)
      have "ac_run ?act v put (Some body) w = (Inl e, t)" using run 2(2) by (simp add: with_jobs_def bindM_def)
      from serve_error [OF put(4) contents this] obtain x
        where "admin_handle D js start_limit put w = (x, t)" "\<forall>a. x = Inr a \<longrightarrow> (\<exists>f h. a = Failure f h)" unfolding served by blast
      then show ?thesis using True 2(1) admin_answers [of D js start_limit put w] by (auto simp: uniq wp_def split: sum.splits)
    next
      case 3
      have "shows_limit D js get v' t n ''runtime''"
        unfolding shows_limit_def start_limit_def by (rule start_limit_get [OF quiet store get]) (rule shown_runtime [OF 3(3)])
      moreover obtain t' where "admin_handle D js start_limit del t = (Inr (Answer 204 (JNull, js) (version_header ''masakari'' v'')), t')"
        "shown_limit S kv (etcd t') (ad_value D ''max_parallel_starts_per_host'') = Inr (c, ''config'')"
        using start_limit_delete [OF quiet store del fallback, of js t] unfolding start_limit_def by blast
      moreover from this(2) have "shows_limit D js get v' t' c ''config''"
        unfolding shows_limit_def start_limit_def by (rule start_limit_get [OF quiet store get])
      ultimately show ?thesis using True 3(1) item(1) [OF act 3(2)] by (simp add: uniq wp_def)
    qed
  qed
qed

section \<open>Lists of the run time state\<close>

text \<open>
  A list with a limit: stored records that match the filters, in the order of two fields, no more than
  the limit; and every stored record that matches when there are fewer.
\<close>

definition stored_under :: "('k \<Rightarrow> string \<Rightarrow> json option) \<Rightarrow> 'k \<Rightarrow> string \<Rightarrow> json dict set" where
  "stored_under kv k p = {r. \<exists>key raw. prefix p key \<and> kv k key = Some raw \<and> loads raw = Inr r}"

definition lists_stored :: "json dict set \<Rightarrow> json dict \<Rightarrow> string \<Rightarrow> string \<Rightarrow> nat \<Rightarrow> json dict list \<Rightarrow> bool" where
  "lists_stored R filters f g n rs \<longleftrightarrow> length rs \<le> n \<and>
     sorted (map (\<lambda>r. [the (sort_field f r), the (sort_field g r)]) rs) \<and>
     set rs \<subseteq> {r \<in> R. matches_filters filters r} \<and>
     (length rs < n \<longrightarrow> set rs = {r \<in> R. matches_filters filters r})"

definition only_read :: "('k \<Rightarrow> 'k \<Rightarrow> bool) \<Rightarrow> ('n, 'k) world \<Rightarrow> ('n, 'k) world \<Rightarrow> bool" where
  "only_read env w t \<longleftrightarrow> t = w\<lparr>etcd := etcd t\<rparr> \<and> env (etcd w) (etcd t)"

lemma wp_list_sorted:
  assumes ok: "etcd_ok (ss_client S) kv env"
  shows "wp (bindM (list_values S p) (\<lambda>rs. bindM (liftE (sort_records f g (filter (matches_filters filters) rs)))
       (\<lambda>rs. retM (apply_limit (Some n) rs))))
    (\<lambda>rs t. only_read env w t \<and> lists_stored (stored_under kv (etcd t) p) filters f g n rs) (\<lambda>_. only_read env w) w"
  unfolding wp_bindM [of "list_values S p"]
proof (rule wp_list_values [OF ok], goal_cases)
  case (1 rows keys k)
  have "lists_stored (stored_under kv k p) filters f g n (take n rs)"
    if rs: "sort_records f g (filter (matches_filters filters) rows) = Inr rs" for rs
  proof -
    let ?key = "\<lambda>r. [the (sort_field f r), the (sort_field g r)]"
    have "set rows = stored_under kv k p" using mapE_set [OF 1(4)] 1(3) by (force simp: stored_under_def)
    moreover have sort: "rs = sort_key ?key (filter (matches_filters filters) rows)"
      using rs by (simp add: sort_records_def split: if_splits)
    ultimately have "set rs = {r \<in> stored_under kv k p. matches_filters filters r}" by auto
    moreover have "sorted (map ?key rs)" by (simp add: sort)
    then have "sorted (map ?key (take n rs))" by (simp add: take_map [symmetric] sorted_wrt_take)
    ultimately show ?thesis by (auto simp: lists_stored_def dest: in_set_takeD)
  qed
  then show ?case using 1(1) by (auto simp: wp_simps apply_limit_def only_read_def split: sum.split)
qed (simp add: only_read_def)

lemma parse_limit_bounds: "parse_limit req = Inr n \<Longrightarrow> 1 \<le> n \<and> n \<le> MAX_LIST_LIMIT"
  by (auto simp: parse_limit_def DEFAULT_LIST_LIMIT_def MAX_LIST_LIMIT_def split: option.splits if_splits)

lemma filters_filled: "(name, JStr h) \<in> set (filters_of req names) \<Longrightarrow> h \<noteq> ''''"
  by (auto simp: filters_of_def split: option.splits if_splits)

lemma wp_listed:
  assumes ok: "etcd_ok (ss_client S) kv env" and store: "ad_store D = Inr S"
    and rows: "\<And>n. wp (list_rows S (Some n)) (\<lambda>rs t. only_read env w t \<and> ok_rows n t rs) (\<lambda>_. only_read env w) w"
  shows "wp (expected_errors A errors (bindM (require A req policy) (\<lambda>_. bindM (liftE (parse_limit req)) (\<lambda>limit.
       bindM (liftE (ad_store D)) (\<lambda>S. bindM (list_rows S (Some limit)) (\<lambda>rs. retM (JObj [(name, JList (map JObj rs))])))))))
    (\<lambda>a t. only_read env w t \<and> (\<exists>n rs. a = JObj [(name, JList (map JObj rs))] \<and> parse_limit req = Inr n \<and> n \<le> MAX_LIST_LIMIT \<and> ok_rows n t rs))
    (\<lambda>_. only_read env w) w"
proof (rule wp_expected_any, unfold wp_bindM, rule wp_require, goal_cases)
  case 1
  have start: "only_read env w w" using etcd_env_refl [OF ok] by (simp add: only_read_def)
  show ?case
  proof (cases "parse_limit req")
    case (Inl e)
    then show ?thesis using start by (simp add: wp_liftE)
  next
    case (Inr n)
    show ?thesis unfolding Inr store wp_liftE sum.case
      by (rule wp_mono [OF rows]) (use parse_limit_bounds [OF Inr] in \<open>auto simp: wp_retM\<close>)
  qed
qed (use etcd_env_refl [OF ok] in \<open>simp add: only_read_def\<close>)


section \<open>Diagnostics jobs\<close>

text \<open>A job that was run is found under its id, and jobs that ran before are kept.\<close>

lemma diagnostics_job_kept:
  fixes w :: "('n, 'k) world"
  assumes "permitted (ad_api D) get (policy_name ''diagnostics'' ''detail'')"
  shows "wp (diagnostics_run D jobs req body)
    (\<lambda>(a, jobs') t. \<exists>job job_id. a = JObj [(''job'', job)] \<and> job_id = gen_uuid (ce_lib (ad_config D)) (uuid_seq w) \<and>
       (diagnostics_show_job D jobs' job_id get :: ('n, 'k, json) prog) = retM a \<and>
       (\<forall>j. j \<noteq> job_id \<longrightarrow> map_of jobs' j = map_of jobs j)) (\<lambda>_ _. True) w"
proof -
  have found: "(diagnostics_show_job D (AList.update u job jobs) u get :: ('n, 'k, json) prog) = retM (JObj [(''job'', job)])" for u job
    unfolding diagnostics_show_job_def require_permitted [OF assms]
    by (simp add: update_conv' expected_errors_def comp_defs)
  show ?thesis
    unfolding diagnostics_run_def
    by (rule wp_expected_any, unfold wp_bindM, rule wp_require)
      (auto simp: wp_simps generate_uuid_def found Let_def update_conv' split: sum.split)
qed

section \<open>Concrete requests\<close>

definition limit_body :: json where
  "limit_body = JObj [(''start_limit'', JObj [(''max_parallel_starts_per_host'', JInt 4)])]"

definition demo_admin :: "etcd_state admin_env" where
  "demo_admin = \<lparr>ad_config = demo_config\<lparr>ce_api := demo_api\<lparr>al_loads := \<lambda>_. Some limit_body\<rparr>\<rparr>, ad_valid = demo_valid,
     ad_store = Inr (demo_store quiet_etcd)\<rparr>"

definition demo_request :: "string \<Rightarrow> string \<Rightarrow> request" where
  "demo_request verb text = (demo_get [])\<lparr>rq_verb := verb, rq_body := text\<rparr>"

lemma demo_limit_set:
  "case fst (admin_handle demo_admin [] start_limit (demo_request ''PUT'' ''text'') (demo_staged [])) of
     Inr (Answer code a h) \<Rightarrow> code = 200 | _ \<Rightarrow> False"
  by code_simp

lemma demo_admin_requests:
  "permitted (ad_api demo_admin) (demo_request verb text) policy" "accepted (demo_request verb text) (version 2)"
  "rq_verb (demo_request verb text) = verb" "rq_body (demo_request verb text) = text"
  using demo_accepted(2) by (simp_all add: demo_request_def accepted_def get_content_type_def demo_get_def permitted_def can_def authorize_def
    demo_admin_def ad_api_def demo_api_def demo_policy_def demo_api_context_def to_policy_values_def dget_def json_bool_def Let_def)

lemma start_limit_put_get_witness:
  "\<exists>h t t'. admin_handle demo_admin [] start_limit (demo_request ''PUT'' ''text'') (demo_staged []) =
      (Inr (Answer 200 (start_limit_view 4 ''runtime'', []) h), t) \<and>
    shows_limit demo_admin [] (demo_request ''GET'' []) (version 2) t 4 ''runtime'' \<and>
    snd (admin_handle demo_admin [] start_limit (demo_request ''DELETE'' []) t) = t' \<and>
    shows_limit demo_admin [] (demo_request ''GET'' []) (version 2) t' 2 ''config''"
proof -
  have ok: "schema_ok demo_text update_start_limit_schema limit_body" by code_simp
  have asked: "asked_limit limit_body n \<longleftrightarrow> n = 4" for n by (auto simp: asked_limit_def limit_body_def body_section_def)
  have env: "ad_store demo_admin = Inr (demo_store quiet_etcd)" "ad_valid demo_admin = demo_valid"
    "al_loads (ad_api demo_admin) ''text'' = Some limit_body" by (simp_all add: demo_admin_def ad_api_def)
  have conf: "validate_positive_int (ad_value demo_admin ''max_parallel_starts_per_host'') CONFIG_MAX_PARALLEL_STARTS_PER_HOST = Inr 2"
    by code_simp
  obtain code a h t where run: "admin_handle demo_admin [] start_limit (demo_request ''PUT'' ''text'') (demo_staged []) = (Inr (Answer code a h), t)"
    using demo_limit_set by (auto split: sum.splits answer.splits prod.splits) (metis prod.collapse)
  have body: "''text'' \<noteq> ''''" by simp
  from start_limit_put_get [of "demo_store quiet_etcd" es_kv "es_env id" demo_admin demo_text "demo_request ''PUT'' ''text''" limit_body
      "version 2" "demo_request ''GET'' []" "version 2" "demo_request ''DELETE'' []" "version 2" 2 "[]" "demo_staged []",
      unfolded demo_admin_requests(3,4) env(2),
      OF demo_quiet env(1) demo_valid_ok refl body env(3) demo_admin_requests(2,1) refl demo_admin_requests(2,1) refl
        demo_admin_requests(2,1) conf]
  show ?thesis using ok run by (auto simp: wp_def asked fault_answer_def)
qed


end
