(* ===== verification/Masakari_Details.thy ===== *)
theory Masakari_Details
  imports Masakari_Manager Masakari_StagedState
begin

text \<open>
  The details of a recovery workflow (\<open>get_notification_recovery_workflow_details\<close> of \<open>engine/manager.py\<close> and
  of \<open>engine/drivers/taskflow/driver.py\<close>): the progress the tasks of a notification have recorded with
  taskflow, in the order of the workflow of its recovery method.
\<close>

section \<open>What the driver reads\<close>

text \<open>A task in the persistence of taskflow: its name, its \<open>meta\<close> (\<open>JNull\<close> without any) and its state.\<close>

record atom =
  at_name :: string
  at_meta :: json
  at_state :: json

text \<open>
  The persistence backend: the tasks of each flow of the book of a notification, or why they cannot be
  read. Stevedore: the names the loaded tasks have, in the order of the names of their entry points. The
  fields of a \<open>NotificationProgressDetails\<close>: how they read a progress and the details of a progress.
\<close>

record persistence =
  ps_flows :: "string \<Rightarrow> exc + atom list list"
  ps_plugins :: "string list \<Rightarrow> exc + string list"
  ps_fields :: "json \<Rightarrow> json \<Rightarrow> exc + (json \<times> json)"

text \<open>The section \<open>taskflow_driver_recovery_flows\<close> of the configuration.\<close>

record task_conf =
  tc_host_auto :: "string list dict"
  tc_host_rh :: "string list dict"
  tc_instance :: "string list dict"
  tc_process :: "string list dict"

definition host_auto_failure_recovery_tasks :: "string list dict" where
  "host_auto_failure_recovery_tasks = [(''pre'', [''disable_compute_service_task'']),
     (''main'', [''prepare_HA_enabled_instances_task'']), (''post'', [''evacuate_instances_task''])]"

definition host_rh_failure_recovery_tasks :: "string list dict" where
  "host_rh_failure_recovery_tasks = [(''pre'', [''disable_compute_service_task'']),
     (''main'', [''prepare_HA_enabled_instances_task'', ''evacuate_instances_task'']), (''post'', [])]"

definition instance_failure_recovery_tasks :: "string list dict" where
  "instance_failure_recovery_tasks = [(''pre'', [''stop_instance_task'']), (''main'', [''start_instance_task'']),
     (''post'', [''confirm_instance_active_task''])]"

definition process_failure_recovery_tasks :: "string list dict" where
  "process_failure_recovery_tasks = [(''pre'', [''disable_compute_node_task'']),
     (''main'', [''confirm_compute_node_disabled_task'']), (''post'', [])]"

definition default_tasks :: task_conf where
  "default_tasks = \<lparr>tc_host_auto = host_auto_failure_recovery_tasks, tc_host_rh = host_rh_failure_recovery_tasks,
     tc_instance = instance_failure_recovery_tasks, tc_process = process_failure_recovery_tasks\<rparr>"

section \<open>The sequence of the tasks\<close>

definition load_tasks :: "persistence \<Rightarrow> string list dict \<Rightarrow> string \<Rightarrow> exc + string list" where
  "load_tasks P tasks part = (case map_of tasks part of None \<Rightarrow> Inl (Exc KeyError part) | Some names \<Rightarrow> ps_plugins P names)"

definition tasks_of :: "task_conf \<Rightarrow> recovery_method \<Rightarrow> notification_type \<Rightarrow> string list dict" where
  "tasks_of C m t = (case t of VM \<Rightarrow> tc_instance C | PROCESS \<Rightarrow> tc_process C
     | COMPUTE_HOST \<Rightarrow> if m \<in> {AUTO, AUTO_PRIORITY} then tc_host_auto C else tc_host_rh C)"

definition get_taskflow_sequence :: "persistence \<Rightarrow> task_conf \<Rightarrow> recovery_method \<Rightarrow> notification \<Rightarrow> exc + string list" where
  "get_taskflow_sequence P C m n =
     (let tasks = tasks_of C m (n_type n) in
      case mapE (load_tasks P tasks) [''pre'', ''main'', ''post''] of Inl e \<Rightarrow> Inl e | Inr parts \<Rightarrow> Inr (concat parts))"

section \<open>The details\<close>

text \<open>
  The recovery method a flow is taken to have been run with. The names that are compared are those of the
  members, and the value of a method is its text.
\<close>

definition sorting_method :: "recovery_method \<Rightarrow> atom list \<Rightarrow> recovery_method" where
  "sorting_method m atoms =
     (if recovery_method_value m \<in> {''AUTO_PRIORITY'', ''RH_PRIORITY''}
      then if ''retry_instance_evacuate_engine_retry'' \<in> at_name ` set atoms then RESERVED_HOST else AUTO
      else m)"

text \<open>The ordered dictionary \<open>od\<close>: a name keeps its place, and gets the last task that has it.\<close>

definition put_named :: "string \<Rightarrow> (string \<times> atom) list \<Rightarrow> atom \<Rightarrow> (string \<times> atom) list" where
  "put_named task od a = (if task = at_name a then AList.update (at_name a) a od else od)"

definition flow_atoms :: "string list \<Rightarrow> atom list \<Rightarrow> (string \<times> atom) list" where
  "flow_atoms task_list atoms = foldl (\<lambda>od task. foldl (put_named task) od atoms) [] task_list"

definition subscript :: "json \<Rightarrow> string \<Rightarrow> exc + json" where
  "subscript v key = (case v of JObj d \<Rightarrow> (case map_of d key of None \<Rightarrow> Inl (Exc KeyError key) | Some x \<Rightarrow> Inr x)
     | _ \<Rightarrow> Inl (Exc TypeError ''indices must be integers''))"

record task_details =
  pd_name :: string
  pd_progress :: json
  pd_details :: json
  pd_state :: json

definition progress_of :: "persistence \<Rightarrow> atom \<Rightarrow> exc + task_details list" where
  "progress_of P a =
     (if falsy (at_meta a) then Inr []
      else (case at_meta a of JObj m \<Rightarrow>
          if falsy (dget m ''progress_details'') then Inr []
          else (case subscript (at_meta a) ''progress'' of Inl e \<Rightarrow> Inl e | Inr value \<Rightarrow>
               (case subscript (dget m ''progress_details'') ''details'' of Inl e \<Rightarrow> Inl e | Inr inner \<Rightarrow>
               (case subscript inner ''progress_details'' of Inl e \<Rightarrow> Inl e | Inr details \<Rightarrow>
               (case ps_fields P value details of Inl e \<Rightarrow> Inl e | Inr (p, ds) \<Rightarrow>
                 Inr [\<lparr>pd_name = at_name a, pd_progress = p, pd_details = ds, pd_state = at_state a\<rparr>]))))
        | _ \<Rightarrow> Inl (Exc OtherException ''object has no attribute get'')))"

fun details_of_flows ::
  "persistence \<Rightarrow> task_conf \<Rightarrow> notification \<Rightarrow> recovery_method \<Rightarrow> atom list list \<Rightarrow> exc + task_details list" where
  "details_of_flows P C n m [] = Inr []"
| "details_of_flows P C n m (atoms # rest) =
     (let m' = sorting_method m atoms in
      case get_taskflow_sequence P C m' n of Inl e \<Rightarrow> Inl e | Inr task_list \<Rightarrow>
     (case mapE (progress_of P) (map snd (flow_atoms task_list atoms)) of Inl e \<Rightarrow> Inl e | Inr dss \<Rightarrow>
     (case details_of_flows P C n m' rest of Inl e \<Rightarrow> Inl e | Inr ds \<Rightarrow> Inr (concat dss @ ds))))"

definition driver_recovery_workflow_details ::
  "persistence \<Rightarrow> task_conf \<Rightarrow> recovery_method \<Rightarrow> notification \<Rightarrow> exc + task_details list" where
  "driver_recovery_workflow_details P C m n = (case ps_flows P (n_uuid n) of Inl e \<Rightarrow> Inl e
     | Inr flows \<Rightarrow> details_of_flows P C n m flows)"

text \<open>The manager: every error becomes a \<open>MasakariException\<close>.\<close>

definition recovery_workflow_details ::
  "persistence \<Rightarrow> task_conf \<Rightarrow> request_context \<Rightarrow> notification \<Rightarrow> ('n, 'k, notification \<times> task_details list) prog" where
  "recovery_workflow_details P C ctx n = tryM
     (bindM (Host_get_by_uuid ctx (n_source_host_uuid n) None) (\<lambda>(h, sg).
      bindM (liftE (driver_recovery_workflow_details P C (sg_recovery_method sg) n)) (\<lambda>ds. retM (n, ds))))
     (\<lambda>_. raiseM (Exc MasakariException (''Failed to fetch notification recovery workflow details for '' @ n_uuid n)))"

section \<open>The order of the details\<close>

text \<open>The names of a list where they occur first.\<close>

definition firsts :: "'a list \<Rightarrow> 'a list" where
  "firsts xs = rev (remdups (rev xs))"

text \<open>The tasks of a flow, in the order of a sequence of names: of several with one name, the last.\<close>

definition in_sequence :: "string list \<Rightarrow> atom list \<Rightarrow> atom list" where
  "in_sequence task_list atoms = map (\<lambda>t. last (filter (\<lambda>a. at_name a = t) atoms))
     (filter (\<lambda>t. t \<in> at_name ` set atoms) (firsts task_list))"

lemma firsts_snoc: "firsts (xs @ [x]) = (if x \<in> set xs then firsts xs else firsts xs @ [x])"
  by (simp add: firsts_def)

lemma set_firsts [simp]: "set (firsts xs) = set xs"
  by (simp add: firsts_def)

lemma alist_update_new: "k \<notin> fst ` set d \<Longrightarrow> AList.update k v d = d @ [(k, v)]"
  by (induction d) auto

lemma put_all_named:
  "foldl (put_named t) od atoms = (if t \<in> at_name ` set atoms then AList.update t (last (filter (\<lambda>a. at_name a = t) atoms)) od else od)"
proof (induction atoms rule: rev_induct)
  case (snoc a atoms)
  then show ?case by (auto simp: put_named_def AList.update_last)
qed simp

lemma flow_atoms_in_sequence:
  "flow_atoms task_list atoms = map (\<lambda>a. (at_name a, a)) (in_sequence task_list atoms)"
proof (induction task_list rule: rev_induct)
  case Nil
  show ?case by (simp add: flow_atoms_def in_sequence_def firsts_def)
next
  case (snoc t ts)
  let ?last = "\<lambda>t. last (filter (\<lambda>a. at_name a = t) atoms)"
  have name: "at_name (?last t) = t" if "t \<in> at_name ` set atoms" for t
  proof -
    have "filter (\<lambda>a. at_name a = t) atoms \<noteq> []" using that by (auto simp: filter_empty_conv)
    from last_in_set [OF this] show ?thesis by simp
  qed
  let ?ns = "filter (\<lambda>t. t \<in> at_name ` set atoms) (firsts ts)"
  have od: "flow_atoms ts atoms = map (\<lambda>t. (t, ?last t)) ?ns"
    unfolding snoc.IH in_sequence_def map_map by (rule map_cong) (auto simp: name)
  have step: "flow_atoms (ts @ [t]) atoms = (if t \<in> at_name ` set atoms then AList.update t (?last t) (flow_atoms ts atoms) else flow_atoms ts atoms)"
    by (simp add: flow_atoms_def put_all_named)
  show ?case
  proof (cases "t \<in> at_name ` set atoms")
    case False
    then show ?thesis using snoc.IH step by (simp add: in_sequence_def firsts_snoc)
  next
    case True
    show ?thesis
    proof (cases "t \<in> set ts")
      case here: True
      then have "map_of (flow_atoms ts atoms) t = Some (?last t)" using True by (simp add: od map_of_map_restrict)
      from AList.update_triv [OF this] show ?thesis using True here snoc.IH step by (simp add: in_sequence_def firsts_snoc)
    next
      case False
      then have "t \<notin> fst ` set (flow_atoms ts atoms)" by (auto simp: od)
      from alist_update_new [OF this] show ?thesis using True False snoc.IH step name [OF True]
        by (simp add: in_sequence_def firsts_snoc)
    qed
  qed
qed
lemma sorting_method_same [simp]: "sorting_method m atoms = m"
  by (cases m) (simp_all add: sorting_method_def)

lemma details_of_flows_Cons:
  "flows \<noteq> [] \<Longrightarrow> details_of_flows P C n m flows = (case get_taskflow_sequence P C m n of Inl e \<Rightarrow> Inl e
     | Inr task_list \<Rightarrow> map_sum id concat (mapE (progress_of P) (concat (map (in_sequence task_list) flows))))"
proof (induction flows)
  case (Cons atoms rest)
  have names: "map snd (flow_atoms task_list atoms) = in_sequence task_list atoms" for task_list
    by (simp add: flow_atoms_in_sequence comp_def)
  show ?case
  proof (cases "rest = []")
    case True
    then show ?thesis by (auto simp: names split: sum.split)
  next
    case False
    from Cons.IH [OF this] show ?thesis by (auto simp: names mapE_append split: sum.splits)
  qed
qed simp

text \<open>
  What is listed for the flows of a notification: with one sequence of tasks, that of the recovery
  method, the recorded progress of each flow's tasks in the order of the sequence.
\<close>

definition details_listed ::
  "persistence \<Rightarrow> task_conf \<Rightarrow> recovery_method \<Rightarrow> notification \<Rightarrow> atom list list \<Rightarrow> task_details list \<Rightarrow> bool" where
  "details_listed P C m n flows ds \<longleftrightarrow> (if flows = [] then ds = [] else
     \<exists>task_list dss. get_taskflow_sequence P C m n = Inr task_list \<and>
       mapE (progress_of P) (concat (map (in_sequence task_list) flows)) = Inr dss \<and> ds = concat dss)"

lemma details_of_flows_listed: "details_of_flows P C n m flows = Inr ds \<Longrightarrow> details_listed P C m n flows ds"
  by (cases "flows = []") (auto simp: details_of_flows_Cons details_listed_def map_sum_def split: sum.splits)


section \<open>Concrete flows\<close>

text \<open>Tasks named as their entry points, recorded out of order and one of them twice.\<close>

definition demo_persistence :: persistence where
  "demo_persistence =
     (let done = (\<lambda>p. JObj [(''progress'', p), (''progress_details'', JObj [(''details'', JObj [(''progress_details'', JList [p])])])]) in
      \<lparr>ps_flows = (\<lambda>u. Inr [[
         \<lparr>at_name = ''evacuate_instances_task'', at_meta = done (JInt 1), at_state = JStr ''SUCCESS''\<rparr>,
         \<lparr>at_name = ''disable_compute_service_task'', at_meta = JObj [], at_state = JStr ''FAILURE''\<rparr>,
         \<lparr>at_name = ''prepare_HA_enabled_instances_task'', at_meta = JNull, at_state = JStr ''PENDING''\<rparr>,
         \<lparr>at_name = ''disable_compute_service_task'', at_meta = done (JInt 2), at_state = JStr ''SUCCESS''\<rparr>]]),
       ps_plugins = Inr, ps_fields = (\<lambda>p ds. Inr (p, ds))\<rparr>)"

lemma demo_details:
  "map_sum id (map (\<lambda>d. (pd_name d, pd_progress d))) (driver_recovery_workflow_details demo_persistence default_tasks RH_PRIORITY
       (demo_vm_notification\<lparr>n_type := COMPUTE_HOST\<rparr>)) =
     Inr [(''disable_compute_service_task'', JInt 2), (''evacuate_instances_task'', JInt 1)]"
  by code_simp

text \<open>The method is never corrected to the one a flow was run with: a recovery by a reserved host of a segment with
  \<open>AUTO_PRIORITY\<close> is shown in the order of the tasks of the automatic one.\<close>

lemma method_never_corrected:
  "get_taskflow_sequence P C (sorting_method AUTO_PRIORITY atoms) n = get_taskflow_sequence P C AUTO n"
  by (simp add: get_taskflow_sequence_def tasks_of_def)

end
