(* ===== verification/Masakari_UrlMap.thy ===== *)
theory Masakari_UrlMap
  imports Masakari_Wsgi Complex_Main
begin

text \<open>
  The choice of an application for a request (\<open>api/urlmap.py\<close>): the parsers of header values, the best match
  of an Accept header, and the map from hosts and path prefixes to applications. Strings are ASCII.
\<close>

section \<open>Header values\<close>

text \<open>\<open>urllib.request.parse_http_list\<close>, one character at a time.\<close>

record list_scan =
  sc_parts :: "string list"
  sc_part :: string
  sc_escape :: bool
  sc_quote :: bool

definition scan_item :: "list_scan \<Rightarrow> char \<Rightarrow> list_scan" where
  "scan_item s cur =
     (if sc_escape s then s\<lparr>sc_part := sc_part s @ [cur], sc_escape := False\<rparr>
      else if sc_quote s then
        (if cur = CHR 0x5C then s\<lparr>sc_escape := True\<rparr>
         else s\<lparr>sc_quote := (cur \<noteq> CHR 0x22), sc_part := sc_part s @ [cur]\<rparr>)
      else if cur = CHR '','' then s\<lparr>sc_parts := sc_parts s @ [sc_part s], sc_part := []\<rparr>
      else s\<lparr>sc_quote := (cur = CHR 0x22), sc_part := sc_part s @ [cur]\<rparr>)"

definition parse_http_list :: "string \<Rightarrow> string list" where
  "parse_http_list value =
     (let s = foldl scan_item \<lparr>sc_parts = [], sc_part = [], sc_escape = False, sc_quote = False\<rparr> value in
      map strip (sc_parts s @ (if sc_part s = [] then [] else [sc_part s])))"

definition unquote_header_value :: "string \<Rightarrow> string" where
  "unquote_header_value value =
     (if value \<noteq> [] \<and> hd value = CHR 0x22 \<and> last value = CHR 0x22 then butlast (tl value) else value)"

definition parse_list_header :: "string \<Rightarrow> string list" where
  "parse_list_header value = map (\<lambda>item. if item \<noteq> [] \<and> hd item = CHR 0x22 \<and> last item = CHR 0x22
     then unquote_header_value (butlast (tl item)) else item) (parse_http_list value)"

text \<open>
  One match of \<open>_option_header_piece_re\<close> behind its semicolon: the key and the value, with the text after the
  match. Where the optional part could only match nothing but blanks, its value is the last of them; the
  alternatives for quoted strings are never tried, since each begins with a character the first one takes.
\<close>

definition key_char :: "char \<Rightarrow> bool" where
  "key_char c \<longleftrightarrow> \<not> is_blank c \<and> c \<noteq> CHR '';'' \<and> c \<noteq> CHR ''=''"

definition option_piece :: "string \<Rightarrow> ((string \<times> string option) \<times> string) option" where
  "option_piece s =
     (let start = dropWhile is_blank s; key = takeWhile key_char start;
          rest = dropWhile is_blank (dropWhile key_char start) in
      if key = [] then None
      else (case rest of [] \<Rightarrow> Some ((key, None), rest)
       | c # after \<Rightarrow>
         if c \<noteq> CHR ''='' then Some ((key, None), rest)
         else (let blanks = takeWhile is_blank after; v = dropWhile is_blank after; value = takeWhile (\<lambda>c. c \<noteq> CHR '';'') v in
           if value \<noteq> [] then Some ((key, Some value), dropWhile (\<lambda>c. c \<noteq> CHR '';'') v)
           else if blanks \<noteq> [] then Some ((key, Some [last blanks]), v)
           else Some ((key, None), rest))))"

lemma option_piece_shorter:
  assumes "option_piece s = Some (kv, rest)"
  shows "length rest \<le> length s"
proof -
  define r where "r = dropWhile is_blank (dropWhile key_char (dropWhile is_blank s))"
  have d: "length (dropWhile P xs) \<le> length xs" for P :: "char \<Rightarrow> bool" and xs by (rule length_dropWhile_le)
  have r: "length r \<le> length s" unfolding r_def using d order_trans by meson
  have a: "length (dropWhile Q (dropWhile is_blank xs)) \<le> length xs" for Q :: "char \<Rightarrow> bool" and xs using d order_trans by meson
  from assms have "rest = r \<or> rest = dropWhile is_blank (tl r) \<or> rest = dropWhile (\<lambda>c. c \<noteq> CHR '';'') (dropWhile is_blank (tl r))"
    unfolding option_piece_def Let_def r_def [symmetric] by (cases r) (auto split: if_splits)
  moreover have "length (tl r) \<le> length s" using r by simp
  ultimately show ?thesis using r d [of is_blank "tl r"] a [of "\<lambda>c. c \<noteq> CHR '';''" "tl r"] by (elim disjE) simp_all
qed

text \<open>\<open>_tokenize\<close>: the matches from left to right, each from the first semicolon where there is one.\<close>

function tokenize :: "string \<Rightarrow> (string \<times> string option) list" where
  "tokenize [] = []"
| "tokenize (c # s) = (if c \<noteq> CHR '';'' then tokenize s
     else (case option_piece s of None \<Rightarrow> tokenize s
       | Some ((key, value), rest) \<Rightarrow> (unquote_header_value key, map_option unquote_header_value value) # tokenize rest))"
  by pat_completeness auto
termination
  by (relation "measure length") (auto simp: less_Suc_eq_le option_piece_shorter)

type_synonym params = "string \<Rightarrow> string option option"

text \<open>The first match gives the name; with none, \<open>next\<close> raises. Of options with one name the last one counts.\<close>

definition parse_options_header :: "string \<Rightarrow> exc + (string \<times> params)" where
  "parse_options_header value = (if value = [] then Inr ([], Map.empty)
     else (case tokenize (CHR '';'' # value) of [] \<Rightarrow> Inl (Exc OtherException ''StopIteration'')
       | (name, _) # extra \<Rightarrow> Inr (name, map_of (rev extra))))"

section \<open>The best match of an Accept header\<close>

text \<open>A float: not a number, an infinity, or a rational number. How a text is read is a parameter, \<open>None\<close> for a \<open>ValueError\<close>.\<close>

datatype float_value = NaN | NegInf | Fin rat | PosInf

fun fl_less :: "float_value \<Rightarrow> float_value \<Rightarrow> bool" where
  "fl_less (Fin x) (Fin y) = (x < y)"
| "fl_less NegInf y = (y \<noteq> NaN \<and> y \<noteq> NegInf)"
| "fl_less x PosInf = (x \<noteq> NaN \<and> x \<noteq> PosInf)"
| "fl_less _ _ = False"

definition fl_eq :: "float_value \<Rightarrow> float_value \<Rightarrow> bool" where
  "fl_eq x y \<longleftrightarrow> x = y \<and> x \<noteq> NaN"

definition quality_of :: "(string \<Rightarrow> float_value option) \<Rightarrow> params \<Rightarrow> exc + float_value option" where
  "quality_of F ps = (case ps ''q'' of None \<Rightarrow> Inr (Some (Fin 1))
     | Some None \<Rightarrow> Inl (Exc TypeError ''float() argument must be a string or a real number'')
     | Some (Some s) \<Rightarrow> Inr (F s))"

definition match_mask :: "string \<Rightarrow> string \<Rightarrow> bool" where
  "match_mask cmask content_type =
     (if CHR ''*'' \<notin> set cmask then content_type = cmask
      else if cmask = ''*/*'' then True
      else takeWhile (\<lambda>c. c \<noteq> CHR ''/'') content_type = take (length cmask - 2) cmask)"

record best =
  b_quality :: float_value
  b_type :: "string option"
  b_params :: params
  b_match :: string

definition stars :: "string \<Rightarrow> nat" where
  "stars cmask = count_list cmask (CHR ''*'')"

definition weigh :: "(string \<Rightarrow> float_value option) \<Rightarrow> best \<Rightarrow> string \<times> string \<times> params \<Rightarrow> exc + best" where
  "weigh F b = (\<lambda>(content_type, cmask, ps). case quality_of F ps of Inl e \<Rightarrow> Inl e | Inr None \<Rightarrow> Inr b
     | Inr (Some q) \<Rightarrow>
       if fl_less q (b_quality b) \<or> fl_eq (b_quality b) q \<and> stars (b_match b) \<le> stars cmask then Inr b
       else if match_mask cmask content_type
         then Inr \<lparr>b_quality = q, b_type = Some content_type, b_params = ps, b_match = cmask\<rparr>
       else Inr b)"

fun foldE :: "('b \<Rightarrow> 'a \<Rightarrow> 'e + 'b) \<Rightarrow> 'b \<Rightarrow> 'a list \<Rightarrow> 'e + 'b" where
  "foldE f b [] = Inr b"
| "foldE f b (x # xs) = (case f b x of Inl e \<Rightarrow> Inl e | Inr b' \<Rightarrow> foldE f b' xs)"

definition accept_pairs :: "string list \<Rightarrow> (string \<times> params) list \<Rightarrow> (string \<times> string \<times> params) list" where
  "accept_pairs supported masks = concat (map (\<lambda>t. map (\<lambda>(cmask, ps). (t, cmask, ps)) masks) supported)"

definition best_match :: "(string \<Rightarrow> float_value option) \<Rightarrow> (string \<times> params) list \<Rightarrow> string list \<Rightarrow> exc + (string option \<times> params)" where
  "best_match F masks supported = (case foldE (weigh F)
       \<lparr>b_quality = Fin (- 1), b_type = None, b_params = Map.empty, b_match = ''*/*''\<rparr> (accept_pairs supported masks) of
     Inl e \<Rightarrow> Inl e | Inr b \<Rightarrow> Inr (b_type b, b_params b))"

definition accept_header :: "string \<Rightarrow> exc + (string \<times> params) list" where
  "accept_header value = mapE parse_options_header (parse_list_header value)"

text \<open>
  What the loops find, for qualities that are numbers from 0 on: of the pairs of a type and a range that
  matches it, one of the highest quality and, among those, of the fewest stars.
\<close>

definition candidate :: "(string \<Rightarrow> float_value option) \<Rightarrow> rat \<Rightarrow> string \<times> string \<times> params \<Rightarrow> bool" where
  "candidate F x = (\<lambda>(t, cmask, ps). quality_of F ps = Inr (Some (Fin x)) \<and> match_mask cmask t)"

definition graded :: "(string \<Rightarrow> float_value option) \<Rightarrow> params \<Rightarrow> bool" where
  "graded F ps \<longleftrightarrow> quality_of F ps = Inr None \<or> (\<exists>x \<ge> 0. quality_of F ps = Inr (Some (Fin x)))"

definition is_best :: "(string \<Rightarrow> float_value option) \<Rightarrow> (string \<times> string \<times> params) set \<Rightarrow> rat \<Rightarrow> string \<times> string \<times> params \<Rightarrow> bool" where
  "is_best F pairs x p \<longleftrightarrow> p \<in> pairs \<and> candidate F x p \<and>
     (\<forall>p' \<in> pairs. \<forall>x'. candidate F x' p' \<longrightarrow> x' < x \<or> x' = x \<and> stars (fst (snd p)) \<le> stars (fst (snd p')))"

definition best_so_far :: "(string \<Rightarrow> float_value option) \<Rightarrow> (string \<times> string \<times> params) set \<Rightarrow> best \<Rightarrow> bool" where
  "best_so_far F seen b \<longleftrightarrow> (case b_type b of
     None \<Rightarrow> b_quality b = Fin (- 1) \<and> b_params b = Map.empty \<and> (\<forall>p \<in> seen. \<forall>x. \<not> candidate F x p)
   | Some t \<Rightarrow> \<exists>x \<ge> 0. b_quality b = Fin x \<and> is_best F seen x (t, b_match b, b_params b))"

lemma weigh_best:
  assumes "best_so_far F seen b" and "graded F ps"
  shows "\<exists>b'. weigh F b (t, cmask, ps) = Inr b' \<and> best_so_far F (insert (t, cmask, ps) seen) b'"
proof (cases "\<exists>x \<ge> 0. quality_of F ps = Inr (Some (Fin x)) \<and> match_mask cmask t")
  case False
  then have "\<not> candidate F x (t, cmask, ps)" for x using assms(2) by (auto simp: candidate_def graded_def)
  moreover from False have "weigh F b (t, cmask, ps) = Inr b" using assms(2) by (auto simp: weigh_def graded_def)
  ultimately show ?thesis using assms(1) by (auto simp: best_so_far_def is_best_def split: option.splits)
next
  case True
  then obtain x where x: "x \<ge> 0" "quality_of F ps = Inr (Some (Fin x))" "match_mask cmask t" by blast
  have c: "candidate F x' (t, cmask, ps) \<longleftrightarrow> x' = x" for x' using x by (auto simp: candidate_def)
  show ?thesis
  proof (cases "b_type b")
    case None
    with assms(1) x c show ?thesis by (auto simp: best_so_far_def weigh_def fl_eq_def is_best_def)
  next
    case (Some t0)
    with assms(1) obtain y where y: "y \<ge> 0" "b_quality b = Fin y" "is_best F seen y (t0, b_match b, b_params b)"
      by (auto simp: best_so_far_def)
    show ?thesis
    proof (cases "x < y \<or> x = y \<and> stars (b_match b) \<le> stars cmask")
      case True
      then have "weigh F b (t, cmask, ps) = Inr b" using x y by (auto simp: weigh_def fl_eq_def)
      moreover have "is_best F (insert (t, cmask, ps) seen) y (t0, b_match b, b_params b)"
        using y(3) True c by (auto simp: is_best_def)
      ultimately show ?thesis using Some y by (auto simp: best_so_far_def)
    next
      case False
      let ?b = "\<lparr>b_quality = Fin x, b_type = Some t, b_params = ps, b_match = cmask\<rparr>"
      have "weigh F b (t, cmask, ps) = Inr ?b" using False x y by (auto simp: weigh_def fl_eq_def)
      moreover have "is_best F (insert (t, cmask, ps) seen) x (t, cmask, ps)"
        using y(3) False c by (fastforce simp: is_best_def)
      ultimately show ?thesis using x by (auto simp: best_so_far_def)
    qed
  qed
qed

lemma foldE_best:
  assumes "best_so_far F seen b" and "\<forall>(t, cmask, ps) \<in> set pairs. graded F ps"
  shows "\<exists>b'. foldE (weigh F) b pairs = Inr b' \<and> best_so_far F (seen \<union> set pairs) b'"
  using assms
proof (induction pairs arbitrary: b seen)
  case (Cons p pairs)
  obtain t cmask ps where p: "p = (t, cmask, ps)" by (cases p)
  from Cons.prems obtain b' where b': "weigh F b p = Inr b'" "best_so_far F (insert p seen) b'"
    using weigh_best [of F seen b ps t cmask] p by auto
  from Cons.IH [OF b'(2)] Cons.prems(2) b'(1) show ?case by auto
qed simp

lemma best_match_best:
  assumes "\<forall>(cmask, ps) \<in> set masks. graded F ps"
  shows "\<exists>t ps. best_match F masks supported = Inr (t, ps) \<and> (case t of
      None \<Rightarrow> ps = Map.empty \<and> (\<forall>p \<in> set (accept_pairs supported masks). \<forall>x. \<not> candidate F x p)
    | Some t \<Rightarrow> \<exists>x cmask. is_best F (set (accept_pairs supported masks)) x (t, cmask, ps))"
proof -
  have "best_so_far F {} \<lparr>b_quality = Fin (- 1), b_type = None, b_params = Map.empty, b_match = ''*/*''\<rparr>"
    by (simp add: best_so_far_def)
  moreover have "\<forall>(t, cmask, ps) \<in> set (accept_pairs supported masks). graded F ps"
    using assms by (auto simp: accept_pairs_def)
  ultimately obtain b where b: "foldE (weigh F) \<lparr>b_quality = Fin (- 1), b_type = None, b_params = Map.empty, b_match = ''*/*''\<rparr>
      (accept_pairs supported masks) = Inr b" "best_so_far F (set (accept_pairs supported masks)) b"
    using foldE_best by fastforce
  then show ?thesis by (auto simp: best_match_def best_so_far_def split: option.splits)
qed

section \<open>The map\<close>

text \<open>
  The applications of paste's \<open>URLMap\<close> in its order: the domain, if any, the prefix of the path, and the
  application. What the map reads of the environment of a request.
\<close>

type_synonym 'a applications = "((string option \<times> string) \<times> 'a) list"

record environ =
  en_http_host :: "string option"
  en_server_name :: string
  en_url_scheme :: string
  en_path_info :: string
  en_script_name :: string
  en_content_type :: "string option"
  en_accept :: "string option"

definition SUPPORTED_CONTENT_TYPES :: "string list" where
  "SUPPORTED_CONTENT_TYPES = [''application/json'', ''application/vnd.openstack.masakari+json'']"

definition serves_domain :: "string option \<Rightarrow> string \<Rightarrow> string \<Rightarrow> bool" where
  "serves_domain domain host port \<longleftrightarrow> (case domain of None \<Rightarrow> True
     | Some d \<Rightarrow> d = [] \<or> d = host \<or> d = host @ '':'' @ port)"

definition fits :: "string \<Rightarrow> string \<Rightarrow> bool" where
  "fits app_url path_info \<longleftrightarrow> path_info = app_url \<or> take (length app_url + 1) path_info = app_url @ ''/''"

definition match_app :: "'a applications \<Rightarrow> string \<Rightarrow> string \<Rightarrow> string \<Rightarrow> ('a \<times> string) option" where
  "match_app apps host port path_info = map_option (\<lambda>((domain, app_url), app). (app, app_url))
     (find (\<lambda>((domain, app_url), app). serves_domain domain host port \<and> fits app_url path_info) apps)"

text \<open>
  An application with the change of the environment before its call: \<open>Munge_path\<close> moves the prefix from the
  path to the script name, \<open>Set_script_name\<close> only extends the script name.
\<close>

datatype 'a wrapped = Munge_path 'a string | Set_script_name 'a string

definition suffix_type :: "string \<Rightarrow> string option" where
  "suffix_type path_info =
     (if CHR ''.'' \<in> set path_info
      then (let possible_type = ''application/'' @ rev (takeWhile (\<lambda>c. c \<noteq> CHR ''.'') (rev path_info)) in
            if possible_type \<in> set SUPPORTED_CONTENT_TYPES then Some possible_type else None)
      else None)"

definition path_strategy :: "'a applications \<Rightarrow> string \<Rightarrow> string \<Rightarrow> string \<Rightarrow> string option \<times> ('a \<times> string) option" where
  "path_strategy apps host port path_info = (suffix_type path_info,
     if CHR ''/'' \<in> set path_info
     then (case match_app apps host port path_info of None \<Rightarrow> None
       | Some (app, app_url) \<Rightarrow> if app_url = [] then None else Some (app, app_url))
     else None)"

definition version_app :: "'a applications \<Rightarrow> string \<Rightarrow> string \<Rightarrow> params \<Rightarrow> exc + 'a wrapped option" where
  "version_app apps host port ps = (case ps ''version'' of None \<Rightarrow> Inr None
     | Some None \<Rightarrow> Inl (Exc TypeError ''can only concatenate str (not NoneType) to str'')
     | Some (Some v) \<Rightarrow> Inr (map_option (\<lambda>(app, app_url). Set_script_name app app_url) (match_app apps host port (''/v'' @ v))))"

definition or_empty :: "string option \<Rightarrow> string" where
  "or_empty x = (case x of None \<Rightarrow> [] | Some s \<Rightarrow> s)"

definition content_type_strategy :: "'a applications \<Rightarrow> string \<Rightarrow> string \<Rightarrow> environ \<Rightarrow> exc + 'a wrapped option" where
  "content_type_strategy apps host port en = (case parse_options_header (or_empty (en_content_type en)) of Inl e \<Rightarrow> Inl e
     | Inr (_, ps) \<Rightarrow> version_app apps host port ps)"

definition accept_strategy ::
  "(string \<Rightarrow> float_value option) \<Rightarrow> 'a applications \<Rightarrow> string \<Rightarrow> string \<Rightarrow> environ \<Rightarrow> string list \<Rightarrow> exc + (string option \<times> 'a wrapped option)" where
  "accept_strategy F apps host port en supported =
     (case accept_header (or_empty (en_accept en)) of Inl e \<Rightarrow> Inl e | Inr masks \<Rightarrow>
     (case best_match F masks supported of Inl e \<Rightarrow> Inl e | Inr (mime_type, ps) \<Rightarrow>
     (case version_app apps host port ps of Inl e \<Rightarrow> Inl e | Inr app \<Rightarrow> Inr (mime_type, app))))"

text \<open>The host and the port a request names.\<close>

definition host_port :: "environ \<Rightarrow> string \<times> string" where
  "host_port en =
     (let host = lower (case en_http_host en of None \<Rightarrow> en_server_name en | Some h \<Rightarrow> h) in
      if CHR '':'' \<in> set host then (takeWhile (\<lambda>c. c \<noteq> CHR '':'') host, tl (dropWhile (\<lambda>c. c \<noteq> CHR '':'') host))
      else (host, if en_url_scheme en = ''http'' then ''80'' else ''443''))"

text \<open>
  The call. \<open>normalize_url\<close> of paste is a parameter. The result is the application, the type of the response,
  the script name and the path it is called with, or nothing when the application for what is not found
  answers.
\<close>

record 'a routed =
  rt_app :: 'a
  rt_content_type :: string
  rt_script_name :: string
  rt_path_info :: string

definition call_wrapped :: "environ \<Rightarrow> string \<Rightarrow> string \<Rightarrow> 'a wrapped \<Rightarrow> 'a routed" where
  "call_wrapped en mime_type path_info w = (case w of
     Munge_path app app_url \<Rightarrow> \<lparr>rt_app = app, rt_content_type = mime_type, rt_script_name = en_script_name en @ app_url,
       rt_path_info = drop (length app_url) path_info\<rparr>
   | Set_script_name app app_url \<Rightarrow> \<lparr>rt_app = app, rt_content_type = mime_type, rt_script_name = en_script_name en @ app_url,
       rt_path_info = en_path_info en\<rparr>)"

definition urlmap_call ::
  "(string \<Rightarrow> float_value option) \<Rightarrow> (string \<Rightarrow> exc + string) \<Rightarrow> 'a applications \<Rightarrow> environ \<Rightarrow> exc + 'a routed option" where
  "urlmap_call F normalize_url apps en =
     (let (host, port) = host_port en in
      case normalize_url (en_path_info en) of Inl e \<Rightarrow> Inl e | Inr path_info \<Rightarrow>
      (let (mime, prefixed) = path_strategy apps host port path_info;
           index = (path_info = ''/'' \<or> (case prefixed of None \<Rightarrow> False | Some (_, app_url) \<Rightarrow> app_url @ ''/'' = path_info));
           supported = SUPPORTED_CONTENT_TYPES @ (if index then [''application/atom+xml''] else []) in
       case (case prefixed of Some (app, app_url) \<Rightarrow> Inr (Some (Munge_path app app_url))
         | None \<Rightarrow> content_type_strategy apps host port en) of Inl e \<Rightarrow> Inl e | Inr app \<Rightarrow>
      (case (if mime = None \<or> app = None then accept_strategy F apps host port en supported else Inr (None, None)) of Inl e \<Rightarrow> Inl e
       | Inr (possible_mime, possible_app) \<Rightarrow>
        (let mime_type = (case mime of Some t \<Rightarrow> t | None \<Rightarrow> (case possible_mime of Some t \<Rightarrow> t | None \<Rightarrow> ''application/json''));
             app = (case app of Some a \<Rightarrow> Some a | None \<Rightarrow> (case possible_app of Some a \<Rightarrow> Some a
               | None \<Rightarrow> map_option (\<lambda>(a, app_url). Munge_path a app_url) (match_app apps host port path_info))) in
         Inr (map_option (call_wrapped en mime_type path_info) app)))))"

text \<open>
  The factory: the applications of the local configuration in its order, each put into the map by paste. The
  loader, the parser of the keys and the map's own insertion are parameters.
\<close>

fun put_apps ::
  "(string \<Rightarrow> exc + 'a) \<Rightarrow> (string \<Rightarrow> exc + (string option \<times> string)) \<Rightarrow> ((string option \<times> string) \<Rightarrow> 'a \<Rightarrow> 'a applications \<Rightarrow> 'a applications)
   \<Rightarrow> 'a applications \<Rightarrow> string dict \<Rightarrow> exc + 'a applications" where
  "put_apps get_app parse_path put apps [] = Inr apps"
| "put_apps get_app parse_path put apps ((path, app_name) # rest) = (case parse_path path of Inl e \<Rightarrow> Inl e | Inr key \<Rightarrow>
     (case get_app app_name of Inl e \<Rightarrow> Inl e | Inr app \<Rightarrow> put_apps get_app parse_path put (put key app apps) rest))"

definition urlmap_factory ::
  "(string \<Rightarrow> exc + 'a) \<Rightarrow> (string \<Rightarrow> exc + (string option \<times> string)) \<Rightarrow> ((string option \<times> string) \<Rightarrow> 'a \<Rightarrow> 'a applications \<Rightarrow> 'a applications)
   \<Rightarrow> string dict \<Rightarrow> string dict \<Rightarrow> exc + ('a option \<times> 'a applications)" where
  "urlmap_factory get_app parse_path put global_conf local_conf =
     (let name = (case map_of local_conf ''not_found_app'' of Some n \<Rightarrow> Some n | None \<Rightarrow> map_of global_conf ''not_found_app'');
          rest = filter (\<lambda>(k, _). k \<noteq> ''not_found_app'') local_conf in
      case (case name of None \<Rightarrow> Inr None | Some n \<Rightarrow> if n = [] then Inr None else map_sum id Some (get_app n)) of Inl e \<Rightarrow> Inl e
      | Inr not_found \<Rightarrow> map_sum id (Pair not_found) (put_apps get_app parse_path put [] rest))"

text \<open>
  \<open>best_match_content_type\<close> of a request: what the map has found, else the suffix of the path or what webob finds
  for the Accept header (a parameter), else JSON.
\<close>

definition best_match_content_type :: "string option \<Rightarrow> (string list \<Rightarrow> string option) \<Rightarrow> string \<Rightarrow> string" where
  "best_match_content_type best_content_type accept_best_match path =
     (case best_content_type of Some t \<Rightarrow> t | None \<Rightarrow>
       (case (case suffix_type path of Some t \<Rightarrow> Some t | None \<Rightarrow> accept_best_match SUPPORTED_CONTENT_TYPES) of
          None \<Rightarrow> ''application/json'' | Some t \<Rightarrow> if t = [] then ''application/json'' else t))"

section \<open>Which application, with which path\<close>

text \<open>Paste keeps the applications of one domain in the order of the length of their prefix, the longest first.\<close>

definition longest_first :: "'a applications \<Rightarrow> bool" where
  "longest_first apps \<longleftrightarrow> sorted_wrt (\<lambda>((d, u), _) ((d', u'), _). d = d' \<longrightarrow> length u' \<le> length u) apps"

lemma fits_iff: "fits u path \<longleftrightarrow> (\<exists>rest. path = u @ rest \<and> (rest = [] \<or> hd rest = CHR ''/''))"
proof
  assume "fits u path"
  then show "\<exists>rest. path = u @ rest \<and> (rest = [] \<or> hd rest = CHR ''/'')"
    unfolding fits_def by (metis append.assoc append_Cons append_Nil2 append_take_drop_id list.sel(1))
next
  assume "\<exists>rest. path = u @ rest \<and> (rest = [] \<or> hd rest = CHR ''/'')"
  then obtain rest where r: "path = u @ rest" "rest = [] \<or> hd rest = CHR ''/''" by blast
  then show "fits u path" by (cases rest) (auto simp: fits_def)
qed

text \<open>The application found is one of the domain that fits, and of all of its domain the one with the longest prefix.\<close>

definition found :: "'a applications \<Rightarrow> string \<Rightarrow> string \<Rightarrow> string \<Rightarrow> 'a \<Rightarrow> string \<Rightarrow> bool" where
  "found apps host port path app u \<longleftrightarrow> (\<exists>d. ((d, u), app) \<in> set apps \<and> serves_domain d host port \<and> fits u path \<and>
     (\<forall>u' app'. ((d, u'), app') \<in> set apps \<longrightarrow> fits u' path \<longrightarrow> length u' \<le> length u))"

lemma match_app_Some:
  assumes "longest_first apps" and "match_app apps host port path = Some (app, u)"
  shows "found apps host port path app u"
  using assms
proof (induction apps)
  case (Cons entry apps)
  obtain d v a where e: "entry = ((d, v), a)" by (metis surj_pair)
  show ?case
  proof (cases "serves_domain d host port \<and> fits v path")
    case True
    then have "app = a" "u = v" using Cons.prems(2) e by (auto simp: match_app_def)
    then show ?thesis using True Cons.prems(1) e unfolding found_def
      by (intro exI [of _ d]) (auto simp: longest_first_def)
  next
    case False
    then have "found apps host port path app u"
      using Cons e by (auto simp: match_app_def longest_first_def)
    then obtain d' where d': "((d', u), app) \<in> set apps" "serves_domain d' host port" "fits u path"
      "\<forall>u' app'. ((d', u'), app') \<in> set apps \<longrightarrow> fits u' path \<longrightarrow> length u' \<le> length u" by (auto simp: found_def)
    then show ?thesis using False e unfolding found_def by (intro exI [of _ d']) auto
  qed
qed (simp add: match_app_def)

lemma match_app_None:
  "match_app apps host port path = None \<Longrightarrow> ((d, u), app) \<in> set apps \<Longrightarrow> serves_domain d host port \<Longrightarrow> \<not> fits u path"
  by (auto simp: match_app_def find_None)

text \<open>The headers that can be read: an option \<open>version\<close> has a value, and qualities are numbers from 0 on.\<close>

definition headers_ok :: "(string \<Rightarrow> float_value option) \<Rightarrow> environ \<Rightarrow> params \<Rightarrow> (string \<times> params) list \<Rightarrow> bool" where
  "headers_ok F en ct masks \<longleftrightarrow> (\<exists>name. parse_options_header (or_empty (en_content_type en)) = Inr (name, ct)) \<and>
     accept_header (or_empty (en_accept en)) = Inr masks \<and> ct ''version'' \<noteq> Some None \<and>
     (\<forall>(_, ps) \<in> set masks. graded F ps \<and> ps ''version'' \<noteq> Some None)"

text \<open>The types an answer may have for a path: \<open>application/atom+xml\<close> only for the root and for the root of an application.\<close>

definition offered :: "bool \<Rightarrow> string list" where
  "offered at_root = SUPPORTED_CONTENT_TYPES @ (if at_root then [''application/atom+xml''] else [])"

definition negotiated :: "(string \<Rightarrow> float_value option) \<Rightarrow> string \<Rightarrow> bool \<Rightarrow> (string \<times> params) list \<Rightarrow> string \<Rightarrow> bool" where
  "negotiated F path at_root masks t \<longleftrightarrow> (case suffix_type path of Some t' \<Rightarrow> t = t'
     | None \<Rightarrow> (\<exists>x cmask ps. is_best F (set (accept_pairs (offered at_root) masks)) x (t, cmask, ps)) \<or>
         t = ''application/json'' \<and> (\<forall>p \<in> set (accept_pairs (offered at_root) masks). \<forall>x. \<not> candidate F x p))"

definition versions_of :: "params \<Rightarrow> (string \<times> params) list \<Rightarrow> string set" where
  "versions_of ct masks = {v. ct ''version'' = Some (Some v) \<or> (\<exists>(_, ps) \<in> set masks. ps ''version'' = Some (Some v))}"

text \<open>Where a request goes: by its path when that begins with the prefix of an application, by a version of a header, or by its path.\<close>

definition goes_to :: "'a applications \<Rightarrow> string \<Rightarrow> string \<Rightarrow> environ \<Rightarrow> string \<Rightarrow> string set \<Rightarrow> 'a routed \<Rightarrow> bool" where
  "goes_to apps host port en path versions r \<longleftrightarrow> (\<exists>u. rt_script_name r = en_script_name en @ u \<and>
     (found apps host port path (rt_app r) u \<and> path = u @ rt_path_info r \<and> (rt_path_info r = [] \<or> hd (rt_path_info r) = CHR ''/'') \<or>
      rt_path_info r = en_path_info en \<and> (\<exists>v \<in> versions. found apps host port (''/v'' @ v) (rt_app r) u) \<and>
      (CHR ''/'' \<in> set path \<longrightarrow> (\<forall>app u'. match_app apps host port path = Some (app, u') \<longrightarrow> u' = []))))"

lemma version_app_found:
  assumes "longest_first apps" and "ps ''version'' \<noteq> Some None"
  shows "\<exists>a. version_app apps host port ps = Inr a \<and> (\<forall>w. a = Some w \<longrightarrow> (\<exists>v app u. ps ''version'' = Some (Some v) \<and>
    w = Set_script_name app u \<and> found apps host port (''/v'' @ v) app u))"
proof (cases "ps ''version''")
  case (Some x)
  then obtain v where v: "ps ''version'' = Some (Some v)" using assms(2) by (cases x) auto
  then show ?thesis
    by (cases "match_app apps host port (''/v'' @ v)") (auto simp: version_app_def dest: match_app_Some [OF assms(1)])
qed (simp add: version_app_def)

text \<open>What the Accept header gives: a type as negotiated, or none, and an application only by one of its versions.\<close>

lemma accept_strategy_found:
  assumes "longest_first apps" and "headers_ok F en ct masks"
  shows "\<exists>t a. accept_strategy F apps host port en (offered at_root) = Inr (t, a) \<and>
    (suffix_type path = None \<longrightarrow> negotiated F path at_root masks (case t of Some t \<Rightarrow> t | None \<Rightarrow> ''application/json'')) \<and>
    (\<forall>w. a = Some w \<longrightarrow> (\<exists>v \<in> versions_of ct masks. \<exists>app u. w = Set_script_name app u \<and> found apps host port (''/v'' @ v) app u))"
proof -
  have graded: "\<forall>(cmask, ps) \<in> set masks. graded F ps" and versions: "\<forall>(cmask, ps) \<in> set masks. ps ''version'' \<noteq> Some None"
    and read: "accept_header (or_empty (en_accept en)) = Inr masks"
    using assms(2) by (auto simp: headers_ok_def)
  obtain t ps where b: "best_match F masks (offered at_root) = Inr (t, ps)" "case t of
      None \<Rightarrow> ps = Map.empty \<and> (\<forall>p \<in> set (accept_pairs (offered at_root) masks). \<forall>x. \<not> candidate F x p)
    | Some t \<Rightarrow> \<exists>x cmask. is_best F (set (accept_pairs (offered at_root) masks)) x (t, cmask, ps)"
    using best_match_best [OF graded] by blast
  have ps: "ps = Map.empty \<or> (\<exists>cmask. (cmask, ps) \<in> set masks)"
    using b(2) by (auto simp: is_best_def accept_pairs_def split: option.splits)
  then have v: "ps ''version'' \<noteq> Some None" using versions by auto
  obtain a where a: "version_app apps host port ps = Inr a"
    "\<forall>w. a = Some w \<longrightarrow> (\<exists>v app u. ps ''version'' = Some (Some v) \<and> w = Set_script_name app u \<and> found apps host port (''/v'' @ v) app u)"
    using version_app_found [OF assms(1), of ps host port] v by blast
  have "accept_strategy F apps host port en (offered at_root) = Inr (t, a)" by (simp add: accept_strategy_def read b(1) a(1))
  moreover have "negotiated F path at_root masks (case t of Some t \<Rightarrow> t | None \<Rightarrow> ''application/json'')" if "suffix_type path = None"
    using b(2) that by (cases t) (auto simp: negotiated_def)
  moreover have "v \<in> versions_of ct masks" if "ps ''version'' = Some (Some v)" for v
    using ps that by (auto simp: versions_of_def)
  ultimately show ?thesis using a(2) by (intro exI [of _ t] exI [of _ a]) force
qed

lemma munged_goes_to:
  assumes "found apps host port path app u"
  shows "goes_to apps host port en path vs (call_wrapped en t path (Munge_path app u))"
proof -
  obtain rest where "path = u @ rest" "rest = [] \<or> hd rest = CHR ''/''" using assms by (auto simp: found_def fits_iff)
  with assms show ?thesis by (auto simp: goes_to_def call_wrapped_def)
qed

lemma wrapped_type [simp]: "rt_content_type (call_wrapped en t path w) = t"
  by (cases w) (simp_all add: call_wrapped_def)


section \<open>The map of the service\<close>

definition demo_apps :: "string applications" where
  "demo_apps = [((None, ''/v1''), ''masakari_api_v1''), ((None, ''''), ''apiversions'')]"

definition demo_float :: "string \<Rightarrow> float_value option" where
  "demo_float s = (if s = ''0.5'' then Some (Fin (1 / 2)) else if s = ''0.8'' then Some (Fin (4 / 5)) else None)"

definition demo_environ :: "string \<Rightarrow> string \<Rightarrow> environ" where
  "demo_environ path accept = \<lparr>en_http_host = Some ''HA:15868'', en_server_name = ''ha'', en_url_scheme = ''http'',
     en_path_info = path, en_script_name = '''', en_content_type = None, en_accept = Some accept\<rparr>"

text \<open>A project's segments, the documents of versions, and versions by a header.\<close>

lemma demo_routes:
  "map (\<lambda>(path, accept). map_sum id (map_option (\<lambda>r. (rt_app r, rt_script_name r, rt_path_info r, rt_content_type r)))
       (urlmap_call demo_float Inr demo_apps (demo_environ path accept)))
     [(''/v1/p/segments'', ''application/*;q=0.5, application/json;q=0.8''), (''/'', ''application/atom+xml''),
      (''/p/hosts'', ''application/json;version=1;q=0.5''), (''/v1/'', ''text/html'')] =
   [Inr (Some (''masakari_api_v1'', ''/v1'', ''/p/segments'', ''application/json'')),
    Inr (Some (''apiversions'', '''', ''/'', ''application/atom+xml'')),
    Inr (Some (''masakari_api_v1'', ''/v1'', ''/p/hosts'', ''application/json'')),
    Inr (Some (''masakari_api_v1'', ''/v1'', ''/'', ''application/json''))]"
  by code_simp

text \<open>Headers that no handler of an exception sees: a range without a name, and options without a value.\<close>

lemma unreadable_headers:
  "urlmap_call demo_float Inr demo_apps (demo_environ ''/v1/p/segments'' ''='') = Inl (Exc OtherException ''StopIteration'')"
  "case urlmap_call demo_float Inr demo_apps (demo_environ ''/v1/p/segments'' ''text/html;q'') of Inl e \<Rightarrow> cls_of e = TypeError | Inr _ \<Rightarrow> False"
  "case urlmap_call demo_float Inr demo_apps (demo_environ ''/v1/p/segments'' ''application/json;version'') of Inl e \<Rightarrow> cls_of e = TypeError | Inr _ \<Rightarrow> False"
  by code_simp+


end
