(* ===== verification/Masakari_Manage.thy ===== *)
theory Masakari_Manage
  imports Masakari_DB Masakari_StagedState
begin

text \<open>
  The administration command (\<open>cmd/manage.py\<close>): purging the tables, and the limit of parallel starts of staged
  recovery. The parser of the command line is a parameter: a command comes with its arguments as numbers.
  \<open>db sync\<close> and \<open>db version\<close> are Alembic's.
\<close>

text \<open>How a command ends: with what it prints, or by \<open>sys.exit\<close> with a message.\<close>

datatype command_end = Printed "string list" | Sys_exit string

definition MAX_INT :: int where
  "MAX_INT = 0x7FFFFFFF"

text \<open>\<open>strutils.validate_integer\<close> of oslo.utils: the value when it is in the range, else a message.\<close>

definition integer_check_ok :: "(int \<Rightarrow> string \<Rightarrow> int \<Rightarrow> int \<Rightarrow> string + int) \<Rightarrow> bool" where
  "integer_check_ok check \<longleftrightarrow> (\<forall>value name lo hi. if lo \<le> value \<and> value \<le> hi then check value name lo hi = Inr value
     else (\<exists>m. check value name lo hi = Inl m))"

definition validate_integer :: "(int \<Rightarrow> string \<Rightarrow> int \<Rightarrow> int \<Rightarrow> string + int) \<Rightarrow> int \<Rightarrow> string \<Rightarrow> int \<Rightarrow> int \<Rightarrow> exc + int" where
  "validate_integer check value name lo hi = (case check value name lo hi of Inl m \<Rightarrow> Inl (mk_InvalidInput m) | Inr v \<Rightarrow> Inr v)"

definition exits :: "string \<Rightarrow> ('n, 'k, command_end) prog" where
  "exits m = retM (Sys_exit m)"

text \<open>
  \<open>db purge\<close>. A day is counted from the epoch: the quotient of the seconds by 86400 is compared with an
  integer, which the products do exactly.
\<close>

definition purge :: "(int \<Rightarrow> string \<Rightarrow> int \<Rightarrow> int \<Rightarrow> string + int) \<Rightarrow> table_name list \<Rightarrow> int \<Rightarrow> int \<Rightarrow> ('n, 'k, command_end) prog" where
  "purge check order age_in_days max_rows =
     (case validate_integer check max_rows ''max_rows'' (- 1) MAX_INT of
        Inl e \<Rightarrow> if isinstance e Invalid then exits (message e) else raiseM e
      | Inr rows \<Rightarrow>
        if rows = 0 then exits ''Must supply value greater than 0 for max_rows.''
        else if age_in_days < 0 then exits ''Must supply a non-negative value for age.''
        else bindM utcnow (\<lambda>now.
          if age_in_days * 86400 \<ge> now then exits ''Maximal age is count of days since epoch.''
          else bindM (purge_deleted_rows order (nat age_in_days) (nat rows)) (\<lambda>_. retM (Printed []))))"

text \<open>The limit of parallel starts.\<close>

definition get_start_limit :: "'k staged_store \<Rightarrow> json \<Rightarrow> (int \<Rightarrow> string) \<Rightarrow> ('n, 'k, command_end) prog" where
  "get_start_limit S fallback text = bindM (get_max_parallel_starts_per_host S fallback) (\<lambda>i. retM (Printed [text i]))"

definition set_start_limit :: "'k staged_store \<Rightarrow> int \<Rightarrow> (int \<Rightarrow> string) \<Rightarrow> ('n, 'k, command_end) prog" where
  "set_start_limit S value text = tryM (bindM (set_max_parallel_starts_per_host S (JInt value)) (\<lambda>i. retM (Printed [text i])))
     (\<lambda>e. if isinstance e InvalidInput then exits (message e) else raiseM e)"

definition clear_start_limit :: "'k staged_store \<Rightarrow> ('n, 'k, command_end) prog" where
  "clear_start_limit S = bindM (clear_max_parallel_starts_per_host S) (\<lambda>_.
     retM (Printed [''Runtime staged recovery start limit cleared.'']))"

section \<open>What a purge does\<close>

text \<open>The arguments a purge refuses: no rows or a number out of range, and an age that is negative or reaches back to the epoch.\<close>

definition refused :: "int \<Rightarrow> int \<Rightarrow> int \<Rightarrow> bool" where
  "refused now age_in_days max_rows \<longleftrightarrow> max_rows < - 1 \<or> max_rows = 0 \<or> max_rows > MAX_INT \<or> age_in_days < 0 \<or> age_in_days * 86400 \<ge> now"

text \<open>C35. The purge command: with arguments out of range it exits with a message and the database is as it was. Otherwise
  it removes rows, at most \<open>max_rows\<close> of them when that is positive, only rows deleted before the age (for
  notifications: last updated before it, in a final state), and with \<open>- 1\<close> none of those is left in a table
  it visits.\<close>

theorem purge_command_spec:
  assumes "integer_check_ok check" and "db_ok L w"
  shows "if refused (clock w) age_in_days max_rows then \<exists>m. purge check order age_in_days max_rows w = (Inr (Sys_exit m), w)
    else \<exists>n w'. purge check order age_in_days max_rows w = (Inr (Printed []), w') \<and> n + row_count w' = row_count w \<and>
      (0 < max_rows \<longrightarrow> int n \<le> max_rows) \<and> purge_keeps (clock w - age_in_days * 86400) w w' \<and>
      (max_rows = - 1 \<longrightarrow> (\<forall>t \<in> set order. clean (clock w - age_in_days * 86400) t w'))"
proof (cases "- 1 \<le> max_rows \<and> max_rows \<le> MAX_INT")
  case False
  then obtain m where "check max_rows ''max_rows'' (- 1) MAX_INT = Inl m" using assms(1) unfolding integer_check_ok_def by metis
  with False show ?thesis
    by (auto simp: purge_def validate_integer_def refused_def mk_InvalidInput_def exits_def retM_def isinstance_simps)
next
  case True
  then have check: "check max_rows ''max_rows'' (- 1) MAX_INT = Inr max_rows" using assms(1) unfolding integer_check_ok_def by metis
  obtain n w' where run: "purge_deleted_rows order (nat age_in_days) (nat max_rows) w = (Inr n, w')" "n + row_count w' = row_count w"
    "0 < nat max_rows \<longrightarrow> n \<le> nat max_rows" "purge_keeps (clock w - int (nat age_in_days) * 86400) w w'"
    "nat max_rows = 0 \<longrightarrow> (\<forall>t \<in> set order. clean (clock w - int (nat age_in_days) * 86400) t w')"
    using purge_deleted_rows_spec [OF assms(2), of order "nat age_in_days" "nat max_rows"] by (elim exE conjE) (rule that)
  show ?thesis
  proof (cases "refused (clock w) age_in_days max_rows")
    case refused: True
    then show ?thesis using True check
      by (auto simp: refused_def purge_def validate_integer_def exits_def comp_defs utcnow_def)
  next
    case ok: False
    then have "purge check order age_in_days max_rows w = (Inr (Printed []), w')"
      using check run(1) by (simp add: refused_def purge_def validate_integer_def comp_defs utcnow_def)
    then show ?thesis using ok run(2-5) by (auto simp: refused_def)
  qed
qed

definition demo_check :: "int \<Rightarrow> string \<Rightarrow> int \<Rightarrow> int \<Rightarrow> string + int" where
  "demo_check value name lo hi = (if lo \<le> value \<and> value \<le> hi then Inr value else Inl ''out of range'')"

lemma purge_command_spec_witness:
  "(\<exists>m. purge demo_check [T_hosts, T_segments] 1 0 (demo_world () ()) = (Inr (Sys_exit m), demo_world () ())) \<and>
   (\<exists>n w'. purge demo_check [T_hosts, T_segments] 1 1 ((demo_world () ())\<lparr>clock := 100000\<rparr>) = (Inr (Printed []), w') \<and>
     n + row_count w' = 3 \<and> n \<le> 1)"
proof -
  have check: "integer_check_ok demo_check" by (simp add: integer_check_ok_def demo_check_def)
  have late: "db_ok demo_lib ((demo_world () ())\<lparr>clock := 100000\<rparr>)"
    using demo_world_ok [of demo_lib "()" "()"] by (simp add: db_ok_def table_ok_def)
  have "row_count ((demo_world () ())\<lparr>clock := 100000\<rparr>) = 3" by (simp add: row_count_def demo_world_def)
  with purge_command_spec [OF check demo_world_ok [of demo_lib "()" "()"], of 1 0 "[T_hosts, T_segments]"]
    purge_command_spec [OF check late, of 1 1 "[T_hosts, T_segments]"]
  show ?thesis by (fastforce simp: refused_def MAX_INT_def)
qed

end
