(* ===== verification/Masakari_Endpoint.thy ===== *)
theory Masakari_Endpoint
  imports Masakari_ApiVersion Masakari_StagedState
begin

text \<open>
  The endpoint of etcd that the stores of staged recovery and of fencing connect to, from the URLs of the
  configuration (\<open>parse_etcd_backend_url\<close> of \<open>staged_state_etcd.py\<close>, \<open>_parse_backend_url\<close> of \<open>fencing_state_etcd.py\<close>),
  and what \<open>urllib.parse.urlparse\<close> makes of a URL, for ASCII text.
\<close>

section \<open>Parsing a URL\<close>

record parsed_url =
  pu_scheme :: string
  pu_netloc :: string
  pu_path :: string

definition scheme_char :: "char \<Rightarrow> bool" where
  "scheme_char c \<longleftrightarrow> (let n = (of_char c :: nat) in 97 \<le> n \<and> n \<le> 122 \<or> 65 \<le> n \<and> n \<le> 90 \<or> is_digit c \<or> c \<in> set ''+-.'')"

definition is_alpha :: "char \<Rightarrow> bool" where
  "is_alpha c \<longleftrightarrow> (let n = (of_char c :: nat) in 97 \<le> n \<and> n \<le> 122 \<or> 65 \<le> n \<and> n \<le> 90)"

text \<open>Leading blanks and control characters, and every tab and line end, are dropped.\<close>

definition cleaned :: "string \<Rightarrow> string" where
  "cleaned url = filter (\<lambda>c. (of_char c :: nat) \<notin> {9, 10, 13}) (dropWhile (\<lambda>c. (of_char c :: nat) \<le> 32) url)"

definition split_scheme :: "string \<Rightarrow> string \<times> string" where
  "split_scheme url = (let i = takeWhile (\<lambda>c. c \<noteq> CHR '':'') url; rest = dropWhile (\<lambda>c. c \<noteq> CHR '':'') url in
     if rest \<noteq> [] \<and> i \<noteq> [] \<and> is_alpha (hd i) \<and> list_all scheme_char i then (lower i, tl rest) else ([], url))"

definition split_netloc :: "string \<Rightarrow> string \<times> string" where
  "split_netloc url = (if take 2 url = ''//''
     then (takeWhile (\<lambda>c. c \<notin> set ''/?#'') (drop 2 url), dropWhile (\<lambda>c. c \<notin> set ''/?#'') (drop 2 url)) else ([], url))"

text \<open>Parameters are split off the last segment of a path, for the schemes that have them.\<close>

definition uses_params :: "string list" where
  "uses_params = ['''', ''ftp'', ''hdl'', ''prospero'', ''http'', ''imap'', ''https'', ''shttp'', ''rtsp'', ''rtsps'', ''rtspu'', ''sip'', ''sips'',
     ''mms'', ''sftp'', ''tel'']"

definition without_params :: "string \<Rightarrow> string" where
  "without_params path =
     (let segment = rev (takeWhile (\<lambda>c. c \<noteq> CHR ''/'') (rev path)) in
      take (length path - length segment) path @ takeWhile (\<lambda>c. c \<noteq> CHR '';'') segment)"

text \<open>The text between brackets is checked by \<open>ipaddress\<close>, a parameter.\<close>

definition urlparse :: "(string \<Rightarrow> bool) \<Rightarrow> string \<Rightarrow> exc + parsed_url" where
  "urlparse valid_address url =
     (let (scheme, rest) = split_scheme (cleaned url); (netloc, rest) = split_netloc rest;
          path = takeWhile (\<lambda>c. c \<noteq> CHR ''?'') (takeWhile (\<lambda>c. c \<noteq> CHR ''#'') rest);
          bracketed = takeWhile (\<lambda>c. c \<noteq> CHR '']'') (tl (dropWhile (\<lambda>c. c \<noteq> CHR ''['') netloc)) in
      if (CHR ''['' \<in> set netloc) \<noteq> (CHR '']'' \<in> set netloc) then Inl (Exc ValueError ''Invalid IPv6 URL'')
      else if CHR ''['' \<in> set netloc \<and> \<not> valid_address bracketed then Inl (Exc ValueError bracketed)
      else Inr \<lparr>pu_scheme = scheme, pu_netloc = netloc, pu_path = (if scheme \<in> set uses_params then without_params path else path)\<rparr>)"

definition hostinfo :: "string \<Rightarrow> string \<times> string" where
  "hostinfo netloc =
     (let info = rev (takeWhile (\<lambda>c. c \<noteq> CHR ''@'') (rev netloc)) in
      if CHR ''['' \<in> set info
      then (let bracketed = tl (dropWhile (\<lambda>c. c \<noteq> CHR ''['') info); after = tl (dropWhile (\<lambda>c. c \<noteq> CHR '']'') bracketed) in
        (takeWhile (\<lambda>c. c \<noteq> CHR '']'') bracketed, tl (dropWhile (\<lambda>c. c \<noteq> CHR '':'') after)))
      else (takeWhile (\<lambda>c. c \<noteq> CHR '':'') info, tl (dropWhile (\<lambda>c. c \<noteq> CHR '':'') info)))"

definition hostname :: "parsed_url \<Rightarrow> string option" where
  "hostname u = (let name = fst (hostinfo (pu_netloc u)) in if name = [] then None
     else Some (lower (takeWhile (\<lambda>c. c \<noteq> CHR ''%'') name) @ dropWhile (\<lambda>c. c \<noteq> CHR ''%'') name))"

definition url_port :: "parsed_url \<Rightarrow> exc + nat option" where
  "url_port u = (let port = snd (hostinfo (pu_netloc u)) in if port = [] then Inr None
     else if \<not> list_all is_digit port then Inl (Exc ValueError (''Port could not be cast to integer value as '' @ port))
     else if number_value port > 65535 then Inl (Exc ValueError ''Port out of range 0-65535'') else Inr (Some (number_value port)))"

section \<open>The endpoint\<close>

record endpoint =
  ep_host :: "string option"
  ep_port :: nat
  ep_protocol :: string
  ep_api_path :: "string option"

definition unknown_exception :: exc where
  "unknown_exception = Exc MasakariException ''An unknown exception occurred.''"

definition parse_endpoint :: "(string \<Rightarrow> bool) \<Rightarrow> string \<Rightarrow> exc + endpoint" where
  "parse_endpoint valid_address url =
     (if url = [] then Inl unknown_exception
      else (case urlparse valid_address (if take 6 url = ''etcd3+'' then drop 6 url else url) of Inl e \<Rightarrow> Inl e
       | Inr parsed \<Rightarrow> if pu_scheme parsed \<notin> {''http'', ''https''} then Inl unknown_exception
         else (case url_port parsed of Inl e \<Rightarrow> Inl e
          | Inr port \<Rightarrow> Inr \<lparr>ep_host = hostname parsed, ep_port = (case port of None \<Rightarrow> 2379 | Some p \<Rightarrow> if p = 0 then 2379 else p),
              ep_protocol = pu_scheme parsed, ep_api_path = (if pu_path parsed = [] then None else Some (pu_path parsed))\<rparr>)))"

text \<open>\<open>a or b\<close> on options that are text or unset.\<close>

definition first_set :: "string option list \<Rightarrow> string" where
  "first_set urls = (case find (\<lambda>u. u \<noteq> None \<and> u \<noteq> Some []) urls of Some (Some u) \<Rightarrow> u | _ \<Rightarrow> [])"

definition parse_etcd_backend_url :: "(string \<Rightarrow> bool) \<Rightarrow> string option \<Rightarrow> string option \<Rightarrow> exc + endpoint" where
  "parse_etcd_backend_url valid_address staged_url coordination_url = parse_endpoint valid_address (first_set [staged_url, coordination_url])"

definition fencing_parse_backend_url :: "(string \<Rightarrow> bool) \<Rightarrow> string option \<Rightarrow> string option \<Rightarrow> string option \<Rightarrow> exc + endpoint" where
  "fencing_parse_backend_url valid_address fencing_url staged_url coordination_url =
     parse_endpoint valid_address (first_set [fencing_url, staged_url, coordination_url])"

section \<open>Endpoints round trip\<close>

text \<open>A name of a host and a path that a URL shows as they are.\<close>

definition plain_host :: "string \<Rightarrow> bool" where
  "plain_host host \<longleftrightarrow> host \<noteq> [] \<and> list_all (\<lambda>c. 32 < (of_char c :: nat) \<and> c \<notin> set ''/?#@:[]%'') host"

definition plain_path :: "string \<Rightarrow> bool" where
  "plain_path path \<longleftrightarrow> (path = [] \<or> hd path = CHR ''/'') \<and> list_all (\<lambda>c. 32 < (of_char c :: nat) \<and> c \<notin> set ''?#;'') path"

definition show_endpoint :: "string \<Rightarrow> string \<Rightarrow> nat option \<Rightarrow> string \<Rightarrow> string" where
  "show_endpoint protocol host port path = protocol @ ''://'' @ host @ (case port of None \<Rightarrow> [] | Some p \<Rightarrow> '':'' @ show_nat p) @ path"

lemma take_until:
  assumes "c \<notin> set xs" and "rest = [] \<or> hd rest = c"
  shows "takeWhile (\<lambda>x. x \<noteq> c) (xs @ rest) = xs" and "dropWhile (\<lambda>x. x \<noteq> c) (xs @ rest) = rest"
  using assms by (cases rest; auto simp: takeWhile_append dropWhile_append)+

lemma take_until_last: "c \<notin> set xs \<Longrightarrow> takeWhile (\<lambda>x. x \<noteq> c) (rev xs) = rev xs"
  by (auto simp: takeWhile_eq_all_conv)

lemma show_nat_plain: "c \<in> set (show_nat p) \<Longrightarrow> 32 < (of_char c :: nat) \<and> c \<notin> set ''/?#@:[]%''"
proof -
  assume "c \<in> set (show_nat p)"
  then have "is_digit c" using show_nat_number [of p] by (auto simp: list_all_iff)
  then have "48 \<le> (of_char c :: nat)" "(of_char c :: nat) \<le> 57" by (auto simp: is_digit_def digit_of_def Let_def split: if_splits)
  then show ?thesis by auto
qed

lemma without_params_plain: "CHR '';'' \<notin> set path \<Longrightarrow> without_params path = path"
proof -
  assume "CHR '';'' \<notin> set path"
  then have "CHR '';'' \<notin> set (takeWhile (\<lambda>c. c \<noteq> CHR ''/'') (rev path))" by (auto dest: set_takeWhileD)
  then have t: "takeWhile (\<lambda>c. c \<noteq> CHR '';'') (rev (takeWhile (\<lambda>c. c \<noteq> CHR ''/'') (rev path))) = rev (takeWhile (\<lambda>c. c \<noteq> CHR ''/'') (rev path))"
    by (auto simp: takeWhile_eq_all_conv)
  have "rev path = takeWhile (\<lambda>c. c \<noteq> CHR ''/'') (rev path) @ dropWhile (\<lambda>c. c \<noteq> CHR ''/'') (rev path)" by simp
  then have "path = rev (dropWhile (\<lambda>c. c \<noteq> CHR ''/'') (rev path)) @ rev (takeWhile (\<lambda>c. c \<noteq> CHR ''/'') (rev path))"
    by (metis rev_append rev_rev_ident)
  then show ?thesis unfolding without_params_def Let_def t
    by (metis append_eq_conv_conj diff_add_inverse2 length_append)
qed

text \<open>What the parts of a plain URL are.\<close>

lemma urlparse_plain:
  assumes "protocol \<in> {''http'', ''https''}" and "plain_host host" and "plain_path path"
    and netloc_def: "netloc = host @ (case port of None \<Rightarrow> [] | Some p \<Rightarrow> '':'' @ show_nat p)"
  shows "urlparse valid_address (show_endpoint protocol host port path) =
    Inr \<lparr>pu_scheme = protocol, pu_netloc = netloc, pu_path = path\<rparr>"
proof -
  have host: "\<forall>c \<in> set host. 32 < (of_char c :: nat) \<and> c \<notin> set ''/?#@:[]%''" "host \<noteq> []"
    using assms(2) by (auto simp: plain_host_def list_all_iff)
  have net: "\<forall>c \<in> set netloc. 32 < (of_char c :: nat) \<and> c \<notin> set ''/?#@[]%''"
  proof
    fix c assume "c \<in> set netloc"
    then consider "c \<in> set host" | "c = CHR '':''" | p where "c \<in> set (show_nat p)"
      unfolding netloc_def by (auto split: option.splits)
    then show "32 < (of_char c :: nat) \<and> c \<notin> set ''/?#@[]%''"
    proof cases
      case 1
      with host(1) show ?thesis by auto
    next
      case 2
      show ?thesis unfolding 2 by simp
    next
      case (3 p)
      from show_nat_plain [OF this] show ?thesis by auto
    qed
  qed
  have path: "path = [] \<or> hd path = CHR ''/''" "\<forall>c \<in> set path. 32 < (of_char c :: nat) \<and> c \<notin> set ''?#;''"
    using assms(3) by (auto simp: plain_path_def list_all_iff)
  let ?url = "protocol @ ''://'' @ netloc @ path"
  have "\<forall>c \<in> set (protocol @ ''://''). 32 < (of_char c :: nat)" using assms(1) by (elim insertE) simp_all
  moreover have "\<forall>c \<in> set netloc. 32 < (of_char c :: nat)" "\<forall>c \<in> set path. 32 < (of_char c :: nat)" using net path(2) by blast+
  ultimately have all: "\<forall>c \<in> set ?url. 32 < (of_char c :: nat)" unfolding set_append by blast
  have start: "dropWhile (\<lambda>c. (of_char c :: nat) \<le> 32) ?url = ?url" using assms(1) by (elim insertE) simp_all
  have "filter (\<lambda>c. (of_char c :: nat) \<notin> {9, 10, 13}) ?url = ?url" using all by (intro filter_True) fastforce
  then have clean: "cleaned ?url = ?url" unfolding cleaned_def start .
  have "CHR '':'' \<notin> set protocol" "protocol \<noteq> []" "is_alpha (hd protocol)" "list_all scheme_char protocol" "lower protocol = protocol"
    using assms(1) by (auto simp: is_alpha_def scheme_char_def lower_def)
  then have scheme: "split_scheme ?url = (protocol, ''//'' @ netloc @ path)"
    using take_until [of "CHR '':''" protocol "''://'' @ netloc @ path"] by (simp add: split_scheme_def)
  have ends: "takeWhile (\<lambda>c. c \<notin> set ''/?#'') (netloc @ path) = netloc" "dropWhile (\<lambda>c. c \<notin> set ''/?#'') (netloc @ path) = path"
    using net path(1) by (cases path; auto simp: takeWhile_append dropWhile_append)+
  then have loc: "split_netloc (''//'' @ netloc @ path) = (netloc, path)" by (simp add: split_netloc_def)
  have cut: "takeWhile (\<lambda>c. c \<noteq> CHR ''#'') path = path" "takeWhile (\<lambda>c. c \<noteq> CHR ''?'') path = path" and semi: "CHR '';'' \<notin> set path"
    using path(2) by (auto simp: takeWhile_eq_all_conv)
  have brackets: "CHR ''['' \<notin> set netloc" "CHR '']'' \<notin> set netloc" using net by auto
  have url: "show_endpoint protocol host port path = ?url" by (simp add: show_endpoint_def netloc_def)
  show ?thesis unfolding urlparse_def url clean scheme Let_def prod.case loc cut without_params_plain [OF semi] using brackets by simp
qed

lemma hostinfo_plain:
  assumes "CHR ''@'' \<notin> set netloc" and "CHR ''['' \<notin> set netloc"
  shows "hostinfo netloc = (takeWhile (\<lambda>c. c \<noteq> CHR '':'') netloc, tl (dropWhile (\<lambda>c. c \<noteq> CHR '':'') netloc))"
  using assms(2) by (simp add: hostinfo_def take_until_last [OF assms(1)])



text \<open>The text of the error of a URL that cannot be used is lost: the exception has a fixed text, and no place for the reason.\<close>

lemma reason_lost: "fencing_parse_backend_url valid_address None None None = Inl unknown_exception"
  by (simp add: fencing_parse_backend_url_def parse_endpoint_def first_set_def)

end
