(* ===== verification/Masakari_EndToEnd.thy ===== *)
theory Masakari_EndToEnd
  imports Masakari_Controllers Masakari_Manager
begin

text \<open>
  What a monitor and an operator see of the program as a whole: the answers of the API to requests that
  report a failure or change a segment or a host, with what becomes of the rows, and the way of a
  notification from the request that reports it to the end of its processing in the engine.
\<close>

section \<open>Answers of an action\<close>

lemma handle_run:
  assumes "method_of (is_member r) (rq_verb req) = Some m" and "web_action W m r = Some meth"
    and "accepted req v" and "body_contents (we_api W) req = Inr b" and "ac_run meth v req b w = (res, t)"
  shows "res = Inr a \<Longrightarrow> Masakari_Controllers.handle W r req w = (Inr (Answer (ac_code meth) a (version_header ''masakari'' v)), t)"
    and "res = Inl (Exc (HTTPError n) msg) \<Longrightarrow> Masakari_Controllers.handle W r req w = (Inr (fault_answer v n msg), t)"
    and "res = Inl e \<Longrightarrow> cls_of e = ValidationError \<Longrightarrow> Masakari_Controllers.handle W r req w = (Inr (fault_answer v 400 (message e)), t)"
proof -
  have code: "http_code ValidationError = Some 400" by code_simp
  have run: "Masakari_Controllers.handle W r req = serve (we_api W) m (Some meth) req"
    using assms(1,2) by (simp add: Masakari_Controllers.handle_def)
  show "res = Inr a \<Longrightarrow> Masakari_Controllers.handle W r req w = (Inr (Answer (ac_code meth) a (version_header ''masakari'' v)), t)"
    unfolding run using assms(5) by (simp add: serve_result [OF assms(3,4)])
  show "res = Inl (Exc (HTTPError n) msg) \<Longrightarrow> Masakari_Controllers.handle W r req w = (Inr (fault_answer v n msg), t)"
    unfolding run using assms(5) by (intro serve_http_error [OF assms(3,4)]) simp
  show "Masakari_Controllers.handle W r req w = (Inr (fault_answer v 400 (message e)), t)"
    if "res = Inl e" "cls_of e = ValidationError"
    unfolding run using assms(5) that
    by (cases e) (simp add: serve_accepted [OF assms(3,4)] dispatch_def comp_defs resource_exception_def isinstance_simps code)
qed

lemma bind_Inr: "bindM (liftE (Inr x)) f = f x"
  by (simp add: liftE_def comp_defs)

text \<open>A body that does not conform to its schema ends the action.\<close>

lemma with_schema_stops:
  assumes "validator_ok T V" and "APIVersionRequest lo = Inr a" and "APIVersionRequest hi = Inr b" and "matches v a b = Inr True"
    and "\<not> schema_ok T s body"
  shows "\<exists>e. with_schema V s lo hi f v body = raiseM e \<and> cls_of e = ValidationError"
proof -
  obtain e where e: "validate V s body = Inl e" using validate_ok [OF assms(1)] assms(5) by (cases "validate V s body") auto
  then show ?thesis using assms(2-4) validate_error [OF e]
    by (intro exI [of _ e]) (simp add: with_schema_def liftE_def comp_defs fun_eq_iff)
qed

lemma matches_any: "\<not> is_null v \<Longrightarrow> matches v null_version null_version = Inr True"
  using versions_read(4) by (simp add: matches_def)

lemma with_schema_refuses:
  assumes "validator_ok T V" and "APIVersionRequest lo = Inr a" and "APIVersionRequest hi = Inr b" and "matches v a b = Inr True"
    and "\<not> schema_ok T s body"
  shows "\<exists>e. expected_errors A errors (with_schema V s lo hi f v body) = raiseM e \<and> cls_of e = ValidationError"
proof -
  obtain e where e: "with_schema V s lo hi f v body = raiseM e" "cls_of e = ValidationError"
    using with_schema_stops [OF assms] by blast
  then have "expected_errors A errors (with_schema V s lo hi f v body) = raiseM e"
    unfolding e(1) by (simp add: expected_errors_def comp_defs isinstance_simps)
  with e(2) show ?thesis by blast
qed

section \<open>Changing what is in use\<close>

text \<open>An exception of a clause is the answer the clause names, when the action declares it.\<close>

lemma clause_applies:
  assumes "f w = (Inl e, w')" and "find (\<lambda>c. isinstance_any e (fst c)) clauses = Some (cs, n)" and "n \<in> set errors"
  shows "expected_errors A errors (bindM (except_clauses clauses f) g) w = (Inl (Exc (HTTPError n) (message e)), w')"
  by (rule expected_errors_declared) (simp_all add: except_clauses_def http_error_def comp_defs assms)

text \<open>The schema a body of PUT has to conform to, from version 1.2 on.\<close>

primrec change_schema :: "text_lib \<Rightarrow> route \<Rightarrow> schema option" where
  "change_schema T (R_segment i) = Some (segments_update_v12 (tx_category T))"
| "change_schema T (R_host s i) = Some (hosts_update_schema (tx_category T))"
| "change_schema T R_segments = None" | "change_schema T (R_hosts s) = None" | "change_schema T R_notifications = None"
| "change_schema T (R_notification i) = None" | "change_schema T (R_vmoves n) = None" | "change_schema T (R_vmove n i) = None"

definition change_conforms :: "text_lib \<Rightarrow> route \<Rightarrow> json \<Rightarrow> bool" where
  "change_conforms T r body \<longleftrightarrow> (case change_schema T r of None \<Rightarrow> False | Some s \<Rightarrow> schema_ok T s body)"

definition may_change :: "api_lib \<Rightarrow> request \<Rightarrow> bool" where
  "may_change A req \<longleftrightarrow> (\<forall>resource \<in> {''segments'', ''os-hosts''}. \<forall>m \<in> {''update'', ''delete''}. permitted A req (policy_name resource m))"

lemma segments_update_checked:
  fixes W :: "'n web_env"
  assumes V: "validator_ok (we_text W) (we_valid W)" and v: "\<not> is_null v" "ver_le (version 2) v" and may: "may_change (we_api W) req"
  shows "change_conforms (we_text W) (R_segment i) body \<Longrightarrow>
      \<exists>data. (segments_update W i v req (Some body) :: ('n, 'k, json) prog) = expected_errors (we_api W) [403, 404, 409]
        (bindM (except_clauses [([FailoverSegmentNotFound], 404), ([FailoverSegmentExists, Conflict], 409)]
           (update_segment (db_ctx req) i data)) (\<lambda>sg. retM (JObj [(''segment'', segment_json sg)])))"
    and "\<not> change_conforms (we_text W) (R_segment i) body \<Longrightarrow>
      \<exists>e. (segments_update W i v req (Some body) :: ('n, 'k, json) prog) = raiseM e \<and> cls_of e = ValidationError"
proof -
  have old: "with_schema (we_valid W) s (Some ''1.0'') (Some ''1.1'') f v body = f v body"
    for s and f :: "api_version_request \<Rightarrow> json \<Rightarrow> ('n, 'k, json) prog"
    by (rule with_schema_passes [OF V v(1) version_bounds(6) versions_read(2)])
      (use v(1) versions_read(5) not_both [OF v(2)] in \<open>auto simp: matches_def\<close>)
  have now: "matches v (version 2) null_version = Inr True"
    using v versions_read(4,6) by (simp add: matches_def)
  have p: "permitted (we_api W) req (policy_name ''segments'' ''update'')" using may by (simp add: may_change_def)
  show "\<exists>data. (segments_update W i v req (Some body) :: ('n, 'k, json) prog) = expected_errors (we_api W) [403, 404, 409]
        (bindM (except_clauses [([FailoverSegmentNotFound], 404), ([FailoverSegmentExists, Conflict], 409)]
           (update_segment (db_ctx req) i data)) (\<lambda>sg. retM (JObj [(''segment'', segment_json sg)])))"
    if "change_conforms (we_text W) (R_segment i) body"
  proof -
    from that have ok: "schema_ok (we_text W) (segments_update_v12 (tx_category (we_text W))) body" by (simp add: change_conforms_def)
    obtain d data where read: "body_section ''segment'' body = Inr d" "segment_update_of d = Inr data"
      using admitted_segment_update ok by blast
    have new: "with_schema (we_valid W) (segments_update_v12 (tx_category (we_text W))) (Some ''1.2'') None f v body = f v body"
      for f :: "api_version_request \<Rightarrow> json \<Rightarrow> ('n, 'k, json) prog"
      by (rule with_schema_passes [OF V v(1) versions_read(3,1)]) (rule ok)
    show ?thesis
      unfolding segments_update_def body_argument_def option.case old new require_permitted [OF p] by (auto simp: read bind_Inr)
  qed
  show "\<exists>e. (segments_update W i v req (Some body) :: ('n, 'k, json) prog) = raiseM e \<and> cls_of e = ValidationError"
    if "\<not> change_conforms (we_text W) (R_segment i) body"
    unfolding segments_update_def body_argument_def option.case old
    by (rule with_schema_refuses [OF V versions_read(3,1) now]) (use that in \<open>simp add: change_conforms_def\<close>)
qed

lemma hosts_update_checked:
  fixes W :: "'n web_env"
  assumes V: "validator_ok (we_text W) (we_valid W)" and v: "\<not> is_null v" and may: "may_change (we_api W) req"
  shows "change_conforms (we_text W) (R_host s i) body \<Longrightarrow>
      \<exists>data. (hosts_update W s i v req (Some body) :: ('n, 'k, json) prog) = expected_errors (we_api W) [400, 403, 404, 409]
        (bindM (except_clauses [([ComputeNotFoundByName], 400), ([HostNotFound], 404), ([FailoverSegmentNotFound], 404),
             ([HostExists, Conflict], 409)] (update_host (we_lib W) (we_nova W) (db_ctx req) s i data))
           (\<lambda>p. retM (JObj [(''host'', build_host p)])))"
    and "\<not> change_conforms (we_text W) (R_host s i) body \<Longrightarrow>
      \<exists>e. (hosts_update W s i v req (Some body) :: ('n, 'k, json) prog) = raiseM e \<and> cls_of e = ValidationError"
proof -
  have p: "permitted (we_api W) req (policy_name ''os-hosts'' ''update'')" using may by (simp add: may_change_def)
  show "\<exists>data. (hosts_update W s i v req (Some body) :: ('n, 'k, json) prog) = expected_errors (we_api W) [400, 403, 404, 409]
        (bindM (except_clauses [([ComputeNotFoundByName], 400), ([HostNotFound], 404), ([FailoverSegmentNotFound], 404),
             ([HostExists, Conflict], 409)] (update_host (we_lib W) (we_nova W) (db_ctx req) s i data))
           (\<lambda>p. retM (JObj [(''host'', build_host p)])))"
    if "change_conforms (we_text W) (R_host s i) body"
  proof -
    from that have ok: "schema_ok (we_text W) (hosts_update_schema (tx_category (we_text W))) body" by (simp add: change_conforms_def)
    obtain d where d: "body_section ''host'' body = Inr d" "typed (we_text W) (host_properties (tx_category (we_text W))) d"
      using ok unfolding hosts_update_schema_def by (rule admitted_object) blast
    obtain data where read: "host_update_of d = Inr data" using host_update_read [OF d(2)] by blast
    have new: "with_schema (we_valid W) (hosts_update_schema (tx_category (we_text W))) None None f v body = f v body"
      for f :: "api_version_request \<Rightarrow> json \<Rightarrow> ('n, 'k, json) prog"
      by (rule with_schema_passes [OF V v versions_read(1,1)]) (rule ok)
    show ?thesis
      unfolding hosts_update_def body_argument_def option.case new require_permitted [OF p] by (auto simp: d(1) read bind_Inr)
  qed
  show "\<exists>e. (hosts_update W s i v req (Some body) :: ('n, 'k, json) prog) = raiseM e \<and> cls_of e = ValidationError"
    if "\<not> change_conforms (we_text W) (R_host s i) body"
    unfolding hosts_update_def body_argument_def option.case
    by (rule with_schema_refuses [OF V versions_read(1,1) matches_any [OF v]]) (use that in \<open>simp add: change_conforms_def\<close>)
qed

text \<open>What a deletion leaves.\<close>

primrec gone :: "route \<Rightarrow> ('n, 'k) world \<Rightarrow> ('n, 'k) world \<Rightarrow> bool" where
  "gone (R_segment u) w w' = (live segments_tbl w' = (live segments_tbl w)(u := None) \<and>
     live hosts_tbl w' = (\<lambda>x. case live hosts_tbl w x of None \<Rightarrow> None | Some h \<Rightarrow> if h_segment_id h = u then None else Some h))"
| "gone (R_host s u) w w' = (live segments_tbl w' = live segments_tbl w \<and> live hosts_tbl w' = (live hosts_tbl w)(u := None))"
| "gone R_segments w w' = False" | "gone (R_hosts s) w w' = False" | "gone R_notifications w w' = False"
| "gone (R_notification i) w w' = False" | "gone (R_vmoves n) w w' = False" | "gone (R_vmove n i) w w' = False"

text \<open>The action behind a route: what it does with an exception of the object in use, and without.\<close>

lemma put_answer:
  fixes w :: "('n, 'k) world"
  assumes V: "validator_ok (we_text W) (we_valid W)" and put: "rq_verb req = ''PUT''" "rq_body req \<noteq> ''''"
      "al_loads (we_api W) (rq_body req) = Some body" "accepted req v" "ver_le (version 2) v" "may_change (we_api W) req" "live_ctx (db_ctx req)"
    and db: "db_ok (we_lib W) w" "sg \<in> set (segments w)" "deleted sg = 0" "sg_uuid sg \<noteq> ''''"
      "h \<in> set (hosts w)" "deleted h = 0" "h_segment_id h = sg_uuid sg"
    and r: "r \<in> {R_segment (sg_uuid sg), R_host (sg_uuid sg) (h_uuid h)}"
  shows "\<not> change_conforms (we_text W) r body \<Longrightarrow> \<exists>m. Masakari_Controllers.handle W r req w = (Inr (fault_answer v 400 m), w)"
    and "change_conforms (we_text W) r body \<Longrightarrow> in_use sg w \<Longrightarrow> \<exists>m. Masakari_Controllers.handle W r req w = (Inr (fault_answer v 409 m), w)"
proof -
  have null: "\<not> is_null v" by (rule accepted_version(1) [OF put(4)])
  have contents: "body_contents (we_api W) req = Inr (Some body)"
    using put(1-3) by (simp add: body_contents_def should_have_body_def)
  have act: "method_of (is_member (R_segment i)) (rq_verb req) = Some ''update''"
      "(web_action W ''update'' (R_segment i) :: ('n, 'k, json) action option) = Some \<lparr>ac_code = 200, ac_run = segments_update W i\<rparr>"
      "method_of (is_member (R_host s i)) (rq_verb req) = Some ''update''"
      "(web_action W ''update'' (R_host s i) :: ('n, 'k, json) action option) = Some \<lparr>ac_code = 200, ac_run = hosts_update W s i\<rparr>" for s i
    by (simp_all add: put(1) method_of_def action_def)
  note ends = handle_run [OF act(1,2) put(4) contents, unfolded action.simps] handle_run [OF act(3,4) put(4) contents, unfolded action.simps]
  note checked = segments_update_checked [OF V null put(5,6)] hosts_update_checked [OF V null put(6)]
  show "\<exists>m. Masakari_Controllers.handle W r req w = (Inr (fault_answer v 400 m), w)" if "\<not> change_conforms (we_text W) r body"
    using r
  proof (elim insertE)
    assume s: "r = R_segment (sg_uuid sg)"
    then obtain e where e: "(segments_update W (sg_uuid sg) v req (Some body) :: ('n, 'k, json) prog) = raiseM e" "cls_of e = ValidationError"
      using checked(2) \<open>\<not> change_conforms (we_text W) r body\<close> by blast
    show ?thesis unfolding s using ends(3) [of "sg_uuid sg" w "Inl e" w e] e by (auto simp: raiseM_def)
  next
    assume s: "r = R_host (sg_uuid sg) (h_uuid h)"
    then obtain e where e: "(hosts_update W (sg_uuid sg) (h_uuid h) v req (Some body) :: ('n, 'k, json) prog) = raiseM e" "cls_of e = ValidationError"
      using checked(4) \<open>\<not> change_conforms (we_text W) r body\<close> by blast
    show ?thesis unfolding s using ends(6) [of "sg_uuid sg" "h_uuid h" w "Inl e" w e] e by (auto simp: raiseM_def)
  qed simp
  show "\<exists>m. Masakari_Controllers.handle W r req w = (Inr (fault_answer v 409 m), w)"
    if ok: "change_conforms (we_text W) r body" and busy: "in_use sg w"
    using r
  proof (elim insertE)
    assume s: "r = R_segment (sg_uuid sg)"
    then obtain data where run: "(segments_update W (sg_uuid sg) v req (Some body) :: ('n, 'k, json) prog) = expected_errors (we_api W) [403, 404, 409]
        (bindM (except_clauses [([FailoverSegmentNotFound], 404), ([FailoverSegmentExists, Conflict], 409)]
           (update_segment (db_ctx req) (sg_uuid sg) data)) (\<lambda>sg. retM (JObj [(''segment'', segment_json sg)])))"
      using checked(1) ok by blast
    have "update_segment (db_ctx req) (sg_uuid sg) data w = (Inl (mk_FailoverSegmentInUse (sg_uuid sg)), w)"
      using segment_in_use_refused [OF put(7) db] busy by simp
    then have "segments_update W (sg_uuid sg) v req (Some body) w = (Inl (Exc (HTTPError 409) (message (mk_FailoverSegmentInUse (sg_uuid sg)))), w)"
      unfolding run by (rule clause_applies) (simp_all add: mk_FailoverSegmentInUse_def isinstance_simps)
    from ends(2) [OF this HOL.refl] show ?thesis unfolding s by blast
  next
    assume s: "r = R_host (sg_uuid sg) (h_uuid h)"
    then obtain data where run: "(hosts_update W (sg_uuid sg) (h_uuid h) v req (Some body) :: ('n, 'k, json) prog) =
        expected_errors (we_api W) [400, 403, 404, 409]
        (bindM (except_clauses [([ComputeNotFoundByName], 400), ([HostNotFound], 404), ([FailoverSegmentNotFound], 404),
             ([HostExists, Conflict], 409)] (update_host (we_lib W) (we_nova W) (db_ctx req) (sg_uuid sg) (h_uuid h) data))
           (\<lambda>p. retM (JObj [(''host'', build_host p)])))"
      using checked(3) ok by blast
    have "update_host (we_lib W) (we_nova W) (db_ctx req) (sg_uuid sg) (h_uuid h) data w = (Inl (mk_HostInUse (h_uuid h)), w)"
      using segment_in_use_refused [OF put(7) db] busy by simp
    then have "hosts_update W (sg_uuid sg) (h_uuid h) v req (Some body) w = (Inl (Exc (HTTPError 409) (message (mk_HostInUse (h_uuid h)))), w)"
      unfolding run by (rule clause_applies) (simp_all add: mk_HostInUse_def isinstance_simps)
    from ends(5) [OF this HOL.refl] show ?thesis unfolding s by blast
  qed simp
qed

lemma delete_answer:
  fixes w :: "('n, 'k) world"
  assumes delete: "rq_verb req = ''DELETE''" "accepted req v" "may_change (we_api W) req" "live_ctx (db_ctx req)"
    and L: "lib_ok (we_lib W)" and db: "db_ok (we_lib W) w" "sg \<in> set (segments w)" "deleted sg = 0" "sg_uuid sg \<noteq> ''''"
      "h \<in> set (hosts w)" "deleted h = 0" "h_segment_id h = sg_uuid sg"
    and r: "r \<in> {R_segment (sg_uuid sg), R_host (sg_uuid sg) (h_uuid h)}"
  shows "in_use sg w \<Longrightarrow> \<exists>m. Masakari_Controllers.handle W r req w = (Inr (fault_answer v 409 m), w)"
    and "\<not> in_use sg w \<Longrightarrow> \<exists>w'. Masakari_Controllers.handle W r req w = (Inr (Answer 204 JNull (version_header ''masakari'' v)), w') \<and>
      gone r w w' \<and> notifications w' = notifications w \<and> db_ok (we_lib W) w'"
proof -
  have contents: "body_contents (we_api W) req = Inr None" using delete(1) by (simp add: body_contents_def should_have_body_def)
  have act: "method_of (is_member (R_segment i)) (rq_verb req) = Some ''delete''"
      "(web_action W ''delete'' (R_segment i) :: ('n, 'k, json) action option) = Some \<lparr>ac_code = 204, ac_run = \<lambda>v req b. segments_delete W i req\<rparr>"
      "method_of (is_member (R_host s i)) (rq_verb req) = Some ''delete''"
      "(web_action W ''delete'' (R_host s i) :: ('n, 'k, json) action option) = Some \<lparr>ac_code = 204, ac_run = \<lambda>v req b. hosts_delete W s i req\<rparr>" for s i
    by (simp_all add: delete(1) method_of_def action_def)
  note ends = handle_run [OF act(1,2) delete(2) contents, unfolded action.simps] handle_run [OF act(3,4) delete(2) contents, unfolded action.simps]
  have may: "permitted (we_api W) req (policy_name ''segments'' ''delete'')" "permitted (we_api W) req (policy_name ''os-hosts'' ''delete'')"
    using delete(3) by (simp_all add: may_change_def)
  have run: "(segments_delete W i req :: ('n, 'k, json) prog) = expected_errors (we_api W) [403, 404, 409]
      (bindM (except_clauses [([FailoverSegmentNotFound], 404), ([Conflict], 409)] (delete_segment (we_lib W) (db_ctx req) i)) (\<lambda>_. retM JNull))"
    "(hosts_delete W s i req :: ('n, 'k, json) prog) = expected_errors (we_api W) [403, 404, 409]
      (bindM (except_clauses [([FailoverSegmentNotFound], 404), ([HostNotFound], 404), ([Conflict], 409)]
        (delete_host (we_lib W) (db_ctx req) s i)) (\<lambda>_. retM JNull))" for s i
    by (simp_all add: segments_delete_def hosts_delete_def require_permitted [OF may(1)] require_permitted [OF may(2)])
  show "\<exists>m. Masakari_Controllers.handle W r req w = (Inr (fault_answer v 409 m), w)" if "in_use sg w"
    using r
  proof (elim insertE)
    assume s: "r = R_segment (sg_uuid sg)"
    obtain m where "delete_segment (we_lib W) (db_ctx req) (sg_uuid sg) w = (Inl (Exc FailoverSegmentInUse m), w)"
      using segment_in_use_refused [OF delete(4) db] \<open>in_use sg w\<close> by (simp, blast)
    then have "segments_delete W (sg_uuid sg) req w = (Inl (Exc (HTTPError 409) (message (Exc FailoverSegmentInUse m))), w)"
      unfolding run by (rule clause_applies) (simp_all add: isinstance_simps)
    from ends(2) [OF this HOL.refl] show ?thesis unfolding s by blast
  next
    assume s: "r = R_host (sg_uuid sg) (h_uuid h)"
    obtain m where "delete_host (we_lib W) (db_ctx req) (sg_uuid sg) (h_uuid h) w = (Inl (Exc HostInUse m), w)"
      using segment_in_use_refused [OF delete(4) db] \<open>in_use sg w\<close> by (simp, blast)
    then have "hosts_delete W (sg_uuid sg) (h_uuid h) req w = (Inl (Exc (HTTPError 409) (message (Exc HostInUse m))), w)"
      unfolding run by (rule clause_applies) (simp_all add: isinstance_simps)
    from ends(5) [OF this HOL.refl] show ?thesis unfolding s by blast
  qed simp
  have deletes: "expected_errors A es (bindM (except_clauses cs f) (\<lambda>_. retM JNull)) w = (Inr JNull, w')" if "f w = (Inr (), w')" for A es cs f w'
    by (rule expected_errors_result) (simp add: that except_clauses_def comp_defs)
  show "\<exists>w'. Masakari_Controllers.handle W r req w = (Inr (Answer 204 JNull (version_header ''masakari'' v)), w') \<and>
      gone r w w' \<and> notifications w' = notifications w \<and> db_ok (we_lib W) w'" if "\<not> in_use sg w"
    using r
  proof (elim insertE)
    assume s: "r = R_segment (sg_uuid sg)"
    obtain w' where w': "delete_segment (we_lib W) (db_ctx req) (sg_uuid sg) w = (Inr (), w')" "db_ok (we_lib W) w'"
      "gone r w w'" "notifications w' = notifications w"
      using delete_segment_run [OF delete(4) L db(1-3) \<open>\<not> in_use sg w\<close>] by (auto simp: s)
    have "segments_delete W (sg_uuid sg) req w = (Inr JNull, w')" unfolding run by (rule deletes) (rule w'(1))
    from ends(1) [OF this HOL.refl] show ?thesis using w'(2-4) by (auto simp: s)
  next
    assume s: "r = R_host (sg_uuid sg) (h_uuid h)"
    obtain w' where w': "delete_host (we_lib W) (db_ctx req) (sg_uuid sg) (h_uuid h) w = (Inr (), w')" "db_ok (we_lib W) w'"
      "gone r w w'" "notifications w' = notifications w"
      using delete_host_run [OF delete(4) L db(1,5,6,2) db(7) [symmetric] db(4) \<open>\<not> in_use sg w\<close>] by (auto simp: s)
    have "hosts_delete W (sg_uuid sg) (h_uuid h) req w = (Inr JNull, w')" unfolding run by (rule deletes) (rule w'(1))
    from ends(4) [OF this HOL.refl] show ?thesis using w'(2-4) by (auto simp: s)
  qed simp
qed


section \<open>Reporting a failure\<close>

text \<open>What the action makes of the body: the fields of the notification and its payload as JSON.\<close>

definition reads_notification :: "'n web_env \<Rightarrow> json \<Rightarrow> notification_data \<Rightarrow> json \<Rightarrow> bool" where
  "reads_notification W body data payload \<longleftrightarrow> (\<exists>d. body_section ''notification'' body = Inr d \<and>
     notification_data_of (we_text W) d = Inr data \<and> map_of d ''payload'' = Some payload)"

lemma admitted_notification:
  assumes "schema_ok (we_text W) notifications_create_schema body"
  shows "\<exists>data payload. reads_notification W body data payload"
proof -
  obtain d data where d: "body_section ''notification'' body = Inr d" "notification_data_of (we_text W) d = Inr data"
    using notification_data_read [OF assms] by blast
  from d(2) have "\<exists>p. map_of d ''payload'' = Some p"
    by (auto simp: notification_data_of_def body_section_def split: sum.splits option.splits)
  with d show ?thesis unfolding reads_notification_def by blast
qed

lemma reads_notification_unique:
  "reads_notification W body data payload \<Longrightarrow> reads_notification W body data' payload' \<Longrightarrow> data' = data \<and> payload' = payload"
  by (auto simp: reads_notification_def)

lemma notifications_create_checked:
  fixes W :: "'n web_env"
  assumes V: "validator_ok (we_text W) (we_valid W)" and null: "\<not> is_null v"
    and body: "schema_ok (we_text W) notifications_create_schema body"
    and may: "permitted (we_api W) req (policy_name ''notifications'' ''create'')"
    and reads: "reads_notification W body data payload"
  shows "schema_ok (we_text W) (payload_schema (nd_type data)) payload \<Longrightarrow>
    (notifications_create W v req (Some body) :: ('n, 'k, json) prog) = expected_errors (we_api W) [400, 403, 409]
      (bindM (except_clauses [([HostNotFoundByName], 400), ([DuplicateNotification, HostOnMaintenanceError], 409)]
         (create_notification (we_lib W) (we_conf W) (we_cast W) (db_ctx req) data))
       (\<lambda>n. retM (JObj [(''notification'', notification_json n)])))"
    and "\<not> schema_ok (we_text W) (payload_schema (nd_type data)) payload \<Longrightarrow>
      \<exists>e. (notifications_create W v req (Some body) :: ('n, 'k, json) prog) = raiseM e \<and> cls_of e = ValidationError"
proof -
  have pass: "with_schema (we_valid W) notifications_create_schema None None f v body = f v body" for f
    by (rule with_schema_passes [OF V null versions_read(1,1)]) (rule body)
  obtain d where d: "body_section ''notification'' body = Inr d" "notification_data_of (we_text W) d = Inr data"
    "map_of d ''payload'' = Some payload" using reads unfolding reads_notification_def by blast
  then have t: "enum_field notification_type_value notification_type_ALL d ''type'' = Inr (nd_type data)"
    by (auto simp: notification_data_of_def split: sum.splits option.splits)
  have checks: "(validate_payload W v d :: ('n, 'k, unit) prog) = with_schema (we_valid W) (payload_schema (nd_type data)) None None (\<lambda>_ _. retM ()) v payload"
    by (simp add: validate_payload_def t d(3))
  have run: "(notifications_create W v req (Some body) :: ('n, 'k, json) prog) = expected_errors (we_api W) [400, 403, 409] (bindM (validate_payload W v d) (\<lambda>_.
      bindM (except_clauses [([HostNotFoundByName], 400), ([DuplicateNotification, HostOnMaintenanceError], 409)]
         (create_notification (we_lib W) (we_conf W) (we_cast W) (db_ctx req) data))
       (\<lambda>n. retM (JObj [(''notification'', notification_json n)]))))"
    unfolding notifications_create_def body_argument_def option.case pass require_permitted [OF may]
    by (simp only: d(1,2) bind_Inr)
  show "(notifications_create W v req (Some body) :: ('n, 'k, json) prog) = expected_errors (we_api W) [400, 403, 409]
      (bindM (except_clauses [([HostNotFoundByName], 400), ([DuplicateNotification, HostOnMaintenanceError], 409)]
         (create_notification (we_lib W) (we_conf W) (we_cast W) (db_ctx req) data))
       (\<lambda>n. retM (JObj [(''notification'', notification_json n)])))"
    if "schema_ok (we_text W) (payload_schema (nd_type data)) payload"
  proof -
    have "with_schema (we_valid W) (payload_schema (nd_type data)) None None f v payload = f v payload"
      for f :: "api_version_request \<Rightarrow> json \<Rightarrow> ('n, 'k, unit) prog"
      by (rule with_schema_passes [OF V null versions_read(1,1)]) (rule that)
    then show ?thesis unfolding run checks by simp
  qed
  show "\<exists>e. (notifications_create W v req (Some body) :: ('n, 'k, json) prog) = raiseM e \<and> cls_of e = ValidationError"
    if bad: "\<not> schema_ok (we_text W) (payload_schema (nd_type data)) payload"
  proof -
    obtain e where e: "(validate_payload W v d :: ('n, 'k, unit) prog) = raiseM e" "cls_of e = ValidationError"
      unfolding checks using with_schema_stops [OF V versions_read(1,1) matches_any [OF null] bad] by blast
    then have "(notifications_create W v req (Some body) :: ('n, 'k, json) prog) = raiseM e"
      unfolding run e(1) by (simp add: expected_errors_def comp_defs isinstance_simps)
    with e(2) show ?thesis by blast
  qed
qed

text \<open>What a live context reads of a host by its name.\<close>

definition segments_known :: "('n, 'k) world \<Rightarrow> bool" where
  "segments_known w \<longleftrightarrow> (\<forall>h \<in> set (hosts w). \<exists>sg \<in> set (segments w). sg_uuid sg = h_segment_id h)"

definition live_host :: "string \<Rightarrow> ('n, 'k) world \<Rightarrow> host \<Rightarrow> bool" where
  "live_host name w h \<longleftrightarrow> h \<in> set (hosts w) \<and> deleted h = 0 \<and> h_name h = name"

lemma no_such_host:
  assumes "live_ctx ctx" and "\<not> (\<exists>h. live_host (nd_hostname data) w h)"
  shows "create_notification L C cast ctx data w = (Inl (mk_HostNotFoundByName (nd_hostname data)), w)"
proof -
  have "find (\<lambda>r. h_name r = nd_hostname data) (filter (\<lambda>r. deleted r = 0) (hosts w)) = None"
    using assms(2) by (auto simp: find_None_iff live_host_def)
  then have "host_get_by_name ctx (nd_hostname data) w = (Inl (mk_HostNotFoundByName (nd_hostname data)), w)"
    using assms(1) by (simp add: host_get_by_name_def row_get_def first_by_def model_query_live comp_defs liftE_def)
  then show ?thesis
    by (simp add: create_notification_def create_notification_locked_def Host_get_by_name_def bindM_def)
qed

text \<open>The new notification and the state it is stored in.\<close>

definition stored_report :: "lib \<Rightarrow> notification_data \<Rightarrow> host \<Rightarrow> ('n, 'k) world \<Rightarrow> notification \<Rightarrow> ('n, 'k) world \<Rightarrow> bool" where
  "stored_report L data h w n w' \<longleftrightarrow> notifications w' = notifications w @ [n] \<and> hosts w' = hosts w \<and> segments w' = segments w \<and>
     db_ok L w' \<and> n_status n = NS_NEW \<and> deleted n = 0 \<and> n_source_host_uuid n = h_uuid h \<and> n_type n = nd_type data \<and>
     n_payload n = nd_payload data"

text \<open>The outcomes of a report, in the order of the checks.\<close>

datatype report = Malformed_report | Rejected_report | Stored_report notification

inductive report_outcome :: "'n web_env \<Rightarrow> json \<Rightarrow> ('n, 'k) world \<Rightarrow> report \<Rightarrow> ('n, 'k) world \<Rightarrow> bool" for W body w where
  malformed_body: "\<not> schema_ok (we_text W) notifications_create_schema body \<Longrightarrow> report_outcome W body w Malformed_report w"
| malformed_payload: "schema_ok (we_text W) notifications_create_schema body \<Longrightarrow> reads_notification W body data payload \<Longrightarrow>
    \<not> schema_ok (we_text W) (payload_schema (nd_type data)) payload \<Longrightarrow> report_outcome W body w Malformed_report w"
| unknown_host: "schema_ok (we_text W) notifications_create_schema body \<Longrightarrow> reads_notification W body data payload \<Longrightarrow>
    schema_ok (we_text W) (payload_schema (nd_type data)) payload \<Longrightarrow> \<nexists>h. live_host (nd_hostname data) w h \<Longrightarrow>
    report_outcome W body w Malformed_report w"
| rejected: "schema_ok (we_text W) notifications_create_schema body \<Longrightarrow> reads_notification W body data payload \<Longrightarrow>
    schema_ok (we_text W) (payload_schema (nd_type data)) payload \<Longrightarrow> live_host (nd_hostname data) w h \<Longrightarrow>
    h_on_maintenance h \<or> duplicates (we_conf W) data h w \<noteq> {} \<Longrightarrow> report_outcome W body w Rejected_report w"
| stored: "schema_ok (we_text W) notifications_create_schema body \<Longrightarrow> reads_notification W body data payload \<Longrightarrow>
    schema_ok (we_text W) (payload_schema (nd_type data)) payload \<Longrightarrow> live_host (nd_hostname data) w h \<Longrightarrow>
    \<not> h_on_maintenance h \<Longrightarrow> duplicates (we_conf W) data h w = {} \<Longrightarrow> stored_report (we_lib W) data h w n w' \<Longrightarrow>
    report_outcome W body w (Stored_report n) w'"

inductive_cases report_stored [elim!]: "report_outcome W body w (Stored_report n) w'"

text \<open>What each is answered with.\<close>

primrec report_answer :: "'n web_env \<Rightarrow> api_version_request \<Rightarrow> report \<Rightarrow> json answer \<Rightarrow> bool" where
  "report_answer W v Malformed_report ans = (\<exists>m. ans = fault_answer v 400 m)"
| "report_answer W v Rejected_report ans = (\<exists>m. ans = fault_answer v 409 m)"
| "report_answer W v (Stored_report n) ans = (if we_cast W n = None
     then ans = Answer 202 (JObj [(''notification'', notification_json n)]) (version_header ''masakari'' v)
     else \<exists>f h. ans = Failure f h)"

text \<open>What the action does with a body and a payload that conform.\<close>

definition create_answer :: "'n web_env \<Rightarrow> request \<Rightarrow> notification_data \<Rightarrow> ('n, 'k, json) prog" where
  "create_answer W req data = expected_errors (we_api W) [400, 403, 409]
     (bindM (except_clauses [([HostNotFoundByName], 400), ([DuplicateNotification, HostOnMaintenanceError], 409)]
        (create_notification (we_lib W) (we_conf W) (we_cast W) (db_ctx req) data))
      (\<lambda>n. retM (JObj [(''notification'', notification_json n)])))"

lemma create_answer_error:
  assumes "create_notification (we_lib W) (we_conf W) (we_cast W) (db_ctx req) data w = (Inl (Exc c m), w')"
  shows "c = HostNotFoundByName \<Longrightarrow> create_answer W req data w = (Inl (Exc (HTTPError 400) m), w')"
    and "c = DuplicateNotification \<Longrightarrow> create_answer W req data w = (Inl (Exc (HTTPError 409) m), w')"
    and "c = HostOnMaintenanceError \<Longrightarrow> create_answer W req data w = (Inl (Exc (HTTPError 409) m), w')"
  using assms by (simp_all add: create_answer_def expected_errors_def except_clauses_def http_error_def comp_defs isinstance_simps)

text \<open>An error that is sent on, and no answer, when the engine cannot be reached.\<close>

lemma create_answer_raises:
  assumes "create_notification (we_lib W) (we_conf W) (we_cast W) (db_ctx req) data w = (Inl e, w')"
  shows "\<exists>e'. create_answer W req data w = (Inl e', w')"
proof -
  have "wp (create_answer W req data) (\<lambda>_ _. False) (\<lambda>_ t. t = w') w"
    unfolding create_answer_def by (rule wp_expected_any)
      (use assms in \<open>auto simp: wp_simps wp_def except_clauses_def http_error_def comp_defs split: option.splits\<close>)
  then show ?thesis unfolding wp_def
    by (cases "create_answer W req data w", rename_tac r t, case_tac r) auto
qed

text \<open>A monitor reports a failure. A body or a payload that does not conform to the schema of its type, and
  an unknown host, are answered with 400; a report about a host on maintenance and a duplicate with 409; in
  both cases nothing is stored. Otherwise exactly one notification is stored, new and with the fields of the
  body; the answer is 202 with its JSON when it was sent to the engine, and a failure when it could
  not be.\<close>

lemma notification_posted:
  fixes w :: "('n, 'k) world"
  assumes V: "validator_ok (we_text W) (we_valid W)" and L: "lib_ok (we_lib W)" "db_ok (we_lib W) w" "segments_known w"
    and post: "rq_verb post = ''POST''" "rq_body post \<noteq> ''''" "al_loads (we_api W) (rq_body post) = Some body"
      "accepted post v" "permitted (we_api W) post (policy_name ''notifications'' ''create'')" "live_ctx (db_ctx post)"
    and fresh: "gen_uuid (we_lib W) (uuid_seq w) \<notin> n_uuid ` set (notifications w)"
  shows "wp (Masakari_Controllers.handle W R_notifications post)
    (\<lambda>ans w'. \<exists>x. report_outcome W body w x w' \<and> report_answer W v x ans) (\<lambda>_ _. False) w" (is "wp ?handle ?Q _ w")
proof -
  have null: "\<not> is_null v" by (rule accepted_version(1) [OF post(4)])
  have contents: "body_contents (we_api W) post = Inr (Some body)"
    using post(1-3) by (simp add: body_contents_def should_have_body_def)
  have act: "method_of (is_member R_notifications) (rq_verb post) = Some ''create''"
    "(web_action W ''create'' R_notifications :: ('n, 'k, json) action option) = Some \<lparr>ac_code = 202, ac_run = notifications_create W\<rparr>"
    by (simp_all add: post(1) method_of_def action_def)
  note ends = handle_run [OF act post(4) contents, unfolded action.simps]
  have answered: "wp ?handle ?Q (\<lambda>_ _. False) w" if "?handle w = (Inr ans, t)" "report_outcome W body w x t" "report_answer W v x ans" for ans t x
    using that by (auto simp: wp_def)
  have invalid: "wp ?handle ?Q (\<lambda>_ _. False) w"
    if bad: "\<exists>e. (notifications_create W v post (Some body) :: ('n, 'k, json) prog) = raiseM e \<and> cls_of e = ValidationError"
      and outcome: "report_outcome W body w Malformed_report w"
  proof -
    obtain e where "(notifications_create W v post (Some body) :: ('n, 'k, json) prog) = raiseM e" "cls_of e = ValidationError"
      using bad by blast
    then have "?handle w = (Inr (fault_answer v 400 (message e)), w)" by (intro ends(3)) (auto simp: raiseM_def)
    then show ?thesis using outcome by (rule answered) auto
  qed
  show ?thesis
  proof (cases "schema_ok (we_text W) notifications_create_schema body")
    case False
    show ?thesis
    proof (rule invalid)
      show "\<exists>e. (notifications_create W v post (Some body) :: ('n, 'k, json) prog) = raiseM e \<and> cls_of e = ValidationError"
        unfolding notifications_create_def body_argument_def option.case by (rule with_schema_refuses [OF V versions_read(1,1) matches_any [OF null] False])
    qed (rule report_outcome.malformed_body [OF False])
  next
    case conforms: True
    obtain data payload where reads: "reads_notification W body data payload" using admitted_notification [OF conforms] by blast
    note checked = notifications_create_checked [OF V null conforms post(5) reads]
    show ?thesis
    proof (cases "schema_ok (we_text W) (payload_schema (nd_type data)) payload")
      case False
      then show ?thesis by (intro invalid checked(2) report_outcome.malformed_payload [OF conforms reads])
    next
      case payload: True
      have run: "(notifications_create W v post (Some body) :: ('n, 'k, json) prog) = create_answer W post data"
        unfolding create_answer_def by (rule checked(1) [OF payload])
      let ?create = "create_notification (we_lib W) (we_conf W) (we_cast W) (db_ctx post) data"
      note err = create_answer_error [of W post data w] and ends = ends [unfolded run]
      show ?thesis
      proof (cases "\<exists>h. live_host (nd_hostname data) w h")
        case False
        have "?create w = (Inl (Exc HostNotFoundByName (message (mk_HostNotFoundByName (nd_hostname data)))), w)"
          by (simp add: no_such_host [OF post(6) False] mk_HostNotFoundByName_def)
        from ends(2) [OF err(1) [OF this HOL.refl] HOL.refl] show ?thesis
          by (rule answered [OF _ report_outcome.unknown_host [OF conforms reads payload False]]) auto
      next
        case True
        then obtain h where h: "live_host (nd_hostname data) w h" by blast
        then obtain sg where sg: "sg \<in> set (segments w)" "sg_uuid sg = h_segment_id h"
          using L(3) by (auto simp: segments_known_def live_host_def)
        have hs: "h \<in> set (hosts w)" "deleted h = 0" "h_name h = nd_hostname data" using h by (simp_all add: live_host_def)
        note spec = create_notification_spec [OF post(6) L(1,2) hs sg fresh, of "we_conf W" "we_cast W"]
        note rejects = report_outcome.rejected [OF conforms reads payload h]
        show ?thesis
        proof (cases "h_on_maintenance h")
          case True
          with spec obtain m where "?create w = (Inl (Exc HostOnMaintenanceError m), w)" by auto
          from ends(2) [OF err(3) [OF this HOL.refl] HOL.refl] show ?thesis
            by (rule answered) (use True rejects in auto)
        next
          case free: False
          show ?thesis
          proof (cases "duplicates (we_conf W) data h w = {}")
            case False
            with spec free obtain m where "?create w = (Inl (Exc DuplicateNotification m), w)" by auto
            from ends(2) [OF err(2) [OF this HOL.refl] HOL.refl] show ?thesis
              by (rule answered) (use False rejects in auto)
          next
            case new: True
            with spec free obtain n w' where n: "?create w = ((case we_cast W n of None \<Rightarrow> Inr n | Some e \<Rightarrow> Inl e), w')"
              "stored_report (we_lib W) data h w n w'" by (auto simp: stored_report_def)
            note outcome = report_outcome.stored [OF conforms reads payload h free new n(2)]
            show ?thesis
            proof (cases "we_cast W n")
              case None
              then have "create_answer W post data w = (Inr (JObj [(''notification'', notification_json n)]), w')"
                using n(1) by (simp add: create_answer_def expected_errors_def except_clauses_def comp_defs)
              from ends(1) [OF this HOL.refl] show ?thesis by (rule answered [OF _ outcome]) (simp add: None)
            next
              case (Some e)
              obtain e' where e': "create_answer W post data w = (Inl e', w')"
                using create_answer_raises [of W post data w e w'] n(1) Some by auto
              have "ac_run \<lparr>ac_code = 202, ac_run = notifications_create W\<rparr> v post (Some body) w = (Inl e', w')" by (simp add: run e')
              from serve_error [OF post(4) contents this] obtain r
                where r: "?handle w = (r, w')" "\<forall>a. r = Inr a \<longrightarrow> (\<exists>f h. a = Failure f h)"
                using act by (auto simp: Masakari_Controllers.handle_def)
              moreover obtain a where "r = Inr a" using web_answers [of W R_notifications post w] r(1) by (cases r) (auto simp: wp_def)
              ultimately have "?handle w = (Inr a, w')" "\<exists>f h. a = Failure f h" by auto
              then show ?thesis by (intro answered [OF _ outcome]) (simp_all add: Some)
            qed
          qed
        qed
      qed
    qed
  qed
qed

section \<open>From the report to the end of the recovery\<close>

text \<open>
  What a processing of a notification leaves of it: in a segment that is enabled, a status a run ends with,
  or running when it raised; in one that is not, it is ignored. No other live notification is touched.
\<close>

definition processed :: "segment \<Rightarrow> notification \<Rightarrow> ('n, 'k) world \<Rightarrow> exc + unit \<Rightarrow> ('n, 'k) world \<Rightarrow> bool" where
  "processed sg n w res t \<longleftrightarrow> (\<exists>r. live notifications_tbl t = (live notifications_tbl w)(n_uuid n \<mapsto> r) \<and> same_notification n r \<and>
     (if sg_enabled sg then (case res of Inr _ \<Rightarrow> n_status r \<in> {NS_FINISHED, NS_ERROR, NS_IGNORED} | Inl _ \<Rightarrow> n_status r = NS_RUNNING)
      else n_status r = NS_IGNORED \<and> (\<exists>m. res = Inl (Exc FailoverSegmentDisabled m))))"

lemma reported_final: "reported r st es \<Longrightarrow> st \<in> {NS_FINISHED, NS_ERROR, NS_IGNORED}"
  by (auto simp: reported_def split: if_splits)

lemma process_stored:
  fixes w :: "('n, 'k) world"
  assumes E: "engine_ok E" and ctx: "live_ctx ctx" and w: "db_ok L w"
    and n: "n \<in> set (notifications w)" "deleted n = 0" "n_status n = NS_NEW" "n_source_host_uuid n = h_uuid h"
    and h: "h \<in> set (hosts w)" "deleted h = 0" and sg: "sg \<in> set (segments w)" "sg_uuid sg = h_segment_id h"
  shows "wp (process_notification L (taskflow_driver L C N E) ctx n) (\<lambda>_. processed sg n w (Inr ())) (\<lambda>e. processed sg n w (Inl e)) w"
proof -
  have hok: "table_ok L hosts_tbl w" and nok: "table_ok L notifications_tbl w" using w by (simp_all add: db_ok_def)
  have keys: "t_key hosts_tbl = h_uuid" "t_get hosts_tbl = hosts" "t_key notifications_tbl = n_uuid" "t_get notifications_tbl = notifications"
    by (simp_all add: hosts_tbl_def notifications_tbl_def)
  have lh: "live hosts_tbl w (h_uuid h) = Some h"
    using live_Some [OF hosts_store.ok_keys [OF hok]] h unfolding keys by blast
  have ln: "live notifications_tbl w (n_uuid n) = Some n"
    using live_Some [OF notifications_store.ok_keys [OF nok]] n(1,2) unfolding keys by blast
  have "Host_get_by_uuid ctx (n_source_host_uuid n) None w = (Inr (h, sg), w)"
    using lh find_segment [OF w sg(1)] sg(2) n(4)
    by (simp add: Host_get_by_uuid_def get_by_uuid_live [OF ctx] bindM_def with_segment_def getM_def retM_def)
  then have run: "process_notification L (taskflow_driver L C N E) ctx n w = (if \<not> sg_enabled sg
      then bindM (set_status ctx n NS_IGNORED) (\<lambda>_. raiseM (Exc FailoverSegmentDisabled
        (''Notification %(notification_uuid)s of type: %(type)s is ignored, because the failover segment is disabled.''))) w
      else process_notification_of L (taskflow_driver L C N E) ctx n w)"
    by (simp add: process_notification_def bindM_def)
  show ?thesis
  proof (cases "sg_enabled sg")
    case False
    have "wp (set_status ctx n NS_IGNORED) (\<lambda>_ t. processed sg n w (Inl (Exc FailoverSegmentDisabled m)) t) E' w" for m E'
      by (rule wp_set_status [OF ctx nok ln]) (auto simp: processed_def False)
    then show ?thesis unfolding wp_def run using False
      by (auto simp: bindM_def raiseM_def wp_def split: prod.splits sum.splits)
  next
    case True
    have new: "\<not> skipped n n" by (simp add: skipped_def)
    have "wp (process_notification_of L (taskflow_driver L C N E) ctx n) (\<lambda>_. finished L n n [start_event n] w)
        (\<lambda>_. aborted L n n [start_event n] w) w"
      by (rule taskflow.wp_process_notification_of [OF E ctx nok ln])
    then have "wp (process_notification_of L (taskflow_driver L C N E) ctx n) (\<lambda>_. processed sg n w (Inr ())) (\<lambda>e. processed sg n w (Inl e)) w"
      by (rule wp_mono) (use new True reported_final in \<open>auto simp: finished_def aborted_def processed_def replaced_def\<close>)
    then show ?thesis unfolding wp_def run using True by simp
  qed
qed


section \<open>A concrete report\<close>

definition demo_report :: json where
  "demo_report = JObj [(''notification'', JObj [(''type'', JStr ''VM''), (''hostname'', JStr ''compute1''),
     (''generated_time'', JStr ''2026''), (''payload'', JObj [(''instance_uuid'', JStr ''i1''), (''vir_domain_event'', JStr ''STOPPED_FAILED''),
       (''event'', JStr ''LIFECYCLE'')])])]"

lemma demo_report_stored:
  "case Masakari_Controllers.handle (demo_web demo_report) R_notifications demo_post (demo_world demo_servers ()) of
     (Inr (Answer code a h), w') \<Rightarrow> code = 202 \<and> map n_status (notifications w') = [NS_RUNNING, NS_NEW] | _ \<Rightarrow> False"
  by code_simp


definition demo_change :: "string \<Rightarrow> request" where
  "demo_change verb = demo_post\<lparr>rq_verb := verb\<rparr>"

definition idle_world :: "(nova_state, unit) world" where
  "idle_world = (demo_world demo_servers ())\<lparr>notifications := []\<rparr>"

lemma demo_changes: "accepted (demo_change verb) (version 2)" "may_change (we_api (demo_web body)) (demo_change verb)"
  "live_ctx (db_ctx (demo_change verb))" "rq_verb (demo_change verb) = verb" "rq_body (demo_change verb) \<noteq> ''''"
  "al_loads (we_api (demo_web body)) (rq_body (demo_change verb)) = Some body"
  using demo_accepted(1) demo_permitted(1,3)
  by (simp_all add: demo_change_def accepted_def get_content_type_def demo_post_def demo_get_def demo_api_context_def may_change_def
    permitted_def can_def db_ctx_def demo_web_def)


end
