(* ===== verification/Spec2Isabelle.thy ===== *)
theory Spec2Isabelle
  imports Masakari_DB Masakari_HaApi Masakari_Driver Masakari_Manager Masakari_StagedTasks Masakari_Stale Masakari_FencedTasks Masakari_AdminConfig Masakari_Controllers Masakari_AdminApi
    Masakari_Details Masakari_UrlMap Masakari_Manage Masakari_Endpoint Masakari_EndToEnd
begin

text \<open>
  Masakari, the instance high availability service of OpenStack (Python, \<open>src/masakari\<close>): monitors report
  failed hosts, instances and processes to a REST API; the API stores a notification and sends it to an
  engine; the engine fences the failed host, evacuates its instances to other hosts through Nova, starts them
  in batches, and records every move. This library models the program as functions on an explicit state and
  proves what makes its parts correct.

  \<^bold>\<open>The shape of the model.\<close> A method becomes a function that returns a \<open>prog\<close>, a computation
  on the state \<open>world\<close> which ends with a value or an exception (\<open>Masakari_Prelude\<close>, \<open>Masakari_World\<close>). The
  state has the six tables of the database as lists of rows, the clock, the uuids already generated, the event
  notifications emitted, the progress details, the locks, and two components of a type of their own for the
  outside: \<open>infra\<close> (Nova, or the management controllers of the machines) and \<open>etcd\<close>. Every \<open>raise\<close>, early
  return and \<open>except\<close> clause of the source is a branch; an exception is its class and message, and
  \<open>isinstance\<close> follows the hierarchy of \<open>exception.py\<close> (a chain has at most five classes, \<open>mro_reaches_root\<close>).
  Proofs use weakest preconditions (\<open>wp\<close>), preserved invariants (\<open>pres\<close>) and the errors that may leave a
  computation (\<open>escapes\<close>).

  \<^bold>\<open>Theories and code.\<close>
  \<^item> \<open>Masakari_Exceptions\<close>: \<open>exception.py\<close>. \<open>Masakari_Fields\<close>: \<open>objects/fields.py\<close>.
  \<^item> \<open>Masakari_Rows\<close>, \<open>Masakari_Tables\<close>, \<open>Masakari_DB\<close>: \<open>db/sqlalchemy/api.py\<close> on the tables of \<open>models.py\<close>. The locale
    \<open>table_store\<close> is the contract of a table (its live rows by key), \<open>keyed_store\<close> that of a table whose only
    constraint is its key; they are interpreted for the six tables.
  \<^item> \<open>Masakari_Objects\<close>: \<open>objects\<close>. \<open>Masakari_HaApi\<close>: \<open>ha/api.py\<close>. \<open>Masakari_Nova\<close>: \<open>compute/nova.py\<close>.
  \<^item> \<open>Masakari_Flows\<close>, \<open>Masakari_HostFailure\<close>, \<open>Masakari_Driver\<close>: \<open>engine/drivers/taskflow\<close>, the tasks of the recovery of
    instances, processes and hosts, and the driver that runs them. \<open>Masakari_Manager\<close>: \<open>engine/manager.py\<close>.
  \<^item> \<open>Masakari_Etcd\<close>, \<open>Masakari_StagedState\<close>, \<open>Masakari_StagedTasks\<close>, \<open>Masakari_Stale\<close>: \<open>staged_state_etcd.py\<close>,
    \<open>staged_limiter.py\<close>, \<open>staged_host_failure.py\<close> and the reconciliation of stale recoveries in the manager.
  \<^item> \<open>Masakari_Redfish\<close>, \<open>Masakari_Fencing\<close>, \<open>Masakari_FencedTasks\<close>: \<open>redfish_fencing.py\<close>, \<open>fencing_state_etcd.py\<close>,
    \<open>fenced_host_failure.py\<close>. \<open>Masakari_Endpoint\<close>: the URLs of etcd both stores read.
  \<^item> \<open>Masakari_ApiVersion\<close>, \<open>Masakari_Context\<close>, \<open>Masakari_Wsgi\<close>: \<open>api/api_version_request.py\<close>, \<open>context.py\<close>, \<open>policy.py\<close>,
    \<open>api/auth.py\<close>, and the path of a request through \<open>api/openstack/wsgi.py\<close>, \<open>common.py\<close>, \<open>extensions.py\<close>.
    \<open>Masakari_UrlMap\<close>: \<open>api/urlmap.py\<close>.
  \<^item> \<open>Masakari_Validation\<close>, \<open>Masakari_Controllers\<close>: \<open>api/validation\<close>, \<open>api/openstack/ha/schemas\<close> and the controllers of
    segments, hosts, notifications and VM moves. \<open>Masakari_AdminConfig\<close>: \<open>api/openstack/ha/admin_config.py\<close> and the
    options of \<open>conf/staged_recovery.py\<close>. \<open>Masakari_AdminApi\<close>: the controllers for administrators, \<open>staged_recovery.py\<close>,
    \<open>recovery_workflows.py\<close>, \<open>diagnostics.py\<close>, \<open>admin_overview.py\<close> and \<open>audit.py\<close> of \<open>api/openstack/ha\<close>.
  \<^item> \<open>Masakari_Details\<close>: the details of a recovery workflow in \<open>engine/manager.py\<close> and the driver, with the default task
    lists of \<open>conf/engine_driver.py\<close>. \<open>Masakari_Manage\<close>: the commands of \<open>cmd/manage.py\<close>. \<open>Masakari_EndToEnd\<close> has no code of its own: what clients of the API
    see across the components, from a report to the end of its recovery.

  \<^bold>\<open>How the parts meet.\<close> A request is given to an application by its path (\<open>urlmap_call\<close>), authenticated (\<open>keystone_context\<close>), routed to an action (\<open>handle\<close>,
  \<open>serve\<close>), its body validated (\<open>with_schema\<close>), and the action calls \<open>ha/api.py\<close>, which calls the objects, which
  call the database. A stored notification reaches \<open>process_notification\<close> of the manager through an RPC cast
  (a parameter) or a periodic task; the manager moves its status and calls the driver, whose flows call the
  tasks; the tasks call Nova, etcd and the Redfish controllers.

  \<^bold>\<open>What the lemmas show.\<close> Database: inserting, updating, soft-deleting and purging rows on the live rows,
  and the invariant \<open>db_ok\<close> of all tables. API: what each operation accepts, refuses and leaves alone, from the
  HTTP request to the rows and back to the answer; the schemas admit only what the code can read.
  Manager: the state machine of a notification (terminal states are final, no notification is
  recovered twice) and the periodic tasks. Recovery: which instances are moved, what becomes of their move, when
  a recovery counts as failed. Staged recovery: the compare-and-swap loops refine an atomic update, no
  host starts more instances at once than its limit, failures are reported. Fencing: a host is evacuated only
  after proof that it is off, and only hosts that have failed are fenced. Across the parts: a report is refused or
  stored exactly once, and what is stored ends in a final state; what is in use cannot be changed.

  \<^bold>\<open>Locales.\<close> An interface between parts is a locale: its operations, the laws its provider promises, and
  the lemmas of its clients. Each is interpreted on the definitions of the model, and properties use the
  facts of the interpretation.

  \<^bold>\<open>Bounds and fuel.\<close> Waiting loops (\<open>poll\<close>) run as often as the intervals fit into the configured timeout, and
  then raise the time-out the code raises; a compare-and-swap loop makes \<open>MAX_CAS_RETRIES = 8\<close> attempts, as in
  the source; the acquisition of a start slot and the power-off checks have the number of attempts the
  options give. These are the bounds of the code, so no result depends on fuel of the model.

  \<^bold>\<open>Parameters and what is assumed of them.\<close> Code that is not part of the repository is a parameter: SQL
  pagination and soft-delete marks (\<open>lib_ok\<close>), Nova (\<open>infra\<close> with a client record), etcd (\<open>etcd_ok\<close> with what other
  engines do between two operations, \<open>etcd_quiet\<close> without them), the HTTP sessions to controllers, taskflow
  (\<open>engine_ok\<close>) with its persistence and its plugins, oslo.policy, jsonschema (\<open>validator_ok\<close>), the parsers of numbers, times and JSON. Each hypothesis is
  met by a concrete function in the witness of the property.

  \<^bold>\<open>Not modelled.\<close> Concurrency within one process: green threads run one after the other, and what other
  processes do is a parameter where it matters (etcd). Logging, sleeping and the rendering of event payloads
  have no result a property could see. The start of the services and the wiring (\<open>cmd\<close>, \<open>service.py\<close>,
  \<open>rpc.py\<close>, \<open>api/wsgi.py\<close>, \<open>api/openstack/__init__.py\<close> apart from the fault wrapper, the loading of extensions), the
  declarations of options and policy rules, the migrations of the database, the forwarding functions of
  \<open>db/api.py\<close>, the documents about versions, and the style checks of \<open>hacking\<close> are glue or data.
\<close>

end
